(* ===== verification/Neo_Prelude.thy ===== *)
theory Neo_Prelude
  imports Main "HOL-Library.Word"
begin

text \<open>
  Shared vocabulary of the development: the widths of the C integers the
  firmware uses, the little-endian layout of integers inside packed structures,
  reading and overwriting a range of a byte buffer, and the "first free slot"
  search that every slot table of the firmware performs.  The lemmas are
  declared \<open>[simp]\<close> or collected in the named collections below so
  that the component theories can use them by automation.
\<close>

unbundle bit_operations_syntax

type_synonym byte = "8 word"
type_synonym u16 = "16 word"
type_synonym u32 = "32 word"

named_theorems codec \<open>encode and decode equations of packed structures\<close>
named_theorems bufs \<open>facts on slices and overwrites of byte buffers\<close>

subsection \<open>Little-endian integers\<close>

definition lo8 :: "u16 \<Rightarrow> byte" where
  "lo8 w = ucast w"

definition hi8 :: "u16 \<Rightarrow> byte" where
  "hi8 w = ucast (drop_bit 8 w)"

definition mk16 :: "byte \<Rightarrow> byte \<Rightarrow> u16" where
  "mk16 a b = ucast a OR push_bit 8 (ucast b)"

definition le16 :: "u16 \<Rightarrow> byte list" where
  "le16 w = [lo8 w, hi8 w]"

definition lo16 :: "u32 \<Rightarrow> u16" where
  "lo16 w = ucast w"

definition hi16 :: "u32 \<Rightarrow> u16" where
  "hi16 w = ucast (drop_bit 16 w)"

definition mk32 :: "u16 \<Rightarrow> u16 \<Rightarrow> u32" where
  "mk32 a b = ucast a OR push_bit 16 (ucast b)"

definition le32 :: "u32 \<Rightarrow> byte list" where
  "le32 w = le16 (lo16 w) @ le16 (hi16 w)"

fun un16 :: "byte list \<Rightarrow> u16" where
  "un16 (a # b # _) = mk16 a b"
| "un16 _ = 0"

fun un32 :: "byte list \<Rightarrow> u32" where
  "un32 (a # b # c # d # _) = mk32 (mk16 a b) (mk16 c d)"
| "un32 _ = 0"

subsection \<open>Ranges of a buffer\<close>

definition slice :: "nat \<Rightarrow> nat \<Rightarrow> 'a list \<Rightarrow> 'a list" where
  "slice off n xs = take n (drop off xs)"

definition poke :: "nat \<Rightarrow> 'a list \<Rightarrow> 'a list \<Rightarrow> 'a list" where
  "poke off ys xs = take off xs @ ys @ drop (off + length ys) xs"

subsection \<open>First index with a property\<close>

fun first_idx :: "('a \<Rightarrow> bool) \<Rightarrow> 'a list \<Rightarrow> nat option" where
  "first_idx P [] = None"
| "first_idx P (x # xs) = (if P x then Some 0 else map_option Suc (first_idx P xs))"

subsection \<open>Lemmas on little-endian integers\<close>

lemma mk16_lo_hi [simp, codec]: "mk16 (lo8 w) (hi8 w) = w"
  by (intro bit_word_eqI) (auto simp: mk16_def lo8_def hi8_def bit_simps)

lemma lo8_mk16 [simp, codec]: "lo8 (mk16 a b) = a"
  by (intro bit_word_eqI) (auto simp: mk16_def lo8_def bit_simps)

lemma hi8_mk16 [simp, codec]: "hi8 (mk16 a b) = b"
proof (intro bit_word_eqI)
  fix n assume n: "n < LENGTH(8)"
  then have "\<not> bit a (8 + n)" using bit_imp_le_length by fastforce
  then show "bit (hi8 (mk16 a b)) n = bit b n"
    using n by (auto simp: mk16_def hi8_def bit_simps)
qed

lemma mk16_inject [simp]: "mk16 a b = mk16 c d \<longleftrightarrow> a = c \<and> b = d"
  by (metis lo8_mk16 hi8_mk16)

lemma mk32_lo_hi [simp, codec]: "mk32 (lo16 w) (hi16 w) = w"
  by (intro bit_word_eqI) (auto simp: mk32_def lo16_def hi16_def bit_simps)

lemma lo16_mk32 [simp, codec]: "lo16 (mk32 a b) = a"
  by (intro bit_word_eqI) (auto simp: mk32_def lo16_def bit_simps)

lemma hi16_mk32 [simp, codec]: "hi16 (mk32 a b) = b"
proof (intro bit_word_eqI)
  fix n assume n: "n < LENGTH(16)"
  then have "\<not> bit a (16 + n)" using bit_imp_le_length by fastforce
  then show "bit (hi16 (mk32 a b)) n = bit b n"
    using n by (auto simp: mk32_def hi16_def bit_simps)
qed

lemma length_le16 [simp]: "length (le16 w) = 2"
  by (simp add: le16_def)

lemma length_le32 [simp]: "length (le32 w) = 4"
  by (simp add: le32_def)

lemma un16_le16 [simp, codec]: "un16 (le16 w @ r) = w"
  by (simp add: le16_def)

lemma un16_le16_only [simp, codec]: "un16 (le16 w) = w"
  by (simp add: le16_def)

lemma un32_le32 [simp, codec]: "un32 (le32 w @ r) = w"
  by (simp add: le32_def le16_def)

lemma un32_le32_only [simp, codec]: "un32 (le32 w) = w"
  by (simp add: le32_def le16_def)

lemma length_2_cases:
  assumes "length bs = 2"
  obtains a b where "bs = [a, b]"
  using assms by (auto simp: numeral_2_eq_2 length_Suc_conv)

lemma length_4_cases:
  assumes "length bs = 4"
  obtains a b c d where "bs = [a, b, c, d]"
  using assms by (auto simp: numeral_eq_Suc length_Suc_conv)

lemma le16_un16 [codec]: "length bs = 2 \<Longrightarrow> le16 (un16 bs) = bs"
  by (erule length_2_cases) (simp add: le16_def)

lemma le32_un32 [codec]: "length bs = 4 \<Longrightarrow> le32 (un32 bs) = bs"
  by (erule length_4_cases) (simp add: le32_def le16_def)

lemmas le_defs = le32_def le16_def

subsection \<open>Machine arithmetic without wrap-around\<close>

lemma unat_plus_small:
  "unat a + unat b < 2 ^ LENGTH('a) \<Longrightarrow> unat (a + b) = unat a + unat (b :: 'a::len word)"
  by (simp add: unat_word_ariths)

lemma unat_inc:
  assumes "a < b" shows "unat (a + 1) = unat (a :: 'a::len word) + 1"
proof -
  have "unat a + 1 \<le> unat b" using assms by (simp add: word_less_nat_alt)
  also have "unat b < 2 ^ LENGTH('a)" by (rule unsigned_less)
  finally show ?thesis using unat_plus_small [of a 1] by simp
qed

lemma word_less_inc: "x \<noteq> - 1 \<Longrightarrow> x < x + (1 :: 'a::len word)"
  using unatSuc [of x] by (simp add: word_less_nat_alt add_eq_0_iff add.commute)

lemmas unat_order = word_le_nat_alt word_less_nat_alt

subsection \<open>Lemmas on ranges\<close>

lemma length_slice [simp]: "length (slice off n xs) = min n (length xs - off)"
  by (simp add: slice_def)

lemma length_poke [simp]:
  "off + length ys \<le> length xs \<Longrightarrow> length (poke off ys xs) = length xs"
  by (simp add: poke_def)

lemma slice_poke_same [simp, bufs]:
  assumes "off + length ys \<le> length xs" "n = length ys"
  shows "slice off n (poke off ys xs) = ys"
  using assms by (simp add: slice_def poke_def min_def)

lemma nth_poke:
  assumes "off + length ys \<le> length xs" "i < length xs"
  shows "poke off ys xs ! i =
    (if off \<le> i \<and> i < off + length ys then ys ! (i - off) else xs ! i)"
  using assms by (auto simp: poke_def nth_append min_def)

lemma slice_poke_disjoint [bufs]:
  assumes "off + length ys \<le> length xs" "o2 + n \<le> off \<or> off + length ys \<le> o2"
  shows "slice o2 n (poke off ys xs) = slice o2 n xs"
proof (rule nth_equalityI)
  show "length (slice o2 n (poke off ys xs)) = length (slice o2 n xs)"
    using assms by simp
next
  fix i assume "i < length (slice o2 n (poke off ys xs))"
  then have i: "i < n" "o2 + i < length xs" using assms by auto
  then show "slice o2 n (poke off ys xs) ! i = slice o2 n xs ! i"
    using assms by (auto simp: slice_def nth_poke)
qed

lemma poke_poke_same [simp, bufs]:
  assumes "off + length ys \<le> length xs" "length zs = length ys"
  shows "poke off zs (poke off ys xs) = poke off zs xs"
proof (rule nth_equalityI)
  show "length (poke off zs (poke off ys xs)) = length (poke off zs xs)"
    using assms by simp
next
  fix i assume "i < length (poke off zs (poke off ys xs))"
  then show "poke off zs (poke off ys xs) ! i = poke off zs xs ! i"
    using assms by (simp add: nth_poke)
qed

lemma poke_slice_id [simp, bufs]:
  "off + n \<le> length xs \<Longrightarrow> poke off (slice off n xs) xs = xs"
  by (simp add: poke_def slice_def min_def flip: drop_drop)
     (metis add.commute append_take_drop_id drop_drop)

lemma poke_append_at:
  "length xs = n \<Longrightarrow> length ys \<le> length zs \<Longrightarrow> poke n ys (xs @ zs) = xs @ ys @ drop (length ys) zs"
  by (simp add: poke_def)

lemma poke_append:
  assumes "addr + length xs + length ys \<le> length im"
  shows "poke (addr + length xs) ys (poke addr xs im) = poke addr (xs @ ys) im"
proof -
  have "poke (addr + length xs) ys ((take addr im @ xs) @ drop (addr + length xs) im)
      = (take addr im @ xs) @ ys @ drop (length ys) (drop (addr + length xs) im)"
    by (rule poke_append_at) (use assms in simp_all)
  then show ?thesis by (simp add: poke_def add.assoc add.left_commute add.commute)
qed

lemma slice_full [simp]: "slice 0 (length xs) xs = xs"
  by (simp add: slice_def)

lemma slice_append_left [simp]: "n \<le> length xs \<Longrightarrow> slice 0 n (xs @ ys) = take n xs"
  by (simp add: slice_def)

subsection \<open>Lemmas on the slot search\<close>

lemma first_idx_SomeD:
  "first_idx P xs = Some i \<Longrightarrow> i < length xs \<and> P (xs ! i) \<and> (\<forall>j<i. \<not> P (xs ! j))"
proof (induction xs arbitrary: i)
  case Nil then show ?case by simp
next
  case (Cons x xs)
  show ?case
  proof (cases "P x")
    case True then show ?thesis using Cons.prems by simp
  next
    case False
    then obtain k where k: "first_idx P xs = Some k" "i = Suc k"
      using Cons.prems by auto
    from Cons.IH [OF k(1)] False k(2) show ?thesis
      by (auto simp: less_Suc_eq_0_disj)
  qed
qed

lemma first_idx_None_iff: "first_idx P xs = None \<longleftrightarrow> (\<forall>x\<in>set xs. \<not> P x)"
  by (induction xs) auto

lemma first_idx_bound: "first_idx P xs = Some i \<Longrightarrow> i < length xs"
  using first_idx_SomeD by blast

lemma first_idx_sat: "first_idx P xs = Some i \<Longrightarrow> P (xs ! i)"
  using first_idx_SomeD by blast

subsection \<open>Packed structures\<close>

text \<open>
  The contract of a packed structure: its image has a fixed size and reading an
  image back, whatever follows it in memory, gives the structure.
\<close>

locale byte_codec =
  fixes enc :: "'a \<Rightarrow> byte list"
    and dec :: "byte list \<Rightarrow> 'a"
    and size :: nat
  assumes length_enc: "length (enc x) = size"
    and dec_enc: "dec (enc x @ r) = x"
begin

lemma dec_enc_only: "dec (enc x) = x"
  using dec_enc [of x "[]"] by simp

lemma enc_inject: "enc x = enc y \<longleftrightarrow> x = y"
  by (metis dec_enc_only)

lemma enc_prefix_inject: "enc x @ r = enc y @ s \<Longrightarrow> x = y \<and> r = s"
  by (metis append_eq_append_conv dec_enc_only length_enc)

lemma dec_slice_poke:
  "off + size \<le> length buf \<Longrightarrow> dec (slice off size (poke off (enc x) buf)) = x"
  by (simp add: length_enc dec_enc_only)

lemma dec_slice_poke_other:
  "off + size \<le> length buf \<Longrightarrow> o2 + n \<le> off \<or> off + size \<le> o2 \<Longrightarrow>
     slice o2 n (poke off (enc x) buf) = slice o2 n buf"
  by (simp add: slice_poke_disjoint length_enc)

lemma dec_take: "dec (take size (enc x @ r)) = x"
  by (simp add: length_enc dec_enc_only)

end

interpretation le16_codec: byte_codec le16 un16 2
  by unfold_locales simp_all

interpretation le32_codec: byte_codec le32 un32 4
  by unfold_locales simp_all

end
