(* ===== verification/Crc16.thy ===== *)
theory Crc16
  imports Neo_Prelude
begin

text \<open>
  The three bit-serial CRC-16 routines of the repository (polynomial
  \<open>0x1021\<close>): \<open>host_link_crc16\<close> of the board link,
  \<open>crc16_ccitt_false\<close> of the factory EEPROM and
  \<open>ymodem_crc16\<close> of the boot loader.  All three run the same inner
  loop, here \<open>crc_bits\<close>, from a different initial value.  The lemmas
  show that the loop is linear and injective, hence that a damaged byte or a
  burst confined to two neighbouring bytes always changes the checksum.
\<close>

unbundle bit_operations_syntax

definition crc_shift :: "u16 \<Rightarrow> u16" where
  "crc_shift c = (if c AND 0x8000 \<noteq> 0 then push_bit 1 c XOR 0x1021 else push_bit 1 c)"

fun crc_bits :: "nat \<Rightarrow> u16 \<Rightarrow> u16" where
  "crc_bits 0 c = c"
| "crc_bits (Suc n) c = crc_bits n (crc_shift c)"

definition crc_byte :: "u16 \<Rightarrow> byte \<Rightarrow> u16" where
  "crc_byte c b = crc_bits 8 (c XOR push_bit 8 (ucast b))"

definition host_link_crc16 :: "byte list \<Rightarrow> nat \<Rightarrow> u16" where
  "host_link_crc16 data len = foldl crc_byte 0xFFFF (take len data)"

definition crc16_ccitt_false :: "byte list \<Rightarrow> nat \<Rightarrow> u16" where
  "crc16_ccitt_false data len = foldl crc_byte 0xFFFF (take len data)"

definition ymodem_crc16 :: "byte list \<Rightarrow> nat \<Rightarrow> u16" where
  "ymodem_crc16 buf l = foldl crc_byte 0 (take l buf)"

subsection \<open>The shift register, bit by bit\<close>

lemma and_msb16: "(c :: u16) AND 0x8000 \<noteq> 0 \<longleftrightarrow> bit c 15"
proof -
  have "(0x8000::u16) = 2 ^ 15" by simp
  then show ?thesis by (metis and_exp_eq_0_iff_not_bit)
qed

lemma bit_crc_shift:
  "bit (crc_shift c) n \<longleftrightarrow>
     (1 \<le> n \<and> n < 16 \<and> bit c (n - 1)) \<noteq> (bit c 15 \<and> bit (0x1021::u16) n)"
  unfolding crc_shift_def and_msb16
  by (cases "bit c 15")
     (simp_all only: if_True if_False bit_xor_iff bit_push_bit_iff simp_thms
        possible_bit_word, simp_all)

lemma bit_poly_0: "bit (0x1021::u16) 0"
  by simp

lemma crc_shift_xor: "crc_shift (a XOR b) = crc_shift a XOR crc_shift b"
  by (rule bit_word_eqI) (auto simp: bit_crc_shift bit_xor_iff)

lemma crc_shift_inject: "crc_shift c = crc_shift d \<longleftrightarrow> c = d"
proof
  assume eq: "crc_shift c = crc_shift d"
  have b15: "bit c 15 = bit d 15"
    using bit_crc_shift [of c 0] bit_crc_shift [of d 0] eq bit_poly_0 by simp
  have "bit c n = bit d n" if "n < 16" for n
  proof (cases "n = 15")
    case True then show ?thesis using b15 by simp
  next
    case False
    then show ?thesis
      using that eq b15 bit_crc_shift [of c "Suc n"] bit_crc_shift [of d "Suc n"] by auto
  qed
  then show "c = d" by (intro bit_word_eqI) simp
qed simp

lemma crc_bits_xor: "crc_bits n (a XOR b) = crc_bits n a XOR crc_bits n b"
  by (induction n arbitrary: a b) (simp_all add: crc_shift_xor)

lemma crc_bits_inject [simp]: "crc_bits n c = crc_bits n d \<longleftrightarrow> c = d"
  by (induction n arbitrary: c d) (simp_all add: crc_shift_inject)

lemma crc_bits_add: "crc_bits (m + n) c = crc_bits n (crc_bits m c)"
  by (induction m arbitrary: c) simp_all

lemma crc_shift_clear_top: "\<not> bit c 15 \<Longrightarrow> crc_shift c = push_bit 1 c"
  by (simp add: crc_shift_def and_msb16 del: One_nat_def)

lemma crc_bits_ucast:
  "n \<le> 8 \<Longrightarrow> crc_bits n (ucast (b::byte)) = push_bit n (ucast b)"
proof (induction n)
  case 0 then show ?case by simp
next
  case (Suc n)
  have nb: "\<not> bit (push_bit n (ucast b) :: u16) 15"
    using Suc.prems bit_imp_le_length [of b "15 - n"] by (auto simp: bit_simps)
  have "crc_bits (Suc n) (ucast b) = crc_bits 1 (crc_bits n (ucast b))"
    using crc_bits_add [of n 1] by simp
  also have "\<dots> = push_bit 1 (push_bit n (ucast b))"
    using Suc nb crc_shift_clear_top [OF nb] by simp
  also have "\<dots> = push_bit (Suc n) (ucast b)"
    by (simp only: push_bit_push_bit plus_1_eq_Suc)
  finally show ?case .
qed

subsection \<open>One and two bytes\<close>

lemma crc_byte_inject_state: "crc_byte c b = crc_byte d b \<longleftrightarrow> c = d"
proof -
  have "c XOR x = d XOR x \<longleftrightarrow> c = d" for x :: u16
    by (metis xor.assoc xor_self_eq xor.right_neutral)
  then show ?thesis by (simp add: crc_byte_def)
qed

lemma crc_byte_two:
  "crc_byte (crc_byte c a) b = crc_bits 16 (c XOR mk16 b a)"
proof -
  have m: "mk16 b a = push_bit 8 (ucast a) XOR ucast b"
    by (rule bit_word_eqI) (auto simp: mk16_def bit_simps dest: bit_imp_le_length [of b])
  have "crc_byte (crc_byte c a) b
      = crc_bits 8 (crc_bits 8 (c XOR push_bit 8 (ucast a)) XOR crc_bits 8 (ucast b))"
    by (simp add: crc_byte_def crc_bits_ucast)
  also have "\<dots> = crc_bits 16 (c XOR push_bit 8 (ucast a) XOR ucast b)"
    using crc_bits_add [of 8 8] by (simp add: crc_bits_xor xor.assoc)
  finally show ?thesis by (simp add: m xor.assoc)
qed

lemma crc_byte_two_inject:
  "crc_byte (crc_byte c a) b = crc_byte (crc_byte c a') b' \<longleftrightarrow> a = a' \<and> b = b'"
proof -
  have "c XOR x = c XOR y \<longleftrightarrow> x = y" for x y :: u16
    by (metis xor.assoc xor_self_eq xor.left_neutral)
  then show ?thesis by (auto simp: crc_byte_two)
qed

lemma crc_byte_inject_byte: "crc_byte c a = crc_byte c b \<longleftrightarrow> a = b"
  using crc_byte_two_inject [of c a 0 b 0] by (simp add: crc_byte_inject_state)

subsection \<open>Whole messages\<close>

lemma crc_fold_inject: "foldl crc_byte c bs = foldl crc_byte d bs \<longleftrightarrow> c = d"
  by (induction bs arbitrary: c d) (simp_all add: crc_byte_inject_state)

lemma crc_fold_one_byte:
  "a \<noteq> b \<Longrightarrow> foldl crc_byte c (p @ a # s) \<noteq> foldl crc_byte c (p @ b # s)"
  by (simp add: crc_fold_inject crc_byte_inject_byte)

lemma crc_fold_two_bytes:
  "(a, b) \<noteq> (a', b') \<Longrightarrow>
     foldl crc_byte c (p @ a # b # s) \<noteq> foldl crc_byte c (p @ a' # b' # s)"
  by (auto simp: crc_fold_inject crc_byte_two_inject)

lemma crc_bits_0 [simp]: "crc_bits n 0 = 0"
proof -
  have "crc_shift 0 = 0" by (simp add: crc_shift_def)
  then show ?thesis by (induction n) simp_all
qed

lemma crc_residue: "foldl crc_byte c [hi8 c, lo8 c] = 0"
  by (simp add: crc_byte_two)

lemma crc16_same_routine: "crc16_ccitt_false = host_link_crc16"
  by (intro ext) (simp add: crc16_ccitt_false_def host_link_crc16_def)

end
