(* ===== verification/Host_Link_Proto.thy ===== *)
theory Host_Link_Proto
  imports Crc16
begin

text \<open>
  The wire format of the board link (\<open>hal_v2/common/host_link/host_link_proto.h\<close>,
  \<open>host_link.h\<close>): return codes, frame types, the packed 14-byte header,
  the frame handed between threads, and the two checksum tests on it.  The
  layout of the header is the packed little-endian layout both boards use.
\<close>

abbreviation HOST_LINK_MAGIC :: u16 where
  "HOST_LINK_MAGIC \<equiv> 0x4C48"

abbreviation HOST_LINK_VERSION_CURRENT :: byte where
  "HOST_LINK_VERSION_CURRENT \<equiv> 1"

abbreviation HOST_LINK_HDR_CRC_LEN :: nat where
  "HOST_LINK_HDR_CRC_LEN \<equiv> 12"

abbreviation HOST_LINK_HEADER_WIRE_LEN :: nat where
  "HOST_LINK_HEADER_WIRE_LEN \<equiv> 14"

datatype host_link_err =
    HOST_LINK_OK
  | HOST_LINK_ERR_INVALID_ARG
  | HOST_LINK_ERR_INVALID_STATE
  | HOST_LINK_ERR_INVALID_SIZE
  | HOST_LINK_ERR_NO_MEM
  | HOST_LINK_ERR_NO_SLOT
  | HOST_LINK_ERR_TIMEOUT
  | HOST_LINK_ERR_CRC
  | HOST_LINK_ERR_SEND
  | HOST_LINK_ERR_PROTO

abbreviation HOST_LINK_TYPE_REQUEST :: byte where
  "HOST_LINK_TYPE_REQUEST \<equiv> 0"

abbreviation HOST_LINK_TYPE_RESPONSE :: byte where
  "HOST_LINK_TYPE_RESPONSE \<equiv> 1"

abbreviation HOST_LINK_TYPE_EVENT :: byte where
  "HOST_LINK_TYPE_EVENT \<equiv> 2"

abbreviation HOST_LINK_TYPE_EVENT_ACK :: byte where
  "HOST_LINK_TYPE_EVENT_ACK \<equiv> 3"

text \<open>\<open>host_link_header_t\<close>, and its image in memory and on the wire.\<close>

record host_link_header =
  hd_magic :: u16
  hd_version :: byte
  hd_reserved :: byte
  hd_frame_id :: u16
  hd_type :: byte
  hd_reserved2 :: byte
  hd_cmd :: u16
  hd_len :: u16
  hd_crc :: u16

definition hdr_bytes :: "host_link_header \<Rightarrow> byte list" where
  "hdr_bytes h = le16 (hd_magic h) @ [hd_version h, hd_reserved h] @ le16 (hd_frame_id h)
     @ [hd_type h, hd_reserved2 h] @ le16 (hd_cmd h) @ le16 (hd_len h) @ le16 (hd_crc h)"

definition hdr_of_bytes :: "byte list \<Rightarrow> host_link_header" where
  "hdr_of_bytes bs = \<lparr>hd_magic = un16 bs, hd_version = bs ! 2, hd_reserved = bs ! 3,
     hd_frame_id = un16 (drop 4 bs), hd_type = bs ! 6, hd_reserved2 = bs ! 7,
     hd_cmd = un16 (drop 8 bs), hd_len = un16 (drop 10 bs), hd_crc = un16 (drop 12 bs)\<rparr>"

text \<open>\<open>host_link_frame_t\<close>: \<open>None\<close> is the null payload pointer.\<close>

record host_link_frame =
  fr_header :: host_link_header
  fr_payload :: "byte list option"
  fr_payload_crc :: u16
  fr_is_valid :: bool

definition zero_header :: host_link_header where
  "zero_header = \<lparr>hd_magic = 0, hd_version = 0, hd_reserved = 0, hd_frame_id = 0, hd_type = 0,
     hd_reserved2 = 0, hd_cmd = 0, hd_len = 0, hd_crc = 0\<rparr>"

definition zero_frame :: host_link_frame where
  "zero_frame = \<lparr>fr_header = zero_header, fr_payload = None, fr_payload_crc = 0,
     fr_is_valid = False\<rparr>"

text \<open>\<open>hdr_crc_ok\<close> and \<open>payload_crc_ok\<close>; the empty literal the
  C code passes for a missing payload is the empty list.\<close>

definition hdr_crc_ok :: "host_link_header \<Rightarrow> host_link_err" where
  "hdr_crc_ok h =
     (if host_link_crc16 (hdr_bytes h) HOST_LINK_HDR_CRC_LEN = hd_crc h
      then HOST_LINK_OK else HOST_LINK_ERR_CRC)"

definition payload_crc_ok :: "byte list option \<Rightarrow> u16 \<Rightarrow> u16 \<Rightarrow> host_link_err" where
  "payload_crc_ok pay len expect_crc =
     (let c = host_link_crc16 (if len > 0 then the pay else []) (unat len)
      in if c = expect_crc then HOST_LINK_OK else HOST_LINK_ERR_CRC)"

text \<open>The header every sender fills in before \<open>send_wire\<close>.\<close>

definition mk_header :: "u16 \<Rightarrow> byte \<Rightarrow> u16 \<Rightarrow> u16 \<Rightarrow> host_link_header" where
  "mk_header fid typ cmd len = zero_header\<lparr>hd_magic := HOST_LINK_MAGIC,
     hd_version := HOST_LINK_VERSION_CURRENT, hd_frame_id := fid, hd_type := typ,
     hd_cmd := cmd, hd_len := len\<rparr>"

text \<open>The buffer \<open>send_wire\<close> builds: sealed header, payload, payload checksum.\<close>

definition seal_header :: "host_link_header \<Rightarrow> host_link_header" where
  "seal_header h = h\<lparr>hd_crc := host_link_crc16 (hdr_bytes h) HOST_LINK_HDR_CRC_LEN\<rparr>"

definition wire_frame :: "host_link_header \<Rightarrow> byte list \<Rightarrow> byte list" where
  "wire_frame h pay = hdr_bytes (seal_header h) @ pay @ le16 (host_link_crc16 pay (length pay))"

text \<open>\<open>host_link_port_tick_diff_ms\<close> of the POSIX port, on 32-bit ticks.\<close>

definition host_link_port_tick_diff_ms :: "u32 \<Rightarrow> u32 \<Rightarrow> u32" where
  "host_link_port_tick_diff_ms start_ms now_ms =
     (if now_ms \<ge> start_ms then now_ms - start_ms else 0xFFFFFFFF - start_ms + now_ms + 1)"

subsection \<open>The header layout\<close>

lemma length_hdr_bytes [simp]: "length (hdr_bytes h) = 14"
  by (simp add: hdr_bytes_def)

lemma hdr_of_bytes_hdr_bytes [simp, codec]: "hdr_of_bytes (hdr_bytes h @ r) = h"
  by (simp add: hdr_bytes_def hdr_of_bytes_def le_defs)

interpretation hdr_codec: byte_codec hdr_bytes hdr_of_bytes 14
  by unfold_locales simp_all

lemma take_hdr_bytes:
  "take 12 (hdr_bytes h) = le16 (hd_magic h) @ [hd_version h, hd_reserved h]
     @ le16 (hd_frame_id h) @ [hd_type h, hd_reserved2 h] @ le16 (hd_cmd h) @ le16 (hd_len h)"
  by (simp add: hdr_bytes_def le_defs)

lemma hdr_crc_indep [simp]:
  "host_link_crc16 (hdr_bytes (h\<lparr>hd_crc := c\<rparr>)) 12 = host_link_crc16 (hdr_bytes h) 12"
  by (simp add: host_link_crc16_def take_hdr_bytes)

lemma hdr_crc_ok_seal [simp]: "hdr_crc_ok (seal_header h) = HOST_LINK_OK"
  by (simp add: hdr_crc_ok_def seal_header_def)

lemma seal_header_fields [simp]:
  "hd_magic (seal_header h) = hd_magic h" "hd_version (seal_header h) = hd_version h"
  "hd_frame_id (seal_header h) = hd_frame_id h" "hd_type (seal_header h) = hd_type h"
  "hd_cmd (seal_header h) = hd_cmd h" "hd_len (seal_header h) = hd_len h"
  by (simp_all add: seal_header_def)

lemma mk_header_fields [simp]:
  "hd_magic (mk_header f t c l) = HOST_LINK_MAGIC"
  "hd_version (mk_header f t c l) = HOST_LINK_VERSION_CURRENT"
  "hd_frame_id (mk_header f t c l) = f" "hd_type (mk_header f t c l) = t"
  "hd_cmd (mk_header f t c l) = c" "hd_len (mk_header f t c l) = l"
  by (simp_all add: mk_header_def)

lemma length_wire_frame [simp]: "length (wire_frame h pay) = 16 + length pay"
  by (simp add: wire_frame_def)

lemma payload_crc_ok_iff:
  assumes "len > 0 \<Longrightarrow> pay = Some p" "unat len = length p"
  shows "payload_crc_ok pay len c = HOST_LINK_OK \<longleftrightarrow> c = host_link_crc16 p (length p)"
proof (cases "len > 0")
  case True
  then show ?thesis using assms by (auto simp: payload_crc_ok_def Let_def)
next
  case False
  then have "len = 0" by (simp add: word_gt_0)
  then show ?thesis using assms by (auto simp: payload_crc_ok_def Let_def)
qed

subsection \<open>Ticks\<close>

lemma tick_diff_is_sub: "host_link_port_tick_diff_ms s n = n - s"
proof -
  have "(0xFFFFFFFF :: u32) = - 1" by simp
  then show ?thesis by (simp add: host_link_port_tick_diff_ms_def)
qed

end
