(* ===== verification/Host_Link.thy ===== *)
theory Host_Link
  imports Host_Link_Proto
begin

text \<open>
  The receive side of \<open>hal_v2/common/host_link/host_link_core.c\<close>: the
  handler, the byte-wise frame parser and the notify, ack and async slot
  tables.  The handler record holds the fields of
  \<open>struct host_link_handler\<close> and, after them, the surroundings the code
  observes: the millisecond tick, the outcomes of future allocations
  (\<open>True\<close> succeeds, an exhausted script succeeds), the contents of fresh
  memory, the number of live allocations, the results of future calls of
  \<open>send_fn\<close>, the buffers handed to \<open>send_fn\<close>, and the completion
  callbacks made.  The mutex only delimits the atomic sections and is not part
  of the state.  A pointer to a buffer is the buffer (\<open>None\<close> for null).
\<close>

abbreviation CFG_MAX_PAYLOAD :: u16 where
  "CFG_MAX_PAYLOAD \<equiv> 512"

abbreviation CFG_NOTIFY_DEPTH :: nat where
  "CFG_NOTIFY_DEPTH \<equiv> 16"

abbreviation CFG_ACK_SLOTS :: nat where
  "CFG_ACK_SLOTS \<equiv> 8"

abbreviation CFG_ASYNC_MAX :: nat where
  "CFG_ASYNC_MAX \<equiv> 4"

datatype parse_state = PS_SYNC0 | PS_SYNC1 | PS_HDR | PS_PAYLOAD

text \<open>A completion callback is the function pointer and its user argument,
  both opaque; a call of it is logged with the status and the payload it gets.\<close>

record async_slot =
  as_used :: bool
  as_id :: u16
  as_cmd :: u16
  as_started_ms :: u32
  as_cb :: "nat option"
  as_cb_user :: nat

record done_call =
  dc_cb :: nat
  dc_user :: nat
  dc_err :: host_link_err
  dc_payload :: "byte list option"
  dc_len :: u16

record host_link_handler =
  hl_ready :: bool
  hl_next_frame_id :: u16
  hl_parse_state :: parse_state
  hl_parse_got :: u16
  hl_hdr_raw :: "byte list"
  hl_pend_hdr :: host_link_header
  hl_pend_payload :: "byte list option"
  hl_pend_pay_need :: u16
  hl_notify_slot :: "host_link_frame list"
  hl_ack_slot :: "host_link_frame list"
  hl_ack_tick :: "u32 list"
  hl_async_slot :: "async_slot list"
  hl_ack_sem :: nat
  hl_notify_sem :: nat
  hl_tick :: u32
  hl_mem :: "bool list"
  hl_junk :: byte
  hl_live :: int
  hl_send_rc :: "int list"
  hl_tx :: "byte list list"
  hl_done :: "done_call list"

definition host_link_port_malloc ::
  "nat \<Rightarrow> host_link_handler \<Rightarrow> byte list option \<times> host_link_handler" where
  "host_link_port_malloc n h =
     (case hl_mem h of
        False # r \<Rightarrow> (None, h\<lparr>hl_mem := r\<rparr>)
      | _ \<Rightarrow> (Some (replicate n (hl_junk h)),
              h\<lparr>hl_mem := tl (hl_mem h), hl_live := hl_live h + 1\<rparr>))"

definition host_link_port_free :: "host_link_handler \<Rightarrow> host_link_handler" where
  "host_link_port_free h = h\<lparr>hl_live := hl_live h - 1\<rparr>"

definition free_opt :: "byte list option \<Rightarrow> host_link_handler \<Rightarrow> host_link_handler" where
  "free_opt p h = (case p of None \<Rightarrow> h | Some _ \<Rightarrow> host_link_port_free h)"

definition parse_reset :: "host_link_handler \<Rightarrow> host_link_handler" where
  "parse_reset h =
     (free_opt (hl_pend_payload h) h)\<lparr>hl_parse_state := PS_SYNC0, hl_parse_got := 0,
        hl_pend_payload := None, hl_pend_pay_need := 0, hl_hdr_raw := replicate 14 0\<rparr>"

definition find_empty_notify :: "host_link_handler \<Rightarrow> nat option" where
  "find_empty_notify h = first_idx (\<lambda>f. \<not> fr_is_valid f) (hl_notify_slot h)"

definition find_empty_ack :: "host_link_handler \<Rightarrow> nat option" where
  "find_empty_ack h = first_idx (\<lambda>f. \<not> fr_is_valid f) (hl_ack_slot h)"

definition free_frame_payload ::
  "host_link_frame \<Rightarrow> host_link_handler \<Rightarrow> host_link_frame \<times> host_link_handler" where
  "free_frame_payload f h =
     (f\<lparr>fr_payload := None, fr_is_valid := False\<rparr>, free_opt (fr_payload f) h)"

definition call_done ::
  "nat option \<Rightarrow> nat \<Rightarrow> host_link_err \<Rightarrow> byte list option \<Rightarrow> u16
     \<Rightarrow> host_link_handler \<Rightarrow> host_link_handler" where
  "call_done cb u err pay plen h =
     (case cb of
        None \<Rightarrow> h
      | Some c \<Rightarrow> h\<lparr>hl_done := hl_done h @
          [\<lparr>dc_cb = c, dc_user = u, dc_err = err, dc_payload = pay, dc_len = plen\<rparr>]\<rparr>)"

definition async_match :: "host_link_frame \<Rightarrow> async_slot \<Rightarrow> bool" where
  "async_match f s \<longleftrightarrow> as_used s \<and> as_id s = hd_frame_id (fr_header f)
     \<and> as_cmd s = hd_cmd (fr_header f)"

definition find_async :: "host_link_frame \<Rightarrow> host_link_handler \<Rightarrow> nat option" where
  "find_async f h =
     (if hd_type (fr_header f) = HOST_LINK_TYPE_RESPONSE
      then first_idx (async_match f) (hl_async_slot h) else None)"

definition add_ack_frame_locked ::
  "host_link_handler \<Rightarrow> host_link_frame \<Rightarrow> host_link_err \<times> host_link_frame \<times> host_link_handler" where
  "add_ack_frame_locked h f =
     (case find_async f h of
        Some i \<Rightarrow>
          (let s = hl_async_slot h ! i;
               h1 = h\<lparr>hl_async_slot := (hl_async_slot h)[i := s\<lparr>as_used := False\<rparr>]\<rparr>;
               h2 = call_done (as_cb s) (as_cb_user s) HOST_LINK_OK (fr_payload f)
                      (hd_len (fr_header f)) h1
           in (HOST_LINK_OK, f\<lparr>fr_payload := None, fr_is_valid := False\<rparr>, h2))
      | None \<Rightarrow>
          (case find_empty_ack h of
             None \<Rightarrow> (HOST_LINK_ERR_NO_SLOT, f, h)
           | Some slot \<Rightarrow>
               (HOST_LINK_OK, f\<lparr>fr_payload := None, fr_is_valid := False\<rparr>,
                h\<lparr>hl_ack_slot := (hl_ack_slot h)[slot := f\<lparr>fr_is_valid := True\<rparr>],
                  hl_ack_tick := (hl_ack_tick h)[slot := hl_tick h],
                  hl_ack_sem := hl_ack_sem h + 1\<rparr>)))"

definition add_notify_frame_locked ::
  "host_link_handler \<Rightarrow> host_link_frame \<Rightarrow> host_link_err \<times> host_link_frame \<times> host_link_handler" where
  "add_notify_frame_locked h f =
     (case find_empty_notify h of
        None \<Rightarrow> (HOST_LINK_ERR_NO_SLOT, f, h)
      | Some slot \<Rightarrow>
          (HOST_LINK_OK, f\<lparr>fr_payload := None, fr_is_valid := False\<rparr>,
           h\<lparr>hl_notify_slot := (hl_notify_slot h)[slot := f\<lparr>fr_is_valid := True\<rparr>],
             hl_notify_sem := hl_notify_sem h + 1\<rparr>))"

definition deal_one_frame ::
  "host_link_handler \<Rightarrow> host_link_frame \<Rightarrow> host_link_err \<times> host_link_frame \<times> host_link_handler" where
  "deal_one_frame h f =
     (let hdr = fr_header f in
      if hdr_crc_ok hdr \<noteq> HOST_LINK_OK then (hdr_crc_ok hdr, f, h)
      else if hd_magic hdr \<noteq> HOST_LINK_MAGIC \<or> hd_version hdr \<noteq> HOST_LINK_VERSION_CURRENT
      then (HOST_LINK_ERR_PROTO, f, h)
      else if payload_crc_ok (fr_payload f) (hd_len hdr) (fr_payload_crc f) \<noteq> HOST_LINK_OK
      then (payload_crc_ok (fr_payload f) (hd_len hdr) (fr_payload_crc f), f, h)
      else if \<not> hl_ready h then (HOST_LINK_ERR_INVALID_STATE, f, h)
      else if hd_type hdr = HOST_LINK_TYPE_REQUEST \<or> hd_type hdr = HOST_LINK_TYPE_EVENT
      then add_notify_frame_locked h f
      else if hd_type hdr = HOST_LINK_TYPE_RESPONSE \<or> hd_type hdr = HOST_LINK_TYPE_EVENT_ACK
      then add_ack_frame_locked h f
      else (HOST_LINK_ERR_PROTO, f, h))"

text \<open>\<open>feed_finish_payload\<close>: \<open>raw\<close> is the staging buffer of
  \<open>len + 2\<close> bytes.\<close>

definition finish_deal :: "host_link_frame \<Rightarrow> host_link_handler \<Rightarrow> host_link_handler" where
  "finish_deal fr h =
     (case deal_one_frame h fr of
        (r, fr', h') \<Rightarrow>
          parse_reset (if r \<noteq> HOST_LINK_OK then snd (free_frame_payload fr' h') else h'))"

definition feed_finish_payload :: "host_link_handler \<Rightarrow> host_link_handler" where
  "feed_finish_payload h =
     (let raw = the (hl_pend_payload h);
          l = hd_len (hl_pend_hdr h);
          wire_crc = un16 (drop (unat l) raw);
          drop_raw = (\<lambda>g. (host_link_port_free g)\<lparr>hl_pend_payload := None\<rparr>)
      in if payload_crc_ok (Some raw) l wire_crc \<noteq> HOST_LINK_OK
         then parse_reset (drop_raw h)
         else
           (let fr = zero_frame\<lparr>fr_header := hl_pend_hdr h, fr_payload_crc := wire_crc,
                                fr_is_valid := True\<rparr>
            in if l > 0
               then (case host_link_port_malloc (unat l) h of
                       (None, h1) \<Rightarrow> parse_reset (drop_raw h1)
                     | (Some p, h1) \<Rightarrow>
                         finish_deal (fr\<lparr>fr_payload := Some (poke 0 (take (unat l) raw) p)\<rparr>)
                           (drop_raw h1))
               else finish_deal fr (drop_raw h)))"

definition hdr_complete :: "host_link_handler \<Rightarrow> host_link_handler" where
  "hdr_complete h =
     (let hdr = hdr_of_bytes (hl_hdr_raw h); h1 = h\<lparr>hl_pend_hdr := hdr\<rparr> in
      if hd_len hdr > CFG_MAX_PAYLOAD then parse_reset h1
      else
        (let h2 = h1\<lparr>hl_pend_pay_need := hd_len hdr + 2\<rparr> in
         if hl_pend_pay_need h2 = 2 \<and> hd_len hdr = 0
         then (case host_link_port_malloc 2 h2 of
                 (None, h3) \<Rightarrow> parse_reset h3
               | (Some p, h3) \<Rightarrow>
                   h3\<lparr>hl_pend_payload := Some p, hl_parse_got := 0, hl_parse_state := PS_PAYLOAD\<rparr>)
         else if hd_len hdr > 0
         then (case host_link_port_malloc (unat (hl_pend_pay_need h2)) h2 of
                 (None, h3) \<Rightarrow> parse_reset h3
               | (Some p, h3) \<Rightarrow>
                   h3\<lparr>hl_pend_payload := Some p, hl_parse_got := 0, hl_parse_state := PS_PAYLOAD\<rparr>)
         else parse_reset h2))"

definition feed_byte :: "host_link_handler \<Rightarrow> byte \<Rightarrow> host_link_handler" where
  "feed_byte h b =
     (case hl_parse_state h of
        PS_SYNC0 \<Rightarrow> if b = lo8 HOST_LINK_MAGIC then h\<lparr>hl_parse_state := PS_SYNC1\<rparr> else h
      | PS_SYNC1 \<Rightarrow>
          if b = hi8 HOST_LINK_MAGIC
          then h\<lparr>hl_hdr_raw := (hl_hdr_raw h)[0 := lo8 HOST_LINK_MAGIC, 1 := hi8 HOST_LINK_MAGIC],
                 hl_parse_got := 2, hl_parse_state := PS_HDR\<rparr>
          else if b = lo8 HOST_LINK_MAGIC then h\<lparr>hl_parse_state := PS_SYNC1\<rparr>
          else h\<lparr>hl_parse_state := PS_SYNC0\<rparr>
      | PS_HDR \<Rightarrow>
          (let h1 = (if hl_parse_got h < 14
                     then h\<lparr>hl_hdr_raw := (hl_hdr_raw h)[unat (hl_parse_got h) := b],
                            hl_parse_got := hl_parse_got h + 1\<rparr>
                     else h)
           in if hl_parse_got h1 = 14 then hdr_complete h1 else h1)
      | PS_PAYLOAD \<Rightarrow>
          (let h1 = (case hl_pend_payload h of
                       None \<Rightarrow> h
                     | Some buf \<Rightarrow>
                         if hl_parse_got h < hl_pend_pay_need h
                         then h\<lparr>hl_pend_payload := Some (buf[unat (hl_parse_got h) := b]),
                                hl_parse_got := hl_parse_got h + 1\<rparr>
                         else h)
           in if hl_parse_got h1 \<ge> hl_pend_pay_need h1 then feed_finish_payload h1 else h1))"

fun host_link_feed :: "host_link_handler \<Rightarrow> byte list \<Rightarrow> host_link_handler" where
  "host_link_feed h [] = h"
| "host_link_feed h (b # bs) = (if hl_ready h then host_link_feed (feed_byte h b) bs else h)"

end
