(* ===== verification/Host_Link_Inv.thy ===== *)
theory Host_Link_Inv
  imports Host_Link
begin

text \<open>
  The invariant of the receive side of the board link and its proof for any
  sequence of received bytes, any allocation outcome and any content of fresh
  memory.  \<open>parser_inv\<close> states that every index the parser writes is
  inside the buffer it writes; \<open>slots_inv\<close> that only frames with valid
  checksums, magic, version and type are stored; \<open>hl_balance\<close> that every
  live allocation has exactly one owner.
\<close>

definition frame_ok :: "host_link_frame \<Rightarrow> bool" where
  "frame_ok f \<longleftrightarrow>
     (let hdr = fr_header f in
      hdr_crc_ok hdr = HOST_LINK_OK \<and> hd_magic hdr = HOST_LINK_MAGIC
      \<and> hd_version hdr = HOST_LINK_VERSION_CURRENT \<and> hd_len hdr \<le> CFG_MAX_PAYLOAD
      \<and> payload_crc_ok (fr_payload f) (hd_len hdr) (fr_payload_crc f) = HOST_LINK_OK
      \<and> (case fr_payload f of
           None \<Rightarrow> hd_len hdr = 0 | Some p \<Rightarrow> hd_len hdr > 0 \<and> length p = unat (hd_len hdr)))"

definition slot_ok :: "byte list \<Rightarrow> host_link_frame \<Rightarrow> bool" where
  "slot_ok types f \<longleftrightarrow>
     (if fr_is_valid f then frame_ok f \<and> hd_type (fr_header f) \<in> set types
      else fr_payload f = None)"

definition async_ok :: "async_slot \<Rightarrow> bool" where
  "async_ok s \<longleftrightarrow> (as_used s \<longrightarrow> as_cb s \<noteq> None)"

definition slots_inv :: "host_link_handler \<Rightarrow> bool" where
  "slots_inv h \<longleftrightarrow>
     length (hl_notify_slot h) = CFG_NOTIFY_DEPTH \<and> length (hl_ack_slot h) = CFG_ACK_SLOTS
     \<and> length (hl_ack_tick h) = CFG_ACK_SLOTS \<and> length (hl_async_slot h) = CFG_ASYNC_MAX
     \<and> list_all (slot_ok [HOST_LINK_TYPE_REQUEST, HOST_LINK_TYPE_EVENT]) (hl_notify_slot h)
     \<and> list_all (slot_ok [HOST_LINK_TYPE_RESPONSE, HOST_LINK_TYPE_EVENT_ACK]) (hl_ack_slot h)
     \<and> list_all async_ok (hl_async_slot h)"

definition parser_inv :: "host_link_handler \<Rightarrow> bool" where
  "parser_inv h \<longleftrightarrow>
     length (hl_hdr_raw h) = 14 \<and>
     (case hl_parse_state h of
        PS_SYNC0 \<Rightarrow> hl_pend_payload h = None
      | PS_SYNC1 \<Rightarrow> hl_pend_payload h = None
      | PS_HDR \<Rightarrow> hl_pend_payload h = None \<and> 2 \<le> hl_parse_got h \<and> hl_parse_got h < 14
      | PS_PAYLOAD \<Rightarrow>
          hl_parse_got h < hl_pend_pay_need h \<and> hd_len (hl_pend_hdr h) \<le> CFG_MAX_PAYLOAD
          \<and> hl_pend_pay_need h = hd_len (hl_pend_hdr h) + 2
          \<and> (case hl_pend_payload h of
               None \<Rightarrow> False | Some buf \<Rightarrow> length buf = unat (hl_pend_pay_need h)))"

definition hl_inv :: "host_link_handler \<Rightarrow> bool" where
  "hl_inv h \<longleftrightarrow> slots_inv h \<and> parser_inv h"

text \<open>Owners of an allocation: the staging buffer, the two slot tables and the
  receivers of a completion callback.\<close>

definition owns :: "byte list option \<Rightarrow> int" where
  "owns p = (case p of None \<Rightarrow> 0 | Some _ \<Rightarrow> 1)"

definition hl_balance :: "host_link_handler \<Rightarrow> int" where
  "hl_balance h = hl_live h - owns (hl_pend_payload h)
     - sum_list (map (\<lambda>f. owns (fr_payload f)) (hl_notify_slot h))
     - sum_list (map (\<lambda>f. owns (fr_payload f)) (hl_ack_slot h))
     - sum_list (map (\<lambda>d. owns (dc_payload d)) (hl_done h))"

subsection \<open>Generic lemmas\<close>

lemma list_all_update: "list_all P xs \<Longrightarrow> P y \<Longrightarrow> list_all P (xs[i := y])"
  by (auto simp: list_all_iff dest: set_update_subset_insert [THEN subsetD])

lemma list_all_nthD: "list_all P xs \<Longrightarrow> i < length xs \<Longrightarrow> P (xs ! i)"
  by (simp add: list_all_length)

lemma sum_list_map_update:
  fixes g :: "'a \<Rightarrow> int"
  shows "i < length xs \<Longrightarrow>
     sum_list (map g (xs[i := y])) = sum_list (map g xs) + g y - g (xs ! i)"
proof (induction xs arbitrary: i)
  case Nil then show ?case by simp
next
  case (Cons x xs) then show ?case by (cases i) auto
qed

lemma owns_simps [simp]: "owns None = 0" "owns (Some p) = 1"
  by (simp_all add: owns_def)

lemma len_plus_2:
  assumes "l \<le> (512 :: u16)" shows "unat (l + 2) = unat l + 2"
proof -
  have "unat l \<le> 512" using assms by (simp add: unat_order)
  then show ?thesis using unat_plus_small [of l 2] by simp
qed

lemma got_step:
  assumes "2 \<le> g" "g < (14 :: u16)" "g + 1 \<noteq> 14"
  shows "2 \<le> g + 1 \<and> g + 1 < 14"
proof -
  have u: "unat (g + 1) = unat g + 1" by (rule unat_inc [OF assms(2)])
  have "unat (g + 1) \<noteq> 14"
    using assms(3) word_unat_eq_iff [of "g + 1" 14] by simp
  with u assms(1,2) show ?thesis by (simp add: unat_order)
qed

lemma slot_ok_emptyD: "slot_ok ts f \<Longrightarrow> \<not> fr_is_valid f \<Longrightarrow> fr_payload f = None"
  by (simp add: slot_ok_def)

lemma slot_ok_empty [simp]: "slot_ok ts (f\<lparr>fr_payload := None, fr_is_valid := False\<rparr>)"
  by (simp add: slot_ok_def)

subsection \<open>Accepting one frame\<close>

text \<open>The only two effects of \<open>deal_one_frame\<close>: nothing with an error,
  or the frame is moved into a slot or a callback and the caller's copy is
  emptied.\<close>

lemma add_notify_cases:
  assumes "add_notify_frame_locked h f = (r, f', h')"
  obtains "r \<noteq> HOST_LINK_OK" "f' = f" "h' = h"
  | i where "r = HOST_LINK_OK" "f' = f\<lparr>fr_payload := None, fr_is_valid := False\<rparr>"
      "i < length (hl_notify_slot h)" "\<not> fr_is_valid (hl_notify_slot h ! i)"
      "h' = h\<lparr>hl_notify_slot := (hl_notify_slot h)[i := f\<lparr>fr_is_valid := True\<rparr>],
              hl_notify_sem := hl_notify_sem h + 1\<rparr>"
proof (cases "find_empty_notify h")
  case None then show ?thesis using assms that(1) by (simp add: add_notify_frame_locked_def)
next
  case (Some i)
  with assms show ?thesis
    by (intro that(2) [of i])
       (auto simp: add_notify_frame_locked_def find_empty_notify_def dest: first_idx_SomeD)
qed

lemma add_ack_cases:
  assumes "add_ack_frame_locked h f = (r, f', h')"
  obtains "r \<noteq> HOST_LINK_OK" "f' = f" "h' = h"
  | i where "r = HOST_LINK_OK" "f' = f\<lparr>fr_payload := None, fr_is_valid := False\<rparr>"
      "i < length (hl_async_slot h)" "async_match f (hl_async_slot h ! i)"
      "hd_type (fr_header f) = HOST_LINK_TYPE_RESPONSE"
      "h' = call_done (as_cb (hl_async_slot h ! i)) (as_cb_user (hl_async_slot h ! i))
              HOST_LINK_OK (fr_payload f) (hd_len (fr_header f))
              (h\<lparr>hl_async_slot :=
                 (hl_async_slot h)[i := (hl_async_slot h ! i)\<lparr>as_used := False\<rparr>]\<rparr>)"
  | i where "r = HOST_LINK_OK" "f' = f\<lparr>fr_payload := None, fr_is_valid := False\<rparr>"
      "i < length (hl_ack_slot h)" "\<not> fr_is_valid (hl_ack_slot h ! i)"
      "h' = h\<lparr>hl_ack_slot := (hl_ack_slot h)[i := f\<lparr>fr_is_valid := True\<rparr>],
              hl_ack_tick := (hl_ack_tick h)[i := hl_tick h], hl_ack_sem := hl_ack_sem h + 1\<rparr>"
proof (cases "find_async f h")
  case (Some i)
  with assms show ?thesis
    by (intro that(2) [of i])
       (auto simp: add_ack_frame_locked_def find_async_def Let_def
             dest: first_idx_SomeD split: if_splits)
next
  case None
  show ?thesis
  proof (cases "find_empty_ack h")
    case (Some i)
    with None assms show ?thesis
      by (intro that(3) [of i])
         (auto simp: add_ack_frame_locked_def find_empty_ack_def dest: first_idx_SomeD)
  qed (use None assms that(1) in \<open>simp add: add_ack_frame_locked_def\<close>)
qed

lemma deal_cases:
  assumes "deal_one_frame h f = (r, f', h')"
  obtains "r \<noteq> HOST_LINK_OK" "f' = f" "h' = h"
  | "add_notify_frame_locked h f = (r, f', h')"
      "hdr_crc_ok (fr_header f) = HOST_LINK_OK" "hd_magic (fr_header f) = HOST_LINK_MAGIC"
      "hd_version (fr_header f) = HOST_LINK_VERSION_CURRENT"
      "payload_crc_ok (fr_payload f) (hd_len (fr_header f)) (fr_payload_crc f) = HOST_LINK_OK"
      "hd_type (fr_header f) \<in> {HOST_LINK_TYPE_REQUEST, HOST_LINK_TYPE_EVENT}"
  | "add_ack_frame_locked h f = (r, f', h')"
      "hdr_crc_ok (fr_header f) = HOST_LINK_OK" "hd_magic (fr_header f) = HOST_LINK_MAGIC"
      "hd_version (fr_header f) = HOST_LINK_VERSION_CURRENT"
      "payload_crc_ok (fr_payload f) (hd_len (fr_header f)) (fr_payload_crc f) = HOST_LINK_OK"
      "hd_type (fr_header f) \<in> {HOST_LINK_TYPE_RESPONSE, HOST_LINK_TYPE_EVENT_ACK}"
  using assms unfolding deal_one_frame_def Let_def
  by (auto split: if_splits)

lemma call_done_fields [simp]:
  "hl_ready (call_done c u e p l h) = hl_ready h"
  "hl_next_frame_id (call_done c u e p l h) = hl_next_frame_id h"
  "hl_parse_state (call_done c u e p l h) = hl_parse_state h"
  "hl_parse_got (call_done c u e p l h) = hl_parse_got h"
  "hl_hdr_raw (call_done c u e p l h) = hl_hdr_raw h"
  "hl_pend_hdr (call_done c u e p l h) = hl_pend_hdr h"
  "hl_pend_payload (call_done c u e p l h) = hl_pend_payload h"
  "hl_pend_pay_need (call_done c u e p l h) = hl_pend_pay_need h"
  "hl_notify_slot (call_done c u e p l h) = hl_notify_slot h"
  "hl_ack_slot (call_done c u e p l h) = hl_ack_slot h"
  "hl_ack_tick (call_done c u e p l h) = hl_ack_tick h"
  "hl_async_slot (call_done c u e p l h) = hl_async_slot h"
  "hl_tick (call_done c u e p l h) = hl_tick h"
  "hl_mem (call_done c u e p l h) = hl_mem h"
  "hl_live (call_done c u e p l h) = hl_live h"
  "hl_tx (call_done c u e p l h) = hl_tx h"
  "hl_send_rc (call_done c u e p l h) = hl_send_rc h"
  by (simp_all add: call_done_def split: option.splits)

lemma deal_keeps:
  assumes "deal_one_frame h f = (r, f', h')"
  shows "hl_ready h' = hl_ready h \<and> hl_next_frame_id h' = hl_next_frame_id h
    \<and> hl_parse_state h' = hl_parse_state h \<and> hl_parse_got h' = hl_parse_got h
    \<and> hl_hdr_raw h' = hl_hdr_raw h \<and> hl_pend_hdr h' = hl_pend_hdr h
    \<and> hl_pend_payload h' = hl_pend_payload h \<and> hl_pend_pay_need h' = hl_pend_pay_need h
    \<and> hl_tick h' = hl_tick h \<and> hl_mem h' = hl_mem h \<and> hl_live h' = hl_live h
    \<and> hl_tx h' = hl_tx h \<and> hl_send_rc h' = hl_send_rc h"
  using assms by (elim deal_cases add_notify_cases add_ack_cases) simp_all

lemma deal_slots_inv:
  assumes d: "deal_one_frame h f = (r, f', h')" and inv: "slots_inv h"
    and f: "hd_len (fr_header f) \<le> CFG_MAX_PAYLOAD"
      "case fr_payload f of None \<Rightarrow> hd_len (fr_header f) = 0
         | Some p \<Rightarrow> hd_len (fr_header f) > 0 \<and> length p = unat (hd_len (fr_header f))"
  shows "slots_inv h'"
  using d
proof (cases rule: deal_cases)
  case 1 then show ?thesis using inv by simp
next
  case 2
  then have "slot_ok [HOST_LINK_TYPE_REQUEST, HOST_LINK_TYPE_EVENT] (f\<lparr>fr_is_valid := True\<rparr>)"
    using f by (simp add: slot_ok_def frame_ok_def Let_def)
  with 2(1) inv show ?thesis
    by (elim add_notify_cases) (auto simp: slots_inv_def intro: list_all_update)
next
  case 3
  then have ok: "slot_ok [HOST_LINK_TYPE_RESPONSE, HOST_LINK_TYPE_EVENT_ACK]
      (f\<lparr>fr_is_valid := True\<rparr>)"
    using f by (simp add: slot_ok_def frame_ok_def Let_def)
  from 3(1) inv ok show ?thesis
    by (elim add_ack_cases) (auto simp: slots_inv_def async_ok_def intro!: list_all_update)
qed

lemma deal_balance:
  assumes d: "deal_one_frame h f = (r, f', h')" and inv: "slots_inv h"
  shows "hl_balance h' - owns (fr_payload f') = hl_balance h - owns (fr_payload f)"
  using d
proof (cases rule: deal_cases)
  case 1 then show ?thesis by simp
next
  case 2
  from 2(1) show ?thesis
  proof (cases rule: add_notify_cases)
    case (2 i)
    then have "owns (fr_payload (hl_notify_slot h ! i)) = 0"
      using inv by (auto simp: slots_inv_def list_all_length dest!: slot_ok_emptyD)
    with 2 show ?thesis by (simp add: hl_balance_def sum_list_map_update)
  qed simp
next
  case 3
  from 3(1) show ?thesis
  proof (cases rule: add_ack_cases)
    case (2 i)
    then obtain c where "as_cb (hl_async_slot h ! i) = Some c"
      using inv by (auto simp: slots_inv_def list_all_length async_ok_def async_match_def)
    with 2 show ?thesis by (simp add: hl_balance_def call_done_def)
  next
    case (3 i)
    then have "owns (fr_payload (hl_ack_slot h ! i)) = 0"
      using inv by (auto simp: slots_inv_def list_all_length dest!: slot_ok_emptyD)
    with 3 show ?thesis by (simp add: hl_balance_def sum_list_map_update)
  qed simp
qed

subsection \<open>The parser\<close>

lemma malloc_cases:
  assumes "host_link_port_malloc n h = (p, h')"
  obtains "p = None" "h' = h\<lparr>hl_mem := tl (hl_mem h)\<rparr>"
  | "p = Some (replicate n (hl_junk h))"
    "h' = h\<lparr>hl_mem := tl (hl_mem h), hl_live := hl_live h + 1\<rparr>"
  using assms
  by (auto simp: host_link_port_malloc_def split: list.splits bool.splits)

lemma free_opt_eq: "free_opt p h = h\<lparr>hl_live := hl_live h - owns p\<rparr>"
  by (cases p) (simp_all add: free_opt_def host_link_port_free_def)

lemma parse_reset_eq:
  "parse_reset h = h\<lparr>hl_live := hl_live h - owns (hl_pend_payload h), hl_parse_state := PS_SYNC0,
     hl_parse_got := 0, hl_pend_payload := None, hl_pend_pay_need := 0,
     hl_hdr_raw := replicate 14 0\<rparr>"
  by (simp add: parse_reset_def free_opt_eq)

lemma parse_reset_inv [simp]: "parser_inv (parse_reset h)"
  by (simp add: parser_inv_def parse_reset_eq)

lemma parse_reset_slots [simp]: "slots_inv (parse_reset h) = slots_inv h"
  by (simp add: slots_inv_def parse_reset_eq)

lemma parse_reset_balance [simp]: "hl_balance (parse_reset h) = hl_balance h"
  by (simp add: hl_balance_def parse_reset_eq)

lemma finish_deal_inv:
  assumes "slots_inv h" "hd_len (fr_header f) \<le> CFG_MAX_PAYLOAD"
    "case fr_payload f of None \<Rightarrow> hd_len (fr_header f) = 0
       | Some p \<Rightarrow> hd_len (fr_header f) > 0 \<and> length p = unat (hd_len (fr_header f))"
  shows "hl_inv (finish_deal f h) \<and> hl_balance (finish_deal f h) = hl_balance h - owns (fr_payload f)"
proof -
  obtain r f' h' where d: "deal_one_frame h f = (r, f', h')" by (metis prod_cases3)
  have s: "slots_inv h'" by (rule deal_slots_inv [OF d assms])
  have b: "hl_balance h' - owns (fr_payload f') = hl_balance h - owns (fr_payload f)"
    by (rule deal_balance [OF d assms(1)])
  have n: "r = HOST_LINK_OK \<Longrightarrow> fr_payload f' = None"
    using d by (elim deal_cases add_notify_cases add_ack_cases) auto
  show ?thesis
  proof (cases "r = HOST_LINK_OK")
    case True
    then show ?thesis using d s b n by (simp add: finish_deal_def hl_inv_def)
  next
    case False
    have "slots_inv (free_opt (fr_payload f') h')"
      "hl_balance (free_opt (fr_payload f') h') = hl_balance h' - owns (fr_payload f')"
      using s by (simp_all add: free_opt_eq slots_inv_def hl_balance_def)
    with False show ?thesis using d b
      by (simp add: finish_deal_def hl_inv_def free_frame_payload_def)
  qed
qed

lemma feed_finish_inv:
  assumes s: "slots_inv h" and l: "hd_len (hl_pend_hdr h) \<le> CFG_MAX_PAYLOAD"
    and raw: "hl_pend_payload h = Some raw" "length raw = unat (hd_len (hl_pend_hdr h)) + 2"
  shows "hl_inv (feed_finish_payload h) \<and> hl_balance (feed_finish_payload h) = hl_balance h"
proof -
  let ?l = "hd_len (hl_pend_hdr h)"
  let ?d = "\<lambda>g. (host_link_port_free g)\<lparr>hl_pend_payload := None\<rparr>"
  have drop: "slots_inv (?d h) \<and> hl_balance (?d h) = hl_balance h"
    using s raw by (simp add: slots_inv_def hl_balance_def host_link_port_free_def)
  show ?thesis
  proof (cases "payload_crc_ok (Some raw) ?l (un16 (drop (unat ?l) raw)) = HOST_LINK_OK")
    case False
    then show ?thesis
      using drop raw by (simp add: feed_finish_payload_def Let_def hl_inv_def)
  next
    case crc: True
    show ?thesis
    proof (cases "?l > 0")
      case False
      then have "?l = 0" by (simp add: word_gt_0)
      then show ?thesis
        using crc drop raw False
        by (simp add: feed_finish_payload_def Let_def zero_frame_def finish_deal_inv)
    next
      case True
      obtain p h1 where m: "host_link_port_malloc (unat ?l) h = (p, h1)" by (metis prod.exhaust)
      from m show ?thesis
      proof (cases rule: malloc_cases)
        case 1
        have "slots_inv (?d h1) \<and> hl_balance (?d h1) = hl_balance h"
          using 1 s raw by (simp add: slots_inv_def hl_balance_def host_link_port_free_def)
        then show ?thesis
          using True crc m 1 raw by (simp add: feed_finish_payload_def Let_def hl_inv_def)
      next
        case 2
        let ?q = "poke 0 (take (unat ?l) raw) (replicate (unat ?l) (hl_junk h))"
        have q: "length ?q = unat ?l" using raw by simp
        have "slots_inv (?d h1) \<and> hl_balance (?d h1) = hl_balance h + 1"
          using 2 s raw by (simp add: slots_inv_def hl_balance_def host_link_port_free_def)
        then show ?thesis
          using True crc m 2 raw l q
          by (simp add: feed_finish_payload_def Let_def zero_frame_def finish_deal_inv)
      qed
    qed
  qed
qed

lemma hdr_complete_inv:
  assumes s: "slots_inv h" and r: "length (hl_hdr_raw h) = 14" and p: "hl_pend_payload h = None"
  shows "hl_inv (hdr_complete h) \<and> hl_balance (hdr_complete h) = hl_balance h"
proof -
  let ?hdr = "hdr_of_bytes (hl_hdr_raw h)"
  let ?h2 = "h\<lparr>hl_pend_hdr := ?hdr, hl_pend_pay_need := hd_len ?hdr + 2\<rparr>"
  have upd: "slots_inv (h\<lparr>hl_pend_hdr := x\<rparr>) = slots_inv h"
    "slots_inv ?h2 = slots_inv h"
    "hl_balance (h\<lparr>hl_pend_hdr := x\<rparr>) = hl_balance h"
    "hl_balance ?h2 = hl_balance h" for x
    by (simp_all add: slots_inv_def hl_balance_def)
  have step: "hl_inv (case host_link_port_malloc n ?h2 of
                 (None, h3) \<Rightarrow> parse_reset h3
               | (Some p, h3) \<Rightarrow>
                   h3\<lparr>hl_pend_payload := Some p, hl_parse_got := 0, hl_parse_state := PS_PAYLOAD\<rparr>)
      \<and> hl_balance (case host_link_port_malloc n ?h2 of
                 (None, h3) \<Rightarrow> parse_reset h3
               | (Some p, h3) \<Rightarrow>
                   h3\<lparr>hl_pend_payload := Some p, hl_parse_got := 0, hl_parse_state := PS_PAYLOAD\<rparr>)
          = hl_balance h"
    if n: "n = unat (hd_len ?hdr + 2)" and l: "hd_len ?hdr \<le> 512" for n
  proof -
    have need: "0 < hd_len ?hdr + 2"
      using len_plus_2 [OF l] by (simp add: unat_order)
    obtain q h3 where m: "host_link_port_malloc n ?h2 = (q, h3)" by (metis prod.exhaust)
    from m show ?thesis
    proof (cases rule: malloc_cases)
      case 1
      have "slots_inv h3 \<and> hl_balance h3 = hl_balance h"
        using 1 s by (simp add: slots_inv_def hl_balance_def)
      then show ?thesis using m 1 by (simp add: hl_inv_def)
    next
      case 2
      then show ?thesis
        using m s r p n l need
        by (simp add: hl_inv_def slots_inv_def parser_inv_def hl_balance_def)
    qed
  qed
  show ?thesis
  proof (cases "hd_len ?hdr \<le> 512")
    case False
    then show ?thesis using s upd by (simp add: hdr_complete_def Let_def hl_inv_def not_less)
  next
    case True
    have "hd_len ?hdr = 0 \<or> hd_len ?hdr > 0" by (simp add: word_gt_0)
    then show ?thesis
      using True step [OF refl True] step [of 2]
      by (auto simp: hdr_complete_def Let_def not_less [symmetric])
  qed
qed

lemma feed_byte_inv:
  assumes "hl_inv h"
  shows "hl_inv (feed_byte h b) \<and> hl_balance (feed_byte h b) = hl_balance h"
proof (cases "hl_parse_state h")
  case PS_SYNC0
  then show ?thesis using assms
    by (simp add: feed_byte_def hl_inv_def slots_inv_def parser_inv_def hl_balance_def)
next
  case PS_SYNC1
  then show ?thesis using assms
    by (simp add: feed_byte_def hl_inv_def slots_inv_def parser_inv_def hl_balance_def)
next
  case PS_HDR
  let ?h1 = "h\<lparr>hl_hdr_raw := (hl_hdr_raw h)[unat (hl_parse_got h) := b],
               hl_parse_got := hl_parse_got h + 1\<rparr>"
  have i: "slots_inv h" "length (hl_hdr_raw h) = 14" "hl_pend_payload h = None"
    "2 \<le> hl_parse_got h" "hl_parse_got h < 14"
    using assms PS_HDR by (simp_all add: hl_inv_def parser_inv_def)
  have s1: "slots_inv ?h1" "hl_balance ?h1 = hl_balance h"
    using i by (simp_all add: slots_inv_def hl_balance_def)
  show ?thesis
  proof (cases "hl_parse_got h + 1 = 14")
    case True
    then show ?thesis using PS_HDR i s1 hdr_complete_inv [of ?h1]
      by (simp add: feed_byte_def Let_def)
  next
    case False
    have "2 \<le> hl_parse_got h + 1" "hl_parse_got h + 1 < 14"
      using got_step [OF i(4,5) False] by simp_all
    then show ?thesis using False PS_HDR i s1
      by (simp add: feed_byte_def Let_def hl_inv_def parser_inv_def)
  qed
next
  case PS_PAYLOAD
  obtain buf where i: "slots_inv h" "length (hl_hdr_raw h) = 14" "hl_pend_payload h = Some buf"
    "length buf = unat (hl_pend_pay_need h)" "hl_parse_got h < hl_pend_pay_need h"
    "hd_len (hl_pend_hdr h) \<le> 512" "hl_pend_pay_need h = hd_len (hl_pend_hdr h) + 2"
    using assms PS_PAYLOAD by (auto simp: hl_inv_def parser_inv_def split: option.splits)
  let ?h1 = "h\<lparr>hl_pend_payload := Some (buf[unat (hl_parse_got h) := b]),
               hl_parse_got := hl_parse_got h + 1\<rparr>"
  have s1: "slots_inv ?h1" "hl_balance ?h1 = hl_balance h"
    using i by (simp_all add: slots_inv_def hl_balance_def)
  have len: "unat (hd_len (hl_pend_hdr h) + 2) = unat (hd_len (hl_pend_hdr h)) + 2"
    by (rule len_plus_2 [OF i(6)])
  show ?thesis
  proof (cases "hl_parse_got h + 1 \<ge> hl_pend_pay_need h")
    case True
    then show ?thesis using PS_PAYLOAD i s1 len feed_finish_inv [of ?h1]
      by (simp add: feed_byte_def Let_def)
  next
    case False
    then show ?thesis using PS_PAYLOAD i s1
      by (simp add: feed_byte_def Let_def hl_inv_def parser_inv_def)
  qed
qed

lemma host_link_feed_inv:
  "hl_inv h \<Longrightarrow> hl_inv (host_link_feed h bs) \<and> hl_balance (host_link_feed h bs) = hl_balance h"
  by (induction bs arbitrary: h) (simp_all add: feed_byte_inv)

end
