(* ===== verification/Host_Link_Api.thy ===== *)
theory Host_Link_Api
  imports Host_Link_Inv
begin

text \<open>
  The transmit side and the calls of \<open>hal_v2/common/host_link/host_link_core.c\<close>:
  sending a frame, waiting for its acknowledgement, requests, asynchronous
  requests, responses, events, polling, creation and destruction.  A call that
  waits is given the events that happen during its successive semaphore waits:
  time passing, bytes arriving on the receive thread, or the link being shut
  down; \<open>None\<close> means that the call is still waiting when the events run
  out.  The notify callback is a parameter of \<open>host_link_poll\<close>; it gets
  the frame and may change both (e.g. send a response, take the payload over).
  Handles are not null: a null handle returns at once from every call.
\<close>

abbreviation CFG_ACK_TIMEOUT_MS :: u32 where
  "CFG_ACK_TIMEOUT_MS \<equiv> 500"

abbreviation CFG_REQUEST_RETRY :: nat where
  "CFG_REQUEST_RETRY \<equiv> 3"

definition call_send_fn :: "byte list \<Rightarrow> host_link_handler \<Rightarrow> int \<times> host_link_handler" where
  "call_send_fn buf h =
     (case hl_send_rc h of [] \<Rightarrow> 0 | rc # _ \<Rightarrow> rc,
      h\<lparr>hl_send_rc := tl (hl_send_rc h), hl_tx := hl_tx h @ [buf]\<rparr>)"

definition send_wire ::
  "host_link_handler \<Rightarrow> host_link_header \<Rightarrow> byte list option \<Rightarrow> u16
     \<Rightarrow> host_link_err \<times> host_link_handler" where
  "send_wire h hdr payload pay_len =
     (let hdr1 = seal_header hdr;
          n = unat pay_len;
          has = (pay_len > 0 \<and> payload \<noteq> None);
          pay_crc = host_link_crc16 (if has then the payload else []) n
      in case host_link_port_malloc (14 + n + 2) h of
           (None, h1) \<Rightarrow> (HOST_LINK_ERR_NO_MEM, h1)
         | (Some buf, h1) \<Rightarrow>
             (let buf1 = poke 0 (hdr_bytes hdr1) buf;
                  buf2 = (if has then poke 14 (take n (the payload)) buf1 else buf1);
                  buf3 = poke (14 + n) (le16 pay_crc) buf2
              in case call_send_fn buf3 h1 of
                   (sr, h2) \<Rightarrow>
                     (if sr = 0 then HOST_LINK_OK else HOST_LINK_ERR_SEND, host_link_port_free h2)))"

datatype link_event = Elapse u32 | Rx "byte list" | Stop

definition link_step :: "link_event \<Rightarrow> host_link_handler \<Rightarrow> host_link_handler" where
  "link_step e h =
     (case e of
        Elapse dt \<Rightarrow> h\<lparr>hl_tick := hl_tick h + dt\<rparr>
      | Rx bs \<Rightarrow> host_link_feed h bs
      | Stop \<Rightarrow> h\<lparr>hl_ready := False\<rparr>)"

definition ack_match :: "byte \<Rightarrow> u16 \<Rightarrow> u16 \<Rightarrow> host_link_frame \<Rightarrow> bool" where
  "ack_match typ cmd frame_id f \<longleftrightarrow> fr_is_valid f \<and> hd_frame_id (fr_header f) = frame_id
     \<and> hd_cmd (fr_header f) = cmd \<and> hd_type (fr_header f) = typ"

definition take_ack :: "nat \<Rightarrow> host_link_handler \<Rightarrow> host_link_frame \<times> host_link_handler" where
  "take_ack i h =
     (hl_ack_slot h ! i,
      h\<lparr>hl_ack_slot := (hl_ack_slot h)[i :=
          (hl_ack_slot h ! i)\<lparr>fr_payload := None, fr_is_valid := False\<rparr>]\<rparr>)"

definition ack_sem_wait :: "host_link_handler \<Rightarrow> host_link_handler" where
  "ack_sem_wait h = h\<lparr>hl_ack_sem := hl_ack_sem h - 1\<rparr>"

type_synonym wait_result = "host_link_err \<times> host_link_frame \<times> host_link_handler \<times> link_event list"

text \<open>One pass of the waiting loop, up to the semaphore: \<open>None\<close> means that
  the loop goes on waiting.\<close>

definition ack_check ::
  "byte \<Rightarrow> u16 \<Rightarrow> u16 \<Rightarrow> u32 \<Rightarrow> u32 \<Rightarrow> host_link_handler
     \<Rightarrow> (host_link_err \<times> host_link_frame \<times> host_link_handler) option" where
  "ack_check typ cmd fid timeout_ms t0 h =
     (if \<not> hl_ready h then Some (HOST_LINK_ERR_INVALID_STATE, zero_frame, h)
      else case first_idx (ack_match typ cmd fid) (hl_ack_slot h) of
             Some i \<Rightarrow> Some (HOST_LINK_OK, take_ack i h)
           | None \<Rightarrow>
               if host_link_port_tick_diff_ms t0 (hl_tick h) \<ge> timeout_ms
               then Some (HOST_LINK_ERR_TIMEOUT, zero_frame, h) else None)"

fun ack_wait_loop ::
  "byte \<Rightarrow> u16 \<Rightarrow> u16 \<Rightarrow> u32 \<Rightarrow> u32 \<Rightarrow> link_event list \<Rightarrow> host_link_handler
     \<Rightarrow> wait_result option" where
  "ack_wait_loop typ cmd fid timeout_ms t0 [] h =
     (case ack_check typ cmd fid timeout_ms t0 h of
        Some (r, out, h1) \<Rightarrow> Some (r, out, h1, []) | None \<Rightarrow> None)"
| "ack_wait_loop typ cmd fid timeout_ms t0 (e # es) h =
     (case ack_check typ cmd fid timeout_ms t0 h of
        Some (r, out, h1) \<Rightarrow> Some (r, out, h1, e # es)
      | None \<Rightarrow> ack_wait_loop typ cmd fid timeout_ms t0 es (link_step e (ack_sem_wait h)))"

definition wait_for_ack_timeout ::
  "host_link_handler \<Rightarrow> byte \<Rightarrow> u16 \<Rightarrow> u16 \<Rightarrow> u32 \<Rightarrow> link_event list \<Rightarrow> wait_result option" where
  "wait_for_ack_timeout h typ cmd fid timeout_ms evs =
     ack_wait_loop typ cmd fid timeout_ms (hl_tick h) evs h"

definition wait_for_ack ::
  "host_link_handler \<Rightarrow> byte \<Rightarrow> u16 \<Rightarrow> u16 \<Rightarrow> link_event list \<Rightarrow> wait_result option" where
  "wait_for_ack h typ cmd fid evs =
     ack_wait_loop typ cmd fid CFG_ACK_TIMEOUT_MS (hl_tick h) evs h"

definition alloc_frame_id :: "host_link_handler \<Rightarrow> u16 \<times> host_link_handler" where
  "alloc_frame_id h = (hl_next_frame_id h, h\<lparr>hl_next_frame_id := hl_next_frame_id h + 1\<rparr>)"

text \<open>The retry loop of \<open>host_link_request_timeout\<close>; \<open>n\<close> is the
  number of attempts left, \<open>want\<close> that the caller passed
  \<open>resp_data\<close> and \<open>resp_len\<close>.  The response is what the caller's
  pointer receives, if it is written.\<close>

type_synonym request_result =
  "host_link_err \<times> byte list option \<times> host_link_handler \<times> link_event list"

fun request_loop ::
  "nat \<Rightarrow> u16 \<Rightarrow> byte list option \<Rightarrow> u16 \<Rightarrow> bool \<Rightarrow> u32 \<Rightarrow> host_link_err \<Rightarrow> link_event list
     \<Rightarrow> host_link_handler \<Rightarrow> request_result option" where
  "request_loop 0 cmd req_data req_len want timeout_ms ret evs h = Some (ret, None, h, evs)"
| "request_loop (Suc n) cmd req_data req_len want timeout_ms ret evs h =
     (let (fid, h1) = alloc_frame_id h;
          (sr, h2) = send_wire h1 (mk_header fid HOST_LINK_TYPE_REQUEST cmd req_len) req_data req_len
      in if sr \<noteq> HOST_LINK_OK
         then request_loop n cmd req_data req_len want timeout_ms sr evs h2
         else (case wait_for_ack_timeout h2 HOST_LINK_TYPE_RESPONSE cmd fid timeout_ms evs of
                 None \<Rightarrow> None
               | Some (wr, ack, h3, evs1) \<Rightarrow>
                   if wr = HOST_LINK_OK \<and> hd_len (fr_header ack) > 0 \<and> fr_payload ack \<noteq> None \<and> want
                   then Some (HOST_LINK_OK, fr_payload ack, h3, evs1)
                   else (let h4 = free_opt (fr_payload ack) h3
                         in if wr = HOST_LINK_OK then Some (HOST_LINK_OK, None, h4, evs1)
                            else request_loop n cmd req_data req_len want timeout_ms wr evs1 h4)))"

definition host_link_request_timeout ::
  "host_link_handler \<Rightarrow> u16 \<Rightarrow> byte list option \<Rightarrow> u16 \<Rightarrow> bool \<Rightarrow> u32 \<Rightarrow> link_event list
     \<Rightarrow> request_result option" where
  "host_link_request_timeout h cmd req_data req_len want timeout_ms evs =
     (if req_len > 0 \<and> req_data = None then Some (HOST_LINK_ERR_INVALID_ARG, None, h, evs)
      else if req_len > CFG_MAX_PAYLOAD then Some (HOST_LINK_ERR_INVALID_SIZE, None, h, evs)
      else request_loop CFG_REQUEST_RETRY cmd req_data req_len want timeout_ms
             HOST_LINK_ERR_TIMEOUT evs h)"

definition host_link_request ::
  "host_link_handler \<Rightarrow> u16 \<Rightarrow> byte list option \<Rightarrow> u16 \<Rightarrow> bool \<Rightarrow> link_event list
     \<Rightarrow> request_result option" where
  "host_link_request h cmd req_data req_len want evs =
     host_link_request_timeout h cmd req_data req_len want CFG_ACK_TIMEOUT_MS evs"

text \<open>\<open>host_link_init\<close>: the pointers passed in and the objects created are
  booleans (not null); the surroundings \<open>env\<close> supply the outer fields.\<close>

definition zero_async :: async_slot where
  "zero_async = \<lparr>as_used = False, as_id = 0, as_cmd = 0, as_started_ms = 0, as_cb = None,
     as_cb_user = 0\<rparr>"

definition host_link_init ::
  "bool \<Rightarrow> bool \<Rightarrow> bool \<Rightarrow> bool \<Rightarrow> bool \<Rightarrow> bool \<Rightarrow> host_link_handler \<Rightarrow> host_link_handler option" where
  "host_link_init send_fn notify_fn mem lock ack_sem notify_sem env =
     (if \<not> send_fn \<or> \<not> notify_fn then None
      else if \<not> mem then None
      else if \<not> lock \<or> \<not> ack_sem \<or> \<not> notify_sem then None
      else Some (env\<lparr>hl_ready := True, hl_next_frame_id := 0, hl_parse_state := PS_SYNC0,
        hl_parse_got := 0, hl_hdr_raw := replicate 14 0, hl_pend_hdr := zero_header,
        hl_pend_payload := None, hl_pend_pay_need := 0,
        hl_notify_slot := replicate CFG_NOTIFY_DEPTH zero_frame,
        hl_ack_slot := replicate CFG_ACK_SLOTS zero_frame,
        hl_ack_tick := replicate CFG_ACK_SLOTS 0,
        hl_async_slot := replicate CFG_ASYNC_MAX zero_async,
        hl_ack_sem := 0, hl_notify_sem := 0, hl_live := hl_live env + 1\<rparr>))"

fun free_slots :: "host_link_frame list \<Rightarrow> host_link_handler \<Rightarrow> host_link_frame list \<times> host_link_handler" where
  "free_slots [] h = ([], h)"
| "free_slots (f # fs) h =
     (let (f1, h1) = free_frame_payload f h; (fs1, h2) = free_slots fs h1 in (f1 # fs1, h2))"

definition host_link_deinit :: "host_link_handler \<Rightarrow> host_link_handler" where
  "host_link_deinit h =
     (let h0 = h\<lparr>hl_ready := False, hl_ack_sem := hl_ack_sem h + 1,
                 hl_notify_sem := hl_notify_sem h + 1\<rparr>;
          (ns, h1) = free_slots (hl_notify_slot h0) h0;
          h1' = h1\<lparr>hl_notify_slot := ns\<rparr>;
          (ks, h2) = free_slots (hl_ack_slot h1') h1';
          h2' = h2\<lparr>hl_ack_slot := ks,
                   hl_async_slot := map (\<lambda>s. s\<lparr>as_used := False\<rparr>) (hl_async_slot h2)\<rparr>;
          h3 = (free_opt (hl_pend_payload h2') h2')\<lparr>hl_pend_payload := None\<rparr>
      in host_link_port_free h3)"

text \<open>\<open>host_link_poll\<close>, in its three loops.\<close>

type_synonym notify_fn =
  "host_link_handler \<Rightarrow> host_link_frame \<Rightarrow> host_link_frame \<times> host_link_handler"

fun poll_notify :: "notify_fn \<Rightarrow> nat list \<Rightarrow> host_link_handler \<Rightarrow> bool \<times> host_link_handler" where
  "poll_notify cb [] h = (True, h)"
| "poll_notify cb (i # is) h =
     (if \<not> hl_ready h then (False, h)
      else if fr_is_valid (hl_notify_slot h ! i)
      then (let fr = hl_notify_slot h ! i;
                h1 = h\<lparr>hl_notify_slot := (hl_notify_slot h)[i :=
                        fr\<lparr>fr_payload := None, fr_is_valid := False\<rparr>]\<rparr>;
                (fr1, h2) = cb h1 fr;
                (_, h3) = free_frame_payload fr1 h2
            in poll_notify cb is h3)
      else poll_notify cb is h)"

definition poll_ack1 :: "u32 \<Rightarrow> nat \<Rightarrow> host_link_handler \<Rightarrow> host_link_handler" where
  "poll_ack1 now i h =
     (if fr_is_valid (hl_ack_slot h ! i)
         \<and> host_link_port_tick_diff_ms (hl_ack_tick h ! i) now \<ge> CFG_ACK_TIMEOUT_MS
      then (case free_frame_payload (hl_ack_slot h ! i) h of
              (f, h1) \<Rightarrow> h1\<lparr>hl_ack_slot := (hl_ack_slot h1)[i := f]\<rparr>)
      else h)"

definition poll_async1 :: "u32 \<Rightarrow> nat \<Rightarrow> host_link_handler \<Rightarrow> host_link_handler" where
  "poll_async1 now i h =
     (let s = hl_async_slot h ! i in
      if as_used s \<and> host_link_port_tick_diff_ms (as_started_ms s) now \<ge> CFG_ACK_TIMEOUT_MS
      then call_done (as_cb s) (as_cb_user s) HOST_LINK_ERR_TIMEOUT None 0
             (h\<lparr>hl_async_slot := (hl_async_slot h)[i := s\<lparr>as_used := False\<rparr>]\<rparr>)
      else h)"

definition host_link_poll :: "notify_fn \<Rightarrow> host_link_handler \<Rightarrow> host_link_handler" where
  "host_link_poll cb h =
     (case poll_notify cb [0..<CFG_NOTIFY_DEPTH] h of
        (False, h1) \<Rightarrow> h1
      | (True, h1) \<Rightarrow>
          (let now = hl_tick h1;
               h2 = fold (poll_ack1 now) [0..<CFG_ACK_SLOTS] h1;
               h3 = fold (poll_async1 now) [0..<CFG_ASYNC_MAX] h2
           in if hl_ready h3 then h3\<lparr>hl_notify_sem := hl_notify_sem h3 - 1\<rparr> else h3))"

definition host_link_request_async ::
  "host_link_handler \<Rightarrow> u16 \<Rightarrow> byte list option \<Rightarrow> u16 \<Rightarrow> nat option \<Rightarrow> nat
     \<Rightarrow> host_link_err \<times> host_link_handler" where
  "host_link_request_async h cmd req_data req_len done_cb done_user =
     (if done_cb = None \<or> (req_len > 0 \<and> req_data = None) then (HOST_LINK_ERR_INVALID_ARG, h)
      else if req_len > CFG_MAX_PAYLOAD then (HOST_LINK_ERR_INVALID_SIZE, h)
      else case first_idx (\<lambda>s. \<not> as_used s) (hl_async_slot h) of
             None \<Rightarrow> (HOST_LINK_ERR_NO_SLOT, h)
           | Some slot \<Rightarrow>
               (let fid = hl_next_frame_id h;
                    h1 = h\<lparr>hl_next_frame_id := fid + 1,
                           hl_async_slot := (hl_async_slot h)[slot :=
                             \<lparr>as_used = True, as_id = fid, as_cmd = cmd,
                              as_started_ms = hl_tick h, as_cb = done_cb,
                              as_cb_user = done_user\<rparr>]\<rparr>;
                    (ret, h2) = send_wire h1 (mk_header fid HOST_LINK_TYPE_REQUEST cmd req_len)
                                  req_data req_len
                in if ret \<noteq> HOST_LINK_OK
                   then (ret, call_done done_cb done_user ret None 0
                          (h2\<lparr>hl_async_slot := (hl_async_slot h2)[slot :=
                             (hl_async_slot h2 ! slot)\<lparr>as_used := False\<rparr>]\<rparr>))
                   else (ret, h2)))"

definition host_link_response ::
  "host_link_handler \<Rightarrow> host_link_frame \<Rightarrow> byte list option \<Rightarrow> u16
     \<Rightarrow> host_link_err \<times> host_link_handler" where
  "host_link_response h req_frame data len =
     (if len > 0 \<and> data = None then (HOST_LINK_ERR_INVALID_ARG, h)
      else if len > CFG_MAX_PAYLOAD then (HOST_LINK_ERR_INVALID_SIZE, h)
      else send_wire h (mk_header (hd_frame_id (fr_header req_frame)) HOST_LINK_TYPE_RESPONSE
             (hd_cmd (fr_header req_frame)) len) data len)"

fun event_loop ::
  "nat \<Rightarrow> u16 \<Rightarrow> byte list option \<Rightarrow> u16 \<Rightarrow> host_link_err \<Rightarrow> link_event list \<Rightarrow> host_link_handler
     \<Rightarrow> (host_link_err \<times> host_link_handler \<times> link_event list) option" where
  "event_loop 0 cmd data len ret evs h = Some (ret, h, evs)"
| "event_loop (Suc n) cmd data len ret evs h =
     (let (fid, h1) = alloc_frame_id h;
          (sr, h2) = send_wire h1 (mk_header fid HOST_LINK_TYPE_EVENT cmd len) data len
      in if sr \<noteq> HOST_LINK_OK then event_loop n cmd data len sr evs h2
         else (case wait_for_ack h2 HOST_LINK_TYPE_EVENT_ACK cmd fid evs of
                 None \<Rightarrow> None
               | Some (wr, ack, h3, evs1) \<Rightarrow>
                   (let h4 = free_opt (fr_payload ack) h3
                    in if wr = HOST_LINK_OK then Some (wr, h4, evs1)
                       else event_loop n cmd data len wr evs1 h4)))"

definition host_link_send_event ::
  "host_link_handler \<Rightarrow> u16 \<Rightarrow> byte list option \<Rightarrow> u16 \<Rightarrow> link_event list
     \<Rightarrow> (host_link_err \<times> host_link_handler \<times> link_event list) option" where
  "host_link_send_event h cmd data len evs =
     (if len > 0 \<and> data = None then Some (HOST_LINK_ERR_INVALID_ARG, h, evs)
      else if len > CFG_MAX_PAYLOAD then Some (HOST_LINK_ERR_INVALID_SIZE, h, evs)
      else event_loop CFG_REQUEST_RETRY cmd data len HOST_LINK_ERR_TIMEOUT evs h)"

definition host_link_event_ack ::
  "host_link_handler \<Rightarrow> host_link_frame \<Rightarrow> host_link_err \<times> host_link_handler" where
  "host_link_event_ack h event_frame =
     send_wire h (mk_header (hd_frame_id (fr_header event_frame)) HOST_LINK_TYPE_EVENT_ACK
       (hd_cmd (fr_header event_frame)) 0) None 0"

text \<open>The caller's buffer holds the length it passes, and its contents.\<close>

definition payload_fits :: "byte list option \<Rightarrow> u16 \<Rightarrow> bool" where
  "payload_fits data len \<longleftrightarrow> (case data of None \<Rightarrow> len = 0 | Some p \<Rightarrow> length p = unat len)"

definition payload_of :: "byte list option \<Rightarrow> byte list" where
  "payload_of data = (case data of None \<Rightarrow> [] | Some p \<Rightarrow> p)"

subsection \<open>Fields the invariant does not depend on\<close>

lemma hl_inv_upd [simp]:
  "hl_inv (h\<lparr>hl_mem := a\<rparr>) = hl_inv h" "hl_inv (h\<lparr>hl_live := b\<rparr>) = hl_inv h"
  "hl_inv (h\<lparr>hl_tick := c\<rparr>) = hl_inv h" "hl_inv (h\<lparr>hl_tx := d\<rparr>) = hl_inv h"
  "hl_inv (h\<lparr>hl_send_rc := e\<rparr>) = hl_inv h" "hl_inv (h\<lparr>hl_next_frame_id := f\<rparr>) = hl_inv h"
  "hl_inv (h\<lparr>hl_ack_sem := g\<rparr>) = hl_inv h" "hl_inv (h\<lparr>hl_notify_sem := i\<rparr>) = hl_inv h"
  "hl_inv (h\<lparr>hl_ready := r\<rparr>) = hl_inv h" "hl_inv (h\<lparr>hl_done := dn\<rparr>) = hl_inv h"
  by (simp_all add: hl_inv_def slots_inv_def parser_inv_def
        cong: parse_state.case_cong option.case_cong)

lemma hl_balance_upd [simp]:
  "hl_balance (h\<lparr>hl_mem := a\<rparr>) = hl_balance h" "hl_balance (h\<lparr>hl_tick := c\<rparr>) = hl_balance h"
  "hl_balance (h\<lparr>hl_tx := d\<rparr>) = hl_balance h" "hl_balance (h\<lparr>hl_send_rc := e\<rparr>) = hl_balance h"
  "hl_balance (h\<lparr>hl_next_frame_id := f\<rparr>) = hl_balance h"
  "hl_balance (h\<lparr>hl_ack_sem := g\<rparr>) = hl_balance h"
  "hl_balance (h\<lparr>hl_notify_sem := i\<rparr>) = hl_balance h"
  "hl_balance (h\<lparr>hl_ready := r\<rparr>) = hl_balance h"
  "hl_balance (h\<lparr>hl_async_slot := s\<rparr>) = hl_balance h"
  "hl_balance (h\<lparr>hl_live := l\<rparr>) = hl_balance h + (l - hl_live h)"
  by (simp_all add: hl_balance_def)

lemma free_opt_inv [simp]:
  "hl_inv (free_opt p h) = hl_inv h" "hl_balance (free_opt p h) = hl_balance h - owns p"
  "hl_tx (free_opt p h) = hl_tx h" "hl_ready (free_opt p h) = hl_ready h"
  "hl_next_frame_id (free_opt p h) = hl_next_frame_id h" "hl_tick (free_opt p h) = hl_tick h"
  by (simp_all add: free_opt_eq)

lemma call_done_inv [simp]:
  "hl_inv (call_done c u e p l h) = hl_inv h"
  "c \<noteq> None \<Longrightarrow> hl_balance (call_done c u e p l h) = hl_balance h - owns p"
  by (auto simp: call_done_def hl_balance_def split: option.splits)

subsection \<open>Sending\<close>

lemma wire_buffer:
  assumes "length buf = 16 + length p"
  shows "poke (14 + length p) (le16 c) (poke 14 p (poke 0 (hdr_bytes hdr) buf))
    = hdr_bytes hdr @ p @ le16 c"
proof -
  have 1: "poke 0 (hdr_bytes hdr) buf = hdr_bytes hdr @ drop 14 buf"
    by (simp add: poke_def)
  have 2: "poke 14 p (hdr_bytes hdr @ drop 14 buf) = hdr_bytes hdr @ p @ drop (14 + length p) buf"
    using assms by (subst poke_append_at) (simp_all add: add.commute)
  have "poke (14 + length p) (le16 c) ((hdr_bytes hdr @ p) @ drop (14 + length p) buf)
      = (hdr_bytes hdr @ p) @ le16 c @ drop 2 (drop (14 + length p) buf)"
    using assms by (subst poke_append_at) simp_all
  then show ?thesis using 1 2 assms by simp
qed

lemma send_wire_cases:
  assumes s: "send_wire h hdr data len = (r, h')" and fits: "payload_fits data len"
  obtains "r = HOST_LINK_ERR_NO_MEM" "h' = h\<lparr>hl_mem := tl (hl_mem h)\<rparr>"
  | "r \<in> {HOST_LINK_OK, HOST_LINK_ERR_SEND}"
    "h' = h\<lparr>hl_mem := tl (hl_mem h), hl_send_rc := tl (hl_send_rc h),
            hl_tx := hl_tx h @ [wire_frame hdr (payload_of data)]\<rparr>"
proof -
  let ?n = "unat len"
  obtain p h1 where m: "host_link_port_malloc (14 + ?n + 2) h = (p, h1)" by (metis prod.exhaust)
  have pl: "length (payload_of data) = ?n"
    using fits by (auto simp: payload_fits_def payload_of_def split: option.splits)
  have pay: "(if len > 0 \<and> data \<noteq> None then the data else []) = payload_of data"
    using fits by (auto simp: payload_fits_def payload_of_def word_gt_0 unat_eq_zero
      split: option.splits)
  from m show ?thesis
  proof (cases rule: malloc_cases)
    case 1
    then show ?thesis using s m that(1) by (simp add: send_wire_def Let_def)
  next
    case 2
    let ?buf = "replicate (14 + ?n + 2) (hl_junk h)"
    let ?b1 = "poke 0 (hdr_bytes (seal_header hdr)) ?buf"
    have "(if len > 0 \<and> data \<noteq> None then poke 14 (take ?n (the data)) ?b1 else ?b1)
        = poke 14 (payload_of data) ?b1"
      using pay pl by (auto simp: poke_def split: if_splits)
    then have "poke (14 + ?n) (le16 (host_link_crc16 (payload_of data) ?n))
         (if len > 0 \<and> data \<noteq> None then poke 14 (take ?n (the data)) ?b1 else ?b1)
        = wire_frame hdr (payload_of data)"
      using wire_buffer [of ?buf "payload_of data"] pl by (simp add: wire_frame_def)
    then show ?thesis using s m 2 pay that(2)
      by (auto simp: send_wire_def Let_def call_send_fn_def host_link_port_free_def
            split: if_splits)
  qed
qed

end
