(* ===== verification/Host_Link_Spec.thy ===== *)
theory Host_Link_Spec
  imports Host_Link_Inv
begin

text \<open>
  What the receive side of the board link promises, stated without buffers,
  indices or memory: a decoder \<open>rx_step\<close> that turns received bytes into
  frames.  The lemmas show that \<open>feed_byte\<close> refines it whenever memory is
  available, that a stream of frames written by \<open>send_wire\<close> decodes to
  exactly those frames, also after line noise, and that damaged frames are
  dropped.
\<close>

datatype rx = RxSync0 | RxSync1 | RxHdr "byte list" | RxPay host_link_header "byte list"

type_synonym rx_frame = "host_link_header \<times> byte list"

fun rx_step :: "rx \<Rightarrow> byte \<Rightarrow> rx \<times> rx_frame list" where
  "rx_step RxSync0 b = (if b = 0x48 then RxSync1 else RxSync0, [])"
| "rx_step RxSync1 b =
     (if b = 0x4C then RxHdr [0x48, 0x4C] else if b = 0x48 then RxSync1 else RxSync0, [])"
| "rx_step (RxHdr bs) b =
     (let bs' = bs @ [b]; hdr = hdr_of_bytes bs' in
      if length bs' < 14 then (RxHdr bs', [])
      else if unat (hd_len hdr) > 512 then (RxSync0, []) else (RxPay hdr [], []))"
| "rx_step (RxPay hdr bs) b =
     (let bs' = bs @ [b]; l = unat (hd_len hdr); p = take l bs' in
      if length bs' < l + 2 then (RxPay hdr bs', [])
      else (RxSync0, if un16 (drop l bs') = host_link_crc16 p l then [(hdr, p)] else []))"

fun rx_run :: "rx \<Rightarrow> byte list \<Rightarrow> rx \<times> rx_frame list" where
  "rx_run s [] = (s, [])"
| "rx_run s (b # bs) =
     (case rx_step s b of (s1, fs) \<Rightarrow> case rx_run s1 bs of (s2, gs) \<Rightarrow> (s2, fs @ gs))"

text \<open>The decoder state a handler stands for, the part of the handler the other
  operations see, and the effect of one decoded frame on it.\<close>

definition rx_abs :: "host_link_handler \<Rightarrow> rx" where
  "rx_abs h =
     (case hl_parse_state h of
        PS_SYNC0 \<Rightarrow> RxSync0 | PS_SYNC1 \<Rightarrow> RxSync1
      | PS_HDR \<Rightarrow> RxHdr (take (unat (hl_parse_got h)) (hl_hdr_raw h))
      | PS_PAYLOAD \<Rightarrow>
          RxPay (hl_pend_hdr h) (take (unat (hl_parse_got h)) (the (hl_pend_payload h))))"

record rx_view =
  v_ready :: bool
  v_tick :: u32
  v_notify :: "host_link_frame list"
  v_ack :: "host_link_frame list"
  v_ack_tick :: "u32 list"
  v_async :: "async_slot list"
  v_done :: "done_call list"

definition view :: "host_link_handler \<Rightarrow> rx_view" where
  "view h = \<lparr>v_ready = hl_ready h, v_tick = hl_tick h, v_notify = hl_notify_slot h,
     v_ack = hl_ack_slot h, v_ack_tick = hl_ack_tick h, v_async = hl_async_slot h,
     v_done = hl_done h\<rparr>"

definition frame_of :: "rx_frame \<Rightarrow> host_link_frame" where
  "frame_of x = \<lparr>fr_header = fst x, fr_payload = (if snd x = [] then None else Some (snd x)),
     fr_payload_crc = host_link_crc16 (snd x) (length (snd x)), fr_is_valid = True\<rparr>"

definition rx_deliver :: "rx_frame \<Rightarrow> host_link_handler \<Rightarrow> host_link_handler" where
  "rx_deliver x h = snd (snd (deal_one_frame h (frame_of x)))"

text \<open>Relation of one step of the C parser to one step of the decoder.\<close>

definition step_ok :: "host_link_handler \<Rightarrow> rx \<times> rx_frame list \<Rightarrow> host_link_handler \<Rightarrow> bool" where
  "step_ok h r h' \<longleftrightarrow> rx_abs h' = fst r \<and> view h' = view (fold rx_deliver (snd r) h) \<and> hl_mem h' = []"

text \<open>A header and payload \<open>send_wire\<close> can be given.\<close>

definition sendable :: "host_link_header \<times> byte list \<Rightarrow> bool" where
  "sendable x \<longleftrightarrow> hd_magic (fst x) = HOST_LINK_MAGIC \<and> unat (hd_len (fst x)) = length (snd x)
     \<and> length (snd x) \<le> 512"

subsection \<open>The decoder on whole streams\<close>

lemma rx_run_append:
  "rx_run s (xs @ ys) =
     (case rx_run s xs of (s1, fs) \<Rightarrow> case rx_run s1 ys of (s2, gs) \<Rightarrow> (s2, fs @ gs))"
  by (induction xs arbitrary: s) (auto split: prod.splits)

lemma rx_run_hdr:
  "length bs + length xs < 14 \<Longrightarrow> rx_run (RxHdr bs) xs = (RxHdr (bs @ xs), [])"
  by (induction xs arbitrary: bs) (simp_all add: Let_def)

lemma rx_run_pay:
  "length bs + length xs < unat (hd_len hdr) + 2 \<Longrightarrow>
     rx_run (RxPay hdr bs) xs = (RxPay hdr (bs @ xs), [])"
  by (induction xs arbitrary: bs) (simp_all add: Let_def)

lemma rx_run_hdr_full:
  assumes "length xs = 14 - length bs" "length bs < 14" "unat (hd_len (hdr_of_bytes (bs @ xs))) \<le> 512"
  shows "rx_run (RxHdr bs) xs = (RxPay (hdr_of_bytes (bs @ xs)) [], [])"
proof -
  obtain ys y where x: "xs = ys @ [y]"
    using assms(1,2) by (metis list.size(3) not_less rev_exhaust zero_less_diff less_irrefl)
  then show ?thesis
    using assms rx_run_hdr [of bs ys] by (simp add: rx_run_append Let_def)
qed

lemma rx_run_pay_full:
  assumes "length xs = unat (hd_len hdr) + 2"
  shows "rx_run (RxPay hdr []) xs =
    (RxSync0, if un16 (drop (unat (hd_len hdr)) xs)
                 = host_link_crc16 (take (unat (hd_len hdr)) xs) (unat (hd_len hdr))
              then [(hdr, take (unat (hd_len hdr)) xs)] else [])"
proof -
  obtain ys y where x: "xs = ys @ [y]"
    using assms by (metis Zero_not_Suc add_2_eq_Suc' list.size(3) rev_exhaust)
  then show ?thesis
    using assms rx_run_pay [of "[]" ys hdr] by (simp add: rx_run_append Let_def)
qed

lemma hdr_bytes_magic:
  "hd_magic hdr = HOST_LINK_MAGIC \<Longrightarrow> hdr_bytes hdr = 0x48 # 0x4C # drop 2 (hdr_bytes hdr)"
  by (simp add: hdr_bytes_def le16_def lo8_def hi8_def)

lemma rx_run_header:
  assumes m: "hd_magic hdr = HOST_LINK_MAGIC" and l: "unat (hd_len hdr) \<le> 512"
    and s: "s = RxSync0 \<or> s = RxSync1"
  shows "rx_run s (hdr_bytes hdr) = (RxPay hdr [], [])"
proof -
  have e: "hdr_of_bytes ([0x48, 0x4C] @ drop 2 (hdr_bytes hdr)) = hdr"
    using hdr_bytes_magic [OF m] hdr_codec.dec_enc_only [of hdr] by simp
  have "rx_run s (0x48 # 0x4C # drop 2 (hdr_bytes hdr)) = (RxPay hdr [], [])"
    using s rx_run_hdr_full [of "drop 2 (hdr_bytes hdr)" "[0x48, 0x4C]"] l e by auto
  then show ?thesis using hdr_bytes_magic [OF m] by simp
qed

lemma rx_run_body:
  assumes m: "hd_magic hdr = HOST_LINK_MAGIC" and l: "unat (hd_len hdr) = length p" "length p \<le> 512"
    and s: "s = RxSync0 \<or> s = RxSync1" and b: "length body = length p" and c: "length ck = 2"
  shows "rx_run s (hdr_bytes hdr @ body @ ck) =
    (RxSync0, if un16 ck = host_link_crc16 body (length p) then [(hdr, body)] else [])"
  using rx_run_header [OF m _ s] rx_run_pay_full [of "body @ ck" hdr] assms
  by (simp add: rx_run_append)

lemma rx_run_wire:
  assumes "hd_magic hdr = HOST_LINK_MAGIC" "unat (hd_len hdr) = length p" "length p \<le> 512"
    "s = RxSync0 \<or> s = RxSync1"
  shows "rx_run s (wire_frame hdr p) = (RxSync0, [(seal_header hdr, p)])"
  using rx_run_body [of "seal_header hdr" p s p "le16 (host_link_crc16 p (length p))"] assms
  by (simp add: wire_frame_def)

lemma rx_run_noise:
  "0x4C \<notin> set noise \<Longrightarrow> s = RxSync0 \<or> s = RxSync1 \<Longrightarrow>
     \<exists>s'. rx_run s noise = (s', []) \<and> (s' = RxSync0 \<or> s' = RxSync1)"
proof (induction noise arbitrary: s)
  case (Cons b bs)
  have "\<exists>s1. rx_step s b = (s1, []) \<and> (s1 = RxSync0 \<or> s1 = RxSync1)"
    using Cons.prems by auto
  then show ?case using Cons.IH Cons.prems by fastforce
qed simp

lemma rx_run_stream:
  "list_all sendable xs \<Longrightarrow>
     rx_run RxSync0 (concat (map (\<lambda>(hdr, p). wire_frame hdr p) xs))
       = (RxSync0, map (\<lambda>(hdr, p). (seal_header hdr, p)) xs)"
  by (induction xs) (auto simp: sendable_def rx_run_append rx_run_wire)

subsection \<open>The C parser refines the decoder\<close>

lemma view_eqD:
  assumes "view g = view h"
  shows "hl_ready g = hl_ready h" "hl_tick g = hl_tick h"
    "hl_notify_slot g = hl_notify_slot h" "hl_ack_slot g = hl_ack_slot h"
    "hl_ack_tick g = hl_ack_tick h" "hl_async_slot g = hl_async_slot h" "hl_done g = hl_done h"
  using assms by (simp_all add: view_def)

lemma view_call_done_cong:
  "view g = view h \<Longrightarrow> view (call_done c u e p l g) = view (call_done c u e p l h)"
  by (cases c) (simp_all add: view_def call_done_def)

lemma view_deal_cong:
  assumes "view g = view h"
  shows "view (snd (snd (deal_one_frame g f))) = view (snd (snd (deal_one_frame h f)))"
  using assms view_eqD [OF assms]
  by (auto simp: deal_one_frame_def Let_def add_notify_frame_locked_def add_ack_frame_locked_def
        find_empty_notify_def find_empty_ack_def find_async_def view_def call_done_def
        split: option.splits)

lemma view_rx_deliver_cong: "view g = view h \<Longrightarrow> view (rx_deliver x g) = view (rx_deliver x h)"
  unfolding rx_deliver_def by (rule view_deal_cong)

lemma fold_view_cong:
  "view g = view h \<Longrightarrow> view (fold rx_deliver fs g) = view (fold rx_deliver fs h)"
proof (induction fs arbitrary: g h)
  case (Cons x fs)
  show ?case using Cons.IH [OF view_rx_deliver_cong [OF Cons.prems, of x]] by simp
qed simp

lemma view_parser_upd [simp]:
  "view (h\<lparr>hl_parse_state := a\<rparr>) = view h" "view (h\<lparr>hl_parse_got := b\<rparr>) = view h"
  "view (h\<lparr>hl_hdr_raw := c\<rparr>) = view h" "view (h\<lparr>hl_pend_hdr := d\<rparr>) = view h"
  "view (h\<lparr>hl_pend_payload := e\<rparr>) = view h" "view (h\<lparr>hl_pend_pay_need := n\<rparr>) = view h"
  "view (h\<lparr>hl_live := i\<rparr>) = view h" "view (h\<lparr>hl_mem := m\<rparr>) = view h"
  by (simp_all add: view_def)

lemma parse_reset_view [simp]: "view (parse_reset h) = view h"
  by (simp add: parse_reset_eq)

lemma parse_reset_misc [simp]:
  "rx_abs (parse_reset h) = RxSync0" "hl_mem (parse_reset h) = hl_mem h"
  by (simp_all add: rx_abs_def parse_reset_eq)

lemma finish_deal_refines:
  "view (finish_deal f h) = view (snd (snd (deal_one_frame h f)))
   \<and> rx_abs (finish_deal f h) = RxSync0 \<and> hl_mem (finish_deal f h) = hl_mem h"
proof -
  obtain r f' h' where d: "deal_one_frame h f = (r, f', h')" by (metis prod_cases3)
  then show ?thesis
    using deal_keeps [OF d] by (simp add: finish_deal_def free_frame_payload_def free_opt_eq)
qed

lemma malloc_ok:
  "hl_mem h = [] \<Longrightarrow> host_link_port_malloc n h =
     (Some (replicate n (hl_junk h)), h\<lparr>hl_mem := [], hl_live := hl_live h + 1\<rparr>)"
  by (simp add: host_link_port_malloc_def)

lemma poke_whole: "length ys = length xs \<Longrightarrow> poke 0 ys xs = ys"
  by (simp add: poke_def)

lemma feed_finish_refines:
  assumes raw: "hl_pend_payload h = Some raw" "length raw = unat (hd_len (hl_pend_hdr h)) + 2"
    and mem: "hl_mem h = []"
  shows "step_ok h
    (RxSync0, let l = unat (hd_len (hl_pend_hdr h)) in
       if un16 (drop l raw) = host_link_crc16 (take l raw) l
       then [(hl_pend_hdr h, take l raw)] else [])
    (feed_finish_payload h)"
proof -
  let ?l = "hd_len (hl_pend_hdr h)"
  let ?d = "\<lambda>g. (host_link_port_free g)\<lparr>hl_pend_payload := None\<rparr>"
  let ?ok = "un16 (drop (unat ?l) raw) = host_link_crc16 (take (unat ?l) raw) (unat ?l)"
  have crc: "payload_crc_ok (Some raw) ?l (un16 (drop (unat ?l) raw)) = HOST_LINK_OK \<longleftrightarrow> ?ok"
    by (auto simp: payload_crc_ok_def host_link_crc16_def Let_def word_gt_0)
  have v: "view (?d g) = view g" "hl_mem (?d g) = hl_mem g" for g
    by (simp_all add: host_link_port_free_def)
  show ?thesis
  proof (cases ?ok)
    case False
    then show ?thesis
      using crc raw v mem by (simp add: feed_finish_payload_def step_ok_def Let_def)
  next
    case ok: True
    show ?thesis
    proof (cases "?l > 0")
      case False
      then have l0: "?l = 0" by (simp add: word_gt_0)
      let ?f = "zero_frame\<lparr>fr_header := hl_pend_hdr h, fr_payload_crc := un16 raw,
                           fr_is_valid := True\<rparr>"
      have f: "?f = frame_of (hl_pend_hdr h, [])"
        using ok l0 by (simp add: frame_of_def zero_frame_def)
      have e: "feed_finish_payload h = finish_deal (frame_of (hl_pend_hdr h, [])) (?d h)"
        unfolding f [symmetric] using ok crc raw l0 by (simp add: feed_finish_payload_def Let_def)
      show ?thesis
        unfolding e step_ok_def
        using finish_deal_refines [of "frame_of (hl_pend_hdr h, [])" "?d h"] ok l0 mem v(2) [of h]
          view_deal_cong [OF v(1) [of h]]
        by (simp add: rx_deliver_def Let_def)
    next
      case True
      let ?p = "take (unat ?l) raw"
      let ?f = "zero_frame\<lparr>fr_header := hl_pend_hdr h,
                  fr_payload_crc := un16 (drop (unat ?l) raw), fr_is_valid := True,
                  fr_payload := Some ?p\<rparr>"
      let ?g = "h\<lparr>hl_mem := [], hl_live := hl_live h + 1\<rparr>"
      have pl: "length ?p = unat ?l" "?p \<noteq> []"
        using raw True by (auto simp: word_gt_0 unat_eq_zero)
      have f: "?f = frame_of (hl_pend_hdr h, ?p)"
        using ok pl by (simp add: frame_of_def zero_frame_def)
      have e: "feed_finish_payload h = finish_deal (frame_of (hl_pend_hdr h, ?p)) (?d ?g)"
        unfolding f [symmetric]
        using ok crc raw True mem malloc_ok [OF mem, of "unat ?l"]
        by (simp add: feed_finish_payload_def Let_def poke_whole)
      have "view (?d ?g) = view h" using v(1) [of ?g] by simp
      then show ?thesis
        unfolding e step_ok_def
        using finish_deal_refines [of "frame_of (hl_pend_hdr h, ?p)" "?d ?g"] ok v(2) [of ?g]
          view_deal_cong [of "?d ?g" h "frame_of (hl_pend_hdr h, ?p)"]
        by (simp add: rx_deliver_def Let_def)
    qed
  qed
qed

lemma rx_abs_payload:
  "rx_abs (h\<lparr>hl_pend_payload := p, hl_parse_got := 0, hl_parse_state := PS_PAYLOAD\<rparr>)
     = RxPay (hl_pend_hdr h) []"
  by (simp add: rx_abs_def)

lemma hdr_complete_refines:
  assumes r: "length (hl_hdr_raw h) = 14" and mem: "hl_mem h = []"
  shows "step_ok h
    (let hdr = hdr_of_bytes (hl_hdr_raw h) in
       if unat (hd_len hdr) > 512 then RxSync0 else RxPay hdr [], [])
    (hdr_complete h)"
proof -
  let ?hdr = "hdr_of_bytes (hl_hdr_raw h)"
  have gt: "hd_len ?hdr > 512 \<longleftrightarrow> unat (hd_len ?hdr) > 512" by (simp add: unat_order)
  have "hd_len ?hdr = 0 \<or> hd_len ?hdr > 0" by (simp add: word_gt_0)
  then show ?thesis
    using mem gt by (auto simp: hdr_complete_def Let_def step_ok_def malloc_ok rx_abs_payload)
qed

lemma take_Suc_update: "n < length xs \<Longrightarrow> take (Suc n) (xs[n := b]) = take n xs @ [b]"
  by (simp add: take_Suc_conv_app_nth)

lemma feed_byte_refines:
  assumes inv: "hl_inv h" and mem: "hl_mem h = []"
  shows "step_ok h (rx_step (rx_abs h) b) (feed_byte h b)"
proof (cases "hl_parse_state h")
  case PS_SYNC0
  then show ?thesis using mem by (simp add: feed_byte_def step_ok_def rx_abs_def lo8_def)
next
  case PS_SYNC1
  have "length (hl_hdr_raw h) = 14" using inv by (simp add: hl_inv_def parser_inv_def)
  then obtain x y r where "hl_hdr_raw h = x # y # r"
    by (cases "hl_hdr_raw h" rule: remdups_adj.cases) auto
  with PS_SYNC1 mem show ?thesis
    by (simp add: feed_byte_def step_ok_def rx_abs_def lo8_def hi8_def)
next
  case PS_HDR
  let ?g = "hl_parse_got h"
  let ?raw = "(hl_hdr_raw h)[unat ?g := b]"
  let ?h1 = "h\<lparr>hl_hdr_raw := ?raw, hl_parse_got := ?g + 1\<rparr>"
  have i: "length (hl_hdr_raw h) = 14" "?g < 14"
    using inv PS_HDR by (simp_all add: hl_inv_def parser_inv_def)
  have g: "unat ?g < 14" "unat (?g + 1) = Suc (unat ?g)"
    using i(2) unat_inc [OF i(2)] by (simp_all add: unat_order)
  have t: "take (Suc (unat ?g)) ?raw = take (unat ?g) (hl_hdr_raw h) @ [b]"
    using g i by (simp add: take_Suc_update)
  have f: "feed_byte h b = (if ?g + 1 = 14 then hdr_complete ?h1 else ?h1)"
    using PS_HDR i by (simp add: feed_byte_def Let_def)
  have a: "rx_abs h = RxHdr (take (unat ?g) (hl_hdr_raw h))"
    using PS_HDR by (simp add: rx_abs_def)
  have eq14: "?g + 1 = 14 \<longleftrightarrow> Suc (unat ?g) = 14"
    using g(2) by (simp add: word_unat_eq_iff)
  show ?thesis
  proof (cases "?g + 1 = 14")
    case True
    then have raw: "take (unat ?g) (hl_hdr_raw h) @ [b] = ?raw" using t eq14 i by simp
    have l: "length (take (unat ?g) (hl_hdr_raw h) @ [b]) = 14" using raw i by simp
    have s: "rx_step (rx_abs h) b =
        (if unat (hd_len (hdr_of_bytes ?raw)) > 512 then RxSync0 else RxPay (hdr_of_bytes ?raw) [], [])"
      using l unfolding a by (simp add: raw Let_def)
    have "step_ok ?h1 (rx_step (rx_abs h) b) (hdr_complete ?h1)"
      unfolding s using hdr_complete_refines [of ?h1] i mem by (simp add: Let_def)
    then show ?thesis using f True unfolding s by (simp add: step_ok_def)
  next
    case False
    then have "rx_step (rx_abs h) b = (RxHdr (take (unat ?g) (hl_hdr_raw h) @ [b]), [])"
      using g i eq14 unfolding a by (simp add: Let_def)
    moreover have "rx_abs ?h1 = RxHdr (take (unat ?g) (hl_hdr_raw h) @ [b])"
      using PS_HDR g(2) t by (simp add: rx_abs_def)
    ultimately show ?thesis using f False mem by (simp add: step_ok_def)
  qed
next
  case PS_PAYLOAD
  let ?g = "hl_parse_got h"
  let ?l = "hd_len (hl_pend_hdr h)"
  obtain buf where i: "hl_pend_payload h = Some buf"
    "length buf = unat (hl_pend_pay_need h)" "?g < hl_pend_pay_need h"
    "?l \<le> 512" "hl_pend_pay_need h = ?l + 2"
    using inv PS_PAYLOAD by (auto simp: hl_inv_def parser_inv_def split: option.splits)
  let ?buf = "buf[unat ?g := b]"
  let ?h1 = "h\<lparr>hl_pend_payload := Some ?buf, hl_parse_got := ?g + 1\<rparr>"
  have g: "unat (?g + 1) = Suc (unat ?g)" "unat ?g < unat ?l + 2" "length buf = unat ?l + 2"
    using unat_inc [OF i(3)] i(2,3,5) len_plus_2 [OF i(4)] by (simp_all add: unat_order)
  have f: "feed_byte h b = (if ?g + 1 \<ge> hl_pend_pay_need h then feed_finish_payload ?h1 else ?h1)"
    using PS_PAYLOAD i by (simp add: feed_byte_def Let_def)
  have a: "rx_abs h = RxPay (hl_pend_hdr h) (take (unat ?g) buf)"
    using PS_PAYLOAD i(1) by (simp add: rx_abs_def)
  have ge: "?g + 1 \<ge> hl_pend_pay_need h \<longleftrightarrow> \<not> Suc (unat ?g) < unat ?l + 2"
    using g i(5) len_plus_2 [OF i(4)] by (simp add: unat_order not_less)
  have t: "take (Suc (unat ?g)) ?buf = take (unat ?g) buf @ [b]"
    using g by (simp add: take_Suc_update)
  show ?thesis
  proof (cases "?g + 1 \<ge> hl_pend_pay_need h")
    case True
    then have raw: "take (unat ?g) buf @ [b] = ?buf" using t g ge by simp
    have l: "length (take (unat ?g) buf @ [b]) = unat ?l + 2" using raw g by simp
    have s: "rx_step (rx_abs h) b = (RxSync0, let l = unat ?l in
        if un16 (drop l ?buf) = host_link_crc16 (take l ?buf) l
        then [(hl_pend_hdr h, take l ?buf)] else [])"
      using l g unfolding a by (simp only: rx_step.simps raw Let_def length_list_update) simp
    have "step_ok ?h1 (rx_step (rx_abs h) b) (feed_finish_payload ?h1)"
      unfolding s using feed_finish_refines [of ?h1 ?buf] g mem by (simp add: Let_def cong: if_cong)
    moreover have "view (fold rx_deliver fs ?h1) = view (fold rx_deliver fs h)" for fs
    proof (rule fold_view_cong)
      show "view ?h1 = view h" by simp
    qed
    ultimately show ?thesis unfolding f step_ok_def using True by (simp only: if_True simp_thms)
  next
    case False
    then have "rx_step (rx_abs h) b = (RxPay (hl_pend_hdr h) (take (unat ?g) buf @ [b]), [])"
      using g ge unfolding a by (simp add: Let_def)
    moreover have "rx_abs ?h1 = RxPay (hl_pend_hdr h) (take (unat ?g) buf @ [b])"
      using PS_PAYLOAD g(1) t by (simp add: rx_abs_def)
    ultimately show ?thesis using f False mem by (simp add: step_ok_def)
  qed
qed

lemma rx_deliver_ready [simp]: "hl_ready (rx_deliver x h) = hl_ready h"
proof -
  obtain r f' h' where d: "deal_one_frame h (frame_of x) = (r, f', h')" by (metis prod_cases3)
  then show ?thesis using deal_keeps [OF d] by (simp add: rx_deliver_def)
qed

lemma fold_deliver_ready: "hl_ready (fold rx_deliver fs h) = hl_ready h"
  by (induction fs arbitrary: h) simp_all

lemma step_ok_ready: "step_ok h r h' \<Longrightarrow> hl_ready h' = hl_ready h"
  using view_eqD(1) fold_deliver_ready unfolding step_ok_def by metis

lemma step_ok_trans:
  assumes "step_ok h (s1, fs) h1" "step_ok h1 (s2, gs) h2"
  shows "step_ok h (s2, fs @ gs) h2"
proof -
  have "view (fold rx_deliver gs h1) = view (fold rx_deliver gs (fold rx_deliver fs h))"
    by (rule fold_view_cong) (use assms(1) in \<open>simp add: step_ok_def\<close>)
  then show ?thesis using assms(2) by (simp add: step_ok_def)
qed

lemma host_link_feed_step_ok:
  assumes "hl_inv h" "hl_mem h = []" "hl_ready h"
  shows "step_ok h (rx_run (rx_abs h) bs) (host_link_feed h bs)"
  using assms
proof (induction bs arbitrary: h)
  case Nil then show ?case by (simp add: step_ok_def)
next
  case (Cons b bs)
  obtain s1 fs where r: "rx_step (rx_abs h) b = (s1, fs)" by (metis prod.exhaust)
  obtain s2 gs where q: "rx_run s1 bs = (s2, gs)" by (metis prod.exhaust)
  have st: "step_ok h (s1, fs) (feed_byte h b)"
    using feed_byte_refines [OF Cons.prems(1,2), of b] r by simp
  then have "hl_mem (feed_byte h b) = []" "rx_abs (feed_byte h b) = s1"
    "hl_ready (feed_byte h b)"
    using step_ok_ready [OF st] Cons.prems(3) by (simp_all add: step_ok_def)
  then have "step_ok (feed_byte h b) (s2, gs) (host_link_feed (feed_byte h b) bs)"
    using Cons.IH [of "feed_byte h b"] feed_byte_inv [OF Cons.prems(1)] q by simp
  then show ?case using step_ok_trans [OF st] Cons.prems(3) r q by simp
qed

end
