(* ===== verification/Host_Link_Thms.thy ===== *)
theory Host_Link_Thms
  imports Host_Link_Api Host_Link_Spec
begin

text \<open>
  Lemmas on the calls of the board link: waiting for an acknowledgement, the
  retry loops, the asynchronous requests and polling.
\<close>

text \<open>Unfinished asynchronous requests, and the completions made plus those
  still owed.\<close>

definition async_pending :: "host_link_handler \<Rightarrow> nat" where
  "async_pending h = length (filter as_used (hl_async_slot h))"

definition async_total :: "host_link_handler \<Rightarrow> nat" where
  "async_total h = length (hl_done h) + async_pending h"

text \<open>Time that passes during a list of waits.\<close>

fun elapsed :: "link_event list \<Rightarrow> nat" where
  "elapsed [] = 0"
| "elapsed (Elapse dt # es) = unat dt + elapsed es"
| "elapsed (_ # es) = elapsed es"

fun slice_bounded :: "link_event \<Rightarrow> bool" where
  "slice_bounded (Elapse dt) = (dt \<le> 20)"
| "slice_bounded _ = True"

text \<open>The frames a call puts on the wire, one per attempt that had memory.\<close>

definition request_frames :: "u16 \<Rightarrow> byte list option \<Rightarrow> u16 \<Rightarrow> byte \<Rightarrow> u16 list \<Rightarrow> byte list list" where
  "request_frames cmd data len ty fids =
     map (\<lambda>fid. wire_frame (mk_header fid ty cmd len) (payload_of data)) fids"

subsection \<open>Waiting\<close>

text \<open>A quantity that the parser's own fields do not influence and that accepting
  a frame does not change is not changed by received bytes.\<close>

locale rx_measure =
  fixes m :: "host_link_handler \<Rightarrow> 'a"
  assumes m_state: "m (h\<lparr>hl_parse_state := a\<rparr>) = m h"
    and m_got: "m (h\<lparr>hl_parse_got := b\<rparr>) = m h"
    and m_raw: "m (h\<lparr>hl_hdr_raw := c\<rparr>) = m h"
    and m_hdr: "m (h\<lparr>hl_pend_hdr := d\<rparr>) = m h"
    and m_pay: "m (h\<lparr>hl_pend_payload := e\<rparr>) = m h"
    and m_need: "m (h\<lparr>hl_pend_pay_need := n\<rparr>) = m h"
    and m_live: "m (h\<lparr>hl_live := l\<rparr>) = m h"
    and m_mem: "m (h\<lparr>hl_mem := x\<rparr>) = m h"
    and m_deal: "slots_inv h \<Longrightarrow> deal_one_frame h f = (r, f', h') \<Longrightarrow> m h' = m h"
begin

lemmas m_upd = m_state m_got m_raw m_hdr m_pay m_need m_live m_mem

lemma m_reset: "m (parse_reset h) = m h"
  by (simp add: parse_reset_eq m_upd)

lemma m_finish_deal: "slots_inv h \<Longrightarrow> m (finish_deal f h) = m h"
proof -
  assume s: "slots_inv h"
  obtain r f' h' where d: "deal_one_frame h f = (r, f', h')" by (metis prod_cases3)
  show ?thesis using m_deal [OF s d] d
    by (simp add: finish_deal_def m_reset free_frame_payload_def free_opt_eq m_live)
qed

lemma slots_inv_upd:
  "slots_inv (h\<lparr>hl_pend_payload := e\<rparr>) = slots_inv h" "slots_inv (h\<lparr>hl_live := l\<rparr>) = slots_inv h"
  "slots_inv (h\<lparr>hl_mem := x\<rparr>) = slots_inv h" "slots_inv (h\<lparr>hl_parse_got := g\<rparr>) = slots_inv h"
  by (simp_all add: slots_inv_def)

lemma m_finish: "slots_inv h \<Longrightarrow> m (feed_finish_payload h) = m h"
  by (auto simp: feed_finish_payload_def Let_def m_finish_deal m_reset host_link_port_free_def
        m_upd slots_inv_upd elim!: malloc_cases split: prod.splits option.splits)

lemma m_complete: "m (hdr_complete h) = m h"
  by (auto simp: hdr_complete_def Let_def m_reset m_upd
        elim!: malloc_cases split: prod.splits option.splits)

lemma m_feed_byte: "slots_inv h \<Longrightarrow> m (feed_byte h b) = m h"
  by (auto simp: feed_byte_def Let_def m_finish m_complete m_upd slots_inv_upd
        split: parse_state.splits option.splits)

lemma m_feed: "hl_inv h \<Longrightarrow> m (host_link_feed h bs) = m h"
proof (induction bs arbitrary: h)
  case (Cons b bs)
  have "slots_inv h" using Cons.prems by (simp add: hl_inv_def)
  then show ?case using Cons.IH [of "feed_byte h b"] feed_byte_inv [OF Cons.prems, of b]
    by (simp add: m_feed_byte)
qed simp

end

interpretation rx_tick: rx_measure hl_tick
  by unfold_locales (simp_all add: deal_keeps)

interpretation rx_ready: rx_measure hl_ready
  by unfold_locales (simp_all add: deal_keeps)

interpretation rx_tx: rx_measure hl_tx
  by unfold_locales (simp_all add: deal_keeps)

interpretation rx_next_id: rx_measure hl_next_frame_id
  by unfold_locales (simp_all add: deal_keeps)

lemmas feed_keeps = rx_tick.m_feed rx_ready.m_feed rx_tx.m_feed rx_next_id.m_feed

lemma length_filter_update:
  "i < length xs \<Longrightarrow> length (filter P (xs[i := y])) + (if P (xs ! i) then 1 else 0)
     = length (filter P xs) + (if P y then 1 else 0)"
proof (induction xs arbitrary: i)
  case (Cons x xs) then show ?case by (cases i) auto
qed simp

lemma deal_async_total:
  assumes inv: "slots_inv h" and d: "deal_one_frame h f = (r, f', h')"
  shows "async_total h' = async_total h"
  using d
proof (cases rule: deal_cases)
  case 2
  from 2(1) show ?thesis
    by (cases rule: add_notify_cases) (simp_all add: async_total_def async_pending_def)
next
  case 3
  from 3(1) show ?thesis
  proof (cases rule: add_ack_cases)
    case (2 i)
    then obtain c where "as_cb (hl_async_slot h ! i) = Some c" "as_used (hl_async_slot h ! i)"
      using inv by (auto simp: slots_inv_def list_all_length async_ok_def async_match_def)
    with 2 show ?thesis
      using length_filter_update [of i "hl_async_slot h" as_used
          "(hl_async_slot h ! i)\<lparr>as_used := False\<rparr>"]
      by (simp add: async_total_def async_pending_def call_done_def)
  qed (simp_all add: async_total_def async_pending_def)
qed simp

interpretation rx_async: rx_measure async_total
  by unfold_locales
     (simp_all add: deal_async_total, simp_all add: async_total_def async_pending_def)

lemma link_step_inv:
  "hl_inv h \<Longrightarrow> hl_inv (link_step e h) \<and> hl_balance (link_step e h) = hl_balance h
     \<and> async_total (link_step e h) = async_total h
     \<and> hl_tx (link_step e h) = hl_tx h \<and> hl_next_frame_id (link_step e h) = hl_next_frame_id h"
  by (cases e) (simp_all add: link_step_def host_link_feed_inv feed_keeps rx_async.m_feed,
        simp_all add: async_total_def async_pending_def)

lemma ack_sem_wait_keeps [simp]:
  "hl_inv (ack_sem_wait h) = hl_inv h" "hl_balance (ack_sem_wait h) = hl_balance h"
  "hl_tx (ack_sem_wait h) = hl_tx h" "hl_next_frame_id (ack_sem_wait h) = hl_next_frame_id h"
  "hl_tick (ack_sem_wait h) = hl_tick h" "async_total (ack_sem_wait h) = async_total h"
  by (simp_all add: ack_sem_wait_def async_total_def async_pending_def)

lemma take_ack_inv:
  assumes "hl_inv h" "i < length (hl_ack_slot h)" "take_ack i h = (f, h')"
  shows "hl_inv h' \<and> hl_balance h' = hl_balance h + owns (fr_payload f)"
  using assms
  by (auto simp: take_ack_def hl_inv_def slots_inv_def parser_inv_def hl_balance_def
        sum_list_map_update intro!: list_all_update cong: parse_state.case_cong option.case_cong)

lemma take_ack_done:
  assumes inv: "hl_inv h" and i: "i < length (hl_ack_slot h)"
    and m: "ack_match ty cmd fid (hl_ack_slot h ! i)" and t: "take_ack i h = (f, h')"
  shows "hl_inv h' \<and> hl_balance h' = hl_balance h + owns (fr_payload f)
    \<and> hl_tx h' = hl_tx h \<and> hl_next_frame_id h' = hl_next_frame_id h
    \<and> async_total h' = async_total h \<and> ack_match ty cmd fid f \<and> frame_ok f"
proof -
  have "frame_ok (hl_ack_slot h ! i)"
    using inv i m by (auto simp: hl_inv_def slots_inv_def list_all_length slot_ok_def ack_match_def)
  then show ?thesis
    using take_ack_inv [OF inv i t] m t by (auto simp: take_ack_def async_total_def async_pending_def)
qed

lemma zero_frame_owns [simp]: "owns (fr_payload zero_frame) = 0"
  by (simp add: zero_frame_def)

lemma ack_check_cases:
  assumes "ack_check ty cmd fid tmo t0 h = Some (r, f, h')"
  obtains (stop) "\<not> hl_ready h" "r = HOST_LINK_ERR_INVALID_STATE" "f = zero_frame" "h' = h"
  | (match) i where "i < length (hl_ack_slot h)" "ack_match ty cmd fid (hl_ack_slot h ! i)"
      "r = HOST_LINK_OK" "take_ack i h = (f, h')"
  | (timeout) "\<forall>g\<in>set (hl_ack_slot h). \<not> ack_match ty cmd fid g" "hl_tick h - t0 \<ge> tmo"
      "r = HOST_LINK_ERR_TIMEOUT" "f = zero_frame" "h' = h"
proof (cases "hl_ready h")
  case False
  then show ?thesis using assms by (intro stop) (simp_all add: ack_check_def)
next
  case ready: True
  show ?thesis
  proof (cases "first_idx (ack_match ty cmd fid) (hl_ack_slot h)")
    case (Some i)
    then show ?thesis
      using assms ready first_idx_SomeD [OF Some]
      by (intro match [of i]) (auto simp: ack_check_def)
  next
    case None
    then have "\<forall>g\<in>set (hl_ack_slot h). \<not> ack_match ty cmd fid g"
      by (simp add: first_idx_None_iff)
    then show ?thesis using assms ready None
      by (intro timeout) (auto simp: ack_check_def tick_diff_is_sub split: if_splits)
  qed
qed

lemma ack_check_sound:
  assumes c: "ack_check ty cmd fid tmo t0 h = Some (r, f, h')" and inv: "hl_inv h"
  shows "hl_inv h' \<and> hl_balance h' = hl_balance h + owns (fr_payload f)
    \<and> hl_tx h' = hl_tx h \<and> hl_next_frame_id h' = hl_next_frame_id h
    \<and> async_total h' = async_total h
    \<and> (r = HOST_LINK_OK \<longrightarrow> ack_match ty cmd fid f \<and> frame_ok f)
    \<and> (r \<noteq> HOST_LINK_OK \<longrightarrow> f = zero_frame \<and> (hl_ready h' \<longrightarrow> r = HOST_LINK_ERR_TIMEOUT
         \<and> hl_tick h' - t0 \<ge> tmo \<and> (\<forall>g\<in>set (hl_ack_slot h'). \<not> ack_match ty cmd fid g)))"
  using c
proof (cases rule: ack_check_cases)
  case (match i) then show ?thesis using take_ack_done [OF inv match(1,2,4)] by simp
qed (use inv in simp_all)

lemma ack_wait_sound:
  assumes "ack_wait_loop ty cmd fid tmo t0 evs h = Some (r, f, h', evs')" "hl_inv h"
  shows "hl_inv h' \<and> hl_balance h' = hl_balance h + owns (fr_payload f)
    \<and> hl_tx h' = hl_tx h \<and> hl_next_frame_id h' = hl_next_frame_id h
    \<and> async_total h' = async_total h
    \<and> (r = HOST_LINK_OK \<longrightarrow> ack_match ty cmd fid f \<and> frame_ok f)
    \<and> (r \<noteq> HOST_LINK_OK \<longrightarrow> f = zero_frame \<and> (hl_ready h' \<longrightarrow> r = HOST_LINK_ERR_TIMEOUT
         \<and> hl_tick h' - t0 \<ge> tmo \<and> (\<forall>g\<in>set (hl_ack_slot h'). \<not> ack_match ty cmd fid g)))"
  using assms
proof (induction evs arbitrary: h)
  case Nil
  then have "ack_check ty cmd fid tmo t0 h = Some (r, f, h')" by (auto split: option.splits)
  then show ?case by (rule ack_check_sound [OF _ Nil.prems(2)])
next
  case (Cons e es)
  show ?case
  proof (cases "ack_check ty cmd fid tmo t0 h")
    case None
    let ?g = "link_step e (ack_sem_wait h)"
    have g: "hl_inv ?g" "hl_balance ?g = hl_balance h" "hl_tx ?g = hl_tx h"
      "hl_next_frame_id ?g = hl_next_frame_id h" "async_total ?g = async_total h"
      using link_step_inv [of "ack_sem_wait h" e] Cons.prems(2) by simp_all
    then show ?thesis using Cons.IH [of ?g] Cons.prems(1) None by simp
  next
    case (Some x)
    then have "ack_check ty cmd fid tmo t0 h = Some (r, f, h')"
      using Cons.prems(1) by (auto split: prod.splits)
    then show ?thesis by (rule ack_check_sound [OF _ Cons.prems(2)])
  qed
qed

lemma ack_check_None:
  "ack_check ty cmd fid tmo t0 h = None \<Longrightarrow> hl_tick h - t0 < tmo"
  by (auto simp: ack_check_def tick_diff_is_sub not_le split: if_splits option.splits)

lemma ack_wait_returns:
  assumes "tmo \<le> 0x10000" "unat (hl_tick h - t0) + elapsed evs \<ge> unat tmo"
    "list_all slice_bounded evs" "hl_inv h"
  shows "\<exists>x. ack_wait_loop ty cmd fid tmo t0 evs h = Some x"
  using assms
proof (induction evs arbitrary: h)
  case Nil
  then show ?case using ack_check_None [of ty cmd fid tmo t0 h]
    by (cases "ack_check ty cmd fid tmo t0 h") (auto simp: unat_order)
next
  case (Cons e es)
  let ?g = "link_step e (ack_sem_wait h)"
  show ?case
  proof (cases "ack_check ty cmd fid tmo t0 h")
    case None
    have small: "unat (hl_tick h - t0) < 0x10000"
      using ack_check_None [OF None] Cons.prems(1) by (simp add: unat_order)
    have "unat (hl_tick ?g - t0) + elapsed es \<ge> unat tmo"
    proof (cases e)
      case (Elapse dt)
      have "unat dt \<le> 20" using Elapse Cons.prems(3) by (simp add: unat_order)
      then have "unat (hl_tick h - t0 + dt) = unat (hl_tick h - t0) + unat dt"
        using small by (intro unat_plus_small) simp
      moreover have "hl_tick ?g - t0 = hl_tick h - t0 + dt"
        using Elapse by (simp add: link_step_def)
      ultimately show ?thesis using Elapse Cons.prems(2) by (simp only: elapsed.simps add.assoc)
    qed (use Cons.prems in \<open>simp_all add: link_step_def rx_tick.m_feed\<close>)
    then show ?thesis
      using Cons.IH [of ?g] Cons.prems(1,3,4) None link_step_inv [of "ack_sem_wait h" e] by simp
  qed auto
qed

lemma ack_wait_consumes:
  assumes "ack_wait_loop ty cmd fid tmo t0 evs h = Some (r, f, h', evs')"
    "tmo \<le> 0x10000" "unat (hl_tick h - t0) \<le> unat tmo + 20" "list_all slice_bounded evs"
    "hl_inv h"
  shows "elapsed evs + unat (hl_tick h - t0) \<le> elapsed evs' + (unat tmo + 20)
    \<and> list_all slice_bounded evs'"
  using assms
proof (induction evs arbitrary: h)
  case Nil then show ?case by (auto split: option.splits)
next
  case (Cons e es)
  let ?g = "link_step e (ack_sem_wait h)"
  show ?case
  proof (cases "ack_check ty cmd fid tmo t0 h")
    case (Some x)
    then show ?thesis using Cons.prems by (auto split: prod.splits)
  next
    case None
    have small: "unat (hl_tick h - t0) < unat tmo" "unat tmo \<le> 0x10000"
      using ack_check_None [OF None] Cons.prems(2) by (simp_all add: unat_order)
    have "unat (hl_tick ?g - t0) \<le> unat tmo + 20
      \<and> elapsed (e # es) + unat (hl_tick h - t0) = elapsed es + unat (hl_tick ?g - t0)"
    proof (cases e)
      case (Elapse dt)
      have d: "unat dt \<le> 20" using Elapse Cons.prems(4) by (simp add: unat_order)
      then have "unat (hl_tick h - t0 + dt) = unat (hl_tick h - t0) + unat dt"
        using small by (intro unat_plus_small) simp
      moreover have g: "hl_tick ?g - t0 = hl_tick h - t0 + dt"
        using Elapse by (simp add: link_step_def)
      ultimately have u: "unat (hl_tick ?g - t0) = unat (hl_tick h - t0) + unat dt" by (simp only:)
      show ?thesis unfolding u using d small Elapse by simp
    qed (use small Cons.prems(5) in \<open>simp_all add: link_step_def rx_tick.m_feed\<close>)
    then show ?thesis
      using Cons.IH [of ?g] Cons.prems None link_step_inv [of "ack_sem_wait h" e] by simp
  qed
qed

lemma wait_timeout_returns:
  assumes "tmo \<le> 0x10000" "elapsed evs \<ge> unat tmo + 20" "list_all slice_bounded evs" "hl_inv h"
  obtains r f h' evs' where "wait_for_ack_timeout h ty cmd fid tmo evs = Some (r, f, h', evs')"
    "elapsed evs \<le> elapsed evs' + (unat tmo + 20)" "list_all slice_bounded evs'" "hl_inv h'"
proof -
  obtain r f h' evs' where w: "wait_for_ack_timeout h ty cmd fid tmo evs = Some (r, f, h', evs')"
    using ack_wait_returns [of tmo h "hl_tick h" evs ty cmd fid] assms
    unfolding wait_for_ack_timeout_def by auto
  then show ?thesis
    using that [OF w] ack_wait_consumes [of ty cmd fid tmo "hl_tick h" evs h] assms
      ack_wait_sound [of ty cmd fid tmo "hl_tick h" evs h r f h' evs']
    unfolding wait_for_ack_timeout_def by simp
qed

subsection \<open>Requests and events\<close>

lemma send_wire_effect:
  assumes "send_wire h hdr data len = (r, h')" "payload_fits data len"
  shows "hl_inv h' = hl_inv h \<and> hl_balance h' = hl_balance h \<and> hl_next_frame_id h' = hl_next_frame_id h
    \<and> hl_ready h' = hl_ready h \<and> hl_tick h' = hl_tick h \<and> hl_async_slot h' = hl_async_slot h
    \<and> hl_done h' = hl_done h
    \<and> (hl_tx h' = hl_tx h @ (if r = HOST_LINK_ERR_NO_MEM then []
                              else [wire_frame hdr (payload_of data)]))"
  using assms by (elim send_wire_cases) auto

lemma alloc_frame_id_effect [simp]:
  "alloc_frame_id h = (hl_next_frame_id h, h\<lparr>hl_next_frame_id := hl_next_frame_id h + 1\<rparr>)"
  by (simp add: alloc_frame_id_def)

lemma request_loop_returns:
  assumes "tmo \<le> 0x10000" "elapsed evs \<ge> n * (unat tmo + 20)" "list_all slice_bounded evs"
    "hl_inv h" "payload_fits data len"
  shows "\<exists>x. request_loop n cmd data len want tmo ret evs h = Some x"
  using assms
proof (induction n arbitrary: ret evs h)
  case 0 then show ?case by simp
next
  case (Suc n)
  let ?h1 = "h\<lparr>hl_next_frame_id := hl_next_frame_id h + 1\<rparr>"
  obtain sr h2 where s: "send_wire ?h1
      (mk_header (hl_next_frame_id h) HOST_LINK_TYPE_REQUEST cmd len) data len = (sr, h2)"
    by (metis prod.exhaust)
  have i: "hl_inv h2" using send_wire_effect [OF s Suc.prems(5)] Suc.prems(4) by simp
  obtain r f h' evs' where w: "wait_for_ack_timeout h2 HOST_LINK_TYPE_RESPONSE cmd
      (hl_next_frame_id h) tmo evs = Some (r, f, h', evs')"
    and e: "elapsed evs \<le> elapsed evs' + (unat tmo + 20)" "list_all slice_bounded evs'" "hl_inv h'"
    by (rule wait_timeout_returns [of tmo evs h2]) (use Suc.prems i in simp_all)
  show ?case
  proof (cases "sr = HOST_LINK_OK")
    case False
    then show ?thesis using s i Suc.IH [of evs h2 sr] Suc.prems by simp
  next
    case True
    have "elapsed evs' \<ge> n * (unat tmo + 20)" using e(1) Suc.prems(2) by simp
    then show ?thesis
      using True s w Suc.IH [of evs' "free_opt (fr_payload f) h'" r] Suc.prems(1,5) e(2,3)
      by (simp add: Let_def)
  qed
qed

lemma frame_ok_payload:
  "frame_ok f \<Longrightarrow> fr_payload f \<noteq> None \<Longrightarrow> hd_len (fr_header f) > 0"
  by (auto simp: frame_ok_def Let_def split: option.splits)

lemma request_loop_sound:
  assumes "request_loop n cmd data len want tmo ret evs h = Some (r, resp, h', evs')"
    "hl_inv h" "payload_fits data len" "ret \<noteq> HOST_LINK_OK"
  shows "hl_inv h' \<and> hl_balance h' = hl_balance h + owns resp
    \<and> (\<exists>fids. length fids \<le> n \<and> hl_tx h' = hl_tx h @ request_frames cmd data len 0 fids
         \<and> (if r = HOST_LINK_OK
            then fids \<noteq> [] \<and> (\<exists>f. frame_ok f \<and> ack_match HOST_LINK_TYPE_RESPONSE cmd (last fids) f
                   \<and> resp = (if want then fr_payload f else None))
            else resp = None))"
  using assms
proof (induction n arbitrary: ret evs h)
  case 0
  then show ?case by (auto simp: request_frames_def)
next
  case (Suc n)
  let ?fid = "hl_next_frame_id h"
  let ?h1 = "h\<lparr>hl_next_frame_id := ?fid + 1\<rparr>"
  let ?hdr = "mk_header ?fid HOST_LINK_TYPE_REQUEST cmd len"
  let ?sent = "\<lambda>r. if r = HOST_LINK_ERR_NO_MEM then [] else [?fid]"
  obtain sr h2 where s: "send_wire ?h1 ?hdr data len = (sr, h2)" by (metis prod.exhaust)
  have e: "hl_inv h2" "hl_balance h2 = hl_balance h"
    "hl_tx h2 = hl_tx h @ request_frames cmd data len 0 (?sent sr)"
    using send_wire_effect [OF s Suc.prems(3)] Suc.prems(2) by (auto simp: request_frames_def)
  have app: "request_frames cmd data len 0 a @ request_frames cmd data len 0 b
      = request_frames cmd data len 0 (a @ b)" for a b
    by (simp add: request_frames_def)
  have more: ?case
    if l: "request_loop n cmd data len want tmo x evs1 g = Some (r, resp, h', evs')"
      "x \<noteq> HOST_LINK_OK" "hl_inv g" "hl_balance g = hl_balance h" "hl_tx g = hl_tx h2" for x evs1 g
  proof -
    obtain fids where "length fids \<le> n" "hl_tx h' = hl_tx g @ request_frames cmd data len 0 fids"
      and rest: "if r = HOST_LINK_OK
            then fids \<noteq> [] \<and> (\<exists>f. frame_ok f \<and> ack_match HOST_LINK_TYPE_RESPONSE cmd (last fids) f
                   \<and> resp = (if want then fr_payload f else None))
            else resp = None"
      and i: "hl_inv h'" "hl_balance h' = hl_balance g + owns resp"
      using Suc.IH [OF l(1,3) Suc.prems(3) l(2)] by blast
    then show ?thesis
      using e(3) l(4,5) app
      by (intro conjI exI [of _ "?sent sr @ fids"]) (auto split: if_splits)
  qed
  show ?case
  proof (cases "sr = HOST_LINK_OK")
    case False
    then show ?thesis using more [of sr evs h2] s e Suc.prems(1) by simp
  next
    case ok: True
    obtain wr f h3 evs1 where w: "wait_for_ack_timeout h2 HOST_LINK_TYPE_RESPONSE cmd ?fid tmo evs
        = Some (wr, f, h3, evs1)"
      using Suc.prems(1) s ok by (auto simp: Let_def split: option.splits)
    have sound: "hl_inv h3" "hl_balance h3 = hl_balance h + owns (fr_payload f)" "hl_tx h3 = hl_tx h2"
      "wr = HOST_LINK_OK \<Longrightarrow> ack_match HOST_LINK_TYPE_RESPONSE cmd ?fid f \<and> frame_ok f"
      using ack_wait_sound [OF w [unfolded wait_for_ack_timeout_def] e(1)] e(2) by simp_all
    show ?thesis
    proof (cases "wr = HOST_LINK_OK")
      case False
      then show ?thesis
        using more [of wr evs1 "free_opt (fr_payload f) h3"] s ok w sound Suc.prems(1)
        by (simp add: Let_def)
    next
      case True
      have "hl_inv h'" "hl_balance h' = hl_balance h + owns resp" "hl_tx h' = hl_tx h2"
        "r = HOST_LINK_OK" "resp = (if want then fr_payload f else None)"
        using Suc.prems(1) s ok w True sound(1-3) sound(4) [OF True]
          frame_ok_payload [of f]
        by (cases "fr_payload f"; auto simp: Let_def split: if_splits)+
      then show ?thesis
        using sound(4) [OF True] e(3) ok by (intro conjI exI [of _ "[?fid]"]) auto
    qed
  qed
qed

end
