(* ===== verification/Host_Link_Reach.thy ===== *)
theory Host_Link_Reach
  imports Host_Link_Thms
begin

text \<open>
  The life cycle of a link: every state a handler can reach through the calls of
  \<open>host_link_core.c\<close>, from \<open>host_link_init\<close> to
  \<open>host_link_deinit\<close>, and the invariants by rule induction over it.
\<close>

text \<open>What the link relies on from the notify callback of its client: it keeps the
  invariant, frees or hands back what it is given, and does not lose an
  asynchronous request.\<close>

definition notify_ok :: "notify_fn \<Rightarrow> bool" where
  "notify_ok cb \<longleftrightarrow>
     (\<forall>h f. hl_inv h \<and> frame_ok f \<longrightarrow>
        hl_inv (snd (cb h f))
        \<and> hl_balance (snd (cb h f)) - owns (fr_payload (fst (cb h f)))
            = hl_balance h - owns (fr_payload f)
        \<and> async_total (snd (cb h f)) = async_total h)"

text \<open>\<open>hl_reach env k n h\<close>: from the surroundings \<open>env\<close> the calls made
  so far lead to \<open>h\<close>, with \<open>k\<close> response buffers handed to callers and
  \<open>n\<close> asynchronous requests started.\<close>

inductive hl_reach :: "host_link_handler \<Rightarrow> int \<Rightarrow> nat \<Rightarrow> host_link_handler \<Rightarrow> bool"
  for env where
  reach_init: "host_link_init True True True True True True env = Some h \<Longrightarrow> hl_reach env 0 0 h"
| reach_event: "hl_reach env k n h \<Longrightarrow> hl_reach env k n (link_step e h)"
| reach_poll: "hl_reach env k n h \<Longrightarrow> notify_ok cb \<Longrightarrow> hl_reach env k n (host_link_poll cb h)"
| reach_request: "hl_reach env k n h \<Longrightarrow> payload_fits data len \<Longrightarrow>
    host_link_request_timeout h cmd data len want tmo evs = Some (r, resp, h', evs') \<Longrightarrow>
    hl_reach env (k + owns resp) n h'"
| reach_async: "hl_reach env k n h \<Longrightarrow> payload_fits data len \<Longrightarrow>
    host_link_request_async h cmd data len cb u = (r, h') \<Longrightarrow>
    hl_reach env k (if r \<in> {HOST_LINK_ERR_INVALID_ARG, HOST_LINK_ERR_INVALID_SIZE,
      HOST_LINK_ERR_NO_SLOT} then n else n + 1) h'"
| reach_response: "hl_reach env k n h \<Longrightarrow> payload_fits data len \<Longrightarrow>
    host_link_response h f data len = (r, h') \<Longrightarrow> hl_reach env k n h'"
| reach_send_event: "hl_reach env k n h \<Longrightarrow> payload_fits data len \<Longrightarrow>
    host_link_send_event h cmd data len evs = Some (r, h', evs') \<Longrightarrow> hl_reach env k n h'"
| reach_event_ack: "hl_reach env k n h \<Longrightarrow> host_link_event_ack h f = (r, h') \<Longrightarrow>
    hl_reach env k n h'"

inductive_cases hl_reach_cases: "hl_reach env k n h"

definition done_owned :: "host_link_handler \<Rightarrow> int" where
  "done_owned h = sum_list (map (\<lambda>d. owns (dc_payload d)) (hl_done h))"

text \<open>After the expiry loops no acknowledgement and no asynchronous request has
  been waiting for longer than the timeout.\<close>

definition fresh_at :: "u32 \<Rightarrow> nat \<Rightarrow> host_link_handler \<Rightarrow> bool" where
  "fresh_at now i h \<longleftrightarrow>
     (fr_is_valid (hl_ack_slot h ! i) \<longrightarrow> now - hl_ack_tick h ! i < CFG_ACK_TIMEOUT_MS)"

subsection \<open>Each call keeps the invariant\<close>

lemma async_total_upd [simp]:
  "async_total (h\<lparr>hl_live := a\<rparr>) = async_total h"
  "async_total (h\<lparr>hl_notify_slot := b\<rparr>) = async_total h"
  "async_total (h\<lparr>hl_ack_slot := c\<rparr>) = async_total h"
  "async_total (h\<lparr>hl_next_frame_id := d\<rparr>) = async_total h"
  "async_total (h\<lparr>hl_notify_sem := e\<rparr>) = async_total h"
  by (simp_all add: async_total_def async_pending_def)

lemma free_opt_total [simp]: "async_total (free_opt p h) = async_total h"
  by (simp add: free_opt_eq)

lemma send_wire_total:
  assumes "send_wire h hdr data len = (r, h')" "payload_fits data len"
  shows "async_total h' = async_total h"
  using send_wire_effect [OF assms] by (simp add: async_total_def async_pending_def)

lemma request_loop_total:
  assumes "request_loop n cmd data len want tmo ret evs h = Some (r, resp, h', evs')"
    "hl_inv h" "payload_fits data len"
  shows "async_total h' = async_total h"
  using assms
proof (induction n arbitrary: ret evs h)
  case (Suc n)
  let ?h1 = "h\<lparr>hl_next_frame_id := hl_next_frame_id h + 1\<rparr>"
  obtain sr h2 where s: "send_wire ?h1
      (mk_header (hl_next_frame_id h) HOST_LINK_TYPE_REQUEST cmd len) data len = (sr, h2)"
    by (metis prod.exhaust)
  have h2: "hl_inv h2" "async_total h2 = async_total h"
    using send_wire_effect [OF s Suc.prems(3)] send_wire_total [OF s Suc.prems(3)] Suc.prems(2)
    by simp_all
  show ?case
  proof (cases "sr = HOST_LINK_OK")
    case False
    then show ?thesis using Suc.IH [of sr evs h2] Suc.prems s h2 by simp
  next
    case ok: True
    obtain wr f h3 evs1 where w: "wait_for_ack_timeout h2 HOST_LINK_TYPE_RESPONSE cmd
        (hl_next_frame_id h) tmo evs = Some (wr, f, h3, evs1)"
      using Suc.prems(1) s ok by (auto simp: Let_def split: option.splits)
    have h3: "hl_inv h3" "async_total h3 = async_total h"
      using ack_wait_sound [OF w [unfolded wait_for_ack_timeout_def] h2(1)] h2(2) by simp_all
    then show ?thesis
      using Suc.prems s ok w Suc.IH [of wr evs1 "free_opt (fr_payload f) h3"]
      by (auto simp: Let_def split: if_splits)
  qed
qed simp

lemma event_loop_sound:
  assumes "event_loop n cmd data len ret evs h = Some (r, h', evs')"
    "hl_inv h" "payload_fits data len"
  shows "hl_inv h' \<and> hl_balance h' = hl_balance h \<and> async_total h' = async_total h
    \<and> (\<exists>fids. length fids \<le> n
         \<and> hl_tx h' = hl_tx h @ request_frames cmd data len HOST_LINK_TYPE_EVENT fids)"
  using assms
proof (induction n arbitrary: ret evs h)
  case 0 then show ?case by (auto simp: request_frames_def)
next
  case (Suc n)
  let ?fid = "hl_next_frame_id h"
  let ?h1 = "h\<lparr>hl_next_frame_id := ?fid + 1\<rparr>"
  let ?sent = "\<lambda>r. if r = HOST_LINK_ERR_NO_MEM then [] else [?fid]"
  obtain sr h2 where s: "send_wire ?h1 (mk_header ?fid HOST_LINK_TYPE_EVENT cmd len) data len
      = (sr, h2)" by (metis prod.exhaust)
  have h2: "hl_inv h2" "hl_balance h2 = hl_balance h" "async_total h2 = async_total h"
    "hl_tx h2 = hl_tx h @ request_frames cmd data len HOST_LINK_TYPE_EVENT (?sent sr)"
    using send_wire_effect [OF s Suc.prems(3)] send_wire_total [OF s Suc.prems(3)] Suc.prems(2)
    by (auto simp: request_frames_def)
  have more: ?case
    if l: "event_loop n cmd data len x evs1 g = Some (r, h', evs')" "hl_inv g"
      "hl_balance g = hl_balance h" "async_total g = async_total h" "hl_tx g = hl_tx h2" for x evs1 g
  proof -
    obtain fids where "length fids \<le> n"
      "hl_tx h' = hl_tx g @ request_frames cmd data len HOST_LINK_TYPE_EVENT fids"
      "hl_inv h'" "hl_balance h' = hl_balance g" "async_total h' = async_total g"
      using Suc.IH [OF l(1,2) Suc.prems(3)] by blast
    then show ?thesis
      using l(3-5) h2(4)
      by (intro conjI exI [of _ "?sent sr @ fids"]) (auto simp: request_frames_def)
  qed
  show ?case
  proof (cases "sr = HOST_LINK_OK")
    case False
    then show ?thesis using more [of sr evs h2] Suc.prems(1) s h2 by simp
  next
    case ok: True
    obtain wr f h3 evs1 where w: "wait_for_ack h2 HOST_LINK_TYPE_EVENT_ACK cmd ?fid evs
        = Some (wr, f, h3, evs1)"
      using Suc.prems(1) s ok by (auto simp: Let_def split: option.splits)
    have h3: "hl_inv h3" "hl_balance h3 = hl_balance h + owns (fr_payload f)"
      "async_total h3 = async_total h" "hl_tx h3 = hl_tx h2"
      using ack_wait_sound [OF w [unfolded wait_for_ack_def] h2(1)] h2(2,3) by simp_all
    show ?thesis
    proof (cases "wr = HOST_LINK_OK")
      case False
      then show ?thesis
        using more [of wr evs1 "free_opt (fr_payload f) h3"] Suc.prems(1) s ok w h3
        by (simp add: Let_def)
    next
      case True
      then show ?thesis
        using Suc.prems(1) s ok w h2(4) h3
        by (intro conjI exI [of _ "[?fid]"]) (auto simp: Let_def)
    qed
  qed
qed

lemma clear_async:
  assumes "i < length (hl_async_slot h)" "as_used (hl_async_slot h ! i)"
  shows "async_total (h\<lparr>hl_async_slot := (hl_async_slot h)[i := (hl_async_slot h ! i)\<lparr>as_used := False\<rparr>]\<rparr>)
    + 1 = async_total h"
  using assms length_filter_update [of i "hl_async_slot h" as_used
    "(hl_async_slot h ! i)\<lparr>as_used := False\<rparr>"]
  by (simp add: async_total_def async_pending_def)

lemma update_async_inv:
  assumes "hl_inv h" "async_ok s"
  shows "hl_inv (h\<lparr>hl_async_slot := (hl_async_slot h)[i := s]\<rparr>)"
  using assms
  by (auto simp: hl_inv_def slots_inv_def parser_inv_def intro: list_all_update
        cong: parse_state.case_cong option.case_cong)

lemma request_async_sound:
  assumes r: "host_link_request_async h cmd data len cb u = (r, h')"
    and inv: "hl_inv h" and fits: "payload_fits data len"
  shows "hl_inv h' \<and> hl_balance h' = hl_balance h
    \<and> (if r \<in> {HOST_LINK_ERR_INVALID_ARG, HOST_LINK_ERR_INVALID_SIZE, HOST_LINK_ERR_NO_SLOT}
       then h' = h else async_total h' = async_total h + 1)"
proof (cases "cb = None \<or> (len > 0 \<and> data = None) \<or> len > CFG_MAX_PAYLOAD
    \<or> first_idx (\<lambda>s. \<not> as_used s) (hl_async_slot h) = None")
  case True
  then show ?thesis using r inv by (auto simp: host_link_request_async_def split: if_splits)
next
  case False
  then obtain slot where f: "first_idx (\<lambda>s. \<not> as_used s) (hl_async_slot h) = Some slot" by auto
  obtain c where c: "cb = Some c" using False by auto
  let ?s = "\<lparr>as_used = True, as_id = hl_next_frame_id h, as_cmd = cmd,
             as_started_ms = hl_tick h, as_cb = cb, as_cb_user = u\<rparr>"
  let ?h1 = "h\<lparr>hl_next_frame_id := hl_next_frame_id h + 1,
               hl_async_slot := (hl_async_slot h)[slot := ?s]\<rparr>"
  obtain sr h2 where s: "send_wire ?h1
      (mk_header (hl_next_frame_id h) HOST_LINK_TYPE_REQUEST cmd len) data len = (sr, h2)"
    by (metis prod.exhaust)
  have slot: "slot < length (hl_async_slot h)" "\<not> as_used (hl_async_slot h ! slot)"
    using first_idx_SomeD [OF f] by simp_all
  have h1: "hl_inv ?h1" "async_total ?h1 = async_total h + 1"
    using update_async_inv [of "h\<lparr>hl_next_frame_id := hl_next_frame_id h + 1\<rparr>" ?s slot] inv c slot
      length_filter_update [of slot "hl_async_slot h" as_used ?s]
    by (simp_all add: async_ok_def async_total_def async_pending_def)
  have h2: "hl_inv h2" "async_total h2 = async_total h + 1" "hl_balance h2 = hl_balance h"
    "hl_async_slot h2 = (hl_async_slot h)[slot := ?s]"
    using send_wire_effect [OF s fits] send_wire_total [OF s fits] h1 by simp_all
  let ?s2 = "(hl_async_slot h2 ! slot)\<lparr>as_used := False\<rparr>"
  let ?h3 = "h2\<lparr>hl_async_slot := (hl_async_slot h2)[slot := ?s2]\<rparr>"
  have h3i: "hl_inv ?h3" by (rule update_async_inv [OF h2(1)]) (simp add: async_ok_def)
  have h3t: "async_total ?h3 + 1 = async_total h2"
    by (rule clear_async) (use slot(1) h2(4) in simp_all)
  note h3 = h3i h3t
  have sr: "sr \<notin> {HOST_LINK_ERR_INVALID_ARG, HOST_LINK_ERR_INVALID_SIZE, HOST_LINK_ERR_NO_SLOT}"
    using send_wire_cases [OF s fits] by auto
  have res: "r = sr"
    "h' = (if sr \<noteq> HOST_LINK_OK then call_done cb u sr None 0 ?h3 else h2)"
    using r False f s by (auto simp: host_link_request_async_def Let_def split: if_splits)
  have "async_total (call_done cb u sr None 0 ?h3) = async_total ?h3 + 1"
    using c by (simp add: call_done_def async_total_def async_pending_def)
  then show ?thesis using res sr h2 h3 c by simp
qed

subsection \<open>Polling\<close>

lemma take_notify_inv:
  assumes "hl_inv h" "i < length (hl_notify_slot h)" "fr_is_valid (hl_notify_slot h ! i)"
  shows "hl_inv (h\<lparr>hl_notify_slot := (hl_notify_slot h)[i :=
      (hl_notify_slot h ! i)\<lparr>fr_payload := None, fr_is_valid := False\<rparr>]\<rparr>)
    \<and> hl_balance (h\<lparr>hl_notify_slot := (hl_notify_slot h)[i :=
      (hl_notify_slot h ! i)\<lparr>fr_payload := None, fr_is_valid := False\<rparr>]\<rparr>)
      = hl_balance h + owns (fr_payload (hl_notify_slot h ! i))
    \<and> frame_ok (hl_notify_slot h ! i)"
proof -
  have "frame_ok (hl_notify_slot h ! i)"
    using assms by (auto simp: hl_inv_def slots_inv_def list_all_length slot_ok_def)
  then show ?thesis using assms
    by (auto simp: hl_inv_def slots_inv_def parser_inv_def hl_balance_def sum_list_map_update
          intro!: list_all_update cong: parse_state.case_cong option.case_cong)
qed

lemma poll_notify_sound:
  assumes "notify_ok cb" "hl_inv h" "\<forall>i\<in>set is. i < CFG_NOTIFY_DEPTH" "poll_notify cb is h = (b, h')"
  shows "hl_inv h' \<and> hl_balance h' = hl_balance h \<and> async_total h' = async_total h"
  using assms(2-4)
proof (induction "is" arbitrary: h)
  case (Cons i "is")
  have i: "i < length (hl_notify_slot h)"
    using Cons.prems(1,2) by (simp add: hl_inv_def slots_inv_def)
  show ?case
  proof (cases "hl_ready h \<and> fr_is_valid (hl_notify_slot h ! i)")
    case False
    then show ?thesis using Cons by (auto split: if_splits)
  next
    case True
    let ?fr = "hl_notify_slot h ! i"
    let ?h1 = "h\<lparr>hl_notify_slot := (hl_notify_slot h)[i :=
        ?fr\<lparr>fr_payload := None, fr_is_valid := False\<rparr>]\<rparr>"
    obtain f2 h2 where c: "cb ?h1 ?fr = (f2, h2)" by (metis prod.exhaust)
    have h1: "hl_inv ?h1" "hl_balance ?h1 = hl_balance h + owns (fr_payload ?fr)" "frame_ok ?fr"
      using take_notify_inv [OF Cons.prems(1) i] True by simp_all
    then have h2: "hl_inv h2" "hl_balance h2 - owns (fr_payload f2) = hl_balance h"
      "async_total h2 = async_total h"
      using assms(1) c unfolding notify_ok_def by (metis fst_conv snd_conv add_diff_cancel_right',
        metis fst_conv snd_conv add_diff_cancel_right', metis snd_conv async_total_upd(2))
    then show ?thesis
      using Cons.IH [of "free_opt (fr_payload f2) h2"] Cons.prems(2,3) True c
      by (simp add: Let_def free_frame_payload_def)
  qed
qed simp

lemma poll_ack1_sound:
  assumes "hl_inv h" "i < CFG_ACK_SLOTS"
  shows "hl_inv (poll_ack1 now i h) \<and> hl_balance (poll_ack1 now i h) = hl_balance h
    \<and> async_total (poll_ack1 now i h) = async_total h"
proof -
  have i: "i < length (hl_ack_slot h)" using assms by (simp add: hl_inv_def slots_inv_def)
  let ?h' = "h\<lparr>hl_live := hl_live h - owns (fr_payload (hl_ack_slot h ! i)),
       hl_ack_slot := (hl_ack_slot h)[i :=
         (hl_ack_slot h ! i)\<lparr>fr_payload := None, fr_is_valid := False\<rparr>]\<rparr>"
  have "hl_inv ?h' \<and> hl_balance ?h' = hl_balance h"
    using assms(1) i
    by (auto simp: hl_inv_def slots_inv_def parser_inv_def hl_balance_def sum_list_map_update
          intro!: list_all_update cong: parse_state.case_cong option.case_cong)
  then show ?thesis using assms(1)
    by (simp add: poll_ack1_def free_frame_payload_def free_opt_eq)
qed

lemma poll_async1_sound:
  assumes "hl_inv h" "i < CFG_ASYNC_MAX"
  shows "hl_inv (poll_async1 now i h) \<and> hl_balance (poll_async1 now i h) = hl_balance h
    \<and> async_total (poll_async1 now i h) = async_total h"
proof -
  let ?s = "hl_async_slot h ! i"
  let ?h1 = "h\<lparr>hl_async_slot := (hl_async_slot h)[i := ?s\<lparr>as_used := False\<rparr>]\<rparr>"
  have i: "i < length (hl_async_slot h)" using assms by (simp add: hl_inv_def slots_inv_def)
  have ok: "as_used ?s \<Longrightarrow> as_cb ?s \<noteq> None"
    using assms(1) i by (auto simp: hl_inv_def slots_inv_def list_all_length async_ok_def)
  have h1: "hl_inv ?h1" using update_async_inv [OF assms(1)] by (simp add: async_ok_def)
  have "async_total (call_done (as_cb ?s) u e None 0 ?h1) = async_total h"
    if "as_used ?s" for u e
    using clear_async [OF i that] ok [OF that]
    by (auto simp: call_done_def async_total_def async_pending_def split: option.splits)
  then show ?thesis using h1 ok assms(1)
    by (auto simp: poll_async1_def Let_def)
qed

lemma fold_sound:
  assumes "\<And>i h. hl_inv h \<Longrightarrow> i \<in> set is \<Longrightarrow>
    hl_inv (g i h) \<and> hl_balance (g i h) = hl_balance h \<and> async_total (g i h) = async_total h"
  shows "hl_inv h \<Longrightarrow> hl_inv (fold g is h) \<and> hl_balance (fold g is h) = hl_balance h
    \<and> async_total (fold g is h) = async_total h"
  using assms by (induction "is" arbitrary: h) auto

lemma poll_sound:
  assumes cb: "notify_ok cb" and inv: "hl_inv h"
  shows "hl_inv (host_link_poll cb h) \<and> hl_balance (host_link_poll cb h) = hl_balance h
    \<and> async_total (host_link_poll cb h) = async_total h"
proof -
  obtain b h1 where p: "poll_notify cb [0..<CFG_NOTIFY_DEPTH] h = (b, h1)" by (metis prod.exhaust)
  have h1: "hl_inv h1" "hl_balance h1 = hl_balance h" "async_total h1 = async_total h"
    using poll_notify_sound [OF cb inv _ p] by simp_all
  define h2 where "h2 = fold (poll_ack1 (hl_tick h1)) [0..<CFG_ACK_SLOTS] h1"
  define h3 where "h3 = fold (poll_async1 (hl_tick h1)) [0..<CFG_ASYNC_MAX] h2"
  have h2: "hl_inv h2 \<and> hl_balance h2 = hl_balance h1 \<and> async_total h2 = async_total h1"
    unfolding h2_def by (rule fold_sound [OF _ h1(1)]) (simp add: poll_ack1_sound)
  have h3: "hl_inv h3 \<and> hl_balance h3 = hl_balance h2 \<and> async_total h3 = async_total h2"
    unfolding h3_def by (rule fold_sound) (simp_all add: poll_async1_sound h2)
  have "host_link_poll cb h = (if \<not> b then h1
      else if hl_ready h3 then h3\<lparr>hl_notify_sem := hl_notify_sem h3 - 1\<rparr> else h3)"
    using p by (cases b) (simp_all add: host_link_poll_def Let_def h2_def h3_def
      del: upt_Suc upt_rec_numeral upt_conv_Cons)
  then show ?thesis using h1 h2 h3 by simp
qed

lemma fresh_poll_ack1:
  assumes "i < length (hl_ack_slot h)"
  shows "fresh_at now i (poll_ack1 now i h)"
  using assms
  by (auto simp: poll_ack1_def fresh_at_def free_frame_payload_def free_opt_eq tick_diff_is_sub
        not_le)

lemma fresh_poll_ack1_other:
  "fresh_at now j h \<Longrightarrow> fresh_at now j (poll_ack1 now i h)"
  by (cases "j = i"; cases "i < length (hl_ack_slot h)")
     (auto simp: poll_ack1_def fresh_at_def free_frame_payload_def free_opt_eq tick_diff_is_sub
        not_le)

lemma fresh_fold:
  assumes "j \<in> set is \<or> fresh_at now j h" "j < length (hl_ack_slot h)"
  shows "fresh_at now j (fold (poll_ack1 now) is h)"
  using assms
proof (induction "is" arbitrary: h)
  case (Cons i "is")
  have "length (hl_ack_slot (poll_ack1 now i h)) = length (hl_ack_slot h)"
    by (simp add: poll_ack1_def free_frame_payload_def free_opt_eq)
  then show ?case
    using Cons fresh_poll_ack1 [of j h now] fresh_poll_ack1_other [of now j h i] by auto
qed simp

lemma fold_poll_async_keeps:
  "hl_ack_slot (fold (poll_async1 now) is h) = hl_ack_slot h
   \<and> hl_ack_tick (fold (poll_async1 now) is h) = hl_ack_tick h"
  by (induction "is" arbitrary: h) (simp_all add: poll_async1_def Let_def)

lemma fold_poll_ack_tick: "hl_tick (fold (poll_ack1 now) is h) = hl_tick h"
  by (induction "is" arbitrary: h)
     (simp_all add: poll_ack1_def free_frame_payload_def)

lemma fold_poll_async_tick: "hl_tick (fold (poll_async1 now) is h) = hl_tick h"
  by (induction "is" arbitrary: h) (simp_all add: poll_async1_def Let_def)

lemma poll_fresh:
  assumes cb: "notify_ok cb" and inv: "hl_inv h" and r: "hl_ready (host_link_poll cb h)"
    and i: "i < CFG_ACK_SLOTS"
  shows "fresh_at (hl_tick (host_link_poll cb h)) i (host_link_poll cb h)"
proof -
  obtain b h1 where p: "poll_notify cb [0..<CFG_NOTIFY_DEPTH] h = (b, h1)" by (metis prod.exhaust)
  have h1: "hl_inv h1" using poll_notify_sound [OF cb inv _ p] by simp
  have b: "\<not> b \<Longrightarrow> \<not> hl_ready h1"
  proof -
    have "poll_notify cb is g = (False, g') \<Longrightarrow> \<not> hl_ready g'" for "is" g g'
      by (induction "is" arbitrary: g) (auto simp: Let_def split: if_splits prod.splits)
    then show "\<not> b \<Longrightarrow> \<not> hl_ready h1" using p by simp
  qed
  define h2 where "h2 = fold (poll_ack1 (hl_tick h1)) [0..<CFG_ACK_SLOTS] h1"
  define h3 where "h3 = fold (poll_async1 (hl_tick h1)) [0..<CFG_ASYNC_MAX] h2"
  have e: "host_link_poll cb h = (if \<not> b then h1
      else if hl_ready h3 then h3\<lparr>hl_notify_sem := hl_notify_sem h3 - 1\<rparr> else h3)"
    using p by (cases b) (simp_all add: host_link_poll_def Let_def h2_def h3_def
      del: upt_Suc upt_rec_numeral upt_conv_Cons)
  have "fresh_at (hl_tick h1) i h2"
    unfolding h2_def using h1 i by (intro fresh_fold) (simp_all add: hl_inv_def slots_inv_def)
  then have "fresh_at (hl_tick h1) i h3"
    using fold_poll_async_keeps by (simp add: h3_def fresh_at_def)
  moreover have "hl_tick h3 = hl_tick h1"
    by (simp only: h3_def h2_def fold_poll_async_tick fold_poll_ack_tick)
  ultimately show ?thesis using e r b by (auto simp: fresh_at_def split: if_splits)
qed

subsection \<open>Creation and destruction\<close>

lemma init_sound:
  assumes "host_link_init a b c d e f env = Some h" "hl_done env = []"
  shows "hl_inv h \<and> hl_balance h = hl_live env + 1 \<and> async_total h = 0 \<and> hl_ready h
    \<and> hl_live h = hl_live env + 1 \<and> hl_done h = []"
  using assms
  by (auto simp: host_link_init_def hl_inv_def slots_inv_def parser_inv_def hl_balance_def
        slot_ok_def zero_frame_def zero_async_def async_ok_def async_total_def async_pending_def
        list_all_iff sum_list_replicate split: if_splits)

lemma free_slots_live:
  "free_slots fs h = (map (\<lambda>f. f\<lparr>fr_payload := None, fr_is_valid := False\<rparr>) fs,
     h\<lparr>hl_live := hl_live h - sum_list (map (\<lambda>f. owns (fr_payload f)) fs)\<rparr>)"
  by (induction fs arbitrary: h) (simp_all add: free_frame_payload_def free_opt_eq Let_def)

lemma deinit_live:
  "hl_live (host_link_deinit h) = hl_balance h + done_owned h - 1"
  by (simp add: host_link_deinit_def Let_def free_slots_live free_opt_eq host_link_port_free_def
        hl_balance_def done_owned_def)

subsection \<open>Every reachable state\<close>

lemma hl_reach_inv:
  assumes "hl_reach env k n h" "hl_done env = []"
  shows "hl_inv h \<and> hl_balance h = hl_live env + 1 + k \<and> async_total h = n"
  using assms
proof (induction rule: hl_reach.induct)
  case (reach_init h) then show ?case using init_sound by simp
next
  case (reach_event k n h e) then show ?case using link_step_inv [of h e] by simp
next
  case (reach_poll k n h cb) then show ?case using poll_sound [of cb h] by simp
next
  case (reach_request k n h data len cmd want tmo evs r resp h' evs')
  then show ?case
    using request_loop_sound [of CFG_REQUEST_RETRY cmd data len want tmo HOST_LINK_ERR_TIMEOUT evs h
        r resp h' evs']
      request_loop_total [of CFG_REQUEST_RETRY cmd data len want tmo HOST_LINK_ERR_TIMEOUT evs h
        r resp h' evs']
    by (auto simp: host_link_request_timeout_def simp del: request_loop.simps split: if_splits)
next
  case (reach_async k n h data len cmd cb u r h')
  then show ?case using request_async_sound [of h cmd data len cb u r h'] by auto
next
  case (reach_response k n h data len f r h')
  then show ?case
    using send_wire_effect [of h _ data len r h'] send_wire_total [of h _ data len r h']
    by (auto simp: host_link_response_def split: if_splits)
next
  case (reach_send_event k n h data len cmd evs r h' evs')
  then show ?case
    using event_loop_sound [of CFG_REQUEST_RETRY cmd data len HOST_LINK_ERR_TIMEOUT evs h r h' evs']
    by (auto simp: host_link_send_event_def simp del: event_loop.simps split: if_splits)
next
  case (reach_event_ack k n h f r h')
  then show ?case
    using send_wire_effect [of h _ None 0 r h'] send_wire_total [of h _ None 0 r h']
    by (auto simp: host_link_event_ack_def payload_fits_def)
qed

end
