(* ===== verification/Host_Link_Props.thy ===== *)
theory Host_Link_Props
  imports Host_Link_Reach
begin

text \<open>
  The properties of the board link, with a concrete link (an idle handler, a
  handler with a request on the wire) on which their hypotheses hold.
\<close>

definition quiet_env :: host_link_handler where
  "quiet_env = \<lparr>hl_ready = False, hl_next_frame_id = 0, hl_parse_state = PS_SYNC0, hl_parse_got = 0,
     hl_hdr_raw = [], hl_pend_hdr = zero_header, hl_pend_payload = None, hl_pend_pay_need = 0,
     hl_notify_slot = [], hl_ack_slot = [], hl_ack_tick = [], hl_async_slot = [],
     hl_ack_sem = 0, hl_notify_sem = 0, hl_tick = 0xFFFFFFF0, hl_mem = [], hl_junk = 0xA5,
     hl_live = 0, hl_send_rc = [], hl_tx = [], hl_done = []\<rparr>"

definition idle_link :: host_link_handler where
  "idle_link = the (host_link_init True True True True True True quiet_env)"

text \<open>A notify callback that answers every frame with the payload it carries.\<close>

definition echo_cb :: notify_fn where
  "echo_cb h f =
     (f, snd (host_link_response h f (fr_payload f)
                (case fr_payload f of None \<Rightarrow> 0 | Some p \<Rightarrow> hd_len (fr_header f))))"

definition idle_waits :: "link_event list" where
  "idle_waits = [Elapse 20, Elapse 20, Elapse 20, Elapse 20, Elapse 20, Elapse 20]"

text \<open>A link that has just received a response nobody has claimed.\<close>

definition acked_link :: host_link_handler where
  "acked_link = host_link_feed idle_link
     (wire_frame (mk_header 7 HOST_LINK_TYPE_RESPONSE 0x10 0) [])"

definition ping_header :: host_link_header where
  "ping_header = mk_header 7 HOST_LINK_TYPE_REQUEST 0x10 2"

subsection \<open>The concrete link\<close>

lemma idle_link_init: "host_link_init True True True True True True quiet_env = Some idle_link"
  by (simp add: idle_link_def host_link_init_def)

lemma quiet_env_simps [simp]: "hl_done quiet_env = []" "hl_live quiet_env = 0" "hl_mem quiet_env = []"
  by (simp_all add: quiet_env_def)

lemma idle_link_simps [simp]:
  "hl_ready idle_link" "hl_mem idle_link = []" "hl_done idle_link = []"
  "hl_parse_state idle_link = PS_SYNC0" "hl_live idle_link = 1" "hl_tx idle_link = []"
  "hl_tick idle_link = 0xFFFFFFF0" "hl_notify_slot idle_link = replicate 16 zero_frame"
  "hl_ack_slot idle_link = replicate 8 zero_frame" "hl_async_slot idle_link = replicate 4 zero_async"
  "hl_ack_tick idle_link = replicate 8 0" "hl_send_rc idle_link = []" "hl_next_frame_id idle_link = 0"
  by (simp_all add: idle_link_def host_link_init_def quiet_env_def)

lemma idle_link_inv [simp]: "hl_inv idle_link"
  using init_sound [OF idle_link_init] by simp

lemma idle_link_reach: "hl_reach quiet_env 0 0 idle_link"
  by (rule hl_reach.reach_init [OF idle_link_init])

lemma echo_cb_ok: "notify_ok echo_cb"
  unfolding notify_ok_def
proof (intro allI impI, elim conjE)
  fix h f assume h: "hl_inv h" and f: "frame_ok f"
  let ?l = "case fr_payload f of None \<Rightarrow> 0 | Some p \<Rightarrow> hd_len (fr_header f)"
  obtain r h' where r: "host_link_response h f (fr_payload f) ?l = (r, h')" by (metis prod.exhaust)
  have fits: "payload_fits (fr_payload f) ?l"
    using f by (auto simp: frame_ok_def payload_fits_def Let_def split: option.splits)
  have "hl_inv h' \<and> hl_balance h' = hl_balance h \<and> async_total h' = async_total h"
    using r h send_wire_effect [OF _ fits, of h _ r h'] send_wire_total [OF _ fits, of h _ r h']
    by (auto simp: host_link_response_def split: if_splits)
  then show "hl_inv (snd (echo_cb h f))
        \<and> hl_balance (snd (echo_cb h f)) - owns (fr_payload (fst (echo_cb h f)))
            = hl_balance h - owns (fr_payload f)
        \<and> async_total (snd (echo_cb h f)) = async_total h"
    using r by (simp add: echo_cb_def)
qed

lemma rx_abs_idle_iff: "rx_abs h = RxSync0 \<longleftrightarrow> hl_parse_state h = PS_SYNC0"
  by (simp add: rx_abs_def split: parse_state.splits)

subsection \<open>One frame\<close>

lemma feed_one_frame:
  assumes "hl_inv h" "hl_mem h = []" "hl_ready h" "hl_parse_state h = PS_SYNC0" "sendable (hdr, p)"
  shows "view (host_link_feed h (wire_frame hdr p)) = view (rx_deliver (seal_header hdr, p) h)
    \<and> hl_parse_state (host_link_feed h (wire_frame hdr p)) = PS_SYNC0
    \<and> hl_mem (host_link_feed h (wire_frame hdr p)) = []
    \<and> hl_inv (host_link_feed h (wire_frame hdr p))"
proof -
  have "rx_run (rx_abs h) (wire_frame hdr p) = (RxSync0, [(seal_header hdr, p)])"
    using assms(4,5) by (intro rx_run_wire) (simp_all add: sendable_def rx_abs_def)
  then have "step_ok h (RxSync0, [(seal_header hdr, p)]) (host_link_feed h (wire_frame hdr p))"
    using host_link_feed_step_ok [OF assms(1-3), of "wire_frame hdr p"] by simp
  then show ?thesis
    using host_link_feed_inv [OF assms(1), of "wire_frame hdr p"]
    by (simp add: step_ok_def rx_abs_idle_iff)
qed

lemma frame_of_payload_crc:
  assumes "sendable (hdr, p)"
  shows "payload_crc_ok (fr_payload (frame_of (seal_header hdr, p))) (hd_len hdr)
    (fr_payload_crc (frame_of (seal_header hdr, p))) = HOST_LINK_OK"
  using assms
  by (subst payload_crc_ok_iff [of _ _ p])
     (auto simp: frame_of_def sendable_def word_gt_0 unat_eq_zero)

lemma deliver_response:
  assumes "sendable (hdr, p)" "hd_version hdr = HOST_LINK_VERSION_CURRENT" "hl_ready h"
    "hd_type hdr = HOST_LINK_TYPE_RESPONSE"
    "first_idx (async_match (frame_of (seal_header hdr, p))) (hl_async_slot h) = None"
    "find_empty_ack h = Some i"
  shows "rx_deliver (seal_header hdr, p) h =
    h\<lparr>hl_ack_slot := (hl_ack_slot h)[i := frame_of (seal_header hdr, p)],
      hl_ack_tick := (hl_ack_tick h)[i := hl_tick h], hl_ack_sem := hl_ack_sem h + 1\<rparr>"
  using assms frame_of_payload_crc [OF assms(1)]
  by (simp add: rx_deliver_def deal_one_frame_def Let_def add_ack_frame_locked_def find_async_def
        sendable_def frame_of_def)

lemma deliver_request:
  assumes "sendable (hdr, p)" "hd_version hdr = HOST_LINK_VERSION_CURRENT" "hl_ready h"
    "hd_type hdr = HOST_LINK_TYPE_REQUEST" "find_empty_notify h = Some i"
  shows "rx_deliver (seal_header hdr, p) h =
    h\<lparr>hl_notify_slot := (hl_notify_slot h)[i := frame_of (seal_header hdr, p)],
      hl_notify_sem := hl_notify_sem h + 1\<rparr>"
  using assms frame_of_payload_crc [OF assms(1)]
  by (simp add: rx_deliver_def deal_one_frame_def Let_def add_notify_frame_locked_def
        sendable_def frame_of_def)

lemma poll_notify_none:
  "hl_ready h \<Longrightarrow> \<forall>i\<in>set is. \<not> fr_is_valid (hl_notify_slot h ! i) \<Longrightarrow> poll_notify cb is h = (True, h)"
  by (induction "is") simp_all

lemma first_idx_replicate [simp]:
  "\<not> P x \<Longrightarrow> first_idx P (replicate n x) = None" "P x \<Longrightarrow> 0 < n \<Longrightarrow> first_idx P (replicate n x) = Some 0"
  by (simp add: first_idx_None_iff) (cases n; simp)

lemma acked_link_slots:
  "hl_ready acked_link" "hl_tick acked_link = 0xFFFFFFF0"
  "hl_notify_slot acked_link = replicate 16 zero_frame"
  "hl_async_slot acked_link = replicate 4 zero_async"
  "hl_ack_slot acked_link = (replicate 8 zero_frame)[0 :=
     frame_of (seal_header (mk_header 7 HOST_LINK_TYPE_RESPONSE 0x10 0), [])]"
  "hl_ack_tick acked_link = (replicate 8 0)[0 := 0xFFFFFFF0]"
proof -
  let ?hdr = "mk_header 7 HOST_LINK_TYPE_RESPONSE 0x10 0"
  have s: "sendable (?hdr, [])" by (simp add: sendable_def)
  have "rx_deliver (seal_header ?hdr, []) idle_link = idle_link\<lparr>
      hl_ack_slot := (hl_ack_slot idle_link)[0 := frame_of (seal_header ?hdr, [])],
      hl_ack_tick := (hl_ack_tick idle_link)[0 := hl_tick idle_link],
      hl_ack_sem := hl_ack_sem idle_link + 1\<rparr>"
    by (rule deliver_response [OF s])
       (simp_all add: async_match_def zero_async_def find_empty_ack_def zero_frame_def)
  then have v: "view acked_link = view (idle_link\<lparr>
      hl_ack_slot := (hl_ack_slot idle_link)[0 := frame_of (seal_header ?hdr, [])],
      hl_ack_tick := (hl_ack_tick idle_link)[0 := hl_tick idle_link],
      hl_ack_sem := hl_ack_sem idle_link + 1\<rparr>)"
    using feed_one_frame [of idle_link, OF _ _ _ _ s] by (simp add: acked_link_def)
  show "hl_ready acked_link" "hl_tick acked_link = 0xFFFFFFF0"
    "hl_notify_slot acked_link = replicate 16 zero_frame"
    "hl_async_slot acked_link = replicate 4 zero_async"
    "hl_ack_slot acked_link = (replicate 8 zero_frame)[0 := frame_of (seal_header ?hdr, [])]"
    "hl_ack_tick acked_link = (replicate 8 0)[0 := 0xFFFFFFF0]"
    using view_eqD [OF v] by simp_all
qed

lemma fold_id: "\<forall>i\<in>set is. g i h = h \<Longrightarrow> fold g is h = h"
  by (induction "is") simp_all

lemma acked_link_poll:
  "host_link_poll echo_cb acked_link = acked_link\<lparr>hl_notify_sem := hl_notify_sem acked_link - 1\<rparr>"
proof -
  have n: "poll_notify echo_cb [0..<16] acked_link = (True, acked_link)"
    by (rule poll_notify_none) (simp_all add: acked_link_slots zero_frame_def)
  have a: "fold (poll_ack1 (hl_tick acked_link)) [0..<8] acked_link = acked_link"
  proof (rule fold_id, rule ballI)
    fix i assume "i \<in> set [0..<8::nat]"
    then show "poll_ack1 (hl_tick acked_link) i acked_link = acked_link"
      by (cases "i = 0")
         (simp_all add: poll_ack1_def acked_link_slots zero_frame_def tick_diff_is_sub)
  qed
  have "fold (poll_async1 (hl_tick acked_link)) [0..<4] acked_link = acked_link"
    by (rule fold_id) (simp add: poll_async1_def acked_link_slots zero_async_def)
  with n a show ?thesis
    by (simp only: host_link_poll_def prod.case bool.case Let_def acked_link_slots(1) if_True)
qed

subsection \<open>Properties\<close>

text \<open>C1: whenever allocations succeed, feeding received bytes to the C parser is the
  abstract decoder: the parser stands for the decoder's state, and the slot
  tables, ticks and callbacks are those after accepting the decoded frames in
  order.\<close>

theorem feed_refines_decoder:
  assumes "hl_inv h" "hl_mem h = []" "hl_ready h"
  shows "rx_abs (host_link_feed h bs) = fst (rx_run (rx_abs h) bs)
    \<and> view (host_link_feed h bs) = view (fold rx_deliver (snd (rx_run (rx_abs h) bs)) h)"
  using host_link_feed_step_ok [OF assms] by (simp add: step_ok_def)

theorem feed_refines_decoder_witness:
  "rx_abs (host_link_feed idle_link [0x48]) = fst (rx_run (rx_abs idle_link) [0x48])"
  using feed_refines_decoder [of idle_link "[0x48]"] by simp







text \<open>C5: in every state a link can reach, after any further received bytes and
  whatever allocations fail, the parser writes only inside its buffers and the
  slot tables hold only complete frames with valid checksums, magic, version,
  type and length.\<close>

theorem reachable_link_safe:
  assumes "hl_reach env k n h" "hl_done env = []"
  shows "parser_inv (host_link_feed h bs) \<and> slots_inv (host_link_feed h bs)"
  using hl_reach_inv [OF assms] host_link_feed_inv [of h bs] by (simp add: hl_inv_def)

theorem reachable_link_safe_witness:
  "parser_inv (host_link_feed idle_link [0x48, 0x4C, 0x01])"
  using reachable_link_safe [OF idle_link_reach, of "[0x48, 0x4C, 0x01]"] by simp

text \<open>C6: a link leaks nothing over its life: after \<open>host_link_deinit\<close> the live
  allocations are those from before \<open>host_link_init\<close> plus the response
  buffers handed to callers and to completion callbacks.\<close>

theorem link_leaks_nothing:
  assumes "hl_reach env k n h" "hl_done env = []"
  shows "hl_live (host_link_deinit h) = hl_live env + k + done_owned h"
  using hl_reach_inv [OF assms] by (simp add: deinit_live)

theorem link_leaks_nothing_witness: "hl_live (host_link_deinit idle_link) = 0"
  using link_leaks_nothing [OF idle_link_reach] by (simp add: done_owned_def)





text \<open>C9: a request always returns: for a timeout of at most 65536 ms it is back once
  three timeouts and three wait slices have passed, whatever else happens.\<close>

theorem request_returns:
  assumes "hl_inv h" "payload_fits data len" "tmo \<le> 0x10000" "list_all slice_bounded evs"
    "elapsed evs \<ge> 3 * (unat tmo + 20)"
  shows "\<exists>res. host_link_request_timeout h cmd data len want tmo evs = Some res"
  using request_loop_returns [OF assms(3) _ assms(4,1,2), of 3] assms(5)
  by (auto simp: host_link_request_timeout_def simp del: request_loop.simps)

theorem request_returns_witness:
  "\<exists>res. host_link_request_timeout idle_link 0x10 None 0 True 20 idle_waits = Some res"
  using request_returns [of idle_link None 0 20 idle_waits]
  by (simp add: payload_fits_def idle_waits_def)

text \<open>C10: when \<open>host_link_poll\<close> is through, no unclaimed acknowledgement is
  500 ms old or older, ticks wrapping around included.\<close>

theorem poll_expires_acks:
  assumes "notify_ok cb" "hl_inv h" "hl_ready (host_link_poll cb h)" "i < 8"
    "fr_is_valid (hl_ack_slot (host_link_poll cb h) ! i)"
  shows "unat (hl_tick (host_link_poll cb h) - hl_ack_tick (host_link_poll cb h) ! i) < 500"
  using poll_fresh [OF assms(1-4)] assms(5) by (simp add: fresh_at_def unat_order)

theorem poll_expires_acks_witness:
  "unat (hl_tick (host_link_poll echo_cb acked_link)
     - hl_ack_tick (host_link_poll echo_cb acked_link) ! 0) < 500"
proof -
  have "hl_ready (host_link_poll echo_cb acked_link)
      \<and> fr_is_valid (hl_ack_slot (host_link_poll echo_cb acked_link) ! 0)"
    using acked_link_slots(1,5) acked_link_poll by (simp add: frame_of_def)
  moreover have "hl_inv acked_link"
    using host_link_feed_inv [OF idle_link_inv] by (simp add: acked_link_def)
  ultimately show ?thesis
    using poll_expires_acks [OF echo_cb_ok, of acked_link 0] by simp
qed

text \<open>C11: the tick difference is the true time between two ticks less than 2^32 ms
  apart, across the wrap of the tick counter.\<close>

theorem tick_diff_wraps:
  "host_link_port_tick_diff_ms t (t + d) = d"
  by (simp add: tick_diff_is_sub)

end
