(* ===== verification/Factory_Format.thy ===== *)
theory Factory_Format
  imports Crc16
begin

text \<open>
  The factory identity store: the CTFB A/B slot format
  (\<open>hal_v2/common/devices/hal_factory_format.c\<close>) and its two built-in
  storage backends (\<open>hal_v2/platforms/hailo15/peripherals/hailo15_factory_impl.cpp\<close>,
  the Linux EEPROM node and the page-wise I2C path).  The format engine works on
  a \<open>HalFactoryIo\<close>, here a record of two functions over the backend's
  state; a C string is the list of its bytes without the terminating zero, and
  a failing call returns the error in place of the result.
\<close>

datatype hal_error =
    HAL_OK | HAL_REINIT_PERFORMED | HAL_ERROR | HAL_ERR_INVALID_ARG | HAL_ERR_INVALID_STATE
  | HAL_ERR_INVALID_FMT
  | HAL_ERR_INVALID_SIZE | HAL_ERR_TIMEOUT | HAL_ERR_NO_MEM | HAL_ERR_NOT_FINISHED
  | HAL_ERR_NOT_SUPPORTED | HAL_ERR_NOT_IMPLEMENTED | HAL_ERR_NOT_INITIALIZED
  | HAL_ERR_NOT_READY | HAL_ERR_MUTEX | HAL_ERR_CHECK | HAL_ERR_RESULT | HAL_ERR_NOT_FOUND
  | HAL_ERR_INSUFFICIENT_BUFFER | HAL_ERR_PROFILE_RESTRICTED | HAL_ERR_PROFILE_INVALID
  | HAL_ERR_UNKNOW

datatype factory_field =
    HAL_FACTORY_FIELD_SN | HAL_FACTORY_FIELD_MAC | HAL_FACTORY_FIELD_PN
  | HAL_FACTORY_FIELD_BATCH | HAL_FACTORY_FIELD_HWREV

abbreviation HAL_FACTORY_EEPROM_SIZE :: nat where "HAL_FACTORY_EEPROM_SIZE \<equiv> 256"
abbreviation HAL_FACTORY_SLOT_SIZE :: nat where "HAL_FACTORY_SLOT_SIZE \<equiv> 128"
abbreviation HAL_FACTORY_SLOT_A_BASE :: nat where "HAL_FACTORY_SLOT_A_BASE \<equiv> 0"
abbreviation HAL_FACTORY_SLOT_B_BASE :: nat where "HAL_FACTORY_SLOT_B_BASE \<equiv> 128"

record 'w factory_io =
  io_read :: "nat \<Rightarrow> nat \<Rightarrow> 'w \<Rightarrow> hal_error \<times> byte list \<times> 'w"
  io_write :: "nat \<Rightarrow> byte list \<Rightarrow> 'w \<Rightarrow> hal_error \<times> 'w"

text \<open>Offset, length and kind of a field of a slot.\<close>

record field_meta_t =
  fm_off :: nat
  fm_len :: nat
  fm_mac :: bool

fun field_meta :: "factory_field \<Rightarrow> field_meta_t" where
  "field_meta HAL_FACTORY_FIELD_MAC = \<lparr>fm_off = 16, fm_len = 6, fm_mac = True\<rparr>"
| "field_meta HAL_FACTORY_FIELD_SN = \<lparr>fm_off = 24, fm_len = 32, fm_mac = False\<rparr>"
| "field_meta HAL_FACTORY_FIELD_PN = \<lparr>fm_off = 56, fm_len = 16, fm_mac = False\<rparr>"
| "field_meta HAL_FACTORY_FIELD_BATCH = \<lparr>fm_off = 72, fm_len = 8, fm_mac = False\<rparr>"
| "field_meta HAL_FACTORY_FIELD_HWREV = \<lparr>fm_off = 80, fm_len = 8, fm_mac = False\<rparr>"

definition k_magic :: "byte list" where
  "k_magic = [0x43, 0x54, 0x46, 0x42]"

abbreviation K_FLAG_PROGRAMMED :: byte where "K_FLAG_PROGRAMMED \<equiv> 1"
abbreviation K_FLAG_MAC_VALID :: byte where "K_FLAG_MAC_VALID \<equiv> 2"

definition rd16 :: "byte list \<Rightarrow> u16" where
  "rd16 p = un16 p"

definition rd32 :: "byte list \<Rightarrow> u32" where
  "rd32 p = un32 p"

definition wr16 :: "u16 \<Rightarrow> byte list" where
  "wr16 v = le16 v"

definition wr32 :: "u32 \<Rightarrow> byte list" where
  "wr32 v = le32 v"

definition slot_valid :: "byte list \<Rightarrow> bool" where
  "slot_valid s \<longleftrightarrow> take 4 s = k_magic \<and> s ! 4 = 1
     \<and> rd16 (drop 6 s) = crc16_ccitt_false (drop 16 s) 112"

definition slot_seq :: "byte list \<Rightarrow> u32" where
  "slot_seq s = rd32 (drop 8 s)"

datatype slot_letter = SlotA | SlotB

record active_slot_t =
  act_data :: "byte list"
  act_letter :: slot_letter
  act_base :: nat
  act_seq :: u32

definition mk_active :: "byte list \<Rightarrow> slot_letter \<Rightarrow> nat \<Rightarrow> active_slot_t" where
  "mk_active d l b = \<lparr>act_data = d, act_letter = l, act_base = b, act_seq = slot_seq d\<rparr>"

text \<open>The selection of \<open>read_active\<close>; a slot that could not be read is
  \<open>None\<close>.\<close>

definition pick_active :: "byte list option \<Rightarrow> byte list option \<Rightarrow> hal_error + active_slot_t" where
  "pick_active ra rb =
     (let va = (case ra of None \<Rightarrow> False | Some a \<Rightarrow> slot_valid a);
          vb = (case rb of None \<Rightarrow> False | Some b \<Rightarrow> slot_valid b);
          A = mk_active (the ra) SlotA HAL_FACTORY_SLOT_A_BASE;
          B = mk_active (the rb) SlotB HAL_FACTORY_SLOT_B_BASE
      in if ra = None \<and> rb = None then Inl HAL_ERR_NOT_READY
         else if va \<and> vb then (if slot_seq (the ra) \<ge> slot_seq (the rb) then Inr A else Inr B)
         else if va then Inr A
         else if vb then Inr B
         else Inl HAL_ERR_NOT_FOUND)"

definition read_active :: "'w factory_io \<Rightarrow> 'w \<Rightarrow> (hal_error + active_slot_t) \<times> 'w" where
  "read_active io w =
     (let (rca, a, w1) = io_read io HAL_FACTORY_SLOT_A_BASE HAL_FACTORY_SLOT_SIZE w;
          (rcb, b, w2) = io_read io HAL_FACTORY_SLOT_B_BASE HAL_FACTORY_SLOT_SIZE w1
      in (pick_active (if rca = HAL_OK then Some a else None)
            (if rcb = HAL_OK then Some b else None), w2))"

text \<open>\<open>decode_mac\<close>: \<open>%02x\<close> six times, and \<open>decode_ascii\<close>.\<close>

definition hex_chars :: "byte list" where
  "hex_chars = [0x30, 0x31, 0x32, 0x33, 0x34, 0x35, 0x36, 0x37, 0x38, 0x39,
                0x61, 0x62, 0x63, 0x64, 0x65, 0x66]"

definition hex2 :: "byte \<Rightarrow> byte list" where
  "hex2 b = [hex_chars ! (unat b div 16), hex_chars ! (unat b mod 16)]"

fun decode_mac :: "byte list \<Rightarrow> byte list" where
  "decode_mac [] = []"
| "decode_mac [b] = hex2 b"
| "decode_mac (b # bs) = hex2 b @ 0x3A # decode_mac bs"

definition strip_pad :: "byte list \<Rightarrow> byte list" where
  "strip_pad raw = rev (dropWhile (\<lambda>c. c = 0xFF \<or> c = 0) (rev raw))"

definition decode_ascii :: "byte list \<Rightarrow> nat \<Rightarrow> byte list" where
  "decode_ascii raw out_size = take (out_size - 1) (strip_pad raw)"

text \<open>\<open>sscanf\<close> with \<open>%2x\<close>: white space is skipped, then at most two
  characters of an optionally signed, optionally \<open>0x\<close>-prefixed number are
  read.\<close>

definition is_space :: "byte \<Rightarrow> bool" where
  "is_space c \<longleftrightarrow> c = 0x20 \<or> (0x09 \<le> c \<and> c \<le> 0x0D)"

definition hex_val :: "byte \<Rightarrow> nat option" where
  "hex_val c = first_idx (\<lambda>x. x = (if 0x41 \<le> c \<and> c \<le> 0x46 then c + 0x20 else c)) hex_chars"

definition scan_2x :: "byte list \<Rightarrow> (int \<times> byte list) option" where
  "scan_2x s =
     (case dropWhile is_space s of
        [] \<Rightarrow> None
      | c # r \<Rightarrow>
          if c = 0x2B \<or> c = 0x2D
          then (case r of
                  [] \<Rightarrow> None
                | d # r' \<Rightarrow>
                    (case hex_val d of
                       None \<Rightarrow> None
                     | Some v \<Rightarrow> Some (if c = 0x2D then - int v else int v, r')))
          else (case hex_val c of
                  None \<Rightarrow> None
                | Some v \<Rightarrow>
                    (case r of
                       [] \<Rightarrow> Some (int v, [])
                     | d # r' \<Rightarrow>
                         (case hex_val d of
                            Some u \<Rightarrow> Some (int (16 * v + u), r')
                          | None \<Rightarrow>
                              if c = 0x30 \<and> (d = 0x78 \<or> d = 0x58) then None
                              else Some (int v, r)))))"

fun scan_mac :: "nat \<Rightarrow> byte list \<Rightarrow> int list option" where
  "scan_mac 0 s = Some []"
| "scan_mac (Suc n) s =
     (case scan_2x s of
        None \<Rightarrow> None
      | Some (v, r) \<Rightarrow>
          if n = 0 then Some [v]
          else (case r of
                  [] \<Rightarrow> None
                | c # r' \<Rightarrow> if c = 0x3A then map_option ((#) v) (scan_mac n r') else None))"

definition parse_mac :: "byte list \<Rightarrow> byte list option" where
  "parse_mac s =
     (if length s \<noteq> 17 then None
      else case scan_mac 6 s of
             None \<Rightarrow> None
           | Some b \<Rightarrow>
               if list_all (\<lambda>v. 0 \<le> v \<and> v \<le> 255) b then Some (map word_of_int b) else None)"

record factory_info =
  fi_serial_number :: "byte list"
  fi_mac_address :: "byte list"
  fi_product_number :: "byte list"
  fi_batch :: "byte list"
  fi_hardware_revision :: "byte list"
  fi_active_slot :: "slot_letter option"
  fi_seq :: u32
  fi_valid :: bool

definition zero_info :: factory_info where
  "zero_info = \<lparr>fi_serial_number = [], fi_mac_address = [], fi_product_number = [], fi_batch = [],
     fi_hardware_revision = [], fi_active_slot = None, fi_seq = 0, fi_valid = False\<rparr>"

definition mac_text :: "byte list \<Rightarrow> byte list" where
  "mac_text d = (if d ! 5 AND K_FLAG_MAC_VALID \<noteq> 0 then decode_mac (slice 16 6 d) else [])"

definition hal_factory_format_read_all ::
  "'w factory_io \<Rightarrow> 'w \<Rightarrow> hal_error \<times> factory_info \<times> 'w" where
  "hal_factory_format_read_all io w =
     (case read_active io w of
        (Inl HAL_ERR_NOT_FOUND, w') \<Rightarrow> (HAL_ERR_NOT_FOUND, zero_info, w')
      | (Inl rc, w') \<Rightarrow> (rc, zero_info, w')
      | (Inr a, w') \<Rightarrow>
          (HAL_OK,
           \<lparr>fi_serial_number = decode_ascii (slice 24 32 (act_data a)) 33,
            fi_mac_address = mac_text (act_data a),
            fi_product_number = decode_ascii (slice 56 16 (act_data a)) 17,
            fi_batch = decode_ascii (slice 72 8 (act_data a)) 9,
            fi_hardware_revision = decode_ascii (slice 80 8 (act_data a)) 9,
            fi_active_slot = Some (act_letter a), fi_seq = act_seq a, fi_valid = True\<rparr>, w'))"

definition hal_factory_format_get ::
  "'w factory_io \<Rightarrow> factory_field \<Rightarrow> nat \<Rightarrow> 'w \<Rightarrow> hal_error \<times> byte list \<times> 'w" where
  "hal_factory_format_get io field value_size w =
     (if value_size = 0 then (HAL_ERR_INVALID_ARG, [], w)
      else case read_active io w of
             (Inl rc, w') \<Rightarrow> (rc, [], w')
           | (Inr a, w') \<Rightarrow>
               (let m = field_meta field; d = act_data a in
                if fm_mac m then (HAL_OK, take (value_size - 1) (mac_text d), w')
                else (HAL_OK, decode_ascii (slice (fm_off m) (fm_len m) d) value_size, w')))"

text \<open>The slot \<open>hal_factory_format_set\<close> builds from the previous contents
  \<open>out\<close>, the raw field bytes and the new sequence number.\<close>

definition stamp_slot :: "nat \<Rightarrow> byte list \<Rightarrow> u32 \<Rightarrow> byte list \<Rightarrow> byte list" where
  "stamp_slot off raw seq out =
     (let o1 = poke off raw out;
          o2 = poke 0 k_magic o1;
          o3 = o2[4 := 1];
          flags = (if o3 ! 16 \<noteq> 0xFF then K_FLAG_PROGRAMMED OR K_FLAG_MAC_VALID
                   else K_FLAG_PROGRAMMED);
          o4 = o3[5 := flags];
          o5 = poke 6 (wr16 (crc16_ccitt_false (drop 16 o4) 112)) o4;
          o6 = poke 8 (wr32 seq) o5
      in poke 12 [0xFF, 0xFF, 0xFF, 0xFF] o6)"

definition pad_field :: "nat \<Rightarrow> byte list \<Rightarrow> byte list" where
  "pad_field n v = v @ replicate (n - length v) 0xFF"

definition write_slot ::
  "'w factory_io \<Rightarrow> nat \<Rightarrow> byte list \<Rightarrow> 'w \<Rightarrow> hal_error \<times> 'w" where
  "write_slot io target_base out w =
     (case io_write io target_base out w of
        (rc, w1) \<Rightarrow>
          if rc \<noteq> HAL_OK then (rc, w1)
          else (case io_read io target_base HAL_FACTORY_SLOT_SIZE w1 of
                  (rc, ver, w2) \<Rightarrow>
                    if rc \<noteq> HAL_OK then (rc, w2)
                    else if \<not> slot_valid ver then (HAL_ERR_CHECK, w2) else (HAL_OK, w2)))"

definition hal_factory_format_set ::
  "'w factory_io \<Rightarrow> factory_field \<Rightarrow> byte list \<Rightarrow> 'w \<Rightarrow> hal_error \<times> 'w" where
  "hal_factory_format_set io field value w =
     (let m = field_meta field in
      if fm_mac m \<and> parse_mac value = None then (HAL_ERR_INVALID_ARG, w)
      else if \<not> fm_mac m \<and> length value > fm_len m then (HAL_ERR_INVALID_SIZE, w)
      else
        (let raw = (if fm_mac m then the (parse_mac value) else pad_field (fm_len m) value) in
         case read_active io w of
           (Inl HAL_ERR_NOT_FOUND, w1) \<Rightarrow>
             write_slot io HAL_FACTORY_SLOT_A_BASE
               (stamp_slot (fm_off m) raw 1 (replicate HAL_FACTORY_SLOT_SIZE 0xFF)) w1
         | (Inr a, w1) \<Rightarrow>
             write_slot io
               (if act_letter a = SlotA then HAL_FACTORY_SLOT_B_BASE else HAL_FACTORY_SLOT_A_BASE)
               (stamp_slot (fm_off m) raw (act_seq a + 1) (act_data a)) w1
         | (Inl rc, w1) \<Rightarrow> (rc, w1)))"

definition hal_factory_format_erase :: "'w factory_io \<Rightarrow> 'w \<Rightarrow> hal_error \<times> 'w" where
  "hal_factory_format_erase io w = io_write io 0 (replicate HAL_FACTORY_EEPROM_SIZE 0xFF) w"

subsection \<open>The built-in backends\<close>

text \<open>The EEPROM and the outcomes of the transfers still to come: a failing or
  short transfer moves a number of bytes first; an exhausted script succeeds.\<close>

datatype xfer = XferOk | XferPart nat

record eeprom =
  ee_image :: "byte list"
  ee_script :: "xfer list"

definition next_xfer :: "eeprom \<Rightarrow> xfer" where
  "next_xfer e = (case ee_script e of [] \<Rightarrow> XferOk | x # _ \<Rightarrow> x)"

definition dev_read :: "nat \<Rightarrow> nat \<Rightarrow> eeprom \<Rightarrow> byte list \<times> eeprom" where
  "dev_read addr len e =
     (let got = slice addr len (ee_image e) in
      (case next_xfer e of XferOk \<Rightarrow> got | XferPart n \<Rightarrow> take n (butlast got),
       e\<lparr>ee_script := tl (ee_script e)\<rparr>))"

definition dev_write :: "nat \<Rightarrow> byte list \<Rightarrow> eeprom \<Rightarrow> nat \<times> eeprom" where
  "dev_write addr buf e =
     (let fit = take (length (ee_image e) - addr) buf;
          put = (case next_xfer e of XferOk \<Rightarrow> fit | XferPart n \<Rightarrow> take n (butlast fit)) in
      (length put, e\<lparr>ee_script := tl (ee_script e), ee_image := poke addr put (ee_image e)\<rparr>))"

definition linux_io_read :: "nat \<Rightarrow> nat \<Rightarrow> eeprom \<Rightarrow> hal_error \<times> byte list \<times> eeprom" where
  "linux_io_read addr len e =
     (case dev_read addr len e of
        (buf, e1) \<Rightarrow> (if length buf \<noteq> len then HAL_ERROR else HAL_OK, buf, e1))"

definition linux_io_write :: "nat \<Rightarrow> byte list \<Rightarrow> eeprom \<Rightarrow> hal_error \<times> eeprom" where
  "linux_io_write addr buf e =
     (case dev_write addr buf e of
        (n, e1) \<Rightarrow> (if n \<noteq> length buf then HAL_ERROR else HAL_OK, e1))"

definition i2c_io_read :: "nat \<Rightarrow> nat \<Rightarrow> eeprom \<Rightarrow> hal_error \<times> byte list \<times> eeprom" where
  "i2c_io_read addr len e =
     (case dev_read addr len e of
        (buf, e1) \<Rightarrow> (if length buf \<noteq> len then HAL_ERROR else HAL_OK, buf, e1))"

definition i2c_write_raw :: "nat \<Rightarrow> byte list \<Rightarrow> eeprom \<Rightarrow> hal_error \<times> eeprom" where
  "i2c_write_raw reg buf e =
     (case dev_write reg buf e of
        (n, e1) \<Rightarrow> (if n \<noteq> length buf then HAL_ERROR else HAL_OK, e1))"

text \<open>\<open>i2c_io_write\<close> writes 8-byte pages until one fails.\<close>

function i2c_io_write :: "nat \<Rightarrow> byte list \<Rightarrow> eeprom \<Rightarrow> hal_error \<times> eeprom" where
  "i2c_io_write addr buf e =
     (if buf = [] then (HAL_OK, e)
      else case i2c_write_raw addr (take 8 buf) e of
             (rc, e1) \<Rightarrow>
               if rc \<noteq> HAL_OK then (rc, e1) else i2c_io_write (addr + 8) (drop 8 buf) e1)"
  by pat_completeness auto
termination
  by (relation "measure (\<lambda>(addr, buf, e). length buf)") auto

definition linux_io :: "eeprom factory_io" where
  "linux_io = \<lparr>io_read = linux_io_read, io_write = linux_io_write\<rparr>"

definition i2c_io :: "eeprom factory_io" where
  "i2c_io = \<lparr>io_read = i2c_io_read, io_write = i2c_io_write\<rparr>"

text \<open>\<open>factory_init\<close>: whether HailoRT is compiled in, whether the result
  pointer, the context and the device could be had, the configured backend and
  the caller's own storage decide which storage the engine works on.\<close>

datatype factory_backend =
  HAL_FACTORY_BACKEND_LINUX | HAL_FACTORY_BACKEND_I2C | HAL_FACTORY_BACKEND_CUSTOM

definition factory_init ::
  "bool \<Rightarrow> bool \<Rightarrow> factory_backend option \<Rightarrow> eeprom factory_io option \<Rightarrow> bool \<Rightarrow> bool \<Rightarrow> bool
     \<Rightarrow> hal_error + eeprom factory_io" where
  "factory_init have_hailort out_ok config custom mem_ok open_ok dev_ok =
     (if \<not> out_ok then Inl HAL_ERR_INVALID_ARG
      else if \<not> mem_ok then Inl HAL_ERR_NO_MEM
      else case (case config of None \<Rightarrow> HAL_FACTORY_BACKEND_LINUX | Some b \<Rightarrow> b) of
             HAL_FACTORY_BACKEND_CUSTOM \<Rightarrow>
               (case custom of None \<Rightarrow> Inl HAL_ERR_INVALID_ARG | Some io \<Rightarrow> Inr io)
           | HAL_FACTORY_BACKEND_LINUX \<Rightarrow>
               if open_ok then Inr linux_io else Inl HAL_ERR_NOT_READY
           | HAL_FACTORY_BACKEND_I2C \<Rightarrow>
               if \<not> have_hailort then Inl HAL_ERR_NOT_SUPPORTED
               else if dev_ok then Inr i2c_io else Inl HAL_ERR_NOT_READY)"

text \<open>The entry points check the context and the caller's pointers, then run
  the format engine on the context's storage.\<close>

definition factory_deinit :: "eeprom factory_io option \<Rightarrow> hal_error" where
  "factory_deinit ctx = (if ctx = None then HAL_ERR_INVALID_ARG else HAL_OK)"

definition factory_read_all ::
  "eeprom factory_io option \<Rightarrow> bool \<Rightarrow> eeprom \<Rightarrow> hal_error \<times> factory_info option \<times> eeprom" where
  "factory_read_all ctx out_ok w =
     (case ctx of
        None \<Rightarrow> (HAL_ERR_INVALID_ARG, None, w)
      | Some io \<Rightarrow>
          if \<not> out_ok then (HAL_ERR_INVALID_ARG, None, w)
          else (case hal_factory_format_read_all io w of (rc, i, w') \<Rightarrow> (rc, Some i, w')))"

definition factory_get ::
  "eeprom factory_io option \<Rightarrow> factory_field \<Rightarrow> nat option \<Rightarrow> eeprom
     \<Rightarrow> hal_error \<times> byte list \<times> eeprom" where
  "factory_get ctx field value_size w =
     (case (ctx, value_size) of
        (Some io, Some (Suc n)) \<Rightarrow> hal_factory_format_get io field (Suc n) w
      | _ \<Rightarrow> (HAL_ERR_INVALID_ARG, [], w))"

definition factory_set ::
  "eeprom factory_io option \<Rightarrow> factory_field \<Rightarrow> byte list option \<Rightarrow> eeprom
     \<Rightarrow> hal_error \<times> eeprom" where
  "factory_set ctx field val w =
     (case (ctx, val) of
        (Some io, Some v) \<Rightarrow> hal_factory_format_set io field v w
      | _ \<Rightarrow> (HAL_ERR_INVALID_ARG, w))"

definition factory_erase :: "eeprom factory_io option \<Rightarrow> eeprom \<Rightarrow> hal_error \<times> eeprom" where
  "factory_erase ctx w =
     (case ctx of None \<Rightarrow> (HAL_ERR_INVALID_ARG, w) | Some io \<Rightarrow> hal_factory_format_erase io w)"

text \<open>The record a 256-byte image holds.\<close>

definition active_of :: "byte list \<Rightarrow> hal_error + active_slot_t" where
  "active_of im = pick_active (Some (slice 0 128 im)) (Some (slice 128 128 im))"

definition other_base :: "slot_letter \<Rightarrow> nat" where
  "other_base l = (if l = SlotA then HAL_FACTORY_SLOT_B_BASE else HAL_FACTORY_SLOT_A_BASE)"

definition field_raw :: "factory_field \<Rightarrow> byte list \<Rightarrow> byte list option" where
  "field_raw f v =
     (if fm_mac (field_meta f) then parse_mac v
      else if length v \<le> fm_len (field_meta f) then Some (pad_field (fm_len (field_meta f)) v)
      else None)"

text \<open>Where the next record goes and what it is built from.\<close>

definition next_slot :: "byte list \<Rightarrow> nat \<times> u32 \<times> byte list" where
  "next_slot im =
     (case active_of im of
        Inl _ \<Rightarrow> (0, 1, replicate 128 0xFF)
      | Inr a \<Rightarrow> (other_base (act_letter a), act_seq a + 1, act_data a))"

text \<open>An image of the right size, and no fault pending.\<close>

definition ee_wf :: "eeprom \<Rightarrow> bool" where
  "ee_wf e \<longleftrightarrow> length (ee_image e) = 256"

definition ee_ok :: "eeprom \<Rightarrow> bool" where
  "ee_ok e \<longleftrightarrow> ee_script e = []"

text \<open>The active record, if any, does not carry the last sequence number.\<close>

definition seq_room :: "byte list \<Rightarrow> bool" where
  "seq_room im = (case active_of im of Inl _ \<Rightarrow> True | Inr a \<Rightarrow> act_seq a \<noteq> 0xFFFFFFFF)"

definition blank_eeprom :: eeprom where
  "blank_eeprom = \<lparr>ee_image = replicate 256 0xFF, ee_script = []\<rparr>"

text \<open>A store with one record, of the given sequence number, in slot A.\<close>

definition programmed :: "u32 \<Rightarrow> eeprom" where
  "programmed seq = \<lparr>ee_image =
     poke 0 (stamp_slot 24 (pad_field 32 [0x4E]) seq (replicate 128 0xFF)) (replicate 256 0xFF),
     ee_script = []\<rparr>"

text \<open>The flags byte of a slot with the given payload.\<close>

definition slot_flags :: "byte list \<Rightarrow> byte" where
  "slot_flags payload = (if payload ! 0 \<noteq> 0xFF then 3 else 1)"

declare i2c_io_write.simps [simp del]

subsection \<open>A stamped slot\<close>

lemma hex_chars_all:
  "list_all (\<lambda>n. hex_val (hex_chars ! n) = Some n \<and> \<not> is_space (hex_chars ! n)
     \<and> hex_chars ! n \<noteq> 0x2B \<and> hex_chars ! n \<noteq> 0x2D) [0..<16]"
  by code_simp

lemma hex_chars_val: "n < 16 \<Longrightarrow> hex_val (hex_chars ! n) = Some n \<and> \<not> is_space (hex_chars ! n)
    \<and> hex_chars ! n \<noteq> 0x2B \<and> hex_chars ! n \<noteq> 0x2D"
  using hex_chars_all by (simp add: list_all_iff del: upt_rec_numeral)

lemma scan_2x_hex2: "scan_2x (hex2 b @ r) = Some (uint b, r)"
proof -
  have n: "unat b div 16 < 16" "unat b mod 16 < 16"
    using unsigned_less [of b, where 'a = nat] by auto
  have "int (16 * (unat b div 16) + unat b mod 16) = uint b"
    by (simp only: mult_div_mod_eq uint_nat)
  then show ?thesis
    using hex_chars_val [OF n(1)] hex_chars_val [OF n(2)] by (simp add: scan_2x_def hex2_def)
qed

lemma scan_mac_decode:
  "bs \<noteq> [] \<Longrightarrow> scan_mac (length bs) (decode_mac bs) = Some (map uint bs)"
proof (induction bs rule: decode_mac.induct)
  case (2 b)
  then show ?case using scan_2x_hex2 [of b "[]"] by simp
next
  case (3 b c bs)
  then show ?case
    using scan_2x_hex2 [of b "0x3A # decode_mac (c # bs)"] by simp
qed simp

lemma length_decode_mac: "bs \<noteq> [] \<Longrightarrow> length (decode_mac bs) + 1 = 3 * length bs"
  by (induction bs rule: decode_mac.induct) (simp_all add: hex2_def)

lemma parse_decode_mac:
  assumes "length raw = 6" shows "parse_mac (decode_mac raw) = Some raw"
proof -
  have "raw \<noteq> []" using assms by auto
  moreover have "uint b \<le> 255" for b :: byte using uint_lt2p [of b] by simp
  ultimately show ?thesis
    using scan_mac_decode [of raw] length_decode_mac [of raw] assms
    by (simp add: parse_mac_def list_all_iff comp_def)
qed

lemma take_upt_nth: "n \<le> length xs \<Longrightarrow> take n xs = map ((!) xs) [0..<n]"
  by (rule nth_equalityI) simp_all

lemma explicit_16:
  assumes "16 \<le> length xs"
  obtains a b c d e f g h i j k l m n p q where
    "xs = [a, b, c, d, e, f, g, h, i, j, k, l, m, n, p, q] @ drop 16 xs"
proof -
  have "take 16 xs = map ((!) xs) [0..<16]" using assms by (rule take_upt_nth)
  also have "\<dots> = [xs ! 0, xs ! 1, xs ! 2, xs ! 3, xs ! 4, xs ! 5, xs ! 6, xs ! 7, xs ! 8, xs ! 9,
      xs ! 10, xs ! 11, xs ! 12, xs ! 13, xs ! 14, xs ! 15]"
    by (simp add: eval_nat_numeral)
  finally have "take 16 xs = \<dots>" .
  then show thesis using that append_take_drop_id [of 16 xs] by metis
qed

lemma stamp_slot_eq:
  fixes out :: "byte list"
  assumes "length out = 128" "16 \<le> off" "off + length raw \<le> 128"
  defines "P \<equiv> drop 16 (poke off raw out)"
  shows "stamp_slot off raw seq out
    = k_magic @ [1, slot_flags P] @ le16 (crc16_ccitt_false P 112) @ le32 seq
      @ [0xFF, 0xFF, 0xFF, 0xFF] @ P"
proof -
  have len: "length (poke off raw out) = 128" using assms(1,3) by simp
  obtain a b c d e f g h i j k l m n p q where x:
    "poke off raw out = [a, b, c, d, e, f, g, h, i, j, k, l, m, n, p, q] @ P"
    unfolding P_def by (rule explicit_16 [of "poke off raw out"]) (simp_all add: len)
  have P: "P \<noteq> []" using len by (auto simp: P_def)
  have f: "K_FLAG_PROGRAMMED OR K_FLAG_MAC_VALID = (3 :: byte)" by simp
  show ?thesis
    using P unfolding stamp_slot_def x Let_def
    by (simp add: k_magic_def poke_def wr16_def wr32_def le_defs slot_flags_def f nth_append)
qed

lemma stamp_slot_facts:
  fixes out :: "byte list"
  assumes o: "length out = 128" "16 \<le> off" "off + length raw \<le> 128"
  shows "length (stamp_slot off raw seq out) = 128" "slot_valid (stamp_slot off raw seq out)"
    "slot_seq (stamp_slot off raw seq out) = seq"
    "16 \<le> i \<Longrightarrow> slice i n (stamp_slot off raw seq out) = slice i n (poke off raw out)"
    "stamp_slot off raw seq out ! 5 = slot_flags (drop 16 (poke off raw out))"
proof -
  let ?P = "drop 16 (poke off raw out)"
  note e = stamp_slot_eq [OF o, of seq]
  have P: "length ?P = 112" using o by simp
  show "length (stamp_slot off raw seq out) = 128"
    unfolding e using o by (simp add: k_magic_def)
  show "slot_valid (stamp_slot off raw seq out)"
    unfolding e slot_valid_def by (simp add: k_magic_def rd16_def le_defs)
  show "slot_seq (stamp_slot off raw seq out) = seq"
    unfolding e slot_seq_def by (simp add: k_magic_def rd32_def le_defs)
  show "stamp_slot off raw seq out ! 5 = slot_flags ?P"
    unfolding e by (simp add: k_magic_def le_defs)
  assume i: "16 \<le> i"
  then obtain j where j: "i = 16 + j" using le_Suc_ex by blast
  have "drop 16 (stamp_slot off raw seq out) = ?P"
    unfolding e by (simp add: k_magic_def le_defs)
  then have "drop (16 + j) (stamp_slot off raw seq out) = drop j ?P"
    by (metis add.commute drop_drop)
  then show "slice i n (stamp_slot off raw seq out) = slice i n (poke off raw out)"
    unfolding slice_def j by (simp add: add.commute)
qed

lemma length_pad_field [simp]: "length v \<le> n \<Longrightarrow> length (pad_field n v) = n"
  by (simp add: pad_field_def)

lemma length_parse_mac: "parse_mac v = Some raw \<Longrightarrow> length raw = 6"
proof -
  have "scan_mac n s = Some b \<Longrightarrow> length b = n" for n s b
    by (induction n s arbitrary: b rule: scan_mac.induct)
       (auto split: option.splits prod.splits if_splits list.splits)
  then show "parse_mac v = Some raw \<Longrightarrow> length raw = 6"
    by (auto simp: parse_mac_def split: if_splits option.splits)
qed

lemma field_raw_fits:
  assumes "field_raw f v = Some raw"
  shows "16 \<le> fm_off (field_meta f) \<and> length raw = fm_len (field_meta f)
    \<and> fm_off (field_meta f) + fm_len (field_meta f) \<le> 128"
  using assms by (cases f) (auto simp: field_raw_def length_parse_mac split: if_splits)

lemma fields_disjoint:
  "f \<noteq> g \<Longrightarrow> fm_off (field_meta g) + fm_len (field_meta g) \<le> fm_off (field_meta f)
     \<or> fm_off (field_meta f) + fm_len (field_meta f) \<le> fm_off (field_meta g)"
  by (cases f; cases g) auto

subsection \<open>Images\<close>

lemma pick_active_Some:
  "pick_active (Some a) (Some b) =
     (if slot_valid a \<and> (\<not> slot_valid b \<or> slot_seq a \<ge> slot_seq b) then Inr (mk_active a SlotA 0)
      else if slot_valid b then Inr (mk_active b SlotB 128)
      else Inl HAL_ERR_NOT_FOUND)"
  by (auto simp: pick_active_def Let_def)

lemma active_of_InrD:
  assumes "active_of im = Inr a" "length im = 256"
  shows "length (act_data a) = 128 \<and> slot_valid (act_data a) \<and> act_seq a = slot_seq (act_data a)
    \<and> (act_letter a = SlotA \<longrightarrow> act_data a = slice 0 128 im)
    \<and> (act_letter a = SlotB \<longrightarrow> act_data a = slice 128 128 im)
    \<and> (slot_valid (slice (other_base (act_letter a)) 128 im) \<longrightarrow>
         slot_seq (slice (other_base (act_letter a)) 128 im) \<le> act_seq a)"
  using assms
  by (auto simp: active_of_def pick_active_Some mk_active_def other_base_def split: if_splits)

lemma active_of_cases:
  "active_of im = Inr a \<Longrightarrow>
     a = mk_active (slice 0 128 im) SlotA 0 \<or> a = mk_active (slice 128 128 im) SlotB 128"
  by (auto simp: active_of_def pick_active_Some split: if_splits)

lemma active_of_InlD: "active_of im = Inl e \<Longrightarrow> e = HAL_ERR_NOT_FOUND
    \<and> \<not> slot_valid (slice 0 128 im) \<and> \<not> slot_valid (slice 128 128 im)"
  by (auto simp: active_of_def pick_active_Some split: if_splits)

lemma next_slot_shape:
  assumes "length im = 256" "next_slot im = (base, seq, out)"
  shows "length out = 128 \<and> (base = 0 \<or> base = 128)"
  using assms active_of_InrD [OF _ assms(1)]
  by (auto simp: next_slot_def other_base_def split: sum.splits if_splits)

text \<open>Writing the next record makes it the active one, as long as the sequence
  number does not wrap.\<close>

lemma active_of_next:
  assumes im: "length im = 256" and n: "next_slot im = (base, seq, out)"
    and s: "length s = 128" "slot_valid s" "slot_seq s = seq"
    and wrap: "\<And>a. active_of im = Inr a \<Longrightarrow> act_seq a \<noteq> 0xFFFFFFFF"
  shows "active_of (poke base s im) = Inr (mk_active s (if base = 0 then SlotA else SlotB) base)"
proof (cases "active_of im")
  case (Inl e)
  then have b: "base = 0" using n by (simp add: next_slot_def)
  have "slice 128 128 (poke 0 s im) = slice 128 128 im"
    using im s by (intro slice_poke_disjoint) simp_all
  then show ?thesis
    using active_of_InlD [OF Inl] b im s by (simp add: active_of_def pick_active_Some)
next
  case (Inr a)
  have sq: "seq = act_seq a + 1" "base = other_base (act_letter a)"
    using n Inr by (simp_all add: next_slot_def)
  have "(0xFFFFFFFF :: u32) = - 1" by simp
  then have lt: "act_seq a < seq" unfolding sq(1) using wrap [OF Inr] word_less_inc by metis
  note d = active_of_InrD [OF Inr im]
  show ?thesis
  proof (cases "act_letter a")
    case SlotA
    then have b: "base = 128" using sq(2) by (simp add: other_base_def)
    have "slice 0 128 (poke 128 s im) = slice 0 128 im"
      using im s by (intro slice_poke_disjoint) simp_all
    then show ?thesis using b SlotA d s lt im
      by (auto simp: active_of_def pick_active_Some)
  next
    case SlotB
    then have b: "base = 0" using sq(2) by (simp add: other_base_def)
    have "slice 128 128 (poke 0 s im) = slice 128 128 im"
      using im s by (intro slice_poke_disjoint) simp_all
    then show ?thesis using b SlotB d s lt im
      by (auto simp: active_of_def pick_active_Some)
  qed
qed

lemma next_slot_keeps_active:
  assumes im: "length im = 256" and n: "next_slot im = (base, seq, out)"
    and t: "length t \<le> 128" and a: "active_of im = Inr a"
    and inv: "\<not> slot_valid (slice base 128 (poke base t im))"
  shows "active_of (poke base t im) = Inr a"
proof -
  note d = active_of_InrD [OF a im]
  have b: "base = other_base (act_letter a)" using n a by (simp add: next_slot_def)
  show ?thesis
  proof (cases "act_letter a")
    case SlotA
    then have b: "base = 128" using b by (simp add: other_base_def)
    have e: "slice 0 128 (poke 128 t im) = slice 0 128 im"
      using im t by (intro slice_poke_disjoint) simp_all
    show ?thesis using a SlotA d e b inv
      by (auto simp: active_of_def pick_active_Some mk_active_def split: if_splits)
  next
    case SlotB
    then have b: "base = 0" using b by (simp add: other_base_def)
    have e: "slice 128 128 (poke 0 t im) = slice 128 128 im"
      using im t by (intro slice_poke_disjoint) simp_all
    show ?thesis using a SlotB d e b inv
      by (auto simp: active_of_def pick_active_Some mk_active_def split: if_splits)
  qed
qed

subsection \<open>The storage interface\<close>

text \<open>What the format engine relies on: a read returns the bytes or an error and
  changes nothing; a write puts a prefix of its data in place, all of it if it
  reports success; and where no fault is pending (\<open>ok\<close>) both succeed.\<close>

locale factory_store =
  fixes io :: "'w factory_io"
    and img :: "'w \<Rightarrow> byte list"
    and wf :: "'w \<Rightarrow> bool"
    and ok :: "'w \<Rightarrow> bool"
  assumes img_len: "wf w \<Longrightarrow> length (img w) = 256"
    and read_law: "wf w \<Longrightarrow> addr + len \<le> 256 \<Longrightarrow> io_read io addr len w = (rc, b, w') \<Longrightarrow>
      wf w' \<and> img w' = img w \<and> (rc = HAL_OK \<longrightarrow> b = slice addr len (img w))
      \<and> (ok w \<longrightarrow> ok w' \<and> rc = HAL_OK)"
    and write_law: "wf w \<Longrightarrow> addr + length buf \<le> 256 \<Longrightarrow> io_write io addr buf w = (rc, w') \<Longrightarrow>
      wf w' \<and> (\<exists>n. img w' = poke addr (take n buf) (img w) \<and> (rc = HAL_OK \<longrightarrow> n = length buf))
      \<and> (ok w \<longrightarrow> ok w' \<and> rc = HAL_OK)"
begin

lemma read_active_law:
  assumes "wf w" "read_active io w = (r, w')"
  shows "wf w' \<and> img w' = img w \<and> (ok w \<longrightarrow> ok w' \<and> r = active_of (img w))"
proof -
  obtain rca a w1 where a: "io_read io 0 128 w = (rca, a, w1)" by (metis prod_cases3)
  obtain rcb b w2 where b: "io_read io 128 128 w1 = (rcb, b, w2)" by (metis prod_cases3)
  have 1: "wf w1" "img w1 = img w" "rca = HAL_OK \<Longrightarrow> a = slice 0 128 (img w)"
    "ok w \<Longrightarrow> ok w1 \<and> rca = HAL_OK"
    using read_law [OF assms(1) _ a] by simp_all
  have 2: "wf w2" "img w2 = img w" "rcb = HAL_OK \<Longrightarrow> b = slice 128 128 (img w)"
    "ok w \<Longrightarrow> ok w2 \<and> rcb = HAL_OK"
    using read_law [OF 1(1) _ b] 1 by simp_all
  show ?thesis using assms(2) 1 2 a b by (auto simp: read_active_def active_of_def)
qed

lemma write_slot_law:
  assumes "wf w" "base + length s \<le> 256" "length s = 128" "write_slot io base s w = (rc, w')"
  shows "wf w' \<and> (\<exists>n. img w' = poke base (take n s) (img w) \<and> (rc = HAL_OK \<longrightarrow> n = length s))
    \<and> (ok w \<and> slot_valid s \<longrightarrow> ok w' \<and> rc = HAL_OK)"
proof -
  obtain r1 w1 where w: "io_write io base s w = (r1, w1)" by (metis prod.exhaust)
  obtain r2 v w2 where r: "io_read io base 128 w1 = (r2, v, w2)" by (metis prod_cases3)
  obtain n where n: "img w1 = poke base (take n s) (img w)" "r1 = HAL_OK \<Longrightarrow> n = length s"
    and 1: "wf w1" "ok w \<Longrightarrow> ok w1 \<and> r1 = HAL_OK"
    using write_law [OF assms(1,2) w] by auto
  have 2: "wf w2" "img w2 = img w1" "r2 = HAL_OK \<Longrightarrow> v = slice base 128 (img w1)"
    "ok w1 \<Longrightarrow> ok w2 \<and> r2 = HAL_OK"
    using read_law [OF 1(1) _ r] assms(2,3) by simp_all
  have v: "v = s" if "r1 = HAL_OK" "r2 = HAL_OK"
    using n 2(3) that img_len [OF assms(1)] assms(2,3) by simp
  show ?thesis
    using assms(4) w r 1 2 v n by (auto simp: write_slot_def intro!: exI [of _ n] split: if_splits)
qed

text \<open>Setting a field without faults writes the next slot and nothing else.\<close>

lemma set_succeeds:
  assumes w: "wf w" "ok w" and f: "field_raw f v = Some raw"
    and n: "next_slot (img w) = (base, seq, out)"
  obtains w' where "hal_factory_format_set io f v w = (HAL_OK, w')" "wf w'" "ok w'"
    "img w' = poke base (stamp_slot (fm_off (field_meta f)) raw seq out) (img w)"
proof -
  let ?s = "stamp_slot (fm_off (field_meta f)) raw seq out"
  obtain r w1 where r: "read_active io w = (r, w1)" by (metis prod.exhaust)
  have 1: "wf w1" "img w1 = img w" "ok w1" "r = active_of (img w)"
    using read_active_law [OF w(1) r] w(2) by simp_all
  have o: "length out = 128" "base = 0 \<or> base = 128"
    using next_slot_shape [OF img_len [OF w(1)] n] by simp_all
  have s: "length ?s = 128" "slot_valid ?s"
    using stamp_slot_facts [OF o(1)] field_raw_fits [OF f] by simp_all
  obtain rc w' where ws: "write_slot io base ?s w1 = (rc, w')" by (metis prod.exhaust)
  have 2: "wf w'" "ok w'" "rc = HAL_OK" "img w' = poke base ?s (img w)"
    using write_slot_law [OF 1(1) _ s(1) ws] 1 o s by auto
  have raw: "(if fm_mac (field_meta f) then the (parse_mac v)
      else pad_field (fm_len (field_meta f)) v) = raw"
    "\<not> (fm_mac (field_meta f) \<and> parse_mac v = None)"
    "\<not> (\<not> fm_mac (field_meta f) \<and> fm_len (field_meta f) < length v)"
    using f by (auto simp: field_raw_def split: if_splits)
  have "hal_factory_format_set io f v w = write_slot io base ?s w1"
  proof (cases "active_of (img w)")
    case (Inl e)
    then have "r = Inl HAL_ERR_NOT_FOUND" "base = 0" "seq = 1" "out = replicate 128 0xFF"
      using 1(4) active_of_InlD [OF Inl] n by (simp_all add: next_slot_def)
    then show ?thesis using raw r by (auto simp: hal_factory_format_set_def Let_def)
  next
    case (Inr a)
    then have "r = Inr a" "base = other_base (act_letter a)" "seq = act_seq a + 1"
      "out = act_data a"
      using 1(4) n by (simp_all add: next_slot_def)
    then show ?thesis using raw r by (auto simp: hal_factory_format_set_def Let_def other_base_def)
  qed
  then show thesis using that ws 2 by simp
qed

lemma get_reads_active:
  assumes "wf w" "ok w" "active_of (img w) = Inr a" "0 < sz"
  obtains w' where "hal_factory_format_get io g sz w =
      (HAL_OK, if fm_mac (field_meta g) then take (sz - 1) (mac_text (act_data a))
        else decode_ascii (slice (fm_off (field_meta g)) (fm_len (field_meta g)) (act_data a)) sz, w')"
    "wf w'" "ok w'" "img w' = img w"
proof -
  obtain r w1 where r: "read_active io w = (r, w1)" by (metis prod.exhaust)
  then show thesis
    using read_active_law [OF assms(1) r] assms(2-4) that [of w1]
    by (simp add: hal_factory_format_get_def Let_def)
qed

text \<open>A write that is cut short leaves the record that was active in place, unless
  the torn slot happens to be valid.\<close>

lemma torn_write_keeps_active:
  assumes w: "wf w" and n: "next_slot (img w) = (base, seq, out)" and a: "active_of (img w) = Inr a"
    and s: "length s = 128" and ws: "write_slot io base s w = (rc, w')"
    and inv: "\<not> slot_valid (slice base 128 (img w'))"
  shows "active_of (img w') = Inr a"
proof -
  have o: "base = 0 \<or> base = 128" using next_slot_shape [OF img_len [OF w] n] by simp
  obtain k where k: "img w' = poke base (take k s) (img w)"
    using write_slot_law [OF w _ s ws] o s by auto
  show ?thesis
    using next_slot_keeps_active [OF img_len [OF w] n _ a, of "take k s"] inv s unfolding k by simp
qed

end

lemma dev_write_prefix:
  assumes im: "length (ee_image e) = 256" "addr + length buf \<le> 256" and d: "dev_write addr buf e = (n, e')"
  shows "n \<le> length buf \<and> ee_image e' = poke addr (take n buf) (ee_image e)
    \<and> length (ee_image e') = 256 \<and> (ee_script e = [] \<longrightarrow> ee_script e' = [] \<and> n = length buf)"
proof -
  have fit: "take (length (ee_image e) - addr) buf = buf" using im by simp
  define put where "put = (case next_xfer e of XferOk \<Rightarrow> buf | XferPart n \<Rightarrow> take n (butlast buf))"
  have p: "put = take (length put) buf"
    by (auto simp: put_def take_butlast butlast_conv_take min_def split: xfer.splits)
  have l: "length put \<le> length buf" using p by (metis length_take min.cobounded1)
  have e: "n = length put" "e' = e\<lparr>ee_script := tl (ee_script e), ee_image := poke addr put (ee_image e)\<rparr>"
    using d fit by (simp_all add: dev_write_def put_def Let_def)
  have "length (poke addr put (ee_image e)) = 256" using im l by simp
  moreover have "ee_script e = [] \<Longrightarrow> put = buf" by (simp add: put_def next_xfer_def)
  ultimately show ?thesis using e l p by auto
qed

lemma dev_read_law:
  assumes "length (ee_image e) = 256" "addr + len \<le> 256" "dev_read addr len e = (b, e')"
  shows "ee_image e' = ee_image e \<and> (length b = len \<longrightarrow> b = slice addr len (ee_image e))
    \<and> (ee_script e = [] \<longrightarrow> ee_script e' = [] \<and> length b = len)"
proof (cases "next_xfer e")
  case XferOk
  then show ?thesis using assms by (auto simp: dev_read_def Let_def)
next
  case (XferPart n)
  let ?S = "slice addr len (ee_image e)"
  have s: "ee_script e \<noteq> []" using XferPart by (auto simp: next_xfer_def)
  have b: "b = take n (butlast ?S)" "e' = e\<lparr>ee_script := tl (ee_script e)\<rparr>"
    using assms(3) XferPart by (simp_all add: dev_read_def Let_def)
  have "b = ?S" if "length b = len"
  proof -
    have "length ?S = len" using assms(1,2) by simp
    moreover have "length (take n (butlast ?S)) \<le> length ?S - 1" by simp
    ultimately have "length ?S = 0" using that unfolding b(1) by linarith
    then have "?S = []" by (simp only: length_0_conv)
    then show ?thesis using b(1) by simp
  qed
  then show ?thesis using s b(2) by simp
qed

lemma i2c_io_write_Nil [simp]: "i2c_io_write addr [] e = (HAL_OK, e)"
  by (simp add: i2c_io_write.simps)

lemma poke_Nil [simp]: "poke addr [] im = im"
  by (simp add: poke_def)

lemma i2c_io_write_prefix:
  assumes "length (ee_image e) = 256" "addr + length buf \<le> 256" "i2c_io_write addr buf e = (rc, e')"
  shows "(\<exists>n\<le>length buf. ee_image e' = poke addr (take n buf) (ee_image e)
      \<and> (rc = HAL_OK \<longrightarrow> n = length buf))
    \<and> length (ee_image e') = 256 \<and> (ee_script e = [] \<longrightarrow> ee_script e' = [] \<and> rc = HAL_OK)"
  using assms
proof (induction addr buf e rule: i2c_io_write.induct)
  case (1 addr buf e)
  show ?case
  proof (cases "buf = []")
    case True
    then show ?thesis using "1.prems" by simp
  next
    case False
    obtain n e1 where d: "dev_write addr (take 8 buf) e = (n, e1)" by (metis prod.exhaust)
    have b8: "addr + length (take 8 buf) \<le> 256" using "1.prems"(2) by (simp add: min_def)
    have p: "n \<le> length (take 8 buf)" "ee_image e1 = poke addr (take n buf) (ee_image e)"
      "length (ee_image e1) = 256" "ee_script e = [] \<Longrightarrow> ee_script e1 = [] \<and> n = length (take 8 buf)"
      using dev_write_prefix [OF "1.prems"(1) b8 d] by (auto simp: min_absorb1)
    have raw: "i2c_write_raw addr (take 8 buf) e
        = (if n \<noteq> length (take 8 buf) then HAL_ERROR else HAL_OK, e1)"
      using d by (simp add: i2c_write_raw_def)
    show ?thesis
    proof (cases "n = length (take 8 buf)")
      case short: False
      then have "rc = HAL_ERROR" "e' = e1"
        using "1.prems"(3) raw \<open>buf \<noteq> []\<close> by (simp_all add: i2c_io_write.simps [of addr buf] split: if_splits)
      then show ?thesis using p short by auto
    next
      case full: True
      have rest: "i2c_io_write (addr + 8) (drop 8 buf) e1 = (rc, e')"
        using "1.prems"(3) raw full \<open>buf \<noteq> []\<close> by (simp add: i2c_io_write.simps [of addr buf])
      have e1: "ee_image e1 = poke addr (take 8 buf) (ee_image e)"
        unfolding p(2) full by (simp add: min_def)
      have b: "addr + 8 + length (drop 8 buf) \<le> 256 \<or> drop 8 buf = []"
        using "1.prems"(2) by auto
      have ih: "(\<exists>m\<le>length (drop 8 buf). ee_image e' = poke (addr + 8) (take m (drop 8 buf)) (ee_image e1)
          \<and> (rc = HAL_OK \<longrightarrow> m = length (drop 8 buf)))
        \<and> length (ee_image e') = 256 \<and> (ee_script e1 = [] \<longrightarrow> ee_script e' = [] \<and> rc = HAL_OK)"
      proof (cases "drop 8 buf = []")
        case True
        then show ?thesis using rest p(3) by simp
      next
        case False
        have raw': "i2c_write_raw addr (take 8 buf) e = (HAL_OK, e1)" using raw full by simp
        show ?thesis
          by (rule "1.IH" [OF \<open>buf \<noteq> []\<close> raw' [symmetric] _ p(3) _ rest]) (use b False in simp_all)
      qed
      then obtain m where m: "m \<le> length (drop 8 buf)"
        "ee_image e' = poke (addr + 8) (take m (drop 8 buf)) (ee_image e1)"
        "rc = HAL_OK \<Longrightarrow> m = length (drop 8 buf)" by auto
      have "ee_image e' = poke addr (take (length (take 8 buf) + m) buf) (ee_image e)"
      proof (cases "length buf \<le> 8")
        case True
        then show ?thesis using m(1,2) e1 by simp
      next
        case False
        have "poke (addr + length (take 8 buf)) (take m (drop 8 buf)) (poke addr (take 8 buf) (ee_image e))
            = poke addr (take 8 buf @ take m (drop 8 buf)) (ee_image e)"
          using False m(1) "1.prems"(1,2) by (intro poke_append) simp
        then show ?thesis using False m(2) e1 by (simp add: take_add min_def)
      qed
      moreover have "length (take 8 buf) + m \<le> length buf" using m(1) by simp
      moreover have "rc = HAL_OK \<longrightarrow> length (take 8 buf) + m = length buf"
        using m(3) by (auto simp: min_def)
      ultimately have "\<exists>n\<le>length buf. ee_image e' = poke addr (take n buf) (ee_image e)
          \<and> (rc = HAL_OK \<longrightarrow> n = length buf)" by blast
      then show ?thesis using ih p(4) by blast
    qed
  qed
qed

lemmas ee_defs = ee_wf_def ee_ok_def

lemma linux_read_law:
  assumes "ee_wf w" "addr + len \<le> 256" "linux_io_read addr len w = (rc, b, w')"
  shows "ee_wf w' \<and> ee_image w' = ee_image w \<and> (rc = HAL_OK \<longrightarrow> b = slice addr len (ee_image w))
    \<and> (ee_ok w \<longrightarrow> ee_ok w' \<and> rc = HAL_OK)"
proof -
  obtain c e where d: "dev_read addr len w = (c, e)" by (metis prod.exhaust)
  show ?thesis
    using dev_read_law [OF _ assms(2) d] assms(1,3) d by (auto simp: linux_io_read_def ee_defs)
qed

lemma linux_write_law:
  assumes "ee_wf w" "addr + length buf \<le> 256" "linux_io_write addr buf w = (rc, w')"
  shows "ee_wf w' \<and> (\<exists>n. ee_image w' = poke addr (take n buf) (ee_image w)
      \<and> (rc = HAL_OK \<longrightarrow> n = length buf)) \<and> (ee_ok w \<longrightarrow> ee_ok w' \<and> rc = HAL_OK)"
proof -
  obtain n e where d: "dev_write addr buf w = (n, e)" by (metis prod.exhaust)
  have r: "rc = (if n \<noteq> length buf then HAL_ERROR else HAL_OK)" "w' = e"
    using assms(3) d by (simp_all add: linux_io_write_def)
  have p: "ee_image e = poke addr (take n buf) (ee_image w)" "length (ee_image e) = 256"
    "ee_script w = [] \<longrightarrow> ee_script e = [] \<and> n = length buf"
    using dev_write_prefix [OF assms(1) [unfolded ee_wf_def] assms(2) d] by blast+
  then show ?thesis unfolding ee_defs r by auto
qed

interpretation linux_store: factory_store linux_io ee_image ee_wf ee_ok
proof (rule factory_store.intro)
  fix w addr len rc b w'
  show "ee_wf w \<Longrightarrow> length (ee_image w) = 256" by (simp add: ee_wf_def)
  show "ee_wf w \<Longrightarrow> addr + len \<le> 256 \<Longrightarrow> io_read linux_io addr len w = (rc, b, w') \<Longrightarrow>
      ee_wf w' \<and> ee_image w' = ee_image w \<and> (rc = HAL_OK \<longrightarrow> b = slice addr len (ee_image w))
      \<and> (ee_ok w \<longrightarrow> ee_ok w' \<and> rc = HAL_OK)"
    by (rule linux_read_law) (simp_all add: linux_io_def)
next
  fix w addr buf rc w'
  show "ee_wf w \<Longrightarrow> addr + length buf \<le> 256 \<Longrightarrow> io_write linux_io addr buf w = (rc, w') \<Longrightarrow>
      ee_wf w' \<and> (\<exists>n. ee_image w' = poke addr (take n buf) (ee_image w) \<and> (rc = HAL_OK \<longrightarrow> n = length buf))
      \<and> (ee_ok w \<longrightarrow> ee_ok w' \<and> rc = HAL_OK)"
    by (rule linux_write_law) (simp_all add: linux_io_def)
qed

lemma i2c_read_law:
  assumes "ee_wf w" "addr + len \<le> 256" "i2c_io_read addr len w = (rc, b, w')"
  shows "ee_wf w' \<and> ee_image w' = ee_image w \<and> (rc = HAL_OK \<longrightarrow> b = slice addr len (ee_image w))
    \<and> (ee_ok w \<longrightarrow> ee_ok w' \<and> rc = HAL_OK)"
proof -
  obtain c e where d: "dev_read addr len w = (c, e)" by (metis prod.exhaust)
  show ?thesis
    using dev_read_law [OF _ assms(2) d] assms(1,3) d by (auto simp: i2c_io_read_def ee_defs)
qed

lemma i2c_write_law:
  assumes "ee_wf w" "addr + length buf \<le> 256" "i2c_io_write addr buf w = (rc, w')"
  shows "ee_wf w' \<and> (\<exists>n. ee_image w' = poke addr (take n buf) (ee_image w)
      \<and> (rc = HAL_OK \<longrightarrow> n = length buf)) \<and> (ee_ok w \<longrightarrow> ee_ok w' \<and> rc = HAL_OK)"
  using i2c_io_write_prefix [OF assms(1) [unfolded ee_wf_def] assms(2,3)] unfolding ee_defs by metis

interpretation i2c_store: factory_store i2c_io ee_image ee_wf ee_ok
proof (rule factory_store.intro)
  fix w addr len rc b w'
  show "ee_wf w \<Longrightarrow> length (ee_image w) = 256" by (simp add: ee_wf_def)
  show "ee_wf w \<Longrightarrow> addr + len \<le> 256 \<Longrightarrow> io_read i2c_io addr len w = (rc, b, w') \<Longrightarrow>
      ee_wf w' \<and> ee_image w' = ee_image w \<and> (rc = HAL_OK \<longrightarrow> b = slice addr len (ee_image w))
      \<and> (ee_ok w \<longrightarrow> ee_ok w' \<and> rc = HAL_OK)"
    by (rule i2c_read_law) (simp_all add: i2c_io_def)
next
  fix w addr buf rc w'
  show "ee_wf w \<Longrightarrow> addr + length buf \<le> 256 \<Longrightarrow> io_write i2c_io addr buf w = (rc, w') \<Longrightarrow>
      ee_wf w' \<and> (\<exists>n. ee_image w' = poke addr (take n buf) (ee_image w) \<and> (rc = HAL_OK \<longrightarrow> n = length buf))
      \<and> (ee_ok w \<longrightarrow> ee_ok w' \<and> rc = HAL_OK)"
    by (rule i2c_write_law) (simp_all add: i2c_io_def)
qed

subsection \<open>Values\<close>

lemma strip_pad_pad_field:
  assumes "v = [] \<or> (last v \<noteq> 0xFF \<and> last v \<noteq> 0)"
  shows "strip_pad (pad_field n v) = v"
proof -
  have "dropWhile (\<lambda>c. c = 0xFF \<or> c = 0) (replicate k 0xFF @ rev v)
      = dropWhile (\<lambda>c. c = 0xFF \<or> c = 0) (rev v)" for k
    by (induction k) simp_all
  moreover have "dropWhile (\<lambda>c. c = 0xFF \<or> c = 0) (rev v) = rev v"
    using assms by (cases v rule: rev_cases) simp_all
  ultimately show ?thesis by (simp add: strip_pad_def pad_field_def)
qed

lemma mac_valid_flag: "(if x then (3 :: byte) else 1) AND 2 \<noteq> 0 \<longleftrightarrow> x"
  by simp

lemma mac_text_stamp:
  assumes "length out = 128" "16 \<le> off" "off + length raw \<le> 128"
  shows "mac_text (stamp_slot off raw seq out) =
    (if poke off raw out ! 16 \<noteq> 0xFF then decode_mac (slice 16 6 (poke off raw out)) else [])"
  using stamp_slot_facts(4) [OF assms, of 16 6] stamp_slot_facts(5) [OF assms] assms
  by (simp add: mac_text_def slot_flags_def)

text \<open>What a successful set leaves in the store, for either backend.\<close>

lemma set_active:
  assumes io: "io = linux_io \<or> io = i2c_io" and e: "ee_wf e" "ee_ok e"
    and f: "field_raw f v = Some raw"
    and wrap: "\<And>a. active_of (ee_image e) = Inr a \<Longrightarrow> act_seq a \<noteq> 0xFFFFFFFF"
    and n: "next_slot (ee_image e) = (base, seq, out)"
  obtains e' where "hal_factory_format_set io f v e = (HAL_OK, e')" "ee_wf e'" "ee_ok e'"
    "active_of (ee_image e') = Inr (mk_active (stamp_slot (fm_off (field_meta f)) raw seq out)
       (if base = 0 then SlotA else SlotB) base)"
proof -
  let ?s = "stamp_slot (fm_off (field_meta f)) raw seq out"
  have im: "length (ee_image e) = 256" using e by (simp add: ee_wf_def)
  have o: "length out = 128" using next_slot_shape [OF im n] by simp
  have s: "length ?s = 128" "slot_valid ?s" "slot_seq ?s = seq"
    using stamp_slot_facts [OF o] field_raw_fits [OF f] by simp_all
  have set: "\<exists>e'. hal_factory_format_set io f v e = (HAL_OK, e') \<and> ee_wf e' \<and> ee_ok e'
      \<and> ee_image e' = poke base ?s (ee_image e)"
    using io linux_store.set_succeeds [OF e f n] i2c_store.set_succeeds [OF e f n] by metis
  then show thesis using that active_of_next [OF im n s wrap] by metis
qed

lemma get_active:
  assumes io: "io = linux_io \<or> io = i2c_io" and e: "ee_wf e" "ee_ok e"
    and a: "active_of (ee_image e) = Inr a" and sz: "0 < sz"
  shows "\<exists>e'. hal_factory_format_get io g sz e =
      (HAL_OK, if fm_mac (field_meta g) then take (sz - 1) (mac_text (act_data a))
        else decode_ascii (slice (fm_off (field_meta g)) (fm_len (field_meta g)) (act_data a)) sz, e')"
  using io linux_store.get_reads_active [OF e a sz] i2c_store.get_reads_active [OF e a sz] by metis

lemma seq_roomD: "seq_room im \<Longrightarrow> active_of im = Inr a \<Longrightarrow> act_seq a \<noteq> 0xFFFFFFFF"
  by (simp add: seq_room_def)

lemma blank_slot_invalid: "\<not> slot_valid (slice i 128 (replicate 256 0xFF))"
proof -
  have "replicate n (0xFF :: byte) \<noteq> [0x43, 0x54, 0x46, 0x42]" for n by (cases n) auto
  then have "take 4 (slice i 128 (replicate 256 (0xFF :: byte))) \<noteq> k_magic"
    by (simp add: slice_def k_magic_def)
  then show ?thesis by (simp add: slot_valid_def)
qed

lemma programmed_facts:
  "ee_wf (programmed seq)" "ee_ok (programmed seq)"
  "\<exists>a. active_of (ee_image (programmed seq)) = Inr a \<and> act_seq a = seq \<and> act_letter a = SlotA"
proof -
  let ?s = "stamp_slot 24 (pad_field 32 [0x4E]) seq (replicate 128 0xFF)"
  have s: "length ?s = 128" "slot_valid ?s" "slot_seq ?s = seq"
    by (rule stamp_slot_facts; simp)+
  have o: "slice 128 128 (poke 0 ?s (replicate 256 0xFF)) = slice 128 128 (replicate 256 0xFF)"
    using s by (intro slice_poke_disjoint) simp_all
  show "ee_wf (programmed seq)" using s by (simp add: programmed_def ee_wf_def)
  show "ee_ok (programmed seq)" by (simp add: programmed_def ee_ok_def)
  show "\<exists>a. active_of (ee_image (programmed seq)) = Inr a \<and> act_seq a = seq \<and> act_letter a = SlotA"
    using s o
    by (simp add: programmed_def active_of_def pick_active_Some blank_slot_invalid mk_active_def)
qed

lemma blank_eeprom_facts:
  "ee_wf blank_eeprom" "ee_ok blank_eeprom" "active_of (ee_image blank_eeprom) = Inl HAL_ERR_NOT_FOUND"
  "seq_room (ee_image blank_eeprom)"
proof -
  show "active_of (ee_image blank_eeprom) = Inl HAL_ERR_NOT_FOUND"
    by (simp add: active_of_def pick_active_Some blank_eeprom_def blank_slot_invalid)
  then show "seq_room (ee_image blank_eeprom)" by (simp add: seq_room_def)
qed (simp_all add: ee_defs blank_eeprom_def)

lemma mk_active_data [simp]: "act_data (mk_active d l b) = d"
  by (simp add: mk_active_def)

lemma slot_valid_split:
  assumes "length h = 16" "length p = 112"
  shows "slot_valid (h @ p) \<longleftrightarrow>
    take 4 h = k_magic \<and> h ! 4 = 1 \<and> un16 (drop 6 h) = foldl crc_byte 0xFFFF p"
proof -
  have "16 \<le> length h" using assms(1) by simp
  then obtain a b c d e f g i j k l m n u q r where
    "h = [a, b, c, d, e, f, g, i, j, k, l, m, n, u, q, r] @ drop 16 h"
    by (rule explicit_16)
  then have "h = [a, b, c, d, e, f, g, i, j, k, l, m, n, u, q, r]" using assms(1) by simp
  then show ?thesis
    using assms(2) by (simp add: slot_valid_def rd16_def crc16_ccitt_false_def)
qed

subsection \<open>Properties\<close>

text \<open>C12: on a fault-free store, setting a text field succeeds and getting it back
  gives the value, on both backends and whatever the store held before.\<close>

theorem factory_text_round_trip:
  assumes "io = linux_io \<or> io = i2c_io" "ee_wf e" "ee_ok e"
    "\<not> fm_mac (field_meta f)" "length v \<le> fm_len (field_meta f)" "length v < sz"
    "v = [] \<or> (last v \<noteq> 0xFF \<and> last v \<noteq> 0)"
    "seq_room (ee_image e)"
  shows "\<exists>e' e''. hal_factory_format_set io f v e = (HAL_OK, e')
    \<and> hal_factory_format_get io f sz e' = (HAL_OK, v, e'')"
proof -
  let ?m = "field_meta f"
  obtain base seq out where n: "next_slot (ee_image e) = (base, seq, out)" by (metis prod_cases3)
  have im: "length (ee_image e) = 256" using assms(2) by (simp add: ee_wf_def)
  have o: "length out = 128" using next_slot_shape [OF im n] by simp
  have f: "field_raw f v = Some (pad_field (fm_len ?m) v)" using assms(4,5) by (simp add: field_raw_def)
  note fit = field_raw_fits [OF f]
  obtain e' where e': "hal_factory_format_set io f v e = (HAL_OK, e')" "ee_wf e'" "ee_ok e'"
    "active_of (ee_image e') = Inr (mk_active (stamp_slot (fm_off ?m) (pad_field (fm_len ?m) v) seq out)
       (if base = 0 then SlotA else SlotB) base)"
    using set_active [OF assms(1-3) f seq_roomD [OF assms(8)] n] by metis
  have sl: "slice (fm_off ?m) (fm_len ?m) (stamp_slot (fm_off ?m) (pad_field (fm_len ?m) v) seq out)
      = pad_field (fm_len ?m) v"
    using stamp_slot_facts(4) [OF o] fit o by simp
  obtain e'' where "hal_factory_format_get io f sz e' = (HAL_OK,
      decode_ascii (pad_field (fm_len ?m) v) sz, e'')"
    using get_active [OF assms(1) e'(2-4), of sz f] assms(4,6) by (auto simp: sl)
  moreover have "decode_ascii (pad_field (fm_len ?m) v) sz = v"
    using assms(6) by (simp add: decode_ascii_def strip_pad_pad_field [OF assms(7)])
  ultimately show ?thesis using e'(1) by auto
qed

theorem factory_text_round_trip_witness:
  "\<exists>e' e''. hal_factory_format_set i2c_io HAL_FACTORY_FIELD_SN [0x4E, 0x45, 0x31] blank_eeprom = (HAL_OK, e')
    \<and> hal_factory_format_get i2c_io HAL_FACTORY_FIELD_SN 33 e' = (HAL_OK, [0x4E, 0x45, 0x31], e'')"
  using factory_text_round_trip [of i2c_io blank_eeprom HAL_FACTORY_FIELD_SN "[0x4E, 0x45, 0x31]" 33]
    blank_eeprom_facts by simp

text \<open>C13: on a fault-free store, setting the MAC address from its printed form and
  getting it back gives the same text, for every address that does not begin
  with the byte \<open>0xFF\<close>.\<close>

theorem factory_mac_round_trip:
  assumes "io = linux_io \<or> io = i2c_io" "ee_wf e" "ee_ok e" "length raw = 6" "raw ! 0 \<noteq> 0xFF"
    "seq_room (ee_image e)"
  shows "\<exists>e' e''. hal_factory_format_set io HAL_FACTORY_FIELD_MAC (decode_mac raw) e = (HAL_OK, e')
    \<and> hal_factory_format_get io HAL_FACTORY_FIELD_MAC 18 e' = (HAL_OK, decode_mac raw, e'')"
proof -
  obtain base seq out where n: "next_slot (ee_image e) = (base, seq, out)" by (metis prod_cases3)
  have im: "length (ee_image e) = 256" using assms(2) by (simp add: ee_wf_def)
  have o: "length out = 128" using next_slot_shape [OF im n] by simp
  have f: "field_raw HAL_FACTORY_FIELD_MAC (decode_mac raw) = Some raw"
    using parse_decode_mac [OF assms(4)] by (simp add: field_raw_def)
  obtain e' where e': "hal_factory_format_set io HAL_FACTORY_FIELD_MAC (decode_mac raw) e = (HAL_OK, e')"
    "ee_wf e'" "ee_ok e'"
    "active_of (ee_image e') = Inr (mk_active (stamp_slot 16 raw seq out)
       (if base = 0 then SlotA else SlotB) base)"
    using set_active [OF assms(1-3) f seq_roomD [OF assms(6)] n] by auto
  have "poke 16 raw out ! 16 = raw ! 0" using o assms(4) by (simp add: nth_poke)
  then have m: "mac_text (stamp_slot 16 raw seq out) = decode_mac raw"
    using mac_text_stamp [OF o, of 16 raw seq] assms(4,5) o by simp
  have "length (decode_mac raw) = 17"
    using length_decode_mac [of raw] assms(4) by (cases raw) simp_all
  then show ?thesis
    using get_active [OF assms(1) e'(2-4), of 18 HAL_FACTORY_FIELD_MAC] e'(1) by (simp add: m)
qed

theorem factory_mac_round_trip_witness:
  "\<exists>e' e''. hal_factory_format_set linux_io HAL_FACTORY_FIELD_MAC
      (decode_mac [0x02, 0xAB, 0, 0x7F, 0xFF, 1]) blank_eeprom = (HAL_OK, e')
    \<and> hal_factory_format_get linux_io HAL_FACTORY_FIELD_MAC 18 e'
      = (HAL_OK, decode_mac [0x02, 0xAB, 0, 0x7F, 0xFF, 1], e'')"
  using factory_mac_round_trip [of linux_io blank_eeprom "[0x02, 0xAB, 0, 0x7F, 0xFF, 1]"]
    blank_eeprom_facts by simp

text \<open>C14: setting one field leaves every other text field of the identity block as it
  was.\<close>

theorem factory_set_keeps_others:
  assumes "io = linux_io \<or> io = i2c_io" "ee_wf e" "ee_ok e" "field_raw f v = Some raw"
    "seq_room (ee_image e)" "active_of (ee_image e) = Inr a" "g \<noteq> f" "\<not> fm_mac (field_meta g)"
    "0 < sz"
  shows "\<exists>e' e1 e2. hal_factory_format_set io f v e = (HAL_OK, e')
    \<and> hal_factory_format_get io g sz e = (HAL_OK, decode_ascii (slice (fm_off (field_meta g))
          (fm_len (field_meta g)) (act_data a)) sz, e1)
    \<and> hal_factory_format_get io g sz e' = (HAL_OK, decode_ascii (slice (fm_off (field_meta g))
          (fm_len (field_meta g)) (act_data a)) sz, e2)"
proof -
  let ?f = "field_meta f" and ?g = "field_meta g"
  have im: "length (ee_image e) = 256" using assms(2) by (simp add: ee_wf_def)
  have n: "next_slot (ee_image e) = (other_base (act_letter a), act_seq a + 1, act_data a)"
    using assms(6) by (simp add: next_slot_def)
  have o: "length (act_data a) = 128" using active_of_InrD [OF assms(6) im] by simp
  note fit = field_raw_fits [OF assms(4)]
  let ?s = "stamp_slot (fm_off ?f) raw (act_seq a + 1) (act_data a)"
  obtain e' l b where e': "hal_factory_format_set io f v e = (HAL_OK, e')" "ee_wf e'" "ee_ok e'"
    "active_of (ee_image e') = Inr (mk_active ?s l b)"
    using set_active [OF assms(1-4) seq_roomD [OF assms(5)] n] by metis
  have "16 \<le> fm_off ?g" by (cases g) simp_all
  then have "slice (fm_off ?g) (fm_len ?g) ?s = slice (fm_off ?g) (fm_len ?g) (act_data a)"
    using stamp_slot_facts(4) [OF o] fit o fields_disjoint [OF assms(7) [symmetric]]
    by (simp add: slice_poke_disjoint)
  then show ?thesis
    using get_active [OF assms(1-3) assms(6,9), of g] get_active [OF assms(1) e'(2-4) assms(9), of g]
      e'(1) assms(8) by simp
qed

theorem factory_set_keeps_others_witness:
  "\<exists>a e' e1 e2. active_of (ee_image (programmed 1)) = Inr a
    \<and> hal_factory_format_set linux_io HAL_FACTORY_FIELD_PN [0x50] (programmed 1) = (HAL_OK, e')
    \<and> hal_factory_format_get linux_io HAL_FACTORY_FIELD_SN 33 (programmed 1)
        = (HAL_OK, decode_ascii (slice 24 32 (act_data a)) 33, e1)
    \<and> hal_factory_format_get linux_io HAL_FACTORY_FIELD_SN 33 e'
        = (HAL_OK, decode_ascii (slice 24 32 (act_data a)) 33, e2)"
proof -
  obtain a where a: "active_of (ee_image (programmed 1)) = Inr a" "act_seq a = 1"
    using programmed_facts(3) by blast
  have f: "field_raw HAL_FACTORY_FIELD_PN [0x50] = Some (pad_field 16 [0x50])"
    by (simp add: field_raw_def)
  have "seq_room (ee_image (programmed 1))" using a by (simp add: seq_room_def)
  then show ?thesis
    using factory_set_keeps_others [of linux_io "programmed 1" HAL_FACTORY_FIELD_PN "[0x50]"
        "pad_field 16 [0x50]" a HAL_FACTORY_FIELD_SN 33] programmed_facts(1,2) f a by auto
qed





text \<open>C17: when the active record carries the last 32-bit sequence number, a
  successful set has no effect: the old record stays active.\<close>

theorem factory_seq_wrap_loses_write:
  assumes "io = linux_io \<or> io = i2c_io" "ee_wf e" "ee_ok e" "field_raw f v = Some raw"
    "active_of (ee_image e) = Inr a" "act_seq a = 0xFFFFFFFF"
  shows "\<exists>e'. hal_factory_format_set io f v e = (HAL_OK, e') \<and> active_of (ee_image e') = Inr a"
proof -
  let ?b = "other_base (act_letter a)"
  have im: "length (ee_image e) = 256" using assms(2) by (simp add: ee_wf_def)
  have "act_seq a + 1 = 0" using assms(6) by simp
  then have n: "next_slot (ee_image e) = (?b, 0, act_data a)"
    using assms(5) by (simp add: next_slot_def)
  note d = active_of_InrD [OF assms(5) im]
  let ?s = "stamp_slot (fm_off (field_meta f)) raw 0 (act_data a)"
  have s: "length ?s = 128" "slot_seq ?s = 0"
    using stamp_slot_facts d field_raw_fits [OF assms(4)] by simp_all
  obtain e' where e': "hal_factory_format_set io f v e = (HAL_OK, e')"
    "ee_image e' = poke ?b ?s (ee_image e)"
    using assms(1) linux_store.set_succeeds [OF assms(2-4) n] i2c_store.set_succeeds [OF assms(2-4) n]
    by metis
  have o: "slice (128 - ?b) 128 (poke ?b ?s (ee_image e)) = slice (128 - ?b) 128 (ee_image e)"
    using im s by (intro slice_poke_disjoint) (auto simp: other_base_def)
  have "active_of (ee_image e') = Inr a"
  proof (cases "act_letter a")
    case SlotA
    then have "a = mk_active (slice 0 128 (ee_image e)) SlotA 0"
      using active_of_cases [OF assms(5)] by (auto simp: mk_active_def)
    then show ?thesis using d o s im assms(6) SlotA unfolding e'(2) active_of_def pick_active_Some
      by (simp add: other_base_def)
  next
    case SlotB
    then have "a = mk_active (slice 128 128 (ee_image e)) SlotB 128"
      using active_of_cases [OF assms(5)] by (auto simp: mk_active_def)
    then show ?thesis using d o s im assms(6) SlotB unfolding e'(2) active_of_def pick_active_Some
      by (simp add: other_base_def)
  qed
  then show ?thesis using e'(1) by blast
qed

theorem factory_seq_wrap_loses_write_witness:
  "\<exists>a e'. active_of (ee_image (programmed 0xFFFFFFFF)) = Inr a
    \<and> hal_factory_format_set linux_io HAL_FACTORY_FIELD_SN [0x41] (programmed 0xFFFFFFFF) = (HAL_OK, e')
    \<and> active_of (ee_image e') = Inr a"
proof -
  obtain a where a: "active_of (ee_image (programmed 0xFFFFFFFF)) = Inr a" "act_seq a = 0xFFFFFFFF"
    using programmed_facts(3) by blast
  have "field_raw HAL_FACTORY_FIELD_SN [0x41] = Some (pad_field 32 [0x41])"
    by (simp add: field_raw_def)
  then show ?thesis
    using factory_seq_wrap_loses_write [of linux_io "programmed 0xFFFFFFFF" HAL_FACTORY_FIELD_SN
        "[0x41]" "pad_field 32 [0x41]" a] programmed_facts(1,2) a by auto
qed

end
