(* ===== verification/Memory.thy ===== *)
theory Memory
  imports Neo_Prelude
begin

text \<open>
  A byte-addressed memory of 32-bit addresses, as the microcontroller's CPU sees
  it, and the overwriting of a range of it.
\<close>

definition mem_poke :: "u32 \<Rightarrow> byte list \<Rightarrow> (u32 \<Rightarrow> byte) \<Rightarrow> u32 \<Rightarrow> byte" where
  "mem_poke p d m = (\<lambda>a. if unat (a - p) < length d then d ! unat (a - p) else m a)"

lemma unat_lt32: "unat (x :: u32) < 2 ^ 32"
  using unsigned_less [where 'a = nat, of x] by simp

lemma unat_add_nat: "unat a + n < 2 ^ 32 \<Longrightarrow> unat ((a :: u32) + of_nat n) = unat a + n"
proof -
  assume a: "unat a + n < 2 ^ 32"
  then have "n < 2 ^ 32" by (rule order.strict_trans1 [rotated]) simp
  then have "unat (of_nat n :: u32) = n" by (simp add: unat_of_nat)
  then show ?thesis using a unat_plus_small [of a "of_nat n"] by simp
qed

lemma mem_poke_Nil [simp]: "mem_poke p [] m = m"
  by (simp add: mem_poke_def)

lemma unat_diff_add:
  assumes "n < 2 ^ 32"
  shows "unat (x - (p + of_nat n) :: u32)
    = (if n \<le> unat (x - p) then unat (x - p) - n else unat (x - p) + 2 ^ 32 - n)"
proof -
  have "unat (of_nat n :: u32) = n" using assms by (simp add: unat_of_nat)
  then show ?thesis using unat_sub_if' [of "x - p" "of_nat n"] by (simp add: diff_diff_eq)
qed

lemma unat_diff_inside:
  assumes "k \<le> unat (x - p :: u32)"
  shows "unat (x - (p + of_nat k)) = unat (x - p) - k"
proof -
  have "k < 2 ^ 32" using assms unat_lt32 by (rule order.strict_trans1)
  then show ?thesis using assms by (simp only: unat_diff_add if_True)
qed

lemma unat_diff_outside:
  assumes "unat (x - p :: u32) < k" "k + n \<le> 2 ^ 32" "k < 2 ^ 32"
  shows "n \<le> unat (x - (p + of_nat k))"
proof -
  have "unat (x - (p + of_nat k)) = unat (x - p) + 2 ^ 32 - k"
    using unat_diff_add [OF assms(3), of x p] assms(1) by simp
  then show ?thesis using assms(2) by linarith
qed

lemma mem_poke_inside:
  assumes b: "k + length d \<le> length b" "length b \<le> 2 ^ 32" "k < 2 ^ 32"
  shows "mem_poke (p + of_nat k) d (mem_poke p b m) = mem_poke p (poke k d b) m"
proof
  fix a
  let ?x = "unat (a - p)"
  consider "?x < k" | "k \<le> ?x" "?x < length b" | "length b \<le> ?x" by linarith
  then show "mem_poke (p + of_nat k) d (mem_poke p b m) a = mem_poke p (poke k d b) m a"
  proof cases
    case 1
    then have "length d \<le> unat (a - (p + of_nat k))"
      using b by (intro unat_diff_outside) simp_all
    then show ?thesis using b 1 by (simp add: mem_poke_def nth_poke)
  next
    case 2
    then show ?thesis using b by (auto simp: mem_poke_def nth_poke unat_diff_inside)
  next
    case 3
    then have "length d \<le> unat (a - (p + of_nat k))" using b by (simp add: unat_diff_inside)
    then show ?thesis using b 3 by (simp add: mem_poke_def)
  qed
qed

lemma mem_poke_append:
  assumes b: "length d1 + length d2 \<le> 2 ^ 32" "length d1 < 2 ^ 32"
  shows "mem_poke (p + of_nat (length d1)) d2 (mem_poke p d1 m) = mem_poke p (d1 @ d2) m"
proof
  fix a
  show "mem_poke (p + of_nat (length d1)) d2 (mem_poke p d1 m) a = mem_poke p (d1 @ d2) m a"
  proof (cases "unat (a - p) < length d1")
    case True
    then have "length d2 \<le> unat (a - (p + of_nat (length d1)))"
      using b by (intro unat_diff_outside) simp_all
    then show ?thesis using True by (simp add: mem_poke_def nth_append)
  next
    case False
    then show ?thesis by (auto simp: mem_poke_def nth_append unat_diff_inside)
  qed
qed

lemma mem_poke_split:
  assumes "n \<le> length r" "length r < 2 ^ 32"
  shows "mem_poke (p + of_nat n) (drop n r) (mem_poke p (take n r) m) = mem_poke p r m"
proof -
  have "length (take n r) = n" using assms by simp
  then show ?thesis
    using assms mem_poke_append [of "take n r" "drop n r" p m] by (simp only: append_take_drop_id) simp
qed

lemma mem_poke_other: "length d \<le> unat (a - p) \<Longrightarrow> mem_poke p d m a = m a"
  by (simp add: mem_poke_def)

subsection \<open>Alignment\<close>

lemma mod_diff_0: "a mod n = 0 \<Longrightarrow> b mod n = 0 \<Longrightarrow> (a - b) mod n = (0 :: nat)"
  by (simp add: mod_eq_0_iff_dvd)

lemma fuel_step:
  assumes "a < b" "(b - a + 7) div 8 < Suc n" shows "(b - (a + 8) + 7) div 8 < (n :: nat)"
proof (cases "b \<le> a + 8")
  case True
  have "8 div 8 \<le> (b - a + 7) div 8" using assms(1) by (intro div_le_mono) simp
  then have "0 < n" using assms(2) by (simp only: div_self)
  then show ?thesis using True by simp
next
  case False
  then have "b - a + 7 = (b - (a + 8) + 7) + 8" by simp
  then have "(b - a + 7) div 8 = Suc ((b - (a + 8) + 7) div 8)"
    by (simp only: div_add_self2 [of 8] Suc_eq_plus1)
  then show ?thesis using assms(2) by (simp only: Suc_less_eq)
qed

lemma mod8_offset:
  assumes "c mod 8 = 0" "l < 8" shows "(c + l) mod 8 = (l :: nat)"
  using assms mod_add_left_eq [of c 8 l] by simp

lemma ge_of_mod: "0 < a \<Longrightarrow> a mod n = 0 \<Longrightarrow> n \<le> (a::nat)"
  by (simp add: dvd_imp_le mod_eq_0_iff_dvd)

lemma aligned_gap:
  assumes "a < b" "a mod n = 0" "b mod n = 0" shows "a + n \<le> (b :: nat)"
  using ge_of_mod [of "b - a" n] mod_diff_0 [OF assms(3,2)] assms(1) by simp
lemma round_up_id: "n mod 0x800 = 0 \<Longrightarrow> (n + 0x7FF) div 0x800 * 0x800 = (n :: nat)"
proof -
  assume "n mod 0x800 = 0"
  then obtain k where k: "n = k * 0x800" by (metis mod_0_imp_dvd dvd_div_mult_self)
  have "(k * 0x800 + 0x7FF) div 0x800 = k" by (subst div_mult_self3) simp_all
  then show ?thesis using k by simp
qed

end
