(* ===== verification/Stm32_Flash.thy ===== *)
theory Stm32_Flash
  imports Memory
begin

text \<open>
  The STM32G0 port of the OTA module
  (\<open>boot/ota_module/platform/stm32/stm32g0xx_port.c\<close>) on top of the
  vendored HAL flash and CRC drivers.  The state is the address space as the
  CPU reads it, the lock and interrupt bits the port toggles, the port's cache
  for an unfinished double word, the CRC data register and, after a jump, the
  registers the application starts with.  The controller's verdicts are an
  environment script: \<open>fl_waits\<close> lists the results of the coming
  \<open>FLASH_WaitForLastOperation\<close> and lock register checks, and an exhausted
  script means success.  As on the part, a double word can only be programmed
  while it is erased, or to all zeros.
\<close>

unbundle bit_operations_syntax

abbreviation FLASH_BASE :: u32 where "FLASH_BASE \<equiv> 0x08000000"
abbreviation FLASH_SIZE :: u32 where "FLASH_SIZE \<equiv> 0x80000"
abbreviation FLASH_PAGE_SIZE :: u32 where "FLASH_PAGE_SIZE \<equiv> 0x800"
abbreviation FLASH_BANK_1 :: u32 where "FLASH_BANK_1 \<equiv> 0x4"
abbreviation FLASH_BANK_2 :: u32 where "FLASH_BANK_2 \<equiv> 0x0"

abbreviation OTA_FLASH_TYPE_INTERNAL :: byte where "OTA_FLASH_TYPE_INTERNAL \<equiv> 0"
abbreviation OTA_FLASH_TYPE_EXTERNAL :: byte where "OTA_FLASH_TYPE_EXTERNAL \<equiv> 1"
abbreviation OTA_FLASH_TYPE_RAM :: byte where "OTA_FLASH_TYPE_RAM \<equiv> 2"
abbreviation OTA_FLASH_TYPE_MAX :: nat where "OTA_FLASH_TYPE_MAX \<equiv> 3"

record flash_dw_cache =
  dw_addr_aligned :: u32
  dw_buf :: "byte list"
  dw_mask :: byte
  dw_valid :: bool

record stm32 =
  fl_mem :: "u32 \<Rightarrow> byte"
  fl_bank_size :: u32
  fl_waits :: "bool list"
  fl_locked :: bool
  fl_primask :: bool
  s_dw_cache :: flash_dw_cache
  crc_dr :: u32
  cpu_app :: "(u32 \<times> u32 \<times> u32) option"

subsection \<open>The vendored HAL drivers\<close>

definition wait_ok :: "stm32 \<Rightarrow> bool" where
  "wait_ok s = (case fl_waits s of [] \<Rightarrow> True | b # _ \<Rightarrow> b)"

definition wait_done :: "stm32 \<Rightarrow> stm32" where
  "wait_done s = s\<lparr>fl_waits := tl (fl_waits s)\<rparr>"

definition mem8 :: "(u32 \<Rightarrow> byte) \<Rightarrow> u32 \<Rightarrow> byte list" where
  "mem8 m a = map (\<lambda>j. m (a + of_nat j)) [0..<8]"

definition HAL_FLASH_Unlock :: "stm32 \<Rightarrow> bool \<times> stm32" where
  "HAL_FLASH_Unlock s =
     (if fl_locked s
      then if wait_ok s then (True, (wait_done s)\<lparr>fl_locked := False\<rparr>) else (False, wait_done s)
      else (True, s))"

definition HAL_FLASH_Lock :: "stm32 \<Rightarrow> bool \<times> stm32" where
  "HAL_FLASH_Lock s = (True, (wait_done s)\<lparr>fl_locked := True\<rparr>)"

definition HAL_FLASH_Program :: "u32 \<Rightarrow> byte list \<Rightarrow> stm32 \<Rightarrow> bool \<times> stm32" where
  "HAL_FLASH_Program addr dw s =
     (if \<not> wait_ok s then (False, wait_done s)
      else
        let s1 = wait_done s; s2 = wait_done s1 in
        if wait_ok s1 \<and> \<not> fl_locked s1
           \<and> (mem8 (fl_mem s1) addr = replicate 8 0xFF \<or> dw = replicate 8 0)
        then (True, s2\<lparr>fl_mem := mem_poke addr dw (fl_mem s2)\<rparr>)
        else (False, s2))"

definition FLASH_PageErase :: "u32 \<Rightarrow> u32 \<Rightarrow> stm32 \<Rightarrow> stm32" where
  "FLASH_PageErase bank page s =
     (let base = (if bank = FLASH_BANK_1 then FLASH_BASE else FLASH_BASE + fl_bank_size s) in
      s\<lparr>fl_mem := mem_poke (base + page * FLASH_PAGE_SIZE) (replicate 0x800 0xFF) (fl_mem s)\<rparr>)"

fun erase_pages :: "nat \<Rightarrow> u32 \<Rightarrow> u32 \<Rightarrow> stm32 \<Rightarrow> bool \<times> stm32" where
  "erase_pages 0 bank idx s = (True, s)"
| "erase_pages (Suc n) bank idx s =
     (if wait_ok s \<and> \<not> fl_locked s
      then erase_pages n bank (idx + 1) (FLASH_PageErase bank idx (wait_done s))
      else (False, wait_done s))"

definition HAL_FLASHEx_Erase :: "u32 \<Rightarrow> u32 \<Rightarrow> u32 \<Rightarrow> stm32 \<Rightarrow> bool \<times> stm32" where
  "HAL_FLASHEx_Erase banks page nb s =
     (if \<not> wait_ok s then (False, wait_done s)
      else erase_pages (if page \<le> page + nb then unat nb else 0) banks page (wait_done s))"

text \<open>The CRC unit: the default polynomial, most significant bit first; a write
  of \<open>n\<close> bits advances the register by \<open>n\<close> positions.\<close>

definition crc32_shift :: "u32 \<Rightarrow> u32" where
  "crc32_shift c = (if bit c 31 then push_bit 1 c XOR 0x04C11DB7 else push_bit 1 c)"

fun crc32_bits :: "nat \<Rightarrow> u32 \<Rightarrow> u32" where
  "crc32_bits 0 c = c"
| "crc32_bits (Suc n) c = crc32_bits n (crc32_shift c)"

definition crc_write8 :: "u32 \<Rightarrow> byte \<Rightarrow> u32" where
  "crc_write8 c b = crc32_bits 8 (c XOR push_bit 24 (ucast b))"

definition crc_write16 :: "u32 \<Rightarrow> u16 \<Rightarrow> u32" where
  "crc_write16 c h = crc32_bits 16 (c XOR push_bit 16 (ucast h))"

definition crc_write32 :: "u32 \<Rightarrow> u32 \<Rightarrow> u32" where
  "crc_write32 c w = crc32_bits 32 (c XOR w)"

fun CRC_Handle_8 :: "byte list \<Rightarrow> u32 \<Rightarrow> u32" where
  "CRC_Handle_8 (a # b # c # d # r) dr =
     CRC_Handle_8 r (crc_write32 dr
       (push_bit 24 (ucast a) OR push_bit 16 (ucast b) OR push_bit 8 (ucast c) OR ucast d))"
| "CRC_Handle_8 [a, b, c] dr =
     crc_write8 (crc_write16 dr (push_bit 8 (ucast a) OR ucast b)) c"
| "CRC_Handle_8 [a, b] dr = crc_write16 dr (push_bit 8 (ucast a) OR ucast b)"
| "CRC_Handle_8 [a] dr = crc_write8 dr a"
| "CRC_Handle_8 [] dr = dr"

definition HAL_CRC_Calculate :: "byte list \<Rightarrow> stm32 \<Rightarrow> u32 \<times> stm32" where
  "HAL_CRC_Calculate data s =
     (let dr = CRC_Handle_8 data 0xFFFFFFFF in (dr, s\<lparr>crc_dr := dr\<rparr>))"

definition HAL_CRC_Accumulate :: "byte list \<Rightarrow> stm32 \<Rightarrow> u32 \<times> stm32" where
  "HAL_CRC_Accumulate data s =
     (let dr = CRC_Handle_8 data (crc_dr s) in (dr, s\<lparr>crc_dr := dr\<rparr>))"

subsection \<open>The port\<close>

definition flash_irq_enter :: "stm32 \<Rightarrow> bool \<times> stm32" where
  "flash_irq_enter s = (fl_primask s, s\<lparr>fl_primask := True\<rparr>)"

definition flash_irq_exit :: "bool \<Rightarrow> stm32 \<Rightarrow> stm32" where
  "flash_irq_exit saved s = (if \<not> saved then s\<lparr>fl_primask := False\<rparr> else s)"

definition align_down_u32 :: "u32 \<Rightarrow> u32 \<Rightarrow> u32" where
  "align_down_u32 v a = (if a = 0 then v else v div a * a)"

definition align_up_u32 :: "u32 \<Rightarrow> u32 \<Rightarrow> u32" where
  "align_up_u32 v a = (if a = 0 then v else (v + a - 1) div a * a)"

definition dw_cleared :: flash_dw_cache where
  "dw_cleared = \<lparr>dw_addr_aligned = 0, dw_buf = replicate 8 0, dw_mask = 0, dw_valid = False\<rparr>"

definition flash_dw_cache_clear :: "stm32 \<Rightarrow> stm32" where
  "flash_dw_cache_clear s = s\<lparr>s_dw_cache := dw_cleared\<rparr>"

definition internal_flash_program_doubleword :: "u32 \<Rightarrow> byte list \<Rightarrow> stm32 \<Rightarrow> int \<times> stm32" where
  "internal_flash_program_doubleword addr_aligned desired_dw s =
     (let existing_dw = mem8 (fl_mem s) addr_aligned in
      if existing_dw = desired_dw then (0, s)
      else if \<not> list_all2 (\<lambda>e d. e AND d = d) existing_dw desired_dw then (-1, s)
      else case HAL_FLASH_Program addr_aligned desired_dw s of
             (ok, s1) \<Rightarrow> (if ok then 0 else -1, s1))"

definition internal_flash_flush_dw_cache :: "stm32 \<Rightarrow> int \<times> stm32" where
  "internal_flash_flush_dw_cache s =
     (if \<not> dw_valid (s_dw_cache s) then (0, s)
      else case internal_flash_program_doubleword (dw_addr_aligned (s_dw_cache s))
                  (dw_buf (s_dw_cache s)) s of
             (rc, s1) \<Rightarrow> (rc, flash_dw_cache_clear s1))"

definition flash_page_from_address :: "u32 \<Rightarrow> u32 \<Rightarrow> u32" where
  "flash_page_from_address bank_size addr =
     (if addr < FLASH_BASE + bank_size then (addr - FLASH_BASE) div FLASH_PAGE_SIZE
      else (addr - (FLASH_BASE + bank_size)) div FLASH_PAGE_SIZE)"

definition flash_bank_from_address :: "u32 \<Rightarrow> u32 \<Rightarrow> u32" where
  "flash_bank_from_address bank_size addr =
     (if addr < FLASH_BASE + bank_size then FLASH_BANK_1 else FLASH_BANK_2)"

definition flash_bank_base_from_bank :: "u32 \<Rightarrow> u32 \<Rightarrow> u32" where
  "flash_bank_base_from_bank bank_size bank =
     (if bank = FLASH_BANK_1 then FLASH_BASE else FLASH_BASE + bank_size)"

text \<open>The erase loop; \<open>None\<close> when it never ends, which the fuel of the
  caller decides exactly: an iteration that erases no page changes nothing but
  the script.\<close>

fun erase_loop :: "nat \<Rightarrow> u32 \<Rightarrow> u32 \<Rightarrow> stm32 \<Rightarrow> (bool \<times> stm32) option" where
  "erase_loop 0 cur remaining s = None"
| "erase_loop (Suc n) cur remaining s =
     (if remaining = 0 then Some (True, s)
      else
        let bs = fl_bank_size s;
            bank = flash_bank_from_address bs cur;
            bank_end = flash_bank_base_from_bank bs bank + bs;
            max_pages_in_bank = (bank_end - cur) div FLASH_PAGE_SIZE;
            pages = (if remaining div FLASH_PAGE_SIZE > max_pages_in_bank then max_pages_in_bank
                     else remaining div FLASH_PAGE_SIZE)
        in case HAL_FLASHEx_Erase bank (flash_page_from_address bs cur) pages s of
             (ok, s1) \<Rightarrow>
               if \<not> ok then Some (False, s1)
               else erase_loop n (cur + pages * FLASH_PAGE_SIZE)
                      (remaining - pages * FLASH_PAGE_SIZE) s1)"

definition flash_erase_internal_pages :: "u32 \<Rightarrow> u32 \<Rightarrow> stm32 \<Rightarrow> (int \<times> stm32) option" where
  "flash_erase_internal_pages addr len s =
     (if len = 0 then Some (0, s)
      else
        let s1 = flash_dw_cache_clear s;
            a = align_down_u32 addr FLASH_PAGE_SIZE;
            sz = align_up_u32 len FLASH_PAGE_SIZE;
            (irq_saved, s2) = flash_irq_enter s1
        in case HAL_FLASH_Unlock s2 of
             (ok, s3) \<Rightarrow>
               if \<not> ok then Some (-1, flash_irq_exit irq_saved s3)
               else (case erase_loop (unat (sz div FLASH_PAGE_SIZE) + length (fl_waits s3) + 2)
                            a sz s3 of
                       None \<Rightarrow> None
                     | Some (ok, s4) \<Rightarrow>
                         (case HAL_FLASH_Lock s4 of
                            (lk, s5) \<Rightarrow>
                              Some (if ok \<and> lk then 0 else -1, flash_irq_exit irq_saved s5))))"

text \<open>One double word of the program loop: the bytes of the write range go over
  the base image.\<close>

definition apply_bytes ::
  "u32 \<Rightarrow> byte list \<Rightarrow> u32 \<Rightarrow> u32 \<Rightarrow> byte list \<times> byte \<Rightarrow> byte list \<times> byte" where
  "apply_bytes addr data end cur base =
     foldl (\<lambda>(dw, m) j.
              if addr \<le> cur + of_nat j \<and> cur + of_nat j < end
              then (dw[j := data ! unat (cur + of_nat j - addr)], m OR push_bit j 1)
              else (dw, m)) base [0..<8]"

fun program_loop ::
  "nat \<Rightarrow> u32 \<Rightarrow> byte list \<Rightarrow> u32 \<Rightarrow> u32 \<Rightarrow> u32 \<Rightarrow> stm32 \<Rightarrow> (int \<times> stm32) option" where
  "program_loop 0 addr data end last_dw cur s = None"
| "program_loop (Suc n) addr data end last_dw cur s =
     (if \<not> cur < end then Some (0, s)
      else
        let c = s_dw_cache s;
            base = (if dw_valid c \<and> dw_addr_aligned c = cur then (dw_buf c, dw_mask c)
                    else (mem8 (fl_mem s) cur, 0));
            (desired_dw, local_mask) = apply_bytes addr data end cur base
        in if cur = last_dw \<and> local_mask \<noteq> 0xFF
           then program_loop n addr data end last_dw (cur + 8)
                  (s\<lparr>s_dw_cache := \<lparr>dw_addr_aligned = cur, dw_buf = desired_dw,
                                    dw_mask = local_mask, dw_valid = True\<rparr>\<rparr>)
           else (case internal_flash_program_doubleword cur desired_dw s of
                   (rc, s1) \<Rightarrow>
                     if rc \<noteq> 0 then Some (rc, s1)
                     else program_loop n addr data end last_dw (cur + 8)
                            (if dw_valid (s_dw_cache s1) \<and> dw_addr_aligned (s_dw_cache s1) = cur
                             then flash_dw_cache_clear s1 else s1)))"

definition internal_flash_program_bytes ::
  "u32 \<Rightarrow> byte list \<Rightarrow> stm32 \<Rightarrow> (int \<times> stm32) option" where
  "internal_flash_program_bytes addr data s =
     (if data = [] then Some (0, s)
      else
        let end = addr + of_nat (length data);
            first_dw = align_down_u32 addr 8;
            last_dw = align_down_u32 (end - 1) 8;
            c = s_dw_cache s;
            (frc, s1) = (if dw_valid c \<and> first_dw > dw_addr_aligned c
                         then internal_flash_flush_dw_cache s else (0, s))
        in if frc \<noteq> 0 then Some (frc, s1)
           else program_loop (length data div 8 + 3) addr data end last_dw first_dw s1)"

definition stm32g0xx_flash_read :: "byte \<Rightarrow> u32 \<Rightarrow> nat \<Rightarrow> stm32 \<Rightarrow> int \<times> byte list" where
  "stm32g0xx_flash_read flash_type addr len s =
     (if len = 0 then (0, [])
      else if flash_type = OTA_FLASH_TYPE_INTERNAL
      then (0, map (\<lambda>j. fl_mem s (addr + of_nat j)) [0..<len])
      else (-1, []))"

text \<open>\<open>None\<close> as data is the null pointer with size 0: flush the cache.\<close>

definition stm32g0xx_flash_write ::
  "byte \<Rightarrow> u32 \<Rightarrow> byte list \<Rightarrow> stm32 \<Rightarrow> (int \<times> stm32) option" where
  "stm32g0xx_flash_write flash_type addr data s =
     (if flash_type \<noteq> OTA_FLASH_TYPE_INTERNAL then Some (-1, s)
      else
        let (irq_saved, s1) = flash_irq_enter s in
        case HAL_FLASH_Unlock s1 of
          (ok, s2) \<Rightarrow>
            if \<not> ok then Some (-1, flash_irq_exit irq_saved s2)
            else (case (if data = [] then Some (internal_flash_flush_dw_cache s2)
                        else internal_flash_program_bytes addr data s2) of
                    None \<Rightarrow> None
                  | Some (rc, s3) \<Rightarrow>
                      Some (rc, flash_irq_exit irq_saved (snd (HAL_FLASH_Lock s3)))))"

definition stm32g0xx_flash_erase :: "byte \<Rightarrow> u32 \<Rightarrow> u32 \<Rightarrow> stm32 \<Rightarrow> (int \<times> stm32) option" where
  "stm32g0xx_flash_erase flash_type addr len s =
     (if flash_type \<noteq> OTA_FLASH_TYPE_INTERNAL then Some (-1, s)
      else flash_erase_internal_pages addr len s)"

definition stm32g0xx_crc32 :: "byte \<Rightarrow> byte list \<Rightarrow> stm32 \<Rightarrow> u32 \<times> stm32" where
  "stm32g0xx_crc32 mode data s =
     (if data = [] then (0, s)
      else if mode = 0 then HAL_CRC_Calculate data s
      else HAL_CRC_Accumulate data s)"

definition word_at :: "(u32 \<Rightarrow> byte) \<Rightarrow> u32 \<Rightarrow> u32" where
  "word_at m a = un32 [m a, m (a + 1), m (a + 2), m (a + 3)]"

text \<open>A jump that succeeds does not return: control is with the application,
  started with its vector table, stack pointer and reset handler.\<close>

definition stm32g0xx_jump :: "u32 \<Rightarrow> stm32 \<Rightarrow> int \<times> stm32" where
  "stm32g0xx_jump jump_addr s =
     (if jump_addr = 0 then (-1, s)
      else (0, s\<lparr>fl_primask := True,
                 cpu_app := Some (jump_addr, word_at (fl_mem s) jump_addr,
                                  word_at (fl_mem s) (jump_addr + 4))\<rparr>))"

end
