(* ===== verification/Ota_Module.thy ===== *)
theory Ota_Module
  imports Stm32_Flash "HOL-Library.Monad_Syntax"
begin

text \<open>
  The OTA module of the boot loader (\<open>boot/ota_module/src/ota_module.c\<close>).
  Its platform functions are the fields of \<open>ota_config\<close>, working on a world
  of type \<open>'w\<close>; a platform call that never returns makes the operation that
  made it \<open>None\<close>, and so does the use of a record that was never read (the C
  code then works on an uninitialised variable).  The record in flash and the
  package header are packed structures with one-byte enumerations, as the
  compiler of the target lays them out.
\<close>

unbundle bit_operations_syntax

abbreviation OTA_PACKAGE_MAGIC :: u32 where "OTA_PACKAGE_MAGIC \<equiv> 0x5441544F"
abbreviation OTA_INFO_MAGIC :: u32 where "OTA_INFO_MAGIC \<equiv> OTA_PACKAGE_MAGIC"
abbreviation OTA_PACKAGE_VERSION_MAX_LEN :: nat where "OTA_PACKAGE_VERSION_MAX_LEN \<equiv> 32"
abbreviation OTA_APP_MAX_VERIFY_COUNT :: u32 where "OTA_APP_MAX_VERIFY_COUNT \<equiv> 3"
abbreviation OTA_APP_COUNT :: nat where "OTA_APP_COUNT \<equiv> 1"

datatype ota_module_err =
    OTA_MODULE_ERR_OK | OTA_MODULE_ERR_INVALID_ARG | OTA_MODULE_ERR_NOT_INIT
  | OTA_MODULE_ERR_ALREADY_IN_PROGRESS | OTA_MODULE_ERR_FLASH_OP | OTA_MODULE_ERR_RECORD_IO
  | OTA_MODULE_ERR_RECORD_INVALID | OTA_MODULE_ERR_PACKAGE_MAGIC
  | OTA_MODULE_ERR_PACKAGE_HEADER_CRC | OTA_MODULE_ERR_SLOT_UNAVAILABLE
  | OTA_MODULE_ERR_FLASH_SIZE | OTA_MODULE_ERR_SESSION_MISMATCH
  | OTA_MODULE_ERR_OFFSET_MISMATCH | OTA_MODULE_ERR_SIZE_MISMATCH | OTA_MODULE_ERR_APP_STATUS
  | OTA_MODULE_ERR_CRC_MISMATCH | OTA_MODULE_ERR_NO_BOOT_CANDIDATE | OTA_MODULE_ERR_JUMP_FAILED

abbreviation OTA_APP_STATUS_INVALID :: byte where "OTA_APP_STATUS_INVALID \<equiv> 0"
abbreviation OTA_APP_STATUS_DOWNLOADING :: byte where "OTA_APP_STATUS_DOWNLOADING \<equiv> 1"
abbreviation OTA_APP_STATUS_UNVERIFIED :: byte where "OTA_APP_STATUS_UNVERIFIED \<equiv> 2"
abbreviation OTA_APP_STATUS_ACTIVE :: byte where "OTA_APP_STATUS_ACTIVE \<equiv> 3"
abbreviation OTA_APP_STATUS_BACKUP :: byte where "OTA_APP_STATUS_BACKUP \<equiv> 4"

datatype ota_download_status =
  OTA_DOWNLOAD_STATUS_INVALID | OTA_DOWNLOAD_STATUS_DOWNLOADING | OTA_DOWNLOAD_STATUS_COMPLETED

record ota_package_header =
  ph_magic :: u32
  ph_build_timestamp :: u32
  ph_app_offset :: u32
  ph_app_size :: u32
  ph_app_crc32 :: u32
  ph_app_version :: "byte list"
  ph_header_crc32 :: u32

record ota_app_info =
  ai_status :: byte
  ai_verify_count :: u32
  ai_flash_type :: byte
  ai_flash_addr :: u32
  ai_flash_size :: u32

record ota_record_info =
  ri_magic :: u32
  ri_ota_app_info :: "ota_app_info list"
  ri_boot_ymodem_flag :: u32
  ri_info_crc32 :: u32

record ota_download_info =
  di_status :: ota_download_status
  di_ota_app_info :: ota_app_info
  di_package_header :: ota_package_header
  di_download_size :: u32
  di_download_crc32 :: u32

record 'w ota_config =
  record_flash_type :: byte
  record_addr :: u32
  flash_start_addr :: "u32 list"
  flash_size :: "u32 list"
  flash_sector_size :: "u32 list"
  flash_read_func :: "byte \<Rightarrow> u32 \<Rightarrow> nat \<Rightarrow> 'w \<Rightarrow> int \<times> byte list"
  flash_write_func :: "byte \<Rightarrow> u32 \<Rightarrow> byte list \<Rightarrow> 'w \<Rightarrow> (int \<times> 'w) option"
  flash_erase_func :: "byte \<Rightarrow> u32 \<Rightarrow> u32 \<Rightarrow> 'w \<Rightarrow> (int \<times> 'w) option"
  crc32_func :: "byte \<Rightarrow> byte list \<Rightarrow> 'w \<Rightarrow> u32 \<times> 'w"
  jump_func :: "u32 \<Rightarrow> 'w \<Rightarrow> int \<times> 'w"

record ota_download_session =
  dl_started :: bool
  dl_target_index :: nat
  dl_package_header_copy :: ota_package_header
  dl_expected_app_size :: u32
  dl_expected_total_size :: u32
  dl_expected_app_crc32 :: u32
  dl_downloaded_size :: u32
  dl_downloaded_crc32 :: u32
  dl_crc_inited :: bool

text \<open>The module's static variables and the world its platform functions act on.\<close>

record 'w ota =
  g_cfg :: "'w ota_config"
  g_inited :: bool
  g_dl :: ota_download_session
  g_world :: 'w

subsection \<open>Packed images\<close>

definition hdr56_bytes :: "ota_package_header \<Rightarrow> byte list" where
  "hdr56_bytes h = le32 (ph_magic h) @ le32 (ph_build_timestamp h) @ le32 (ph_app_offset h)
     @ le32 (ph_app_size h) @ le32 (ph_app_crc32 h) @ ph_app_version h @ le32 (ph_header_crc32 h)"

definition hdr56_of_bytes :: "byte list \<Rightarrow> ota_package_header" where
  "hdr56_of_bytes b = \<lparr>ph_magic = un32 b, ph_build_timestamp = un32 (drop 4 b),
     ph_app_offset = un32 (drop 8 b), ph_app_size = un32 (drop 12 b), ph_app_crc32 = un32 (drop 16 b),
     ph_app_version = slice 20 OTA_PACKAGE_VERSION_MAX_LEN b, ph_header_crc32 = un32 (drop 52 b)\<rparr>"

definition app_info_bytes :: "ota_app_info \<Rightarrow> byte list" where
  "app_info_bytes a = [ai_status a] @ le32 (ai_verify_count a) @ [ai_flash_type a]
     @ le32 (ai_flash_addr a) @ le32 (ai_flash_size a)"

definition app_info_of_bytes :: "byte list \<Rightarrow> ota_app_info" where
  "app_info_of_bytes b = \<lparr>ai_status = b ! 0, ai_verify_count = un32 (drop 1 b), ai_flash_type = b ! 5,
     ai_flash_addr = un32 (drop 6 b), ai_flash_size = un32 (drop 10 b)\<rparr>"

definition record_bytes :: "ota_record_info \<Rightarrow> byte list" where
  "record_bytes r = le32 (ri_magic r) @ concat (map app_info_bytes (ri_ota_app_info r))
     @ le32 (ri_boot_ymodem_flag r) @ le32 (ri_info_crc32 r)"

definition sizeof_record :: nat where
  "sizeof_record = 4 + 14 * OTA_APP_COUNT + 8"

definition record_of_bytes :: "byte list \<Rightarrow> ota_record_info" where
  "record_of_bytes b = \<lparr>ri_magic = un32 b,
     ri_ota_app_info = map (\<lambda>i. app_info_of_bytes (drop (4 + 14 * i) b)) [0..<OTA_APP_COUNT],
     ri_boot_ymodem_flag = un32 (drop (4 + 14 * OTA_APP_COUNT) b),
     ri_info_crc32 = un32 (drop (8 + 14 * OTA_APP_COUNT) b)\<rparr>"

definition sizeof_header :: nat where
  "sizeof_header = 24 + OTA_PACKAGE_VERSION_MAX_LEN"

definition zero_header :: ota_package_header where
  "zero_header = hdr56_of_bytes (replicate 56 0)"

definition zero_session :: ota_download_session where
  "zero_session = \<lparr>dl_started = False, dl_target_index = 0, dl_package_header_copy = zero_header,
     dl_expected_app_size = 0, dl_expected_total_size = 0, dl_expected_app_crc32 = 0,
     dl_downloaded_size = 0, dl_downloaded_crc32 = 0, dl_crc_inited = False\<rparr>"

text \<open>The board's layout (\<open>ota_module_config.h\<close>) and the record used when the
  stored one is not valid (\<open>ota_record_default.c\<close>).\<close>

abbreviation OTA_PLATFORM_FLASH_BASE :: u32 where "OTA_PLATFORM_FLASH_BASE \<equiv> 0x08000000"
abbreviation OTA_PLATFORM_FLASH_SIZE :: u32 where "OTA_PLATFORM_FLASH_SIZE \<equiv> 0x80000"
abbreviation OTA_PLATFORM_RECORD_ADDR :: u32 where "OTA_PLATFORM_RECORD_ADDR \<equiv> 0x0800E000"
abbreviation OTA_PLATFORM_APP1_ADDR :: u32 where "OTA_PLATFORM_APP1_ADDR \<equiv> 0x08010000"
abbreviation OTA_PLATFORM_APP_PARTITION_SIZE :: u32 where "OTA_PLATFORM_APP_PARTITION_SIZE \<equiv> 0x70000"

definition ota_record_default_info :: ota_record_info where
  "ota_record_default_info = \<lparr>ri_magic = OTA_INFO_MAGIC,
     ri_ota_app_info = [\<lparr>ai_status = OTA_APP_STATUS_ACTIVE, ai_verify_count = 0,
       ai_flash_type = OTA_FLASH_TYPE_INTERNAL, ai_flash_addr = OTA_PLATFORM_APP1_ADDR,
       ai_flash_size = OTA_PLATFORM_APP_PARTITION_SIZE\<rparr>],
     ri_boot_ymodem_flag = 0, ri_info_crc32 = 0\<rparr>"

subsection \<open>CRC and record persistence\<close>

definition crc32_one_shot ::
  "(byte \<Rightarrow> byte list \<Rightarrow> 'w \<Rightarrow> u32 \<times> 'w) \<Rightarrow> byte list \<Rightarrow> 'w \<Rightarrow> u32 \<times> 'w" where
  "crc32_one_shot f data w = f 0 data w"

definition record_crc32_without_info_crc32 :: "ota_record_info \<Rightarrow> 'w ota \<Rightarrow> u32 \<times> 'w ota" where
  "record_crc32_without_info_crc32 r s =
     (let (c, w) = crc32_one_shot (crc32_func (g_cfg s)) (take (sizeof_record - 4) (record_bytes r)) (g_world s)
      in (c, s\<lparr>g_world := w\<rparr>))"

definition package_header_crc32_without_header_crc32 ::
  "ota_package_header \<Rightarrow> 'w ota \<Rightarrow> u32 \<times> 'w ota" where
  "package_header_crc32_without_header_crc32 h s =
     (let (c, w) = crc32_one_shot (crc32_func (g_cfg s)) (take (sizeof_header - 4) (hdr56_bytes h)) (g_world s)
      in (c, s\<lparr>g_world := w\<rparr>))"

text \<open>The record is \<open>None\<close> where the caller's variable is left as it was.\<close>

definition record_load :: "'w ota \<Rightarrow> ota_module_err \<times> ota_record_info option \<times> 'w ota" where
  "record_load s =
     (if \<not> g_inited s then (OTA_MODULE_ERR_NOT_INIT, None, s)
      else case flash_read_func (g_cfg s) (record_flash_type (g_cfg s)) (record_addr (g_cfg s))
             sizeof_record (g_world s) of
        (rc, b) \<Rightarrow>
          if rc \<noteq> 0 then (OTA_MODULE_ERR_RECORD_IO, Some ota_record_default_info, s)
          else
            let tmp = record_of_bytes b in
            if ri_magic tmp \<noteq> OTA_INFO_MAGIC
            then (OTA_MODULE_ERR_RECORD_INVALID, Some ota_record_default_info, s)
            else
              let (c, s1) = record_crc32_without_info_crc32 tmp s in
              if c \<noteq> ri_info_crc32 tmp
              then (OTA_MODULE_ERR_RECORD_INVALID, Some ota_record_default_info, s1)
              else (OTA_MODULE_ERR_OK, Some tmp, s1))"

definition align_up :: "u32 \<Rightarrow> u32 \<Rightarrow> u32" where
  "align_up v a = (if a = 0 then v else (v + a - 1) div a * a)"

definition align_down :: "u32 \<Rightarrow> u32 \<Rightarrow> u32" where
  "align_down v a = (if a = 0 then v else v div a * a)"

definition flash_erase_slot ::
  "byte \<Rightarrow> u32 \<Rightarrow> u32 \<Rightarrow> 'w ota \<Rightarrow> (ota_module_err \<times> 'w ota) option" where
  "flash_erase_slot flash_type addr len s =
     (if length (flash_sector_size (g_cfg s)) \<le> unat flash_type then None
      else
        let sector = flash_sector_size (g_cfg s) ! unat flash_type in
        if sector = 0 then Some (OTA_MODULE_ERR_INVALID_ARG, s)
        else
          let erase_addr = align_down addr sector;
              erase_size = align_up ((addr + len) - erase_addr) sector
          in do {
            (rc, w) \<leftarrow> flash_erase_func (g_cfg s) flash_type erase_addr erase_size (g_world s);
            Some (if rc \<noteq> 0 then OTA_MODULE_ERR_FLASH_OP else OTA_MODULE_ERR_OK, s\<lparr>g_world := w\<rparr>)
          })"

definition record_store :: "ota_record_info \<Rightarrow> 'w ota \<Rightarrow> (ota_module_err \<times> 'w ota) option" where
  "record_store r s =
     (if \<not> g_inited s then Some (OTA_MODULE_ERR_NOT_INIT, s)
      else
        let tmp = r\<lparr>ri_magic := OTA_INFO_MAGIC\<rparr>;
            (c, s1) = record_crc32_without_info_crc32 tmp s;
            tmp = tmp\<lparr>ri_info_crc32 := c\<rparr>;
            cfg = g_cfg s
        in do {
          (e, s2) \<leftarrow> flash_erase_slot (record_flash_type cfg) (record_addr cfg) (of_nat sizeof_record) s1;
          if e \<noteq> OTA_MODULE_ERR_OK then Some (OTA_MODULE_ERR_FLASH_OP, s2)
          else do {
            (rc, w3) \<leftarrow> flash_write_func cfg (record_flash_type cfg) (record_addr cfg)
              (record_bytes tmp) (g_world s2);
            if rc \<noteq> 0 then Some (OTA_MODULE_ERR_FLASH_OP, s2\<lparr>g_world := w3\<rparr>)
            else do {
              (_, w4) \<leftarrow> flash_write_func cfg (record_flash_type cfg) 0 [] w3;
              Some (OTA_MODULE_ERR_OK, s2\<lparr>g_world := w4\<rparr>)
            }
          }
        })"

subsection \<open>Slots and images\<close>

text \<open>The first slot in a given state, as each of the selection loops finds it.\<close>

definition slot_with :: "byte \<Rightarrow> ota_record_info \<Rightarrow> nat option" where
  "slot_with st r = first_idx (\<lambda>a. ai_status a = st) (take OTA_APP_COUNT (ri_ota_app_info r))"

definition choose_target_ota_slot :: "ota_record_info \<Rightarrow> ota_module_err + nat" where
  "choose_target_ota_slot r =
     (case slot_with OTA_APP_STATUS_DOWNLOADING r of Some i \<Rightarrow> Inr i
      | None \<Rightarrow> case slot_with OTA_APP_STATUS_INVALID r of Some i \<Rightarrow> Inr i
      | None \<Rightarrow> case slot_with OTA_APP_STATUS_BACKUP r of Some i \<Rightarrow> Inr i
      | None \<Rightarrow> if OTA_APP_COUNT = 1 then Inr 0 else Inl OTA_MODULE_ERR_SLOT_UNAVAILABLE)"

definition choose_boot_candidate_ota_slot :: "ota_record_info \<Rightarrow> ota_module_err + nat" where
  "choose_boot_candidate_ota_slot r =
     (case slot_with OTA_APP_STATUS_UNVERIFIED r of Some i \<Rightarrow> Inr i
      | None \<Rightarrow> case slot_with OTA_APP_STATUS_ACTIVE r of Some i \<Rightarrow> Inr i
      | None \<Rightarrow> case slot_with OTA_APP_STATUS_BACKUP r of Some i \<Rightarrow> Inr i
      | None \<Rightarrow> Inl OTA_MODULE_ERR_NO_BOOT_CANDIDATE)"

definition ota_calc_entry_addr_from_header :: "ota_app_info \<Rightarrow> 'w ota \<Rightarrow> u32 \<times> 'w ota" where
  "ota_calc_entry_addr_from_header a s =
     (let base = ai_flash_addr a in
      if ai_flash_size a < of_nat sizeof_header then (base, s)
      else case flash_read_func (g_cfg s) (ai_flash_type a) (ai_flash_addr a) sizeof_header (g_world s) of
        (rc, b) \<Rightarrow>
          if rc \<noteq> 0 then (base, s)
          else
            let h = hdr56_of_bytes b in
            if ph_magic h \<noteq> OTA_PACKAGE_MAGIC then (base, s)
            else
              let (c, s1) = package_header_crc32_without_header_crc32 h s in
              if ph_header_crc32 h \<noteq> c then (base, s1)
              else if ai_flash_size a \<le> ph_app_offset h then (base, s1)
              else (base + ph_app_offset h, s1))"

abbreviation OTA_MODULE_FLASH_COPY_BUF_SIZE :: nat where "OTA_MODULE_FLASH_COPY_BUF_SIZE \<equiv> 256"

fun crc_body_loop ::
  "'w ota_config \<Rightarrow> byte \<Rightarrow> nat \<Rightarrow> u32 \<Rightarrow> bool \<Rightarrow> u32 \<Rightarrow> 'w \<Rightarrow> (ota_module_err + u32) \<times> 'w" where
  "crc_body_loop cfg flash_type remaining addr first crc w =
     (if remaining = 0 then (Inr crc, w)
      else
        let want = min remaining OTA_MODULE_FLASH_COPY_BUF_SIZE;
            (rc, b) = flash_read_func cfg flash_type addr want w
        in
          if rc \<noteq> 0 then (Inl OTA_MODULE_ERR_FLASH_OP, w)
          else
            let (crc', w') = crc32_func cfg (if first then 0 else 1) b w
            in crc_body_loop cfg flash_type (remaining - want) (addr + of_nat want) False crc' w')"

definition flash_crc32_app_body ::
  "ota_app_info \<Rightarrow> ota_package_header \<Rightarrow> 'w ota \<Rightarrow> (ota_module_err + u32) \<times> 'w ota" where
  "flash_crc32_app_body a h s =
     (if ai_flash_size a < ph_app_offset h + ph_app_size h then (Inl OTA_MODULE_ERR_FLASH_SIZE, s)
      else
        let (r, w) = crc_body_loop (g_cfg s) (ai_flash_type a) (unat (ph_app_size h))
                       (ai_flash_addr a + ph_app_offset h) True 0 (g_world s)
        in (r, s\<lparr>g_world := w\<rparr>))"

subsection \<open>Public operations\<close>

text \<open>The configuration as a caller passes it: any function pointer may be missing.\<close>

record 'w ota_module_config =
  cfg_record_flash_type :: byte
  cfg_record_addr :: u32
  cfg_flash_start_addr :: "u32 list"
  cfg_flash_size :: "u32 list"
  cfg_flash_sector_size :: "u32 list"
  cfg_flash_read_func :: "(byte \<Rightarrow> u32 \<Rightarrow> nat \<Rightarrow> 'w \<Rightarrow> int \<times> byte list) option"
  cfg_flash_write_func :: "(byte \<Rightarrow> u32 \<Rightarrow> byte list \<Rightarrow> 'w \<Rightarrow> (int \<times> 'w) option) option"
  cfg_flash_erase_func :: "(byte \<Rightarrow> u32 \<Rightarrow> u32 \<Rightarrow> 'w \<Rightarrow> (int \<times> 'w) option) option"
  cfg_crc32_func :: "(byte \<Rightarrow> byte list \<Rightarrow> 'w \<Rightarrow> u32 \<times> 'w) option"
  cfg_jump_func :: "(u32 \<Rightarrow> 'w \<Rightarrow> int \<times> 'w) option"

definition config_checked :: "'w ota_module_config \<Rightarrow> 'w ota_config option" where
  "config_checked c = do {
     rd \<leftarrow> cfg_flash_read_func c; wr \<leftarrow> cfg_flash_write_func c; er \<leftarrow> cfg_flash_erase_func c;
     cr \<leftarrow> cfg_crc32_func c; ju \<leftarrow> cfg_jump_func c;
     Some \<lparr>record_flash_type = cfg_record_flash_type c, record_addr = cfg_record_addr c,
       flash_start_addr = cfg_flash_start_addr c, flash_size = cfg_flash_size c,
       flash_sector_size = cfg_flash_sector_size c, flash_read_func = rd, flash_write_func = wr,
       flash_erase_func = er, crc32_func = cr, jump_func = ju\<rparr>
   }"

definition ota_module_init ::
  "'w ota_module_config option \<Rightarrow> 'w ota \<Rightarrow> (ota_module_err \<times> 'w ota) option" where
  "ota_module_init config s =
     (case Option.bind config config_checked of
        None \<Rightarrow> Some (OTA_MODULE_ERR_INVALID_ARG, s)
      | Some cfg \<Rightarrow>
          let s1 = s\<lparr>g_cfg := cfg, g_inited := True, g_dl := zero_session\<rparr>;
              (rc, _, s2) = record_load s1
          in if rc \<noteq> OTA_MODULE_ERR_OK
             then record_store (ota_record_default_info\<lparr>ri_magic := OTA_INFO_MAGIC\<rparr>) s2
             else Some (OTA_MODULE_ERR_OK, s2))"

text \<open>Changing one slot of a record.\<close>

definition set_slot :: "nat \<Rightarrow> byte \<Rightarrow> u32 \<Rightarrow> ota_record_info \<Rightarrow> ota_record_info" where
  "set_slot i st n r = r\<lparr>ri_ota_app_info :=
     (ri_ota_app_info r)[i := (ri_ota_app_info r ! i)\<lparr>ai_status := st, ai_verify_count := n\<rparr>]\<rparr>"

definition jump_to_slot :: "ota_app_info \<Rightarrow> 'w ota \<Rightarrow> ota_module_err \<times> 'w ota" where
  "jump_to_slot a s =
     (let (entry, s1) = ota_calc_entry_addr_from_header a s;
          (rc, w) = jump_func (g_cfg s1) entry (g_world s1)
      in (if rc \<noteq> 0 then OTA_MODULE_ERR_JUMP_FAILED else OTA_MODULE_ERR_OK, s1\<lparr>g_world := w\<rparr>))"

definition boot_candidate :: "ota_record_info \<Rightarrow> 'w ota \<Rightarrow> ota_module_err \<times> 'w ota" where
  "boot_candidate r s =
     (case choose_boot_candidate_ota_slot r of
        Inr i \<Rightarrow> jump_to_slot (ri_ota_app_info r ! i) s
      | Inl _ \<Rightarrow> (OTA_MODULE_ERR_NO_BOOT_CANDIDATE, s))"

definition ota_module_boot_preprocess :: "'w ota \<Rightarrow> (ota_module_err \<times> 'w ota) option" where
  "ota_module_boot_preprocess s =
     (case record_load s of (_, rec, s1) \<Rightarrow> do {
        r \<leftarrow> rec;
        case slot_with OTA_APP_STATUS_UNVERIFIED r of
          Some uv \<Rightarrow>
            let n = ai_verify_count (ri_ota_app_info r ! uv) + 1 in
            if OTA_APP_MAX_VERIFY_COUNT \<le> n then do {
              let r' = set_slot uv OTA_APP_STATUS_INVALID 0 r;
              (e, s2) \<leftarrow> record_store r' s1;
              Some (if e \<noteq> OTA_MODULE_ERR_OK then (e, s2) else boot_candidate r' s2)
            }
            else do {
              let r' = set_slot uv OTA_APP_STATUS_UNVERIFIED n r;
              (e, s2) \<leftarrow> record_store r' s1;
              Some (if e \<noteq> OTA_MODULE_ERR_OK then (e, s2)
                    else jump_to_slot (ri_ota_app_info r' ! uv) s2)
            }
        | None \<Rightarrow> Some (boot_candidate r s1)
      })"

definition ota_module_has_active_app_region :: "'w ota \<Rightarrow> int \<times> 'w ota" where
  "ota_module_has_active_app_region s =
     (case record_load s of
        (OTA_MODULE_ERR_OK, Some r, s1) \<Rightarrow>
          (if slot_with OTA_APP_STATUS_ACTIVE r \<noteq> None then 1 else 0, s1)
      | (_, _, s1) \<Rightarrow> (0, s1))"

definition ota_module_get_record_info ::
  "'w ota \<Rightarrow> ((ota_module_err \<times> ota_record_info) \<times> 'w ota) option" where
  "ota_module_get_record_info s =
     (case record_load s of (rc, rec, s1) \<Rightarrow> do { r \<leftarrow> rec; Some ((rc, r), s1) })"

definition download_session :: "nat \<Rightarrow> ota_package_header \<Rightarrow> ota_download_session" where
  "download_session i h = zero_session\<lparr>dl_started := True, dl_target_index := i,
     dl_package_header_copy := h, dl_expected_app_size := ph_app_size h,
     dl_expected_total_size := ph_app_offset h + ph_app_size h,
     dl_expected_app_crc32 := ph_app_crc32 h, dl_downloaded_size := 0,
     dl_downloaded_crc32 := 0, dl_crc_inited := False\<rparr>"

text \<open>The size checks of \<open>ota_module_ota_download_start\<close>.\<close>

definition package_fits :: "ota_package_header \<Rightarrow> ota_app_info \<Rightarrow> bool" where
  "package_fits h a \<longleftrightarrow> ph_app_offset h < ai_flash_size a
     \<and> ph_app_offset h + ph_app_size h \<le> ai_flash_size a
     \<and> ph_app_size h \<le> ai_flash_size a"

definition ota_module_ota_download_start ::
  "ota_package_header option \<Rightarrow> 'w ota \<Rightarrow> (ota_module_err \<times> 'w ota) option" where
  "ota_module_ota_download_start package_header s =
     (case package_header of None \<Rightarrow> Some (OTA_MODULE_ERR_INVALID_ARG, s)
      | Some h \<Rightarrow>
        if \<not> g_inited s then Some (OTA_MODULE_ERR_NOT_INIT, s)
        else if dl_started (g_dl s) then Some (OTA_MODULE_ERR_ALREADY_IN_PROGRESS, s)
        else if ph_magic h \<noteq> OTA_PACKAGE_MAGIC then Some (OTA_MODULE_ERR_PACKAGE_MAGIC, s)
        else
          let (c, s1) = package_header_crc32_without_header_crc32 h s in
          if c \<noteq> ph_header_crc32 h then Some (OTA_MODULE_ERR_PACKAGE_HEADER_CRC, s1)
          else
            let (_, rec, s2) = record_load s1 in do {
              r \<leftarrow> rec;
              case choose_target_ota_slot r of
                Inl _ \<Rightarrow> Some (OTA_MODULE_ERR_SLOT_UNAVAILABLE, s2)
              | Inr i \<Rightarrow>
                let a = ri_ota_app_info r ! i in
                if \<not> package_fits h a then Some (OTA_MODULE_ERR_FLASH_SIZE, s2)
                else do {
                  (e, s3) \<leftarrow> flash_erase_slot (ai_flash_type a) (ai_flash_addr a)
                               (ph_app_offset h + ph_app_size h) s2;
                  if e \<noteq> OTA_MODULE_ERR_OK then Some (OTA_MODULE_ERR_FLASH_OP, s3)
                  else do {
                    let r' = (set_slot i OTA_APP_STATUS_DOWNLOADING 0 r)\<lparr>ri_info_crc32 := 0\<rparr>;
                    (e, s4) \<leftarrow> record_store r' s3;
                    if e \<noteq> OTA_MODULE_ERR_OK then do {
                      (_, s5) \<leftarrow> record_store (set_slot i OTA_APP_STATUS_INVALID 0 r') s4;
                      Some (e, s5)
                    }
                    else Some (OTA_MODULE_ERR_OK, s4\<lparr>g_dl := download_session i h\<rparr>)
                  }
                }
            })"

definition ota_module_ota_download ::
  "u32 \<Rightarrow> byte list option \<Rightarrow> u32 \<Rightarrow> 'w ota \<Rightarrow> (ota_module_err \<times> 'w ota) option" where
  "ota_module_ota_download offset data len s =
     (if data = None \<and> len \<noteq> 0 then Some (OTA_MODULE_ERR_INVALID_ARG, s)
      else if \<not> g_inited s then Some (OTA_MODULE_ERR_NOT_INIT, s)
      else if \<not> dl_started (g_dl s) then Some (OTA_MODULE_ERR_SESSION_MISMATCH, s)
      else
        let (rc, rec, s1) = record_load s in
        if rc \<noteq> OTA_MODULE_ERR_OK then Some (rc, s1)
        else do {
          r \<leftarrow> rec;
          let a = ri_ota_app_info r ! dl_target_index (g_dl s);
          if ai_status a \<noteq> OTA_APP_STATUS_DOWNLOADING then Some (OTA_MODULE_ERR_SESSION_MISMATCH, s1)
          else if offset \<noteq> dl_downloaded_size (g_dl s) then Some (OTA_MODULE_ERR_OFFSET_MISMATCH, s1)
          else if dl_expected_total_size (g_dl s) < offset + len then Some (OTA_MODULE_ERR_SIZE_MISMATCH, s1)
          else if len = 0 then Some (OTA_MODULE_ERR_OK, s1)
          else
            let dst_addr = ai_flash_addr a + offset in
            if ai_flash_addr a + ai_flash_size a < dst_addr + len then Some (OTA_MODULE_ERR_FLASH_SIZE, s1)
            else do {
              d \<leftarrow> data;
              (rc, w) \<leftarrow> flash_write_func (g_cfg s1) (ai_flash_type a) dst_addr
                          (take (unat len) d) (g_world s1);
              Some (if rc \<noteq> 0 then (OTA_MODULE_ERR_FLASH_OP, s1\<lparr>g_world := w\<rparr>)
                    else (OTA_MODULE_ERR_OK,
                          s1\<lparr>g_world := w,
                             g_dl := (g_dl s1)\<lparr>dl_downloaded_size := dl_downloaded_size (g_dl s1) + len\<rparr>\<rparr>))
            }
        })"

text \<open>The information is \<open>None\<close> where the caller's structure is left as it was.\<close>

definition ota_module_ota_get_download_info ::
  "'w ota \<Rightarrow> (ota_module_err \<times> ota_download_info option) \<times> 'w ota" where
  "ota_module_ota_get_download_info s =
     (if \<not> g_inited s then ((OTA_MODULE_ERR_NOT_INIT, None), s)
      else if \<not> dl_started (g_dl s)
      then ((OTA_MODULE_ERR_SESSION_MISMATCH,
             Some \<lparr>di_status = OTA_DOWNLOAD_STATUS_INVALID,
               di_ota_app_info = app_info_of_bytes (replicate 14 0), di_package_header = zero_header,
               di_download_size = 0, di_download_crc32 = 0\<rparr>), s)
      else case record_load s of
        (OTA_MODULE_ERR_OK, Some r, s1) \<Rightarrow>
          ((OTA_MODULE_ERR_OK,
            Some \<lparr>di_status = OTA_DOWNLOAD_STATUS_DOWNLOADING,
              di_ota_app_info = ri_ota_app_info r ! dl_target_index (g_dl s),
              di_package_header = dl_package_header_copy (g_dl s),
              di_download_size = dl_downloaded_size (g_dl s), di_download_crc32 = 0\<rparr>), s1)
      | (rc, _, s1) \<Rightarrow> ((rc, None), s1))"

definition ota_module_ota_download_finish :: "'w ota \<Rightarrow> (ota_module_err \<times> 'w ota) option" where
  "ota_module_ota_download_finish s =
     (if \<not> g_inited s then Some (OTA_MODULE_ERR_NOT_INIT, s)
      else if \<not> dl_started (g_dl s) then Some (OTA_MODULE_ERR_SESSION_MISMATCH, s)
      else
        let (rc, rec, s1) = record_load s in
        if rc \<noteq> OTA_MODULE_ERR_OK then Some (rc, s1)
        else do {
          r \<leftarrow> rec;
          let i = dl_target_index (g_dl s);
          let a = ri_ota_app_info r ! i;
          if ai_status a \<noteq> OTA_APP_STATUS_DOWNLOADING then Some (OTA_MODULE_ERR_APP_STATUS, s1)
          else if dl_downloaded_size (g_dl s) \<noteq> dl_expected_total_size (g_dl s)
          then Some (OTA_MODULE_ERR_SIZE_MISMATCH, s1)
          else do {
            (_, w) \<leftarrow> flash_write_func (g_cfg s1) (ai_flash_type a) 0 [] (g_world s1);
            case flash_crc32_app_body a (dl_package_header_copy (g_dl s)) (s1\<lparr>g_world := w\<rparr>) of
              (Inl e, s2) \<Rightarrow> Some (e, s2)
            | (Inr crc, s2) \<Rightarrow>
                if crc \<noteq> dl_expected_app_crc32 (g_dl s) then do {
                  (e, s3) \<leftarrow> record_store (set_slot i OTA_APP_STATUS_INVALID 0 r) s2;
                  Some (if e \<noteq> OTA_MODULE_ERR_OK then (e, s3)
                        else (OTA_MODULE_ERR_CRC_MISMATCH, s3\<lparr>g_dl := zero_session\<rparr>))
                }
                else do {
                  (e, s3) \<leftarrow> record_store (set_slot i OTA_APP_STATUS_UNVERIFIED 0 r) s2;
                  Some (if e \<noteq> OTA_MODULE_ERR_OK then (e, s3)
                        else (OTA_MODULE_ERR_OK, s3\<lparr>g_dl := zero_session\<rparr>))
                }
          }
        })"

definition ota_module_ota_download_abort :: "'w ota \<Rightarrow> (ota_module_err \<times> 'w ota) option" where
  "ota_module_ota_download_abort s =
     (if \<not> g_inited s then Some (OTA_MODULE_ERR_NOT_INIT, s)
      else
        let (_, rec, s1) = record_load s in do {
          r \<leftarrow> rec;
          case (if dl_started (g_dl s) then Some (dl_target_index (g_dl s))
                else slot_with OTA_APP_STATUS_DOWNLOADING r) of
            None \<Rightarrow> Some (OTA_MODULE_ERR_SLOT_UNAVAILABLE, s1)
          | Some i \<Rightarrow> do {
              (e, s2) \<leftarrow> record_store (set_slot i OTA_APP_STATUS_INVALID 0 r) s1;
              Some (if e \<noteq> OTA_MODULE_ERR_OK then (e, s2)
                    else (OTA_MODULE_ERR_OK, s2\<lparr>g_dl := zero_session\<rparr>))
            }
        })"

text \<open>The demotion loop of \<open>mark_verified_promote_unverified_ota_slot\<close>.\<close>

fun demote_others :: "nat \<Rightarrow> nat \<Rightarrow> ota_app_info list \<Rightarrow> ota_app_info list" where
  "demote_others uv i [] = []"
| "demote_others uv i (a # as) =
     (if i \<noteq> uv \<and> (ai_status a = OTA_APP_STATUS_ACTIVE \<or> ai_status a = OTA_APP_STATUS_UNVERIFIED)
      then a\<lparr>ai_status := OTA_APP_STATUS_BACKUP, ai_verify_count := 0\<rparr> else a)
     # demote_others uv (Suc i) as"

text \<open>\<open>Inr\<close> a record to be stored, \<open>Inl 1\<close> nothing to do, \<open>Inl (-1)\<close> an error.\<close>

definition mark_verified_promote_unverified_ota_slot :: "ota_record_info \<Rightarrow> int + ota_record_info" where
  "mark_verified_promote_unverified_ota_slot r =
     (case slot_with OTA_APP_STATUS_UNVERIFIED r of
        None \<Rightarrow> Inl (if slot_with OTA_APP_STATUS_ACTIVE r \<noteq> None then 1 else -1)
      | Some uv \<Rightarrow>
          let r' = set_slot uv OTA_APP_STATUS_ACTIVE 0 r
          in Inr (r'\<lparr>ri_ota_app_info := demote_others uv 0 (ri_ota_app_info r')\<rparr>))"

definition ota_module_app_mark_verified :: "'w ota \<Rightarrow> (ota_module_err \<times> 'w ota) option" where
  "ota_module_app_mark_verified s =
     (if \<not> g_inited s then Some (OTA_MODULE_ERR_NOT_INIT, s)
      else
        let (rc, rec, s1) = record_load s in
        if rc \<noteq> OTA_MODULE_ERR_OK then Some (rc, s1)
        else do {
          r \<leftarrow> rec;
          case mark_verified_promote_unverified_ota_slot r of
            Inl mv \<Rightarrow> Some (if mv = 1 then OTA_MODULE_ERR_OK else OTA_MODULE_ERR_APP_STATUS, s1)
          | Inr r' \<Rightarrow> do {
              (e, s2) \<leftarrow> record_store r' s1;
              Some (if e \<noteq> OTA_MODULE_ERR_OK then OTA_MODULE_ERR_FLASH_OP else OTA_MODULE_ERR_OK, s2)
            }
        })"

definition ota_module_set_boot_ymodem_flag :: "u32 \<Rightarrow> 'w ota \<Rightarrow> (ota_module_err \<times> 'w ota) option" where
  "ota_module_set_boot_ymodem_flag flag s =
     (if \<not> g_inited s then Some (OTA_MODULE_ERR_NOT_INIT, s)
      else
        let (_, rec, s1) = record_load s in do {
          r \<leftarrow> rec;
          record_store (r\<lparr>ri_boot_ymodem_flag := flag\<rparr>) s1
        })"

definition ota_module_get_boot_ymodem_flag :: "'w ota \<Rightarrow> (u32 \<times> 'w ota) option" where
  "ota_module_get_boot_ymodem_flag s =
     (if \<not> g_inited s then Some (0, s)
      else
        let (_, rec, s1) = record_load s in do {
          r \<leftarrow> rec;
          Some (ri_boot_ymodem_flag r, s1)
        })"

end
