(* ===== verification/Flash_Driver.thy ===== *)
theory Flash_Driver
  imports Memory
begin

text \<open>
  The contract between the OTA module and a platform's flash and CRC functions,
  as far as the OTA module relies on it while no operation fails.  A platform
  may hold back bytes of a sequential write until they are flushed: \<open>mem\<close> is
  what a read returns, \<open>view\<close> what it will return after a flush,
  \<open>idle\<close> that nothing is held back, and \<open>stream lim p\<close> that a
  sequential write has reached \<open>p\<close> and the flash is erased from there to
  \<open>lim\<close>.
\<close>

text \<open>A sequential write in pieces, then a flush (a write of no bytes).\<close>

fun write_all ::
  "(u32 \<Rightarrow> byte list \<Rightarrow> 'w \<Rightarrow> (int \<times> 'w) option) \<Rightarrow> u32 \<Rightarrow> byte list list \<Rightarrow> 'w
     \<Rightarrow> (int \<times> 'w) option" where
  "write_all wr p [] w = wr 0 [] w"
| "write_all wr p (d # ds) w =
     (case wr p d w of None \<Rightarrow> None
      | Some (rc, w') \<Rightarrow>
          if rc \<noteq> 0 then Some (rc, w') else write_all wr (p + of_nat (length d)) ds w')"

locale flash_driver =
  fixes rd :: "u32 \<Rightarrow> nat \<Rightarrow> 'w \<Rightarrow> int \<times> byte list"
    and wr :: "u32 \<Rightarrow> byte list \<Rightarrow> 'w \<Rightarrow> (int \<times> 'w) option"
    and er :: "u32 \<Rightarrow> u32 \<Rightarrow> 'w \<Rightarrow> (int \<times> 'w) option"
    and crc :: "byte \<Rightarrow> byte list \<Rightarrow> 'w \<Rightarrow> u32 \<times> 'w"
    and mem :: "'w \<Rightarrow> u32 \<Rightarrow> byte"
    and view :: "'w \<Rightarrow> u32 \<Rightarrow> byte"
    and idle :: "'w \<Rightarrow> bool"
    and healthy :: "'w \<Rightarrow> bool"
    and stream :: "u32 \<Rightarrow> u32 \<Rightarrow> 'w \<Rightarrow> bool"
    and room :: "u32 \<Rightarrow> u32 \<Rightarrow> bool"
    and creg :: "'w \<Rightarrow> u32"
    and cstep :: "u32 \<Rightarrow> byte \<Rightarrow> u32"
    and cinit :: u32
  assumes room_ok: "room a n \<Longrightarrow>
      unat a mod 8 = 0 \<and> unat n mod 8 = 0 \<and> unat a + unat n < 2 ^ 32"
    and rd_ok: "rd a k w = (0, map (\<lambda>j. mem w (a + of_nat j)) [0..<k])"
    and er_ok: "healthy w \<Longrightarrow> room a n \<Longrightarrow> n \<noteq> 0 \<Longrightarrow>
      \<exists>w'. er a n w = Some (0, w') \<and> healthy w' \<and> idle w'
        \<and> mem w' = mem_poke a (replicate (unat n) 0xFF) (mem w)"
    and wr_ok: "healthy w \<Longrightarrow> stream lim p w \<Longrightarrow> d \<noteq> [] \<Longrightarrow> unat p + length d \<le> unat lim \<Longrightarrow>
      \<exists>w'. wr p d w = Some (0, w') \<and> healthy w' \<and> stream lim (p + of_nat (length d)) w'
        \<and> view w' = mem_poke p d (view w)"
    and fl_ok: "healthy w \<Longrightarrow> stream lim p w \<Longrightarrow>
      \<exists>w'. wr a [] w = Some (0, w') \<and> healthy w' \<and> idle w' \<and> mem w' = view w"
    and idle_view: "idle w \<Longrightarrow> view w = mem w"
    and stream_start: "idle w \<Longrightarrow> p \<le> lim \<Longrightarrow> unat p mod 8 = 0 \<Longrightarrow> unat lim mod 8 = 0 \<Longrightarrow>
      (\<And>a. p \<le> a \<Longrightarrow> a < lim \<Longrightarrow> mem w a = 0xFF) \<Longrightarrow> stream lim p w"
    and stream_view: "stream lim p w \<Longrightarrow> mem w x \<noteq> view w x \<Longrightarrow>
      unat p - unat p mod 8 \<le> unat x \<and> x < p"
    and crc_reset: "d \<noteq> [] \<Longrightarrow> fst (crc 0 d w) = foldl cstep cinit d"
    and crc_next: "d \<noteq> [] \<Longrightarrow> fst (crc 1 d w) = foldl cstep (creg w) d"
    and crc_reg: "d \<noteq> [] \<Longrightarrow> creg (snd (crc m d w)) = fst (crc m d w)"
    and crc_mem: "mem (snd (crc m d w)) = mem w"
    and crc_view: "view (snd (crc m d w)) = view w"
    and crc_idle: "idle (snd (crc m d w)) = idle w"
    and crc_healthy: "healthy (snd (crc m d w)) = healthy w"
    and crc_stream: "stream lim p (snd (crc m d w)) = stream lim p w"
begin

lemma room_end: "room a n \<Longrightarrow> unat (a + n) = unat a + unat n"
  using room_ok [of a n] by (intro unat_plus_small) simp

text \<open>An area just erased takes a sequential write from its start.\<close>

lemma stream_erased:
  assumes "room a n" "idle w" "\<And>x. unat (x - a) < unat n \<Longrightarrow> mem w x = 0xFF"
  shows "stream (a + n) a w"
proof (rule stream_start [OF assms(2)])
  note room = room_ok [OF assms(1)] room_end [OF assms(1)]
  show "a \<le> a + n" using room by (simp add: unat_order)
  show "unat a mod 8 = 0" using room by simp
  show "unat (a + n) mod 8 = 0" using room by (simp add: mod_eq_0_iff_dvd)
  fix x assume "a \<le> x" "x < a + n"
  then have "unat (x - a) < unat n" using room by (simp add: unat_sub unat_order)
  then show "mem w x = 0xFF" by (rule assms(3))
qed

lemma stream_after_erase:
  assumes "room a n" "idle w" "mem w = mem_poke a (replicate (unat n) 0xFF) m"
  shows "stream (a + n) a w"
  by (rule stream_erased [OF assms(1,2)]) (simp add: assms(3) mem_poke_def)

text \<open>Write in any number of pieces and flush: the memory holds the bytes.\<close>

lemma write_all_ok:
  assumes "healthy w" "stream lim p w" "[] \<notin> set ds" "unat p + length (concat ds) \<le> unat lim"
  shows "\<exists>w'. write_all wr p ds w = Some (0, w') \<and> healthy w' \<and> idle w'
    \<and> mem w' = mem_poke p (concat ds) (view w)"
  using assms
proof (induction ds arbitrary: p w)
  case Nil
  then show ?case using fl_ok [of w lim p 0] by auto
next
  case (Cons d ds)
  then obtain w1 where w1: "wr p d w = Some (0, w1)" "healthy w1"
      "stream lim (p + of_nat (length d)) w1" "view w1 = mem_poke p d (view w)"
    using wr_ok [of w lim p d] by auto
  have u: "unat (p + of_nat (length d)) = unat p + length d"
    using Cons.prems(4) unat_lt32 [of lim] by (intro unat_add_nat) simp
  obtain w' where w': "write_all wr (p + of_nat (length d)) ds w1 = Some (0, w')" "healthy w'" "idle w'"
      "mem w' = mem_poke (p + of_nat (length d)) (concat ds) (view w1)"
    using Cons.IH [OF w1(2,3)] Cons.prems u by auto
  have "mem_poke (p + of_nat (length d)) (concat ds) (mem_poke p d (view w))
      = mem_poke p (d @ concat ds) (view w)"
    by (rule mem_poke_append) (use Cons.prems(4) unat_lt32 [of lim] in simp_all)
  then show ?case using w1 w' by simp
qed

lemma read_back:
  assumes "mem w = mem_poke p d m" "length d \<le> 2 ^ 32"
  shows "rd p (length d) w = (0, d)"
proof -
  have "mem_poke p d m (p + of_nat j) = d ! j" if "j < length d" for j
    using that assms(2) by (simp add: mem_poke_def unat_of_nat)
  then show ?thesis using assms(1) by (auto simp: rd_ok intro!: nth_equalityI)
qed

end

end
