(* ===== verification/Ota_Record.thy ===== *)
theory Ota_Record
  imports Ota_Module Flash_Driver
begin

text \<open>
  The OTA record in flash: the packed images, and storing and loading the record
  over any platform that keeps the contract of \<open>Flash_Driver\<close>.
\<close>

unbundle bit_operations_syntax

definition mem_at :: "(u32 \<Rightarrow> byte) \<Rightarrow> u32 \<Rightarrow> nat \<Rightarrow> byte list" where
  "mem_at m p n = map (\<lambda>j. m (p + of_nat j)) [0..<n]"

definition wf_record :: "ota_record_info \<Rightarrow> bool" where
  "wf_record r \<longleftrightarrow> length (ri_ota_app_info r) = OTA_APP_COUNT"

definition wf_header :: "ota_package_header \<Rightarrow> bool" where
  "wf_header h \<longleftrightarrow> length (ph_app_version h) = OTA_PACKAGE_VERSION_MAX_LEN"

text \<open>The record as it is stored: with the magic number and the CRC of what precedes the CRC.\<close>

definition seal :: "(byte list \<Rightarrow> u32) \<Rightarrow> ota_record_info \<Rightarrow> ota_record_info" where
  "seal crcf r = (let t = r\<lparr>ri_magic := OTA_INFO_MAGIC\<rparr> in
     t\<lparr>ri_info_crc32 := crcf (take (sizeof_record - 4) (record_bytes t))\<rparr>)"

definition holds_record ::
  "(byte list \<Rightarrow> u32) \<Rightarrow> (u32 \<Rightarrow> byte) \<Rightarrow> u32 \<Rightarrow> ota_record_info \<Rightarrow> bool" where
  "holds_record crcf m p r \<longleftrightarrow>
     wf_record r \<and> seal crcf r = r \<and> mem_at m p sizeof_record = record_bytes r"

definition ota_ready :: "'w ota_config \<Rightarrow> ('w \<Rightarrow> bool) \<Rightarrow> 'w ota \<Rightarrow> bool" where
  "ota_ready cfg healthy s \<longleftrightarrow> g_inited s \<and> g_cfg s = cfg \<and> healthy (g_world s)"

declare crc_body_loop.simps [simp del]

subsection \<open>Packed images\<close>

text \<open>A packed structure whose arrays have the length the declaration gives them.\<close>

locale packed =
  fixes enc :: "'a \<Rightarrow> byte list"
    and dec :: "byte list \<Rightarrow> 'a"
    and ok :: "'a \<Rightarrow> bool"
    and bytes :: nat
  assumes packed_length: "ok x \<Longrightarrow> length (enc x) = bytes"
    and packed_dec: "ok x \<Longrightarrow> dec (enc x @ r) = x"
begin

lemma packed_dec_only: "ok x \<Longrightarrow> dec (enc x) = x"
  using packed_dec [of x "[]"] by simp

lemma packed_inject: "ok x \<Longrightarrow> ok y \<Longrightarrow> enc x = enc y \<Longrightarrow> x = y"
  by (metis packed_dec_only)

end

sublocale byte_codec \<subseteq> pk: packed enc dec "\<lambda>_. True" size
  by unfold_locales (simp_all add: length_enc dec_enc)

lemma un32_drop [simp]: "un32 (drop n (le32 a @ r)) = un32 (drop (n - 4) r)" if "4 \<le> n"
  using that by simp

interpretation app_info_codec: byte_codec app_info_bytes app_info_of_bytes 14
proof
  fix x r
  show "length (app_info_bytes x) = 14" by (simp add: app_info_bytes_def)
  show "app_info_of_bytes (app_info_bytes x @ r) = x"
    by (cases x) (simp add: app_info_bytes_def app_info_of_bytes_def nth_append drop_Cons')
qed

interpretation record_packed: packed record_bytes record_of_bytes wf_record sizeof_record
proof
  fix x r assume x: "wf_record x"
  then obtain a where a: "ri_ota_app_info x = [a]"
    by (auto simp: wf_record_def length_Suc_conv)
  show "length (record_bytes x) = sizeof_record"
    by (simp add: record_bytes_def sizeof_record_def a app_info_codec.length_enc)
  show "record_of_bytes (record_bytes x @ r) = x"
    using a by (cases x) (simp add: record_bytes_def record_of_bytes_def app_info_codec.length_enc
        app_info_codec.dec_enc)
qed

interpretation header_packed: packed hdr56_bytes hdr56_of_bytes wf_header sizeof_header
proof
  fix x r assume x: "wf_header x"
  show "length (hdr56_bytes x) = sizeof_header"
    using x by (simp add: hdr56_bytes_def sizeof_header_def wf_header_def)
  show "hdr56_of_bytes (hdr56_bytes x @ r) = x"
    using x by (cases x) (simp add: hdr56_bytes_def hdr56_of_bytes_def wf_header_def slice_def)
qed

lemma wf_record_single: "wf_record r \<longleftrightarrow> (\<exists>a. ri_ota_app_info r = [a])"
  by (auto simp: wf_record_def length_Suc_conv)

lemma wf_set_slot [simp]: "wf_record (set_slot i st n r) = wf_record r"
  by (simp add: wf_record_def set_slot_def)

lemma wf_record_upd [simp]:
  "wf_record (r\<lparr>ri_magic := m\<rparr>) = wf_record r" "wf_record (r\<lparr>ri_info_crc32 := c\<rparr>) = wf_record r"
  "wf_record (r\<lparr>ri_boot_ymodem_flag := f\<rparr>) = wf_record r"
  by (simp_all add: wf_record_def)

lemma wf_default [simp]: "wf_record ota_record_default_info"
  by (simp add: wf_record_def ota_record_default_info_def)

lemma record_prefix:
  "wf_record r \<Longrightarrow> take (sizeof_record - 4) (record_bytes r)
     = le32 (ri_magic r) @ concat (map app_info_bytes (ri_ota_app_info r)) @ le32 (ri_boot_ymodem_flag r)"
  by (auto simp: wf_record_single record_bytes_def sizeof_record_def app_info_codec.length_enc)

lemma seal_magic [simp]: "ri_magic (seal f r) = OTA_INFO_MAGIC"
  and seal_slots [simp]: "ri_ota_app_info (seal f r) = ri_ota_app_info r"
  and seal_flag [simp]: "ri_boot_ymodem_flag (seal f r) = ri_boot_ymodem_flag r"
  and wf_seal [simp]: "wf_record (seal f r) = wf_record r"
  by (simp_all add: seal_def Let_def wf_record_def)

lemma seal_crc:
  "wf_record r \<Longrightarrow> ri_info_crc32 (seal f r) = f (take (sizeof_record - 4) (record_bytes (seal f r)))"
  by (simp add: record_prefix) (simp add: seal_def Let_def record_prefix)

lemma seal_seal [simp]: "wf_record r \<Longrightarrow> seal f (seal f r) = seal f r"
proof -
  assume wf: "wf_record r"
  have "(seal f r)\<lparr>ri_magic := OTA_INFO_MAGIC\<rparr> = seal f r" by (simp add: seal_def Let_def)
  then have "seal f (seal f r)
      = (seal f r)\<lparr>ri_info_crc32 := f (take (sizeof_record - 4) (record_bytes (seal f r)))\<rparr>"
    by (simp only: seal_def [of f "seal f r"] Let_def)
  then show ?thesis using seal_crc [OF wf, of f] by simp
qed

lemma length_mem_at [simp]: "length (mem_at m p n) = n"
  by (simp add: mem_at_def)

lemma mem_at_poke:
  assumes "length d \<le> 2 ^ 32" "n \<le> length d" shows "mem_at (mem_poke p d m) p n = take n d"
proof (rule nth_equalityI)
  fix i assume "i < length (mem_at (mem_poke p d m) p n)"
  then show "mem_at (mem_poke p d m) p n ! i = take n d ! i"
    using assms by (simp add: mem_at_def mem_poke_def unat_of_nat)
qed (use assms in \<open>simp add: mem_at_def\<close>)

lemma mem_at_cong: "(\<And>j. j < n \<Longrightarrow> m (p + of_nat j) = m' (p + of_nat j)) \<Longrightarrow> mem_at m p n = mem_at m' p n"
  by (simp add: mem_at_def)

lemma mem_at_split: "mem_at m p (k + n) = mem_at m p k @ mem_at m (p + of_nat k) n"
  by (rule nth_equalityI) (auto simp: mem_at_def nth_append algebra_simps simp flip: of_nat_add)

lemma unat_align_up:
  assumes "a \<noteq> 0" "unat v + unat a < 2 ^ 32"
  shows "unat (align_up v a) = (unat v + unat a - 1) div unat a * unat a"
proof -
  have a: "0 < unat a" using assms(1) by (simp add: unat_gt_0)
  have "unat (v + a) = unat v + unat a" using assms(2) by (intro unat_plus_small) simp
  moreover have "1 \<le> v + a" using calculation a by (simp add: unat_order)
  ultimately have u: "unat (v + a - 1) = unat v + unat a - 1" by (simp add: unat_sub)
  have "(unat v + unat a - 1) div unat a * unat a \<le> unat v + unat a - 1" by (rule div_times_less_eq_dividend)
  then have "(unat v + unat a - 1) div unat a * unat a < 2 ^ 32" using assms(2) by linarith
  then show ?thesis using assms(1) by (simp add: align_up_def unat_mult_lem [THEN iffD1] unat_div u)
qed

lemma align_down_id: "unat v mod unat a = 0 \<Longrightarrow> align_down v a = v"
proof -
  assume "unat v mod unat a = 0"
  then have "v mod a = 0" by (simp add: word_unat_eq_iff unat_mod)
  then show ?thesis using div_mult_mod_eq [of v a] by (simp add: align_down_def word_mod_div_equality)
qed

lemma align_up_one:
  assumes "v \<noteq> 0" "v \<le> a" "unat a < 2 ^ 31" shows "align_up v a = a"
proof -
  have v: "0 < unat v" "unat v \<le> unat a" using assms(1,2) by (simp_all add: unat_gt_0 unat_order)
  then have a: "a \<noteq> 0" by (intro notI) simp
  have "(unat v + unat a - 1) div unat a = 1"
    using v by (intro div_nat_eqI) simp_all
  then have "unat (align_up v a) = unat a"
    using unat_align_up [OF a, of v] v(2) assms(3) by simp
  then show ?thesis by (simp add: word_unat_eq_iff)
qed

subsection \<open>Storing and loading the record\<close>

text \<open>
  A platform configuration of the OTA module: its functions keep the contract
  of the flash driver and the page that holds the record can be erased alone.
\<close>

locale ota_platform = flash_driver +
  fixes cfg :: "'a ota_config" and sector :: u32
  assumes cfg_read: "flash_read_func cfg OTA_FLASH_TYPE_INTERNAL = rd"
    and cfg_read_other: "t \<noteq> OTA_FLASH_TYPE_INTERNAL \<Longrightarrow> 0 < k \<Longrightarrow>
      fst (flash_read_func cfg t p k w) \<noteq> 0"
    and cfg_write: "flash_write_func cfg OTA_FLASH_TYPE_INTERNAL = wr"
    and cfg_erase: "flash_erase_func cfg OTA_FLASH_TYPE_INTERNAL = er"
    and cfg_crc: "crc32_func cfg = crc"
    and cfg_type: "record_flash_type cfg = OTA_FLASH_TYPE_INTERNAL"
    and cfg_sector: "flash_sector_size cfg \<noteq> []" "flash_sector_size cfg ! 0 = sector"
    and sector_bounds: "64 \<le> unat sector" "unat sector < 2 ^ 31"
    and room_aligned: "room a n \<Longrightarrow> unat a mod unat sector = 0"
    and record_room: "room (record_addr cfg) sector"
begin

lemmas cfg_simps = cfg_read cfg_write cfg_erase cfg_crc cfg_type cfg_sector
lemmas crc_keeps = crc_mem crc_view crc_idle crc_healthy crc_stream

lemma sector_nz: "sector \<noteq> 0"
  using sector_bounds(1) by auto

lemma record_crc:
  assumes "g_cfg s = cfg" "wf_record r"
  shows "record_crc32_without_info_crc32 r s =
    (foldl cstep cinit (take (sizeof_record - 4) (record_bytes r)),
     s\<lparr>g_world := snd (crc 0 (take (sizeof_record - 4) (record_bytes r)) (g_world s))\<rparr>)"
proof -
  have "take (sizeof_record - 4) (record_bytes r) \<noteq> []"
    using record_packed.packed_length [OF assms(2)] by (auto simp: sizeof_record_def)
  from crc_reset [OF this, of "g_world s"] show ?thesis
    using assms(1) by (simp add: record_crc32_without_info_crc32_def crc32_one_shot_def cfg_simps split_beta Let_def)
qed

lemma header_crc:
  assumes "g_cfg s = cfg" "wf_header h"
  shows "package_header_crc32_without_header_crc32 h s =
    (foldl cstep cinit (take (sizeof_header - 4) (hdr56_bytes h)),
     s\<lparr>g_world := snd (crc 0 (take (sizeof_header - 4) (hdr56_bytes h)) (g_world s))\<rparr>)"
proof -
  have "take (sizeof_header - 4) (hdr56_bytes h) \<noteq> []"
    using header_packed.packed_length [OF assms(2)] by (auto simp: sizeof_header_def)
  from crc_reset [OF this, of "g_world s"] show ?thesis
    using assms(1) by (simp add: package_header_crc32_without_header_crc32_def crc32_one_shot_def cfg_simps
        split_beta Let_def)
qed

text \<open>A valid record is loaded as it is; only the CRC unit notices.\<close>

lemma record_load_ok:
  assumes "g_inited s" "g_cfg s = cfg" "holds_record (foldl cstep cinit) (mem (g_world s)) (record_addr cfg) r"
  shows "record_load s = (OTA_MODULE_ERR_OK, Some r,
    s\<lparr>g_world := snd (crc 0 (take (sizeof_record - 4) (record_bytes r)) (g_world s))\<rparr>)"
proof -
  have wf: "wf_record r" and sl: "seal (foldl cstep cinit) r = r"
    and img: "mem_at (mem (g_world s)) (record_addr cfg) sizeof_record = record_bytes r"
    using assms(3) by (simp_all add: holds_record_def)
  have "flash_read_func cfg (record_flash_type cfg) (record_addr cfg) sizeof_record (g_world s)
      = (0, record_bytes r)"
    using img by (simp add: cfg_simps rd_ok mem_at_def)
  moreover have "ri_magic r = OTA_INFO_MAGIC" using seal_magic [of "foldl cstep cinit" r] by (simp only: sl)
  moreover have "ri_info_crc32 r = foldl cstep cinit (take (sizeof_record - 4) (record_bytes r))"
    using seal_crc [OF wf, of "foldl cstep cinit"] by (simp only: sl)
  ultimately show ?thesis
    using assms(1,2) by (simp add: record_load_def record_packed.packed_dec_only [OF wf] record_crc [OF _ wf] Let_def)
qed

text \<open>Whatever the flash holds, a load only moves the CRC unit.\<close>

lemma record_load_frame:
  obtains e r w' where "record_load s = (e, r, s\<lparr>g_world := w'\<rparr>)"
    and "g_cfg s = cfg \<Longrightarrow> mem w' = mem (g_world s) \<and> view w' = view (g_world s)
      \<and> idle w' = idle (g_world s) \<and> healthy w' = healthy (g_world s)
      \<and> (\<forall>lim p. stream lim p w' = stream lim p (g_world s))"
proof -
  have "(\<exists>t. snd (snd (record_load s)) = s\<lparr>g_world := snd (crc32_func (g_cfg s) 0 t (g_world s))\<rparr>)
      \<or> snd (snd (record_load s)) = s"
    by (auto simp: record_load_def record_crc32_without_info_crc32_def crc32_one_shot_def Let_def split_beta)
  then consider (c) t where "snd (snd (record_load s)) = s\<lparr>g_world := snd (crc32_func (g_cfg s) 0 t (g_world s))\<rparr>"
    | (s) "snd (snd (record_load s)) = s\<lparr>g_world := g_world s\<rparr>"
    by auto
  then show ?thesis
  proof cases
    case c
    then show ?thesis
      by (intro that [of "fst (record_load s)" "fst (snd (record_load s))" "snd (crc32_func (g_cfg s) 0 t (g_world s))"])
         (simp_all flip: c add: cfg_simps crc_keeps)
  next
    case s
    then show ?thesis
      by (intro that [of "fst (record_load s)" "fst (snd (record_load s))" "g_world s"]) (simp_all flip: s)
  qed
qed

lemma flash_erase_slot_ok:
  assumes "ota_ready cfg healthy s" "room a n" "n = align_up len sector" "n \<noteq> 0"
  shows "\<exists>w'. flash_erase_slot OTA_FLASH_TYPE_INTERNAL a len s = Some (OTA_MODULE_ERR_OK, s\<lparr>g_world := w'\<rparr>)
    \<and> healthy w' \<and> idle w' \<and> mem w' = mem_poke a (replicate (unat n) 0xFF) (mem (g_world s))"
proof -
  have "align_down a sector = a" using room_aligned [OF assms(2)] by (intro align_down_id) simp
  moreover obtain w' where "er a n (g_world s) = Some (0, w')" "healthy w'" "idle w'"
      "mem w' = mem_poke a (replicate (unat n) 0xFF) (mem (g_world s))"
    using er_ok [OF _ assms(2,4), of "g_world s"] assms(1) by (auto simp: ota_ready_def)
  ultimately show ?thesis
    using assms(1,3) sector_nz
    by (intro exI [of _ w']) (simp add: flash_erase_slot_def ota_ready_def cfg_simps Let_def)
qed

text \<open>Storing leaves the sealed record in its page and every other byte of the flash as it was.\<close>

lemma record_store_ok:
  assumes "ota_ready cfg healthy s" "wf_record r"
  shows "\<exists>w'. record_store r s = Some (OTA_MODULE_ERR_OK, s\<lparr>g_world := w'\<rparr>) \<and> healthy w' \<and> idle w'
    \<and> holds_record (foldl cstep cinit) (mem w') (record_addr cfg) (seal (foldl cstep cinit) r)
    \<and> (\<forall>x. unat sector \<le> unat (x - record_addr cfg) \<longrightarrow> mem w' x = mem (g_world s) x)"
proof -
  let ?p = "record_addr cfg" and ?r = "r\<lparr>ri_magic := OTA_INFO_MAGIC\<rparr>" and ?f = "foldl cstep cinit"
  let ?w1 = "snd (crc 0 (take (sizeof_record - 4) (record_bytes ?r)) (g_world s))"
  let ?b = "record_bytes (seal ?f r)"
  have s: "g_inited s" "g_cfg s = cfg" "healthy (g_world s)" using assms(1) by (simp_all add: ota_ready_def)
  have len: "length ?b = sizeof_record" by (rule record_packed.packed_length) (simp add: assms(2))
  have up: "sector = align_up (of_nat sizeof_record) sector"
    using sector_bounds by (intro align_up_one [symmetric]) (simp_all add: sizeof_record_def unat_order)
  obtain w2 where w2: "flash_erase_slot OTA_FLASH_TYPE_INTERNAL ?p (of_nat sizeof_record) (s\<lparr>g_world := ?w1\<rparr>)
        = Some (OTA_MODULE_ERR_OK, s\<lparr>g_world := w2\<rparr>)" "healthy w2" "idle w2"
      "mem w2 = mem_poke ?p (replicate (unat sector) 0xFF) (mem (g_world s))"
    using flash_erase_slot_ok [OF _ record_room up sector_nz, of "s\<lparr>g_world := ?w1\<rparr>"] s
    by (auto simp: ota_ready_def crc_keeps)
  have "stream (?p + sector) ?p w2" by (rule stream_after_erase [OF record_room w2(3,4)])
  moreover have "[] \<notin> set [?b]" using len by (auto simp: sizeof_record_def)
  ultimately obtain w3 where w3: "write_all wr ?p [?b] w2 = Some (0, w3)" "healthy w3" "idle w3"
      "mem w3 = mem_poke ?p ?b (view w2)"
    using write_all_ok [OF w2(2), of "?p + sector" ?p "[?b]"] len sector_bounds room_end [OF record_room]
    by (auto simp: sizeof_record_def simp del: write_all.simps)
  then obtain w' where w': "wr ?p ?b w2 = Some (0, w')" "wr 0 [] w' = Some (0, w3)"
    by (auto split: option.splits if_splits)
  have sl: "?r\<lparr>ri_info_crc32 := ?f (take (sizeof_record - 4) (record_bytes ?r))\<rparr> = seal ?f r"
    by (simp add: seal_def Let_def)
  have "record_store r s = Some (OTA_MODULE_ERR_OK, s\<lparr>g_world := w3\<rparr>)"
    using s w2(1) w' sl
    by (simp add: record_store_def record_crc [OF s(2)] assms(2) Let_def cfg_simps)
  moreover have "mem_at (mem w3) ?p sizeof_record = ?b"
    using len mem_at_poke [of ?b sizeof_record ?p "view w2"] by (simp add: w3(4) sizeof_record_def)
  moreover have "mem w3 x = mem (g_world s) x" if "unat sector \<le> unat (x - ?p)" for x
    using that len sector_bounds(1)
    by (simp add: w3(4) idle_view [OF w2(3)] w2(4) mem_poke_other sizeof_record_def)
  ultimately show ?thesis using w3 assms(2) by (auto simp: holds_record_def)
qed

end

end
