(* ===== verification/Ota_Update.thy ===== *)
theory Ota_Update
  imports Ota_Record
begin

text \<open>
  A download session of the OTA module over any platform that keeps the
  contract: start, the pieces of the package in order, finish.
\<close>

fun download_chunks :: "u32 \<Rightarrow> byte list list \<Rightarrow> 'w ota \<Rightarrow> (ota_module_err \<times> 'w ota) option" where
  "download_chunks k [] s = Some (OTA_MODULE_ERR_OK, s)"
| "download_chunks k (d # ds) s = do {
     (e, s1) \<leftarrow> ota_module_ota_download k (Some d) (of_nat (length d)) s;
     if e \<noteq> OTA_MODULE_ERR_OK then Some (e, s1)
     else download_chunks (k + of_nat (length d)) ds s1
   }"

text \<open>The CRC the module computes over an image: 0 for an empty one.\<close>

definition body_crc :: "(u32 \<Rightarrow> byte \<Rightarrow> u32) \<Rightarrow> u32 \<Rightarrow> byte list \<Rightarrow> u32" where
  "body_crc cstep cinit b = (if b = [] then 0 else foldl cstep cinit b)"

lemma unat_of_nat32: "n < 2 ^ 32 \<Longrightarrow> unat (of_nat n :: u32) = n"
  by (simp add: unat_of_nat)

lemma seal_info_crc [simp]: "wf_record r \<Longrightarrow> seal f (r\<lparr>ri_info_crc32 := c\<rparr>) = seal f r"
  by (simp add: seal_def Let_def record_prefix)

lemma set_slot_single:
  "ri_ota_app_info r = [a] \<Longrightarrow>
     ri_ota_app_info (set_slot 0 st n r) = [a\<lparr>ai_status := st, ai_verify_count := n\<rparr>]"
  by (simp add: set_slot_def)

lemma choose_target_single: "ri_ota_app_info r = [a] \<Longrightarrow> choose_target_ota_slot r = Inr 0"
  by (simp add: choose_target_ota_slot_def slot_with_def)

lemma holds_record_cong:
  assumes "holds_record f m p r" "\<And>x. unat (x - p) < n \<Longrightarrow> m' x = m x" "sizeof_record \<le> n"
  shows "holds_record f m' p r"
proof -
  have "mem_at m' p sizeof_record = mem_at m p sizeof_record"
    by (rule mem_at_cong, rule assms(2)) (use assms(3) in \<open>simp add: unat_of_nat sizeof_record_def\<close>)
  then show ?thesis using assms(1) by (simp add: holds_record_def)
qed

lemma seal_set_slot_again:
  "ri_ota_app_info r = [a] \<Longrightarrow> seal f (set_slot 0 st n (seal f (set_slot 0 st' n' r))) = seal f (set_slot 0 st n r)"
  by (simp add: seal_def set_slot_def Let_def record_prefix wf_record_single)

lemma package_no_wrap:
  assumes "package_fits h a" "unat (ai_flash_size a) < 2 ^ 31"
  shows "unat (ph_app_offset h + ph_app_size h) = unat (ph_app_offset h) + unat (ph_app_size h)"
  using assms by (intro unat_plus_small) (simp add: package_fits_def unat_order)

context ota_platform
begin

text \<open>The slot can take a package of \<open>len\<close> bytes: the whole pages it covers can
  be erased and none of them holds the record.\<close>

definition target :: "ota_app_info \<Rightarrow> u32 \<Rightarrow> u32 \<Rightarrow> bool" where
  "target a len n \<longleftrightarrow> ai_flash_type a = OTA_FLASH_TYPE_INTERNAL \<and> align_up len sector = n \<and> n \<noteq> 0
     \<and> unat len \<le> unat n \<and> room (ai_flash_addr a) n
     \<and> unat (ai_flash_addr a) + unat (ai_flash_size a) < 2 ^ 32 \<and> unat (ai_flash_size a) < 2 ^ 31
     \<and> (\<forall>x. unat (x - ai_flash_addr a) < unat n \<longrightarrow> unat sector \<le> unat (x - record_addr cfg))"

abbreviation "crcf \<equiv> foldl cstep cinit"
abbreviation "rec_at m r \<equiv> holds_record crcf m (record_addr cfg) r"

lemma rec_at_cong:
  assumes "rec_at m r" "\<And>x. unat (x - record_addr cfg) < unat sector \<Longrightarrow> m' x = m x"
  shows "rec_at m' r"
  using assms
proof (rule holds_record_cong)
  show "sizeof_record \<le> unat sector" using sector_bounds(1) unfolding sizeof_record_def by linarith
qed

lemma start_ok:
  assumes s: "ota_ready cfg healthy s" "\<not> dl_started (g_dl s)" "rec_at (mem (g_world s)) r"
    and a: "ri_ota_app_info r = [a]" "target a (ph_app_offset h + ph_app_size h) n" "package_fits h a"
    and h: "wf_header h" "ph_magic h = OTA_PACKAGE_MAGIC"
      "ph_header_crc32 h = crcf (take (sizeof_header - 4) (hdr56_bytes h))"
  shows "\<exists>w'. ota_module_ota_download_start (Some h) s
      = Some (OTA_MODULE_ERR_OK, s\<lparr>g_world := w', g_dl := download_session 0 h\<rparr>)
    \<and> healthy w' \<and> idle w' \<and> rec_at (mem w') (seal crcf (set_slot 0 OTA_APP_STATUS_DOWNLOADING 0 r))
    \<and> (\<forall>x. unat (x - ai_flash_addr a) < unat n \<longrightarrow> mem w' x = 0xFF)
    \<and> (\<forall>x. unat n \<le> unat (x - ai_flash_addr a) \<longrightarrow> unat sector \<le> unat (x - record_addr cfg)
          \<longrightarrow> mem w' x = mem (g_world s) x)"
proof -
  let ?w1 = "snd (crc 0 (take (sizeof_header - 4) (hdr56_bytes h)) (g_world s))"
  let ?w2 = "snd (crc 0 (take (sizeof_record - 4) (record_bytes r)) ?w1)"
  let ?r = "(set_slot 0 OTA_APP_STATUS_DOWNLOADING 0 r)\<lparr>ri_info_crc32 := 0\<rparr>"
  note s' = s(1) [unfolded ota_ready_def]
  have wf: "wf_record r" using a(1) by (simp add: wf_record_single)
  have ld: "record_load (s\<lparr>g_world := ?w1\<rparr>) = (OTA_MODULE_ERR_OK, Some r, s\<lparr>g_world := ?w2\<rparr>)"
    using record_load_ok [of "s\<lparr>g_world := ?w1\<rparr>" r] s s' by (simp add: crc_keeps)
  obtain w3 where w3: "flash_erase_slot OTA_FLASH_TYPE_INTERNAL (ai_flash_addr a)
        (ph_app_offset h + ph_app_size h) (s\<lparr>g_world := ?w2\<rparr>) = Some (OTA_MODULE_ERR_OK, s\<lparr>g_world := w3\<rparr>)"
      "healthy w3" "idle w3" "mem w3 = mem_poke (ai_flash_addr a) (replicate (unat n) 0xFF) (mem (g_world s))"
    using flash_erase_slot_ok [of "s\<lparr>g_world := ?w2\<rparr>" "ai_flash_addr a" n] a(2) s'
    by (auto simp: target_def ota_ready_def crc_keeps)
  obtain w4 where w4: "record_store ?r (s\<lparr>g_world := w3\<rparr>) = Some (OTA_MODULE_ERR_OK, s\<lparr>g_world := w4\<rparr>)"
      "healthy w4" "idle w4" "rec_at (mem w4) (seal crcf ?r)"
      "\<forall>x. unat sector \<le> unat (x - record_addr cfg) \<longrightarrow> mem w4 x = mem w3 x"
    using record_store_ok [of "s\<lparr>g_world := w3\<rparr>" ?r] s' w3(2) wf by (auto simp: ota_ready_def)
  have "ota_module_ota_download_start (Some h) s
      = Some (OTA_MODULE_ERR_OK, s\<lparr>g_world := w4, g_dl := download_session 0 h\<rparr>)"
    using s s' a h ld w3(1) w4(1)
    by (simp add: ota_module_ota_download_start_def header_crc choose_target_single target_def Let_def)
  moreover have "mem w4 x = 0xFF" if "unat (x - ai_flash_addr a) < unat n" for x
    using that a(2) w4(5) by (simp add: target_def w3(4) mem_poke_def)
  moreover have "mem w4 x = mem (g_world s) x"
    if "unat n \<le> unat (x - ai_flash_addr a)" "unat sector \<le> unat (x - record_addr cfg)" for x
    using that w4(5) by (simp add: w3(4) mem_poke_other)
  ultimately show ?thesis using w4 wf by auto
qed

text \<open>While a package is being written, the record stays readable.\<close>

lemma stream_apart:
  assumes "target a len n" "unat k \<le> unat n" "stream lim (ai_flash_addr a + k) w"
    "unat (x - record_addr cfg) < unat sector"
  shows "mem w x = view w x"
proof (rule ccontr)
  let ?p = "ai_flash_addr a + k"
  assume "mem w x \<noteq> view w x"
  from stream_view [OF assms(3) this]
  have x: "unat ?p - unat ?p mod 8 \<le> unat x" "unat x < unat ?p" by (simp_all add: unat_order)
  have room: "room (ai_flash_addr a) n" using assms(1) by (simp add: target_def)
  have p: "unat ?p = unat (ai_flash_addr a) + unat k"
    using room_ok [OF room] assms(2) by (intro unat_plus_small) simp
  have lo: "unat (ai_flash_addr a) \<le> unat ?p - unat ?p mod 8"
  proof -
    have "unat ?p - unat ?p mod 8 = 8 * (unat ?p div 8)" by (rule minus_mod_eq_mult_div)
    moreover have "8 * (unat (ai_flash_addr a) div 8) = unat (ai_flash_addr a)"
      using room_ok [OF room] by (simp add: mult.commute mod_0_imp_dvd)
    moreover have "unat (ai_flash_addr a) div 8 \<le> unat ?p div 8" using p by (intro div_le_mono) simp
    ultimately show ?thesis by linarith
  qed
  then have "unat (x - ai_flash_addr a) = unat x - unat (ai_flash_addr a)"
    using x(1) by (intro unat_sub) (simp add: unat_order)
  then have "unat (x - ai_flash_addr a) < unat n" using x(2) p assms(2) x(1) lo by linarith
  then have "unat sector \<le> unat (x - record_addr cfg)" using assms(1) by (simp add: target_def)
  with assms(4) show False by simp
qed

lemma download_ok:
  assumes s: "ota_ready cfg healthy s" "rec_at (mem (g_world s)) r"
      "stream (ai_flash_addr a + n) (ai_flash_addr a + k) (g_world s)"
      "g_dl s = (download_session 0 h)\<lparr>dl_downloaded_size := k\<rparr>"
    and a: "ri_ota_app_info r = [a]" "target a (ph_app_offset h + ph_app_size h) n" "package_fits h a"
      "ai_status a = OTA_APP_STATUS_DOWNLOADING"
    and d: "d \<noteq> []" "unat k + length d \<le> unat (ph_app_offset h + ph_app_size h)"
  shows "\<exists>w'. ota_module_ota_download k (Some d) (of_nat (length d)) s = Some (OTA_MODULE_ERR_OK,
        s\<lparr>g_world := w', g_dl := (download_session 0 h)\<lparr>dl_downloaded_size := k + of_nat (length d)\<rparr>\<rparr>)
    \<and> healthy w' \<and> rec_at (mem w') r
    \<and> stream (ai_flash_addr a + n) (ai_flash_addr a + (k + of_nat (length d))) w'
    \<and> view w' = mem_poke (ai_flash_addr a + k) d (view (g_world s))"
proof -
  let ?p = "ai_flash_addr a" and ?w1 = "snd (crc 0 (take (sizeof_record - 4) (record_bytes r)) (g_world s))"
  let ?l = "of_nat (length d) :: u32" and ?t = "ph_app_offset h + ph_app_size h"
  note s' = s(1) [unfolded ota_ready_def]
  have t: "unat ?t \<le> unat n" "room ?p n" using a(2) by (simp_all add: target_def)
  have bnd: "unat ?p + unat n < 2 ^ 32" using room_ok [OF t(2)] by simp
  have l: "unat ?l = length d" using d(2) t(1) bnd by (intro unat_of_nat32) simp
  have kl: "unat (k + ?l) = unat k + length d" using d(2) t(1) bnd by (intro unat_add_nat) simp
  have pk: "unat (?p + k) = unat ?p + unat k" using d(2) t(1) bnd by (intro unat_plus_small) simp
  have pkl: "unat (?p + k + ?l) = unat ?p + unat k + length d"
    using d(2) t(1) bnd pk unat_add_nat [of "?p + k" "length d"] by simp
  have sz: "unat (?p + ai_flash_size a) = unat ?p + unat (ai_flash_size a)"
    using a(2) by (intro unat_plus_small) (simp add: target_def)
  have fs: "unat ?t \<le> unat (ai_flash_size a)" using a(3) by (simp add: package_fits_def unat_order)
  obtain w2 where w2: "wr (?p + k) d ?w1 = Some (0, w2)" "healthy w2"
      "stream (?p + n) (?p + k + ?l) w2" "view w2 = mem_poke (?p + k) d (view (g_world s))"
    using wr_ok [of ?w1 "?p + n" "?p + k" d] s(3) s' d t pk room_end [OF t(2)] by (auto simp: crc_keeps)
  have "\<not> ?t < k + ?l" using kl d(2) by (simp add: unat_order)
  moreover have "\<not> ?p + ai_flash_size a < ?p + k + ?l" using pkl sz fs d(2) by (simp add: unat_order)
  moreover have "?l \<noteq> 0" using l d(1) by (metis length_0_conv unat_0)
  ultimately have "ota_module_ota_download k (Some d) ?l s = Some (OTA_MODULE_ERR_OK,
      s\<lparr>g_world := w2, g_dl := (download_session 0 h)\<lparr>dl_downloaded_size := k + ?l\<rparr>\<rparr>)"
    using s s' a w2(1) l record_load_ok [OF _ _ s(2)]
    by (simp add: ota_module_ota_download_def Let_def download_session_def target_def cfg_simps add.assoc)
  moreover have "rec_at (mem w2) r"
  proof (rule rec_at_cong [OF s(2)])
    fix x assume x: "unat (x - record_addr cfg) < unat sector"
    have "mem w2 x = view w2 x"
      using w2(3) x d(2) t(1) kl by (intro stream_apart [OF a(2), of "k + ?l" "?p + n"]) (simp_all add: add.assoc)
    also have "\<dots> = view (g_world s) x" unfolding w2(4)
    proof (rule mem_poke_other, rule ccontr)
      assume c: "\<not> length d \<le> unat (x - (?p + k))"
      have "unat (x - ?p) = unat k + unat (x - (?p + k))"
        using unat_plus_small [of k "x - (?p + k)"] c d(2) t(1) bnd by simp
      then have "unat (x - ?p) < unat n" using c d(2) t(1) by simp
      with x a(2) show False by (simp add: target_def) (metis not_le)
    qed
    also have "\<dots> = mem (g_world s) x"
      using s(3) x d(2) t(1) by (intro stream_apart [OF a(2), symmetric]) simp_all
    finally show "mem w2 x = mem (g_world s) x" .
  qed
  ultimately show ?thesis using w2 by (auto simp: add.assoc)
qed

lemma chunks_ok:
  assumes "ota_ready cfg healthy s" "rec_at (mem (g_world s)) r"
      "stream (ai_flash_addr a + n) (ai_flash_addr a + k) (g_world s)"
      "g_dl s = (download_session 0 h)\<lparr>dl_downloaded_size := k\<rparr>"
    and a: "ri_ota_app_info r = [a]" "target a (ph_app_offset h + ph_app_size h) n" "package_fits h a"
      "ai_status a = OTA_APP_STATUS_DOWNLOADING"
    and "[] \<notin> set ds" "unat k + length (concat ds) \<le> unat (ph_app_offset h + ph_app_size h)"
  shows "\<exists>w'. download_chunks k ds s = Some (OTA_MODULE_ERR_OK, s\<lparr>g_world := w',
        g_dl := (download_session 0 h)\<lparr>dl_downloaded_size := k + of_nat (length (concat ds))\<rparr>\<rparr>)
    \<and> healthy w' \<and> rec_at (mem w') r
    \<and> stream (ai_flash_addr a + n) (ai_flash_addr a + (k + of_nat (length (concat ds)))) w'
    \<and> view w' = mem_poke (ai_flash_addr a + k) (concat ds) (view (g_world s))"
  using assms(1-4,9-)
proof (induction ds arbitrary: k s)
  case Nil
  then show ?case by (intro exI [of _ "g_world s"]) (simp add: ota_ready_def)
next
  case (Cons d ds)
  let ?l = "of_nat (length d) :: u32" and ?p = "ai_flash_addr a"
  have t: "unat (ph_app_offset h + ph_app_size h) \<le> unat n" using a(2) by (simp add: target_def)
  have kl: "unat (k + ?l) = unat k + length d"
    using Cons.prems(6) t unat_lt32 [of n] by (intro unat_add_nat) simp
  obtain w1 where w1: "ota_module_ota_download k (Some d) ?l s = Some (OTA_MODULE_ERR_OK,
        s\<lparr>g_world := w1, g_dl := (download_session 0 h)\<lparr>dl_downloaded_size := k + ?l\<rparr>\<rparr>)"
      "healthy w1" "rec_at (mem w1) r" "stream (?p + n) (?p + (k + ?l)) w1"
      "view w1 = mem_poke (?p + k) d (view (g_world s))"
    using download_ok [OF Cons.prems(1-4) a, of d] Cons.prems(5,6) by auto
  let ?s = "s\<lparr>g_world := w1, g_dl := (download_session 0 h)\<lparr>dl_downloaded_size := k + ?l\<rparr>\<rparr>"
  obtain w2 where w2: "download_chunks (k + ?l) ds ?s = Some (OTA_MODULE_ERR_OK, ?s\<lparr>g_world := w2,
        g_dl := (download_session 0 h)\<lparr>dl_downloaded_size := k + ?l + of_nat (length (concat ds))\<rparr>\<rparr>)"
      "healthy w2" "rec_at (mem w2) r"
      "stream (?p + n) (?p + (k + ?l + of_nat (length (concat ds)))) w2"
      "view w2 = mem_poke (?p + (k + ?l)) (concat ds) (view w1)"
    using Cons.IH [of ?s "k + ?l"] w1 Cons.prems kl by (auto simp: ota_ready_def)
  have "mem_poke (?p + k + ?l) (concat ds) (mem_poke (?p + k) d (view (g_world s)))
      = mem_poke (?p + k) (d @ concat ds) (view (g_world s))"
    using Cons.prems(6) t unat_lt32 [of n] by (intro mem_poke_append) simp_all
  then show ?case using w1 w2 by (intro exI [of _ w2]) (simp add: add.assoc)
qed

text \<open>The CRC over the image in flash, read in pieces of 256 bytes.\<close>

lemma crc_body_loop_ok:
  assumes "first \<or> c = creg w"
  shows "\<exists>w'. crc_body_loop cfg OTA_FLASH_TYPE_INTERNAL m p first c w
      = (Inr (if m = 0 then c else foldl cstep (if first then cinit else creg w) (mem_at (mem w) p m)), w')
    \<and> mem w' = mem w \<and> view w' = view w \<and> idle w' = idle w \<and> healthy w' = healthy w"
  using assms
proof (induction m arbitrary: p first c w rule: less_induct)
  case (less m)
  show ?case
  proof (cases "m = 0")
    case True
    then show ?thesis by (simp add: crc_body_loop.simps [of cfg])
  next
    case False
    define k where "k = min m OTA_MODULE_FLASH_COPY_BUF_SIZE"
    define b where "b = mem_at (mem w) p k"
    define md where "md = (if first then 0 else (1 :: byte))"
    define c0 where "c0 = (if first then cinit else creg w)"
    define w1 where "w1 = snd (crc md b w)"
    have k: "0 < k" "k \<le> m" using False by (simp_all add: k_def)
    then have ne: "b \<noteq> []" by (simp add: b_def flip: length_0_conv)
    have c: "fst (crc md b w) = foldl cstep c0 b"
      using crc_reset [OF ne, of w] crc_next [OF ne, of w] by (simp add: md_def c0_def)
    have reg: "creg w1 = foldl cstep c0 b" using crc_reg [OF ne, of md w] c by (simp add: w1_def)
    have keep: "mem w1 = mem w" "view w1 = view w" "idle w1 = idle w" "healthy w1 = healthy w"
      by (simp_all add: w1_def crc_keeps)
    have "crc_body_loop cfg OTA_FLASH_TYPE_INTERNAL m p first c w
        = crc_body_loop cfg OTA_FLASH_TYPE_INTERNAL (m - k) (p + of_nat k) False (fst (crc md b w)) w1"
      unfolding crc_body_loop.simps [of cfg OTA_FLASH_TYPE_INTERNAL m p first c w]
      using False by (simp add: cfg_simps rd_ok mem_at_def [symmetric] Let_def split_beta
          k_def [symmetric] b_def [symmetric] md_def [symmetric] w1_def [symmetric])
    moreover obtain w' where "crc_body_loop cfg OTA_FLASH_TYPE_INTERNAL (m - k) (p + of_nat k) False (foldl cstep c0 b) w1
        = (Inr (if m - k = 0 then foldl cstep c0 b
             else foldl cstep (foldl cstep c0 b) (mem_at (mem w) (p + of_nat k) (m - k))), w')"
        "mem w' = mem w" "view w' = view w" "idle w' = idle w" "healthy w' = healthy w"
      using less.IH [of "m - k" False "foldl cstep c0 b" w1 "p + of_nat k"] k reg keep by auto
    moreover have "mem_at (mem w) p m = b @ mem_at (mem w) (p + of_nat k) (m - k)"
      using mem_at_split [of "mem w" p k "m - k"] k by (simp add: b_def)
    moreover have "mem_at (mem w) (p + of_nat k) (m - k) = []" if "m - k = 0"
      unfolding that by (simp add: mem_at_def)
    ultimately show ?thesis using False c by (intro exI [of _ w']) (auto simp: c0_def)
  qed
qed

text \<open>What \<open>finish\<close> decides: the CRC of the image in flash.\<close>

lemma finish_ok:
  assumes s: "ota_ready cfg healthy s" "rec_at (mem (g_world s)) r" "stream lim p (g_world s)"
      "g_dl s = (download_session 0 h)\<lparr>dl_downloaded_size := ph_app_offset h + ph_app_size h\<rparr>"
    and a: "ri_ota_app_info r = [a]" "target a (ph_app_offset h + ph_app_size h) n" "package_fits h a"
      "ai_status a = OTA_APP_STATUS_DOWNLOADING"
      "rec_at (view (g_world s)) r"
    and ok: "ok \<longleftrightarrow> body_crc cstep cinit (mem_at (view (g_world s)) (ai_flash_addr a + ph_app_offset h)
        (unat (ph_app_size h))) = ph_app_crc32 h"
  shows "\<exists>w'. ota_module_ota_download_finish s
      = Some (if ok then OTA_MODULE_ERR_OK else OTA_MODULE_ERR_CRC_MISMATCH,
          s\<lparr>g_world := w', g_dl := zero_session\<rparr>)
    \<and> healthy w' \<and> idle w'
    \<and> rec_at (mem w') (seal crcf
        (set_slot 0 (if ok then OTA_APP_STATUS_UNVERIFIED else OTA_APP_STATUS_INVALID) 0 r))
    \<and> (\<forall>x. unat sector \<le> unat (x - record_addr cfg) \<longrightarrow> mem w' x = view (g_world s) x)"
proof -
  let ?w1 = "snd (crc 0 (take (sizeof_record - 4) (record_bytes r)) (g_world s))"
  let ?p = "ai_flash_addr a + ph_app_offset h" and ?m = "unat (ph_app_size h)"
  note s' = s(1) [unfolded ota_ready_def]
  have wf: "wf_record r" using a(1) by (simp add: wf_record_single)
  obtain w2 where w2: "wr 0 [] ?w1 = Some (0, w2)" "healthy w2" "idle w2" "mem w2 = view (g_world s)"
    using fl_ok [of ?w1 lim p 0] s(3) s' by (auto simp: crc_keeps)
  obtain w3 where w3: "crc_body_loop cfg OTA_FLASH_TYPE_INTERNAL ?m ?p True 0 w2
      = (Inr (body_crc cstep cinit (mem_at (view (g_world s)) ?p ?m)), w3)"
      "mem w3 = view (g_world s)" "healthy w3" "idle w3"
    using crc_body_loop_ok [of True 0 w2 ?m ?p] w2 by (auto simp: body_crc_def mem_at_def)
  have body: "flash_crc32_app_body a h (s\<lparr>g_world := w2\<rparr>)
      = (Inr (body_crc cstep cinit (mem_at (view (g_world s)) ?p ?m)), s\<lparr>g_world := w3\<rparr>)"
    using w3(1) a s' by (simp add: flash_crc32_app_body_def package_fits_def target_def not_less)
  let ?r = "set_slot 0 (if ok then OTA_APP_STATUS_UNVERIFIED else OTA_APP_STATUS_INVALID) 0 r"
  obtain w4 where w4: "record_store ?r (s\<lparr>g_world := w3\<rparr>) = Some (OTA_MODULE_ERR_OK, s\<lparr>g_world := w4\<rparr>)"
      "healthy w4" "idle w4" "rec_at (mem w4) (seal crcf ?r)"
      "\<forall>x. unat sector \<le> unat (x - record_addr cfg) \<longrightarrow> mem w4 x = mem w3 x"
    using record_store_ok [of "s\<lparr>g_world := w3\<rparr>" ?r] s' w3 wf by (auto simp: ota_ready_def)
  have "ota_module_ota_download_finish s
      = Some (if ok then OTA_MODULE_ERR_OK else OTA_MODULE_ERR_CRC_MISMATCH,
          s\<lparr>g_world := w4, g_dl := zero_session\<rparr>)"
    using s s' a(1,2,4) ok w2(1) w4(1) body record_load_ok [OF _ _ s(2)]
    by (cases ok) (simp_all add: ota_module_ota_download_finish_def Let_def download_session_def target_def cfg_simps)
  then show ?thesis using w4 w3(2) by auto
qed

text \<open>A whole session: start, the package in pieces, finish.\<close>

lemma update_run:
  assumes s: "ota_ready cfg healthy s" "\<not> dl_started (g_dl s)" "rec_at (mem (g_world s)) r"
    and a: "ri_ota_app_info r = [a]" "target a (ph_app_offset h + ph_app_size h) n" "package_fits h a"
    and h: "wf_header h" "ph_magic h = OTA_PACKAGE_MAGIC"
      "ph_header_crc32 h = crcf (take (sizeof_header - 4) (hdr56_bytes h))"
    and d: "[] \<notin> set ds" "length (concat ds) = unat (ph_app_offset h + ph_app_size h)"
    and ok: "ok \<longleftrightarrow> body_crc cstep cinit (drop (unat (ph_app_offset h)) (concat ds)) = ph_app_crc32 h"
  shows "\<exists>s1 s2 s3. ota_module_ota_download_start (Some h) s = Some (OTA_MODULE_ERR_OK, s1)
    \<and> download_chunks 0 ds s1 = Some (OTA_MODULE_ERR_OK, s2)
    \<and> ota_module_ota_download_finish s2
        = Some (if ok then OTA_MODULE_ERR_OK else OTA_MODULE_ERR_CRC_MISMATCH, s3)
    \<and> ota_ready cfg healthy s3 \<and> idle (g_world s3) \<and> g_dl s3 = zero_session
    \<and> rec_at (mem (g_world s3)) (seal crcf
        (set_slot 0 (if ok then OTA_APP_STATUS_UNVERIFIED else OTA_APP_STATUS_INVALID) 0 r))
    \<and> mem_at (mem (g_world s3)) (ai_flash_addr a) (length (concat ds)) = concat ds
    \<and> (\<forall>x. unat n \<le> unat (x - ai_flash_addr a) \<longrightarrow> unat sector \<le> unat (x - record_addr cfg)
          \<longrightarrow> mem (g_world s3) x = mem (g_world s) x)"
proof -
  let ?t = "ph_app_offset h + ph_app_size h" and ?p = "ai_flash_addr a" and ?b = "concat ds"
  let ?rd = "seal crcf (set_slot 0 OTA_APP_STATUS_DOWNLOADING 0 r)"
  let ?ad = "a\<lparr>ai_status := OTA_APP_STATUS_DOWNLOADING, ai_verify_count := 0\<rparr>"
  note s' = s(1) [unfolded ota_ready_def]
  have rm: "room ?p n" and tn: "unat ?t \<le> unat n" using a(2) by (simp_all add: target_def)
  have ad: "ri_ota_app_info ?rd = [?ad]" "target ?ad ?t n" "package_fits h ?ad" "ai_flash_addr ?ad = ?p"
    using a by (simp_all add: set_slot_single target_def package_fits_def)
  have sum: "unat ?t = unat (ph_app_offset h) + unat (ph_app_size h)"
    by (rule package_no_wrap [OF a(3)]) (use a(2) in \<open>simp add: target_def\<close>)
  from start_ok [OF s a h] obtain w1 where st: "ota_module_ota_download_start (Some h) s
      = Some (OTA_MODULE_ERR_OK, s\<lparr>g_world := w1, g_dl := download_session 0 h\<rparr>)"
    and w1: "healthy w1" "idle w1" "rec_at (mem w1) ?rd"
      "\<forall>x. unat (x - ?p) < unat n \<longrightarrow> mem w1 x = 0xFF"
      "\<forall>x. unat n \<le> unat (x - ?p) \<longrightarrow> unat sector \<le> unat (x - record_addr cfg) \<longrightarrow> mem w1 x = mem (g_world s) x"
    by blast
  let ?s1 = "s\<lparr>g_world := w1, g_dl := download_session 0 h\<rparr>"
  have "stream (?p + n) ?p w1" by (rule stream_erased [OF rm w1(2)]) (use w1(4) in blast)
  then obtain w2 where ch: "download_chunks 0 ds ?s1 = Some (OTA_MODULE_ERR_OK,
        ?s1\<lparr>g_world := w2, g_dl := (download_session 0 h)\<lparr>dl_downloaded_size := ?t\<rparr>\<rparr>)"
    and w2: "healthy w2" "rec_at (mem w2) ?rd" "stream (?p + n) (?p + ?t) w2" "view w2 = mem_poke ?p ?b (view w1)"
    using chunks_ok [of ?s1 ?rd ?ad n 0 h ds] w1 ad s' d by (auto simp: ota_ready_def download_session_def)
  let ?s2 = "?s1\<lparr>g_world := w2, g_dl := (download_session 0 h)\<lparr>dl_downloaded_size := ?t\<rparr>\<rparr>"
  have rv: "rec_at (view w2) ?rd"
    by (rule rec_at_cong [OF w2(2)]) (use stream_apart [OF a(2) tn w2(3)] in simp)
  have len: "length ?b \<le> 2 ^ 32" using d(2) unat_lt32 [of ?t] by simp
  have img: "mem_at (view w2) ?p (length ?b) = ?b" using mem_at_poke [OF len, of "length ?b"] by (simp add: w2(4))
  have "mem_at (view w2) ?p (length ?b) = mem_at (view w2) ?p (unat (ph_app_offset h))
      @ mem_at (view w2) (?p + ph_app_offset h) (unat (ph_app_size h))"
    using mem_at_split [of "view w2" ?p "unat (ph_app_offset h)" "unat (ph_app_size h)"] d(2) sum by simp
  then have body: "mem_at (view w2) (?p + ph_app_offset h) (unat (ph_app_size h)) = drop (unat (ph_app_offset h)) ?b"
    unfolding img by (metis append_eq_conv_conj length_mem_at)
  obtain w3 where fin: "ota_module_ota_download_finish ?s2
      = Some (if ok then OTA_MODULE_ERR_OK else OTA_MODULE_ERR_CRC_MISMATCH, ?s2\<lparr>g_world := w3, g_dl := zero_session\<rparr>)"
    and w3: "healthy w3" "idle w3" "rec_at (mem w3) (seal crcf
        (set_slot 0 (if ok then OTA_APP_STATUS_UNVERIFIED else OTA_APP_STATUS_INVALID) 0 ?rd))"
      "\<forall>x. unat sector \<le> unat (x - record_addr cfg) \<longrightarrow> mem w3 x = view w2 x"
    using finish_ok [of ?s2 ?rd "?p + n" "?p + ?t" h ?ad n ok] w2 rv ad ok body s'
    by (auto simp: ota_ready_def)
  have "mem_at (mem w3) ?p (length ?b) = mem_at (view w2) ?p (length ?b)"
  proof (rule mem_at_cong)
    fix j assume j: "j < length ?b"
    then have "unat (?p + of_nat j - ?p) < unat n" using d(2) tn unat_lt32 [of n] by (simp add: unat_of_nat32)
    then show "mem w3 (?p + of_nat j) = view w2 (?p + of_nat j)" using w3(4) a(2) by (simp add: target_def)
  qed
  moreover have "mem w3 x = mem (g_world s) x"
    if "unat n \<le> unat (x - ?p)" "unat sector \<le> unat (x - record_addr cfg)" for x
    using that w3(4) w1(5) w1(2) d(2) tn by (simp add: w2(4) mem_poke_other idle_view)
  ultimately show ?thesis
    using st ch fin w3 s' img by (auto simp: ota_ready_def seal_set_slot_again [OF a(1)] split: if_splits)
qed

end

end
