(* ===== verification/Ota_Boot.thy ===== *)
theory Ota_Boot
  imports Ota_Update
begin

text \<open>
  Start-up: which record counts, where an image is entered, and what the boot
  decision, the confirmation and the abort do to the slot.
\<close>

text \<open>The record found in flash, if it is valid, and the one start-up works with.\<close>

definition stored_record :: "(byte list \<Rightarrow> u32) \<Rightarrow> (u32 \<Rightarrow> byte) \<Rightarrow> u32 \<Rightarrow> ota_record_info option" where
  "stored_record crcf m p = (let r = record_of_bytes (mem_at m p sizeof_record) in
     if ri_magic r = OTA_INFO_MAGIC \<and> ri_info_crc32 r = crcf (take (sizeof_record - 4) (record_bytes r))
     then Some r else None)"

definition effective_record :: "(byte list \<Rightarrow> u32) \<Rightarrow> (u32 \<Rightarrow> byte) \<Rightarrow> u32 \<Rightarrow> ota_record_info" where
  "effective_record crcf m p = (case stored_record crcf m p of
     Some r \<Rightarrow> r | None \<Rightarrow> seal crcf ota_record_default_info)"

text \<open>The entry address of an image: behind a valid package header, or the slot itself.\<close>

definition entry_of :: "(byte list \<Rightarrow> u32) \<Rightarrow> (u32 \<Rightarrow> byte) \<Rightarrow> ota_app_info \<Rightarrow> u32" where
  "entry_of crcf m a = (let h = hdr56_of_bytes (mem_at m (ai_flash_addr a) sizeof_header) in
     if of_nat sizeof_header \<le> ai_flash_size a \<and> ai_flash_type a = OTA_FLASH_TYPE_INTERNAL
       \<and> ph_magic h = OTA_PACKAGE_MAGIC
       \<and> ph_header_crc32 h = crcf (take (sizeof_header - 4) (hdr56_bytes h))
       \<and> ph_app_offset h < ai_flash_size a
     then ai_flash_addr a + ph_app_offset h else ai_flash_addr a)"

text \<open>The boot decision for the slot: whether to enter it, and its new state.\<close>

definition boot_spec :: "ota_app_info \<Rightarrow> bool \<times> ota_app_info" where
  "boot_spec a =
     (if ai_status a = OTA_APP_STATUS_UNVERIFIED
      then if OTA_APP_MAX_VERIFY_COUNT \<le> ai_verify_count a + 1
           then (False, a\<lparr>ai_status := OTA_APP_STATUS_INVALID, ai_verify_count := 0\<rparr>)
           else (True, a\<lparr>ai_verify_count := ai_verify_count a + 1\<rparr>)
      else (ai_status a = OTA_APP_STATUS_ACTIVE \<or> ai_status a = OTA_APP_STATUS_BACKUP, a))"

lemma record_of_bytes_inverse:
  assumes "length b = sizeof_record" shows "record_bytes (record_of_bytes b) = b"
proof -
  obtain x0 x1 x2 x3 x4 x5 x6 x7 x8 x9 x10 x11 x12 x13 x14 x15 x16 x17 x18 x19 x20 x21 x22 x23 x24 x25
    where "b = [x0, x1, x2, x3, x4, x5, x6, x7, x8, x9, x10, x11, x12, x13, x14, x15, x16, x17, x18,
      x19, x20, x21, x22, x23, x24, x25]"
    using assms by (auto simp: sizeof_record_def length_Suc_conv eval_nat_numeral)
  then show ?thesis
    by (simp add: record_bytes_def record_of_bytes_def app_info_bytes_def app_info_of_bytes_def
        le32_def le16_def)
qed

lemma wf_record_of_bytes [simp]: "wf_record (record_of_bytes b)"
  by (simp add: wf_record_def record_of_bytes_def)

lemma wf_header_of_bytes: "length b = sizeof_header \<Longrightarrow> wf_header (hdr56_of_bytes b)"
  by (simp add: wf_header_def hdr56_of_bytes_def sizeof_header_def)

lemma sealedI:
  "wf_record r \<Longrightarrow> ri_magic r = OTA_INFO_MAGIC \<Longrightarrow>
     ri_info_crc32 r = f (take (sizeof_record - 4) (record_bytes r)) \<Longrightarrow> seal f r = r"
  by (cases r) (simp add: seal_def Let_def record_prefix)

lemma stored_holds: "stored_record f m p = Some r \<longleftrightarrow> holds_record f m p r"
proof
  assume "stored_record f m p = Some r"
  then have r: "r = record_of_bytes (mem_at m p sizeof_record)" "ri_magic r = OTA_INFO_MAGIC"
      "ri_info_crc32 r = f (take (sizeof_record - 4) (record_bytes r))"
    by (auto simp: stored_record_def Let_def split: if_splits)
  then show "holds_record f m p r"
    using sealedI [of r f] by (simp add: holds_record_def record_of_bytes_inverse)
next
  assume h: "holds_record f m p r"
  then have "record_of_bytes (mem_at m p sizeof_record) = r"
    by (simp add: holds_record_def record_packed.packed_dec_only)
  moreover have "ri_magic r = OTA_INFO_MAGIC"
    using h seal_magic [of f r] by (simp add: holds_record_def)
  moreover have "ri_info_crc32 r = f (take (sizeof_record - 4) (record_bytes r))"
    using h seal_crc [of r f] by (simp add: holds_record_def)
  ultimately show "stored_record f m p = Some r" by (simp add: stored_record_def Let_def)
qed

lemma effective_of_stored: "holds_record f m p r \<Longrightarrow> effective_record f m p = r"
  by (simp add: effective_record_def flip: stored_holds)

context ota_platform
begin

lemma rd_mem: "rd p k w = (0, mem_at (mem w) p k)"
  by (simp add: rd_ok mem_at_def)

text \<open>A load on any flash contents: the stored record, or the default one and an error.\<close>

lemma record_load_any:
  assumes "g_inited s" "g_cfg s = cfg"
  shows "\<exists>w'. record_load s = (case stored_record crcf (mem (g_world s)) (record_addr cfg) of
        Some r \<Rightarrow> (OTA_MODULE_ERR_OK, Some r, s\<lparr>g_world := w'\<rparr>)
      | None \<Rightarrow> (OTA_MODULE_ERR_RECORD_INVALID, Some ota_record_default_info, s\<lparr>g_world := w'\<rparr>))
    \<and> mem w' = mem (g_world s) \<and> view w' = view (g_world s)
    \<and> idle w' = idle (g_world s) \<and> healthy w' = healthy (g_world s)"
proof -
  let ?r = "record_of_bytes (mem_at (mem (g_world s)) (record_addr cfg) sizeof_record)"
  let ?w = "if ri_magic ?r = OTA_INFO_MAGIC
    then snd (crc 0 (take (sizeof_record - 4) (record_bytes ?r)) (g_world s)) else g_world s"
  show ?thesis
    using assms by (intro exI [of _ ?w])
      (auto simp: record_load_def stored_record_def cfg_simps rd_mem record_crc crc_keeps Let_def)
qed

lemma entry_ok:
  assumes "g_cfg s = cfg"
  shows "\<exists>w'. ota_calc_entry_addr_from_header a s = (entry_of crcf (mem (g_world s)) a, s\<lparr>g_world := w'\<rparr>)
    \<and> mem w' = mem (g_world s) \<and> view w' = view (g_world s)
    \<and> idle w' = idle (g_world s) \<and> healthy w' = healthy (g_world s)"
proof (cases "of_nat sizeof_header \<le> ai_flash_size a \<and> ai_flash_type a = OTA_FLASH_TYPE_INTERNAL")
  case False
  obtain rc b where rb: "flash_read_func cfg (ai_flash_type a) (ai_flash_addr a) sizeof_header (g_world s) = (rc, b)"
    by (rule prod.exhaust)
  have "ai_flash_size a < of_nat sizeof_header \<or> rc \<noteq> 0"
    using False rb cfg_read_other [of "ai_flash_type a" sizeof_header "ai_flash_addr a" "g_world s"]
    by (auto simp: sizeof_header_def not_le)
  then have "ota_calc_entry_addr_from_header a s = (ai_flash_addr a, s)"
    using assms rb by (auto simp: ota_calc_entry_addr_from_header_def Let_def)
  moreover have "entry_of crcf (mem (g_world s)) a = ai_flash_addr a"
    unfolding entry_of_def Let_def using False by (simp only: simp_thms if_False conj_assoc [symmetric])
  ultimately show ?thesis by (intro exI [of _ "g_world s"]) simp
next
  case True
  define b where "b = mem_at (mem (g_world s)) (ai_flash_addr a) sizeof_header"
  define h where "h = hdr56_of_bytes b"
  define w where "w = snd (crc 0 (take (sizeof_header - 4) (hdr56_bytes h)) (g_world s))"
  have wf: "wf_header h" unfolding h_def b_def by (rule wf_header_of_bytes) simp
  have hc: "package_header_crc32_without_header_crc32 h s
      = (crcf (take (sizeof_header - 4) (hdr56_bytes h)), s\<lparr>g_world := w\<rparr>)"
    unfolding w_def by (rule header_crc [OF assms wf])
  have nl: "\<not> ai_flash_size a < of_nat sizeof_header" using True by (simp add: not_less)
  have e: "entry_of crcf (mem (g_world s)) a = (if ph_magic h = OTA_PACKAGE_MAGIC
       \<and> ph_header_crc32 h = crcf (take (sizeof_header - 4) (hdr56_bytes h)) \<and> ph_app_offset h < ai_flash_size a
     then ai_flash_addr a + ph_app_offset h else ai_flash_addr a)"
    using True by (simp only: entry_of_def Let_def h_def b_def simp_thms)
  have c: "ota_calc_entry_addr_from_header a s =
      (if ph_magic h \<noteq> OTA_PACKAGE_MAGIC then (ai_flash_addr a, s)
       else (entry_of crcf (mem (g_world s)) a, s\<lparr>g_world := w\<rparr>))"
    unfolding e ota_calc_entry_addr_from_header_def
    using nl True assms hc by (simp add: Let_def cfg_simps rd_mem linorder_not_le [symmetric] flip: b_def h_def)
  have "mem w = mem (g_world s)" "view w = view (g_world s)" "idle w = idle (g_world s)"
      "healthy w = healthy (g_world s)" by (simp_all add: w_def crc_keeps)
  then show ?thesis unfolding c e
    by (intro exI [of _ "if ph_magic h \<noteq> OTA_PACKAGE_MAGIC then g_world s else w"]) simp
qed

text \<open>Entering a slot.\<close>

lemma jump_ok:
  assumes "g_cfg s = cfg"
  shows "\<exists>w'. jump_to_slot a s = (case jump_func cfg (entry_of crcf (mem (g_world s)) a) w' of
        (rc, w2) \<Rightarrow> (if rc \<noteq> 0 then OTA_MODULE_ERR_JUMP_FAILED else OTA_MODULE_ERR_OK, s\<lparr>g_world := w2\<rparr>))
    \<and> mem w' = mem (g_world s) \<and> view w' = view (g_world s)
    \<and> idle w' = idle (g_world s) \<and> healthy w' = healthy (g_world s)"
proof -
  obtain w' where w': "ota_calc_entry_addr_from_header a s = (entry_of crcf (mem (g_world s)) a, s\<lparr>g_world := w'\<rparr>)"
    "mem w' = mem (g_world s) \<and> view w' = view (g_world s)
      \<and> idle w' = idle (g_world s) \<and> healthy w' = healthy (g_world s)"
    using entry_ok [OF assms, of a] by blast
  show ?thesis
    by (rule exI [of _ w']) (simp add: jump_to_slot_def w' assms split: prod.split)
qed

lemma boot_candidate_single:
  assumes "ri_ota_app_info r = [a]" "ai_status a \<noteq> OTA_APP_STATUS_UNVERIFIED"
  shows "boot_candidate r s = (if fst (boot_spec a) then jump_to_slot a s else (OTA_MODULE_ERR_NO_BOOT_CANDIDATE, s))"
  using assms by (simp add: boot_candidate_def choose_boot_candidate_ota_slot_def slot_with_def boot_spec_def)

text \<open>The boot decision is the one of \<open>boot_spec\<close>, its outcome is in flash
  before control leaves the boot loader, and only the record's page changes.\<close>

lemma boot_ok:
  assumes s: "ota_ready cfg healthy s" "rec_at (mem (g_world s)) r" and a: "ri_ota_app_info r = [a]"
  shows "\<exists>w'. ota_module_boot_preprocess s = Some
      (if fst (boot_spec a)
       then case jump_func cfg (entry_of crcf (mem w') a) w' of
         (rc, w2) \<Rightarrow> (if rc \<noteq> 0 then OTA_MODULE_ERR_JUMP_FAILED else OTA_MODULE_ERR_OK, s\<lparr>g_world := w2\<rparr>)
       else (OTA_MODULE_ERR_NO_BOOT_CANDIDATE, s\<lparr>g_world := w'\<rparr>))
    \<and> healthy w'
    \<and> rec_at (mem w') (seal crcf (r\<lparr>ri_ota_app_info := [snd (boot_spec a)]\<rparr>))
    \<and> (\<forall>x. unat sector \<le> unat (x - record_addr cfg) \<longrightarrow> mem w' x = mem (g_world s) x)"
proof (cases "ai_status a = OTA_APP_STATUS_UNVERIFIED")
  case False
  let ?w1 = "snd (crc 0 (take (sizeof_record - 4) (record_bytes r)) (g_world s))"
  have c: "g_cfg (s\<lparr>g_world := ?w1\<rparr>) = cfg" using s by (simp add: ota_ready_def)
  obtain w' where w': "jump_to_slot a (s\<lparr>g_world := ?w1\<rparr>) =
      (case jump_func cfg (entry_of crcf (mem (g_world s)) a) w' of
        (rc, w2) \<Rightarrow> (if rc \<noteq> 0 then OTA_MODULE_ERR_JUMP_FAILED else OTA_MODULE_ERR_OK, s\<lparr>g_world := w2\<rparr>))"
      "mem w' = mem (g_world s)" "healthy w' = healthy (g_world s)"
    using jump_ok [OF c, of a] by (auto simp: crc_keeps)
  have "ota_module_boot_preprocess s = Some (boot_candidate r (s\<lparr>g_world := ?w1\<rparr>))"
    using False s record_load_ok [OF _ _ s(2)] a
    by (simp add: ota_module_boot_preprocess_def ota_ready_def slot_with_def)
  then have b: "ota_module_boot_preprocess s = Some (if fst (boot_spec a)
      then jump_to_slot a (s\<lparr>g_world := ?w1\<rparr>) else (OTA_MODULE_ERR_NO_BOOT_CANDIDATE, s\<lparr>g_world := ?w1\<rparr>))"
    by (simp only: boot_candidate_single [OF a False])
  have r: "seal crcf (r\<lparr>ri_ota_app_info := [snd (boot_spec a)]\<rparr>) = r"
    using False s(2) a by (cases r) (simp add: boot_spec_def holds_record_def)
  show ?thesis
  proof (cases "fst (boot_spec a)")
    case True
    then show ?thesis unfolding b r w'(1) using s w' by (intro exI [of _ w']) (simp add: ota_ready_def)
  next
    case False
    then show ?thesis unfolding b r using s by (intro exI [of _ ?w1]) (simp add: ota_ready_def crc_keeps)
  qed
next
  case True
  let ?w1 = "snd (crc 0 (take (sizeof_record - 4) (record_bytes r)) (g_world s))"
  let ?r = "r\<lparr>ri_ota_app_info := [snd (boot_spec a)]\<rparr>"
  note s' = s(1) [unfolded ota_ready_def]
  obtain w2 where w2: "record_store ?r (s\<lparr>g_world := ?w1\<rparr>) = Some (OTA_MODULE_ERR_OK, s\<lparr>g_world := w2\<rparr>)"
      "healthy w2" "idle w2" "rec_at (mem w2) (seal crcf ?r)"
      "\<forall>x. unat sector \<le> unat (x - record_addr cfg) \<longrightarrow> mem w2 x = mem (g_world s) x"
    using record_store_ok [of "s\<lparr>g_world := ?w1\<rparr>" ?r] s'
    by (auto simp: ota_ready_def crc_keeps wf_record_single)
  have c: "g_cfg (s\<lparr>g_world := w2\<rparr>) = cfg" using s by (simp add: ota_ready_def)
  have rs: "set_slot 0 st n r = r\<lparr>ri_ota_app_info := [a\<lparr>ai_status := st, ai_verify_count := n\<rparr>]\<rparr>" for st n
    by (simp add: set_slot_def a)
  have same: "a\<lparr>ai_status := OTA_APP_STATUS_UNVERIFIED, ai_verify_count := n\<rparr> = a\<lparr>ai_verify_count := n\<rparr>" for n
    using True by (cases a) simp
  have eq: "entry_of crcf m (a\<lparr>ai_verify_count := n\<rparr>) = entry_of crcf m a" for m n
    by (simp add: entry_of_def Let_def cong: if_cong)
  show ?thesis
  proof (cases "OTA_APP_MAX_VERIFY_COUNT \<le> ai_verify_count a + 1")
    case m: True
    then have sp: "boot_spec a = (False, a\<lparr>ai_status := OTA_APP_STATUS_INVALID, ai_verify_count := 0\<rparr>)"
      using True by (simp add: boot_spec_def)
    have bc: "boot_candidate ?r (s\<lparr>g_world := w2\<rparr>) = (OTA_MODULE_ERR_NO_BOOT_CANDIDATE, s\<lparr>g_world := w2\<rparr>)"
      by (simp add: boot_candidate_def choose_boot_candidate_ota_slot_def slot_with_def sp)
    have "ota_module_boot_preprocess s = Some (OTA_MODULE_ERR_NO_BOOT_CANDIDATE, s\<lparr>g_world := w2\<rparr>)"
      using m True s' record_load_ok [OF _ _ s(2)] a w2(1) bc
      by (simp add: ota_module_boot_preprocess_def slot_with_def Let_def rs sp)
    then show ?thesis using w2 sp by (intro exI [of _ w2]) simp
  next
    case m: False
    then have sp: "boot_spec a = (True, a\<lparr>ai_verify_count := ai_verify_count a + 1\<rparr>)"
      using True by (simp add: boot_spec_def)
    obtain w' where w': "jump_to_slot (snd (boot_spec a)) (s\<lparr>g_world := w2\<rparr>) =
        (case jump_func cfg (entry_of crcf (mem w2) a) w' of
          (rc, w2) \<Rightarrow> (if rc \<noteq> 0 then OTA_MODULE_ERR_JUMP_FAILED else OTA_MODULE_ERR_OK, s\<lparr>g_world := w2\<rparr>))"
        "mem w' = mem w2" "healthy w' = healthy w2"
      using jump_ok [OF c, of "snd (boot_spec a)"] by (auto simp: sp eq)
    have "ota_module_boot_preprocess s = Some (jump_to_slot (snd (boot_spec a)) (s\<lparr>g_world := w2\<rparr>))"
      using m True s' record_load_ok [OF _ _ s(2)] a w2(1)
      by (simp add: ota_module_boot_preprocess_def slot_with_def Let_def rs sp same)
    then show ?thesis using w2 w' sp by (intro exI [of _ w']) simp
  qed
qed

text \<open>Initialisation makes the record area valid, whatever it held.\<close>

lemma init_ok:
  assumes "config_checked c = Some cfg" "healthy (g_world s)"
  shows "\<exists>w'. ota_module_init (Some c) s
      = Some (OTA_MODULE_ERR_OK, s\<lparr>g_cfg := cfg, g_inited := True, g_dl := zero_session, g_world := w'\<rparr>)
    \<and> healthy w' \<and> rec_at (mem w') (effective_record crcf (mem (g_world s)) (record_addr cfg))
    \<and> (\<forall>x. unat sector \<le> unat (x - record_addr cfg) \<longrightarrow> mem w' x = mem (g_world s) x)"
proof -
  let ?s1 = "s\<lparr>g_cfg := cfg, g_inited := True, g_dl := zero_session\<rparr>"
  have s1: "g_inited ?s1" "g_cfg ?s1 = cfg" by simp_all
  from record_load_any [OF s1] obtain w1 where w1: "record_load ?s1 =
      (case stored_record crcf (mem (g_world s)) (record_addr cfg) of
        Some r \<Rightarrow> (OTA_MODULE_ERR_OK, Some r, ?s1\<lparr>g_world := w1\<rparr>)
      | None \<Rightarrow> (OTA_MODULE_ERR_RECORD_INVALID, Some ota_record_default_info, ?s1\<lparr>g_world := w1\<rparr>))"
      "mem w1 = mem (g_world s)" "healthy w1"
    using assms(2) by auto
  show ?thesis
  proof (cases "stored_record crcf (mem (g_world s)) (record_addr cfg)")
    case (Some r)
    then have "rec_at (mem w1) (effective_record crcf (mem (g_world s)) (record_addr cfg))"
      by (simp add: effective_record_def w1(2) flip: stored_holds)
    then show ?thesis
      using Some w1 assms(1) by (intro exI [of _ w1]) (simp add: ota_module_init_def Let_def)
  next
    case None
    let ?d = "ota_record_default_info\<lparr>ri_magic := OTA_INFO_MAGIC\<rparr>"
    have d: "?d = ota_record_default_info" by (simp add: ota_record_default_info_def)
    obtain w2 where w2: "record_store ?d (?s1\<lparr>g_world := w1\<rparr>) = Some (OTA_MODULE_ERR_OK, ?s1\<lparr>g_world := w2\<rparr>)"
        "healthy w2" "rec_at (mem w2) (seal crcf ota_record_default_info)"
        "\<forall>x. unat sector \<le> unat (x - record_addr cfg) \<longrightarrow> mem w2 x = mem w1 x"
      using record_store_ok [of "?s1\<lparr>g_world := w1\<rparr>" ?d] w1(3) unfolding d by (auto simp: ota_ready_def)
    then show ?thesis
      using None w1 assms(1)
      by (intro exI [of _ w2]) (simp add: ota_module_init_def Let_def effective_record_def)
  qed
qed

lemma store_after_load:
  assumes "ota_ready cfg healthy s" "rec_at (mem (g_world s)) r" "wf_record r'"
  shows "\<exists>w'. record_store r' (s\<lparr>g_world := snd (crc 0 (take (sizeof_record - 4) (record_bytes r)) (g_world s))\<rparr>)
      = Some (OTA_MODULE_ERR_OK, s\<lparr>g_world := w'\<rparr>) \<and> healthy w' \<and> idle w' \<and> rec_at (mem w') (seal crcf r')
    \<and> (\<forall>x. unat sector \<le> unat (x - record_addr cfg) \<longrightarrow> mem w' x = mem (g_world s) x)"
  using record_store_ok [of "s\<lparr>g_world := snd (crc 0 (take (sizeof_record - 4) (record_bytes r)) (g_world s))\<rparr>" r']
    assms by (auto simp: ota_ready_def crc_keeps)

text \<open>An abort, in a session or of the slot an earlier one left behind.\<close>

lemma abort_ok:
  assumes s: "ota_ready cfg healthy s" "rec_at (mem (g_world s)) r" and a: "ri_ota_app_info r = [a]"
    and d: "(if dl_started (g_dl s) then dl_target_index (g_dl s) = 0 else ai_status a = OTA_APP_STATUS_DOWNLOADING)"
  shows "\<exists>w'. ota_module_ota_download_abort s
      = Some (OTA_MODULE_ERR_OK, s\<lparr>g_world := w', g_dl := zero_session\<rparr>)
    \<and> healthy w' \<and> rec_at (mem w') (seal crcf (set_slot 0 OTA_APP_STATUS_INVALID 0 r))
    \<and> (\<forall>x. unat sector \<le> unat (x - record_addr cfg) \<longrightarrow> mem w' x = mem (g_world s) x)"
proof -
  obtain w' where w': "record_store (set_slot 0 OTA_APP_STATUS_INVALID 0 r)
      (s\<lparr>g_world := snd (crc 0 (take (sizeof_record - 4) (record_bytes r)) (g_world s))\<rparr>)
      = Some (OTA_MODULE_ERR_OK, s\<lparr>g_world := w'\<rparr>)"
    "healthy w'" "rec_at (mem w') (seal crcf (set_slot 0 OTA_APP_STATUS_INVALID 0 r))"
    "\<forall>x. unat sector \<le> unat (x - record_addr cfg) \<longrightarrow> mem w' x = mem (g_world s) x"
    using store_after_load [OF s, of "set_slot 0 OTA_APP_STATUS_INVALID 0 r"] s(2) by (auto simp: holds_record_def)
  have "(if dl_started (g_dl s) then Some (dl_target_index (g_dl s))
      else slot_with OTA_APP_STATUS_DOWNLOADING r) = Some 0"
    using d a by (simp add: slot_with_def split: if_splits)
  then have "ota_module_ota_download_abort s = Some (OTA_MODULE_ERR_OK, s\<lparr>g_world := w', g_dl := zero_session\<rparr>)"
    using s w'(1) record_load_ok [OF _ _ s(2)] by (simp add: ota_module_ota_download_abort_def ota_ready_def)
  then show ?thesis using w' by blast
qed

text \<open>Confirming an image on trial.\<close>

lemma mark_verified_ok:
  assumes s: "ota_ready cfg healthy s" "rec_at (mem (g_world s)) r"
    and a: "ri_ota_app_info r = [a]" "ai_status a = OTA_APP_STATUS_UNVERIFIED"
  shows "\<exists>w'. ota_module_app_mark_verified s = Some (OTA_MODULE_ERR_OK, s\<lparr>g_world := w'\<rparr>)
    \<and> healthy w' \<and> rec_at (mem w') (seal crcf (set_slot 0 OTA_APP_STATUS_ACTIVE 0 r))
    \<and> (\<forall>x. unat sector \<le> unat (x - record_addr cfg) \<longrightarrow> mem w' x = mem (g_world s) x)"
proof -
  have m: "mark_verified_promote_unverified_ota_slot r = Inr (set_slot 0 OTA_APP_STATUS_ACTIVE 0 r)"
    using a by (cases r) (simp add: mark_verified_promote_unverified_ota_slot_def slot_with_def set_slot_def Let_def)
  obtain w' where w': "record_store (set_slot 0 OTA_APP_STATUS_ACTIVE 0 r)
      (s\<lparr>g_world := snd (crc 0 (take (sizeof_record - 4) (record_bytes r)) (g_world s))\<rparr>)
      = Some (OTA_MODULE_ERR_OK, s\<lparr>g_world := w'\<rparr>)"
    "healthy w'" "rec_at (mem w') (seal crcf (set_slot 0 OTA_APP_STATUS_ACTIVE 0 r))"
    "\<forall>x. unat sector \<le> unat (x - record_addr cfg) \<longrightarrow> mem w' x = mem (g_world s) x"
    using store_after_load [OF s, of "set_slot 0 OTA_APP_STATUS_ACTIVE 0 r"] s(2) by (auto simp: holds_record_def)
  then have "ota_module_app_mark_verified s = Some (OTA_MODULE_ERR_OK, s\<lparr>g_world := w'\<rparr>)"
    using s m record_load_ok [OF _ _ s(2)]
    by (simp add: ota_module_app_mark_verified_def ota_ready_def)
  then show ?thesis using w' by blast
qed

end

end
