(* ===== verification/Stm32_Stream.thy ===== *)
theory Stm32_Stream
  imports Stm32_Flash
begin

text \<open>
  The correctness of the flash port: what the CPU will read once the pending
  double word is flushed (\<open>flash_view\<close>), the state of a sequential write
  into erased flash (\<open>stream\<close>), and the lemmas that writes, the flush and
  the page erase do what their callers rely on.
\<close>

unbundle bit_operations_syntax

text \<open>The flash contents with the cached double word laid over them.\<close>

definition flash_view :: "stm32 \<Rightarrow> u32 \<Rightarrow> byte" where
  "flash_view s = (if dw_valid (s_dw_cache s)
     then mem_poke (dw_addr_aligned (s_dw_cache s)) (dw_buf (s_dw_cache s)) (fl_mem s)
     else fl_mem s)"

definition dw_base :: "stm32 \<Rightarrow> u32 \<Rightarrow> byte list" where
  "dw_base s cur = (if dw_valid (s_dw_cache s) then dw_buf (s_dw_cache s) else mem8 (fl_mem s) cur)"

definition stream :: "u32 \<Rightarrow> u32 \<Rightarrow> stm32 \<Rightarrow> bool" where
  "stream lim p s \<longleftrightarrow>
     p \<le> lim \<and> unat lim mod 8 = 0
     \<and> (\<forall>a. align_down_u32 p 8 \<le> a \<and> a < lim \<longrightarrow> fl_mem s a = 0xFF)
     \<and> dw_valid (s_dw_cache s) = (unat p mod 8 \<noteq> 0)
     \<and> (dw_valid (s_dw_cache s) \<longrightarrow>
          dw_addr_aligned (s_dw_cache s) = align_down_u32 p 8
          \<and> length (dw_buf (s_dw_cache s)) = 8
          \<and> dw_mask (s_dw_cache s) = mask (unat p mod 8)
          \<and> drop (unat p mod 8) (dw_buf (s_dw_cache s)) = replicate (8 - unat p mod 8) 0xFF)"

text \<open>What no operation of the port changes.\<close>

definition flash_frame :: "stm32 \<Rightarrow> stm32 \<Rightarrow> bool" where
  "flash_frame s s' \<longleftrightarrow> fl_bank_size s' = fl_bank_size s \<and> fl_primask s' = fl_primask s
     \<and> crc_dr s' = crc_dr s \<and> cpu_app s' = cpu_app s"

text \<open>One bank of 512 KB or two of 256 KB, and a range of whole pages inside the
  flash array.\<close>

definition bank_ok :: "stm32 \<Rightarrow> bool" where
  "bank_ok s \<longleftrightarrow> fl_bank_size s = 0x40000 \<or> fl_bank_size s = 0x80000"

definition in_flash :: "u32 \<Rightarrow> u32 \<Rightarrow> bool" where
  "in_flash a n \<longleftrightarrow> FLASH_BASE \<le> a \<and> unat a mod 0x800 = 0 \<and> unat n mod 0x800 = 0
     \<and> unat a + unat n \<le> 0x08080000"

subsection \<open>Addresses and memory\<close>

lemma unat_align_down: "unat (align_down_u32 v a) = (if a = 0 then unat v else unat v div unat a * unat a)"
proof (cases "a = 0")
  case False
  have d: "unat (v div a) = unat v div unat a" by (simp add: unat_div)
  have "unat v div unat a * unat a \<le> unat v" by (rule div_times_less_eq_dividend)
  also have "unat v < 2 ^ 32" using unsigned_less [of v] by simp
  finally have "unat (v div a) * unat a < 2 ^ LENGTH(32)" by (simp add: d)
  then show ?thesis using False d unat_mult_lem [of "v div a" a] by (simp add: align_down_u32_def)
qed (simp add: align_down_u32_def)

lemma unat_align8: "unat (align_down_u32 v 8) = unat v - unat v mod 8"
  by (simp add: unat_align_down div_mult_mod_eq minus_mod_eq_div_mult)

lemma align8_le: "align_down_u32 v 8 \<le> v"
  by (simp add: unat_order unat_align8)

lemma length_mem8 [simp]: "length (mem8 m a) = 8"
  by (simp add: mem8_def)

lemma nth_mem8 [simp]: "j < 8 \<Longrightarrow> mem8 m a ! j = m (a + of_nat j)"
  by (simp add: mem8_def)

lemma mem_poke_mem8 [simp]: "mem_poke a (mem8 m a) m = m"
proof
  fix x
  have "m (a + of_nat (unat (x - a))) = m x" by simp
  then show "mem_poke a (mem8 m a) m x = m x" by (auto simp: mem_poke_def)
qed

lemma mem8_poke_same: "length d = 8 \<Longrightarrow> mem8 (mem_poke a d m) a = d"
  by (rule nth_equalityI) (simp_all add: mem_poke_def unat_of_nat)

lemma apply_bytes_fold:
  "n \<le> 8 \<Longrightarrow> length b = 8 \<Longrightarrow>
   foldl (\<lambda>(dw, m) j. if C j then (dw[j := f j], m OR push_bit j 1) else (dw, m)) (b, mk) [0..<n]
   = (map (\<lambda>j. if j < n \<and> C j then f j else b ! j) [0..<8],
      (mk :: byte) OR foldl (\<lambda>m j. if C j then m OR push_bit j 1 else m) 0 [0..<n])"
proof (induction n)
  case 0 then show ?case using map_nth [of b] by simp
next
  case (Suc n)
  then show ?case
    by (auto simp: or.assoc less_Suc_eq nth_list_update intro!: nth_equalityI)
qed

lemma bit_mask_fold:
  "bit (foldl (\<lambda>m j. if C j then m OR push_bit j 1 else m) (0 :: byte) [0..<n]) i
     \<longleftrightarrow> i < n \<and> i < 8 \<and> C i"
  by (induction n) (auto simp: bit_simps less_Suc_eq)

lemma apply_bytes_range:
  assumes b: "length b = 8" "k + length d \<le> 8"
    and c: "\<And>j. j < 8 \<Longrightarrow> (addr \<le> cur + of_nat j \<and> cur + of_nat j < e) \<longleftrightarrow> k \<le> j \<and> j < k + length d"
    and f: "\<And>j. k \<le> j \<Longrightarrow> j < k + length d \<Longrightarrow> data ! unat (cur + of_nat j - addr) = d ! (j - k)"
  shows "apply_bytes addr data e cur (b, mask k) = (poke k d b, mask (k + length d))"
proof -
  let ?C = "\<lambda>j. addr \<le> cur + of_nat j \<and> cur + of_nat j < e"
  let ?f = "\<lambda>j. data ! unat (cur + of_nat j - addr)"
  have "apply_bytes addr data e cur (b, mask k)
      = (map (\<lambda>j. if j < 8 \<and> ?C j then ?f j else b ! j) [0..<8],
         mask k OR foldl (\<lambda>m j. if ?C j then m OR push_bit j 1 else m) 0 [0..<8])"
    unfolding apply_bytes_def by (rule apply_bytes_fold) (use b in simp_all)
  moreover have "map (\<lambda>j. if j < 8 \<and> ?C j then ?f j else b ! j) [0..<8] = poke k d b"
    using b c f by (auto simp: nth_poke intro!: nth_equalityI)
  moreover have "mask k OR foldl (\<lambda>m j. if ?C j then m OR push_bit j 1 else m) (0::byte) [0..<8]
      = mask (k + length d)"
    by (rule bit_word_eqI) (use b c in \<open>auto simp: bit_mask_fold bit_mask_iff bit_or_iff\<close>)
  ultimately show ?thesis by simp
qed

lemma mask8_full:
  assumes "k \<le> 8" shows "(mask k :: byte) = 0xFF \<longleftrightarrow> k = 8"
proof
  assume "(mask k :: byte) = 0xFF"
  then have "bit (mask k :: byte) 7" by simp
  then show "k = 8" using assms by (simp add: bit_mask_iff)
qed (simp add: mask_eq_exp_minus_1)

lemma and_FF: "0xFF AND x = (x :: byte)"
proof -
  have "(0xFF :: byte) = - 1" by simp
  then show ?thesis by (simp only: and.left_neutral)
qed

lemma program_dw_erased:
  assumes "fl_waits s = []" "\<not> fl_locked s" "mem8 (fl_mem s) a = replicate 8 0xFF" "length d = 8"
  shows "internal_flash_program_doubleword a d s = (0, s\<lparr>fl_mem := mem_poke a d (fl_mem s)\<rparr>)"
proof (cases "d = replicate 8 0xFF")
  case True
  then show ?thesis
    using assms mem_poke_mem8 [of a "fl_mem s"]
    by (simp add: internal_flash_program_doubleword_def)
next
  case False
  have "list_all2 (\<lambda>e d. e AND d = d) (replicate 8 0xFF) d"
    using assms(4) by (auto simp: list_all2_conv_all_nth and_FF)
  then show ?thesis
    using assms False
    by (simp add: internal_flash_program_doubleword_def HAL_FLASH_Program_def wait_ok_def
        wait_done_def Let_def)
qed

subsection \<open>Sequential writes\<close>

lemma align8_id: "unat v mod 8 = 0 \<Longrightarrow> align_down_u32 v 8 = v"
  by (simp add: word_unat_eq_iff unat_align8)

lemma stream_dw:
  assumes s: "stream lim q s" and q: "q < lim"
  defines "cur \<equiv> align_down_u32 q 8"
  shows "unat cur + unat q mod 8 = unat q" "cur + of_nat (unat q mod 8) = q"
    "unat cur mod 8 = 0" "unat cur + 8 \<le> unat lim"
    "length (dw_base s cur) = 8"
    "(if dw_valid (s_dw_cache s) \<and> dw_addr_aligned (s_dw_cache s) = cur
      then (dw_buf (s_dw_cache s), dw_mask (s_dw_cache s)) else (mem8 (fl_mem s) cur, 0))
      = (dw_base s cur, mask (unat q mod 8))"
    "flash_view s = mem_poke cur (dw_base s cur) (fl_mem s)"
    "mem8 (fl_mem s) cur = replicate 8 0xFF"
    "drop (unat q mod 8) (dw_base s cur) = replicate (8 - unat q mod 8) 0xFF"
proof -
  have uc: "unat cur = unat q - unat q mod 8" by (simp add: cur_def unat_align8)
  then show c1: "unat cur + unat q mod 8 = unat q" by simp
  show "cur + of_nat (unat q mod 8) = q"
    using c1 unat_add_nat [of cur "unat q mod 8"] unat_lt32 [of q]
    by (simp add: word_unat_eq_iff)
  show c3: "unat cur mod 8 = 0" by (simp add: uc minus_mod_eq_mult_div)
  have "unat cur < unat lim" using c1 q by (simp add: unat_order)
  moreover have "unat lim mod 8 = 0" using s by (simp add: stream_def)
  ultimately show c4: "unat cur + 8 \<le> unat lim" using c3 by (intro aligned_gap)
  have er: "fl_mem s a = 0xFF" if "cur \<le> a" "a < lim" for a
    using s that by (simp add: stream_def cur_def)
  show m8: "mem8 (fl_mem s) cur = replicate 8 0xFF"
  proof (rule nth_equalityI)
    fix j assume "j < length (mem8 (fl_mem s) cur)"
    then have j: "j < 8" by simp
    then have "unat (cur + of_nat j) = unat cur + j"
      using c4 unat_lt32 [of lim] by (intro unat_add_nat) simp
    then have "fl_mem s (cur + of_nat j) = 0xFF"
      using j c4 by (intro er) (simp_all add: unat_order)
    then show "mem8 (fl_mem s) cur ! j = replicate 8 0xFF ! j" using j by simp
  qed simp
  show "length (dw_base s cur) = 8"
    using s by (simp add: dw_base_def stream_def)
  show "(if dw_valid (s_dw_cache s) \<and> dw_addr_aligned (s_dw_cache s) = cur
      then (dw_buf (s_dw_cache s), dw_mask (s_dw_cache s)) else (mem8 (fl_mem s) cur, 0))
      = (dw_base s cur, mask (unat q mod 8))"
    using s by (auto simp: dw_base_def stream_def cur_def)
  show "flash_view s = mem_poke cur (dw_base s cur) (fl_mem s)"
    using s by (auto simp: dw_base_def stream_def cur_def flash_view_def)
  show "drop (unat q mod 8) (dw_base s cur) = replicate (8 - unat q mod 8) 0xFF"
    using s m8 by (auto simp: dw_base_def stream_def)
qed

lemma apply_bytes_stream:
  assumes s: "stream lim q s" and q: "q < e" "e \<le> lim" "addr \<le> q" "q = addr \<or> unat q mod 8 = 0"
    and e: "unat addr + length data = unat e"
  defines "cur \<equiv> align_down_u32 q 8" and "k \<equiv> unat q mod 8"
  defines "d \<equiv> take (8 - k) (drop (unat q - unat addr) data)"
  shows "apply_bytes addr data e cur (dw_base s cur, mask k)
      = (poke k d (dw_base s cur), mask (k + length d))"
proof -
  have ql: "q < lim" using q by simp
  note dw = stream_dw [OF s ql, folded cur_def k_def]
  have k8: "k < 8" by (simp add: k_def)
  have ld: "length d = min (8 - k) (unat e - unat q)"
    using e q by (simp add: d_def unat_order)
  have uj: "unat (cur + of_nat j) = unat cur + j" if "j < 8" for j
    using that dw(4) unat_lt32 [of lim] by (intro unat_add_nat) simp
  show ?thesis
  proof (rule apply_bytes_range)
    show "length (dw_base s cur) = 8" by (rule dw(5))
    show "k + length d \<le> 8" using ld k8 by simp
  next
    fix j :: nat assume j: "j < 8"
    have "addr \<le> cur + of_nat j \<longleftrightarrow> k \<le> j"
      using q(3,4) dw(1) uj [OF j] by (auto simp: unat_order k_def)
    then show "(addr \<le> cur + of_nat j \<and> cur + of_nat j < e) \<longleftrightarrow> k \<le> j \<and> j < k + length d"
      using j dw(1) uj [OF j] q k8 by (auto simp: unat_order ld)
  next
    fix j :: nat assume j: "k \<le> j" "j < k + length d"
    then have j8: "j < 8" using ld k8 by simp
    have "addr \<le> cur + of_nat j"
      using q(3) j dw(1) uj [OF j8] by (simp add: unat_order)
    then have "unat (cur + of_nat j - addr) = unat q - unat addr + (j - k)"
      using uj [OF j8] dw(1) j(1) q(3) by (simp add: unat_sub unat_order)
    moreover have "d ! (j - k) = data ! (unat q - unat addr + (j - k))"
      using j j8 e q by (simp add: d_def unat_order)
    ultimately show "data ! unat (cur + of_nat j - addr) = d ! (j - k)" by simp
  qed
qed

lemma align8_last:
  assumes "cur < e" "unat cur mod 8 = 0"
  shows "cur = align_down_u32 (e - 1) 8 \<longleftrightarrow> unat e \<le> unat cur + 8"
proof -
  have "e \<noteq> 0" using assms(1) by (auto simp: unat_order)
  then have "unat (align_down_u32 (e - 1) 8) = (unat e - 1) div 8 * 8"
    by (simp add: unat_align_down unat_minus_one)
  moreover have "unat cur < unat e" using assms(1) by (simp add: unat_order)
  ultimately show ?thesis
    using assms(2) by (auto simp: word_unat_eq_iff)
qed

lemma stream_advance:
  assumes s: "stream lim q s" and q: "q < lim"
  defines "cur \<equiv> align_down_u32 q 8" and "k \<equiv> unat q mod 8"
  assumes d: "k + length d = 8"
    and s1: "fl_mem s1 = mem_poke cur (poke k d (dw_base s cur)) (fl_mem s)"
      "\<not> dw_valid (s_dw_cache s1)"
  shows "stream lim (cur + 8) s1" "flash_view s1 = mem_poke q d (flash_view s)"
    "unat (cur + 8) = unat q + length d"
proof -
  note dw = stream_dw [OF s q, folded cur_def k_def]
  have u8: "unat (cur + 8) = unat cur + 8"
    using dw(4) unat_lt32 [of lim] unat_plus_small [of cur 8] by simp
  then show "unat (cur + 8) = unat q + length d" using dw(1) d by simp
  have al: "align_down_u32 (cur + 8) 8 = cur + 8"
    using dw(3) u8 by (simp add: word_unat_eq_iff unat_align8)
  have "fl_mem s1 a = 0xFF" if a: "cur + 8 \<le> a" "a < lim" for a
  proof -
    have c: "unat cur + 8 \<le> unat a" using a(1) u8 by (simp add: unat_order)
    then have "8 \<le> unat (a - cur)" by (simp add: unat_sub unat_order)
    moreover have "length (poke k d (dw_base s cur)) = 8" using d dw(5) by simp
    ultimately have "fl_mem s1 a = fl_mem s a" by (simp add: s1 mem_poke_other)
    also have "\<dots> = 0xFF"
      using s a c by (simp add: stream_def unat_order flip: cur_def)
    finally show ?thesis .
  qed
  moreover have "cur + 8 \<le> lim" using dw(4) u8 by (simp add: unat_order)
  moreover have "unat lim mod 8 = 0" using s by (simp add: stream_def)
  moreover have "unat (cur + 8) mod 8 = 0" using u8 dw(3) by simp
  ultimately show "stream lim (cur + 8) s1"
    using s1(2) by (simp add: stream_def al)
  have "mem_poke (cur + of_nat k) d (mem_poke cur (dw_base s cur) (fl_mem s))
      = mem_poke cur (poke k d (dw_base s cur)) (fl_mem s)"
    using d dw(5) by (intro mem_poke_inside) (simp_all add: k_def)
  then show "flash_view s1 = mem_poke q d (flash_view s)"
    using s1 dw(2,7) by (simp add: flash_view_def)
qed

lemma stream_park:
  assumes s: "stream lim q s" and q: "q < e" "e \<le> lim"
  defines "cur \<equiv> align_down_u32 q 8" and "k \<equiv> unat q mod 8"
  assumes d: "k + length d < 8" "unat e = unat q + length d"
    and s1: "s1 = s\<lparr>s_dw_cache := \<lparr>dw_addr_aligned = cur, dw_buf = poke k d (dw_base s cur),
                       dw_mask = mask (k + length d), dw_valid = True\<rparr>\<rparr>"
  shows "stream lim e s1" "flash_view s1 = mem_poke q d (flash_view s)"
proof -
  have ql: "q < lim" using q by simp
  note dw = stream_dw [OF s ql, folded cur_def k_def]
  have em: "unat e mod 8 = k + length d"
    using mod8_offset [OF dw(3) d(1)] d(2) dw(1) by (simp only: add.assoc [symmetric])
  have al: "align_down_u32 e 8 = cur"
    using d(2) dw(1) em by (simp add: word_unat_eq_iff unat_align8)
  have dr: "drop (k + length d) (poke k d (dw_base s cur)) = replicate (8 - (k + length d)) 0xFF"
  proof -
    have "drop (k + length d) (poke k d (dw_base s cur)) = drop (length d) (drop k (dw_base s cur))"
      using d(1) dw(5) by (simp add: poke_def add.commute)
    then show ?thesis by (simp add: dw(9))
  qed
  have ne: "d \<noteq> []" using d(2) q(1) by (auto simp: unat_order)
  have "length (poke k d (dw_base s cur)) = 8" using d(1) dw(5) by simp
  moreover have "\<forall>a. cur \<le> a \<and> a < lim \<longrightarrow> fl_mem s a = 0xFF" "unat lim mod 8 = 0"
    using s by (simp_all add: stream_def cur_def)
  ultimately show "stream lim e s1"
    using q(2) ne unfolding stream_def s1 al em by (simp add: dr)
  have "mem_poke (cur + of_nat k) d (mem_poke cur (dw_base s cur) (fl_mem s))
      = mem_poke cur (poke k d (dw_base s cur)) (fl_mem s)"
    using d dw(5) by (intro mem_poke_inside) (simp_all add: k_def)
  then show "flash_view s1 = mem_poke q d (flash_view s)"
    using dw(2,7) by (simp add: flash_view_def s1)
qed
text \<open>One iteration of the program loop, at a stream position inside the write:
  the double word is completed and programmed, or parked in the cache.\<close>

lemma program_loop_full:
  assumes s: "fl_waits s = []" "\<not> fl_locked s" "stream lim q s"
    and q: "q < e" "e \<le> lim" "addr \<le> q" "q = addr \<or> unat q mod 8 = 0"
    and e: "unat addr + length data = unat e"
  defines "cur \<equiv> align_down_u32 q 8" and "d \<equiv> take (8 - unat q mod 8) (drop (unat q - unat addr) data)"
  assumes f: "unat q mod 8 + length d = 8"
  shows "\<exists>m c. program_loop (Suc n) addr data e ldw cur s
        = program_loop n addr data e ldw (cur + 8) (s\<lparr>fl_mem := m, s_dw_cache := c\<rparr>)
      \<and> stream lim (cur + 8) (s\<lparr>fl_mem := m, s_dw_cache := c\<rparr>)
      \<and> flash_view (s\<lparr>fl_mem := m, s_dw_cache := c\<rparr>) = mem_poke q d (flash_view s)"
proof -
  let ?dw = "poke (unat q mod 8) d (dw_base s cur)"
  let ?s1 = "s\<lparr>fl_mem := mem_poke cur ?dw (fl_mem s)\<rparr>"
  let ?c = "if dw_valid (s_dw_cache s) \<and> dw_addr_aligned (s_dw_cache s) = cur
            then dw_cleared else s_dw_cache s"
  let ?s2 = "s\<lparr>fl_mem := mem_poke cur ?dw (fl_mem s), s_dw_cache := ?c\<rparr>"
  have ql: "q < lim" using q by simp
  note dw = stream_dw [OF s(3) ql, folded cur_def]
  have ap: "apply_bytes addr data e cur (dw_base s cur, mask (unat q mod 8)) = (?dw, 0xFF)"
    using apply_bytes_stream [OF s(3) q e, folded cur_def d_def] mask8_full [of 8] by (simp only: f) simp
  have ce: "cur < e" using q(1) align8_le [of q] by (simp add: cur_def)
  have "length ?dw = 8" using length_poke [of "unat q mod 8" d "dw_base s cur"] f by (simp only: dw(5) order_refl)
  then have pd: "internal_flash_program_doubleword cur ?dw s = (0, ?s1)"
    using s(1,2) dw(8) by (intro program_dw_erased)
  have "(if dw_valid (s_dw_cache ?s1) \<and> dw_addr_aligned (s_dw_cache ?s1) = cur
         then flash_dw_cache_clear ?s1 else ?s1) = ?s2"
    by (simp add: flash_dw_cache_clear_def)
  then have "program_loop (Suc n) addr data e ldw cur s = program_loop n addr data e ldw (cur + 8) ?s2"
    using ce by (simp add: Let_def dw(6) ap pd cong: if_cong)
  moreover have "\<not> dw_valid (s_dw_cache ?s2)"
    using s(3) by (auto simp: dw_cleared_def stream_def cur_def)
  then have "stream lim (cur + 8) ?s2" "flash_view ?s2 = mem_poke q d (flash_view s)"
    using stream_advance [OF s(3) ql f, of ?s2] by (simp_all add: cur_def)
  ultimately show ?thesis by blast
qed

lemma program_loop_last:
  assumes s: "stream lim q s"
    and q: "q < e" "e \<le> lim" "addr \<le> q" "q = addr \<or> unat q mod 8 = 0"
    and e: "unat addr + length data = unat e"
  defines "cur \<equiv> align_down_u32 q 8" and "d \<equiv> drop (unat q - unat addr) data"
  assumes f: "unat q mod 8 + length d < 8" and n: "0 < n"
  shows "\<exists>c. program_loop (Suc n) addr data e (align_down_u32 (e - 1) 8) cur s
        = Some (0, s\<lparr>s_dw_cache := c\<rparr>)
      \<and> stream lim e (s\<lparr>s_dw_cache := c\<rparr>)
      \<and> flash_view (s\<lparr>s_dw_cache := c\<rparr>) = mem_poke q d (flash_view s)"
proof -
  let ?k = "unat q mod 8" and ?dw = "poke (unat q mod 8) d (dw_base s cur)"
  let ?c = "\<lparr>dw_addr_aligned = cur, dw_buf = ?dw, dw_mask = mask (?k + length d), dw_valid = True\<rparr>"
  have ql: "q < lim" using q by simp
  note dw = stream_dw [OF s ql, folded cur_def]
  have "take (8 - ?k) (drop (unat q - unat addr) data) = d"
    using f by (simp add: d_def)
  then have ap: "apply_bytes addr data e cur (dw_base s cur, mask ?k) = (?dw, mask (?k + length d))"
    using apply_bytes_stream [OF s q e, folded cur_def] by simp
  have ce: "cur < e" using q(1) align8_le [of q] by (simp add: cur_def)
  have eq: "unat e = unat q + length d" using q e by (simp add: d_def unat_order)
  have last: "align_down_u32 (e - 1) 8 = cur"
    using align8_last [OF ce dw(3)] eq f dw(1) by simp
  have nf: "mask (?k + length d) \<noteq> (0xFF :: byte)" using f mask8_full [of "?k + length d"] by simp
  have "\<not> cur + 8 < e"
    using eq f dw(1,4) unat_lt32 [of lim] unat_plus_small [of cur 8] by (simp add: unat_order)
  then have "program_loop n addr data e (align_down_u32 (e - 1) 8) (cur + 8) (s\<lparr>s_dw_cache := ?c\<rparr>)
      = Some (0, s\<lparr>s_dw_cache := ?c\<rparr>)"
    using n by (cases n) simp_all
  then have "program_loop (Suc n) addr data e (align_down_u32 (e - 1) 8) cur s
      = Some (0, s\<lparr>s_dw_cache := ?c\<rparr>)"
    using ce last nf by (simp add: Let_def dw(6) ap cong: if_cong)
  moreover note stream_park [OF s q(1,2) f eq refl, folded cur_def]
  ultimately show ?thesis by blast
qed

lemma program_loop_stream:
  assumes "fl_waits s = []" "\<not> fl_locked s" "stream lim q s" "addr \<le> q" "q \<le> e" "e \<le> lim"
    "q = addr \<or> unat q mod 8 = 0" "unat addr + length data = unat e" "data \<noteq> []"
    "(unat e - unat (align_down_u32 q 8) + 7) div 8 < n"
  shows "\<exists>m c. program_loop n addr data e (align_down_u32 (e - 1) 8) (align_down_u32 q 8) s
      = Some (0, s\<lparr>fl_mem := m, s_dw_cache := c\<rparr>)
    \<and> stream lim e (s\<lparr>fl_mem := m, s_dw_cache := c\<rparr>)
    \<and> flash_view (s\<lparr>fl_mem := m, s_dw_cache := c\<rparr>)
        = mem_poke q (drop (unat q - unat addr) data) (flash_view s)"
  using assms
proof (induction n arbitrary: q s)
  case 0 then show ?case by simp
next
  case (Suc n)
  let ?cur = "align_down_u32 q 8" and ?k = "unat q mod 8" and ?r = "drop (unat q - unat addr) data"
  have lr: "length ?r = unat e - unat q" using Suc.prems(4,8) by (simp add: unat_order)
  consider "q = e" | "q < e" "?k + length ?r < 8" | "q < e" "8 \<le> ?k + length ?r"
    using Suc.prems(5) by fastforce
  then show ?case
  proof cases
    case 1
    then have "unat q mod 8 = 0" using Suc.prems by auto
    then have "?cur = q" by (simp add: word_unat_eq_iff unat_align8)
    moreover have "?r = []" using lr 1 by simp
    ultimately show ?thesis
      using 1 Suc.prems(3) by (intro exI [of _ "fl_mem s"] exI [of _ "s_dw_cache s"]) simp
  next
    case 2
    have "unat ?cur < unat e" using 2(1) align8_le [of q] by (simp add: unat_order)
    then have "0 < n" using Suc.prems(10) by simp
    from program_loop_last [OF Suc.prems(3) 2(1) Suc.prems(6,4,7,8) 2(2) this]
    obtain c where c: "program_loop (Suc n) addr data e (align_down_u32 (e - 1) 8) ?cur s
        = Some (0, s\<lparr>s_dw_cache := c\<rparr>)"
      "stream lim e (s\<lparr>s_dw_cache := c\<rparr>)" "flash_view (s\<lparr>s_dw_cache := c\<rparr>) = mem_poke q ?r (flash_view s)"
      by blast
    then show ?thesis by (intro exI [of _ "fl_mem s"] exI [of _ c]) simp
  next
    case 3
    let ?d = "take (8 - ?k) ?r"
    have k8: "?k < 8" by simp
    then have ld: "length ?d = 8 - ?k" using 3(2) by simp
    then have kd: "?k + length ?d = 8" using k8 by linarith
    from program_loop_full [OF Suc.prems(1-3) 3(1) Suc.prems(6,4,7,8) kd]
    obtain m c where st: "program_loop (Suc n) addr data e (align_down_u32 (e - 1) 8) ?cur s
        = program_loop n addr data e (align_down_u32 (e - 1) 8) (?cur + 8) (s\<lparr>fl_mem := m, s_dw_cache := c\<rparr>)"
      and s2: "stream lim (?cur + 8) (s\<lparr>fl_mem := m, s_dw_cache := c\<rparr>)"
        "flash_view (s\<lparr>fl_mem := m, s_dw_cache := c\<rparr>) = mem_poke q ?d (flash_view s)"
      by blast
    have ql: "q < lim" using 3(1) Suc.prems(6) by simp
    note dw = stream_dw [OF Suc.prems(3) ql]
    have u8: "unat (?cur + 8) = unat ?cur + 8"
      using dw(4) unat_lt32 [of lim] unat_plus_small [of ?cur 8] by simp
    have al: "align_down_u32 (?cur + 8) 8 = ?cur + 8"
      using dw(3) u8 by (intro align8_id) simp
    have le: "unat ?cur + 8 \<le> unat e" using 3 lr dw(1) by (simp add: unat_order)
    let ?s2 = "s\<lparr>fl_mem := m, s_dw_cache := c\<rparr>"
    have "\<exists>m c. program_loop n addr data e (align_down_u32 (e - 1) 8) (align_down_u32 (?cur + 8) 8) ?s2
        = Some (0, ?s2\<lparr>fl_mem := m, s_dw_cache := c\<rparr>)
      \<and> stream lim e (?s2\<lparr>fl_mem := m, s_dw_cache := c\<rparr>)
      \<and> flash_view (?s2\<lparr>fl_mem := m, s_dw_cache := c\<rparr>)
          = mem_poke (?cur + 8) (drop (unat (?cur + 8) - unat addr) data) (flash_view ?s2)"
    proof (rule Suc.IH)
      show "fl_waits ?s2 = []" "\<not> fl_locked ?s2" using Suc.prems(1,2) by simp_all
      show "addr \<le> ?cur + 8" "?cur + 8 \<le> e"
        using Suc.prems(4) u8 dw(1) k8 le unfolding unat_order by linarith+
      show "?cur + 8 = addr \<or> unat (?cur + 8) mod 8 = 0" using u8 dw(3) by simp
      show "(unat e - unat (align_down_u32 (?cur + 8) 8) + 7) div 8 < n"
        using Suc.prems(10) le unfolding al u8 by linarith
    qed (use Suc.prems s2(1) in simp_all)
    moreover have "drop (unat (?cur + 8) - unat addr) data = drop (8 - ?k) ?r"
    proof -
      have "unat (?cur + 8) - unat addr = 8 - ?k + (unat q - unat addr)"
        using u8 dw(1) Suc.prems(4) k8 unfolding unat_order by linarith
      then show ?thesis by simp
    qed
    moreover have "mem_poke (?cur + 8) (drop (8 - ?k) ?r) (mem_poke q ?d (flash_view s))
        = mem_poke q ?r (flash_view s)"
    proof -
      have "?cur + 8 = q + of_nat (8 - ?k)"
        using u8 dw(1) kd ld le unat_lt32 [of e] unat_add_nat [of q "8 - ?k"]
        by (simp only: word_unat_eq_iff)
      moreover have "length ?r < 2 ^ 32" using lr unat_lt32 [of e] by linarith
      ultimately show ?thesis
        using mem_poke_split [of "8 - ?k" ?r q "flash_view s"] 3(2) by (simp only: le_diff_conv add.commute)
    qed
    ultimately show ?thesis using st s2(2) al by auto
  qed
qed

lemma flash_view_cong:
  "fl_mem s' = fl_mem s \<Longrightarrow> s_dw_cache s' = s_dw_cache s \<Longrightarrow> flash_view s' = flash_view s"
  by (simp add: flash_view_def)

lemma stream_cong:
  "fl_mem s' = fl_mem s \<Longrightarrow> s_dw_cache s' = s_dw_cache s \<Longrightarrow> stream lim p s' = stream lim p s"
  by (simp add: stream_def)

text \<open>Only bytes of the unfinished double word differ from what a flush will leave.\<close>

lemma stream_view:
  assumes st: "stream lim p s" and x: "fl_mem s x \<noteq> flash_view s x"
  shows "unat p - unat p mod 8 \<le> unat x \<and> x < p"
proof -
  let ?b = "align_down_u32 p 8" and ?buf = "dw_buf (s_dw_cache s)"
  have v: "dw_valid (s_dw_cache s)" using x by (auto simp: flash_view_def split: if_splits)
  note b = unat_align8 [of p]
  have pm: "unat p mod 8 \<noteq> 0" and buf: "drop (unat p mod 8) ?buf = replicate (8 - unat p mod 8) 0xFF"
    and len: "length ?buf = 8" and ad: "dw_addr_aligned (s_dw_cache s) = ?b"
    using st v by (simp_all add: stream_def)
  have pl: "unat p < unat lim" using st pm by (auto simp: stream_def unat_order order.order_iff_strict)
  have "(unat p - unat p mod 8) mod 8 = 0" by (simp add: minus_mod_eq_mult_div)
  then have bl: "unat ?b + 8 \<le> unat lim"
    using pl st unfolding b by (intro aligned_gap) (auto simp: stream_def)
  have j: "unat (x - ?b) < 8" "fl_mem s x \<noteq> ?buf ! unat (x - ?b)"
    using x v len ad by (auto simp: flash_view_def mem_poke_def split: if_splits)
  have ux: "unat x = unat ?b + unat (x - ?b)"
    using unat_plus_small [of ?b "x - ?b"] j(1) bl unat_lt32 [of lim] by simp
  have "unat (x - ?b) < unat p mod 8"
  proof (rule ccontr)
    assume n: "\<not> unat (x - ?b) < unat p mod 8"
    then have "?buf ! unat (x - ?b) = drop (unat p mod 8) ?buf ! (unat (x - ?b) - unat p mod 8)"
      using len by simp
    also have "\<dots> = 0xFF" using n j(1) unfolding buf by simp
    finally have "?buf ! unat (x - ?b) = 0xFF" .
    moreover have "fl_mem s x = 0xFF"
      using st ux j(1) bl by (auto simp: stream_def unat_order)
    ultimately show False using j(2) by simp
  qed
  moreover have "unat p mod 8 \<le> unat p" by (rule mod_less_eq_dividend)
  ultimately show ?thesis using ux b unfolding word_less_nat_alt by linarith
qed

lemma program_bytes_stream:
  assumes "fl_waits s = []" "\<not> fl_locked s" "stream lim p s" "data \<noteq> []"
    "unat p + length data \<le> unat lim"
  shows "\<exists>m c. internal_flash_program_bytes p data s = Some (0, s\<lparr>fl_mem := m, s_dw_cache := c\<rparr>)
    \<and> stream lim (p + of_nat (length data)) (s\<lparr>fl_mem := m, s_dw_cache := c\<rparr>)
    \<and> flash_view (s\<lparr>fl_mem := m, s_dw_cache := c\<rparr>) = mem_poke p data (flash_view s)"
proof -
  let ?e = "p + of_nat (length data)" and ?n = "length data div 8 + 3"
  have ue: "unat ?e = unat p + length data"
    using assms(5) unat_lt32 [of lim] by (intro unat_add_nat) simp
  have "unat p = unat (align_down_u32 p 8) + unat p mod 8" by (simp add: unat_align8)
  then have "unat ?e - unat (align_down_u32 p 8) + 7 \<le> length data + 14"
    using ue mod_less_divisor [of 8 "unat p"] by linarith
  then have fuel: "(unat ?e - unat (align_down_u32 p 8) + 7) div 8 < ?n" by linarith
  have noflush: "\<not> (dw_valid (s_dw_cache s) \<and> align_down_u32 p 8 > dw_addr_aligned (s_dw_cache s))"
    using assms(3) by (auto simp: stream_def)
  have "\<exists>m c. program_loop ?n p data ?e (align_down_u32 (?e - 1) 8) (align_down_u32 p 8) s
      = Some (0, s\<lparr>fl_mem := m, s_dw_cache := c\<rparr>)
    \<and> stream lim ?e (s\<lparr>fl_mem := m, s_dw_cache := c\<rparr>)
    \<and> flash_view (s\<lparr>fl_mem := m, s_dw_cache := c\<rparr>)
        = mem_poke p (drop (unat p - unat p) data) (flash_view s)"
    by (rule program_loop_stream [OF assms(1-3)])
       (use assms(4,5) ue fuel in \<open>simp_all add: unat_order\<close>)
  moreover have "internal_flash_program_bytes p data s
      = program_loop ?n p data ?e (align_down_u32 (?e - 1) 8) (align_down_u32 p 8) s"
    using noflush assms(4) by (auto simp: internal_flash_program_bytes_def Let_def)
  ultimately show ?thesis by simp
qed

lemma flash_write_stream:
  assumes "fl_waits s = []" "stream lim p s" "data \<noteq> []" "unat p + length data \<le> unat lim"
  shows "\<exists>s'. stm32g0xx_flash_write OTA_FLASH_TYPE_INTERNAL p data s = Some (0, s')
    \<and> fl_waits s' = [] \<and> flash_frame s s'
    \<and> stream lim (p + of_nat (length data)) s'
    \<and> flash_view s' = mem_poke p data (flash_view s)"
proof -
  let ?s1 = "s\<lparr>fl_primask := True, fl_locked := False\<rparr>"
  have st: "stream lim p ?s1" "flash_view ?s1 = flash_view s"
    using assms(2) by (simp_all add: stream_def flash_view_def)
  from program_bytes_stream [OF _ _ st(1) assms(3,4)] assms(1)
  obtain m c where mc: "internal_flash_program_bytes p data ?s1 = Some (0, ?s1\<lparr>fl_mem := m, s_dw_cache := c\<rparr>)"
    "stream lim (p + of_nat (length data)) (?s1\<lparr>fl_mem := m, s_dw_cache := c\<rparr>)"
    "flash_view (?s1\<lparr>fl_mem := m, s_dw_cache := c\<rparr>) = mem_poke p data (flash_view s)"
    by (auto simp: st(2))
  have un: "HAL_FLASH_Unlock (s\<lparr>fl_primask := True\<rparr>) = (True, ?s1)"
    using assms(1) by (simp add: HAL_FLASH_Unlock_def wait_ok_def wait_done_def)
  let ?s2 = "flash_irq_exit (fl_primask s) (snd (HAL_FLASH_Lock (?s1\<lparr>fl_mem := m, s_dw_cache := c\<rparr>)))"
  have "stm32g0xx_flash_write OTA_FLASH_TYPE_INTERNAL p data s = Some (0, ?s2)"
    using assms(3) mc(1) un
    by (simp add: stm32g0xx_flash_write_def flash_irq_enter_def)
  moreover have "fl_waits ?s2 = []" "flash_frame s ?s2"
    using assms(1)
    by (simp_all add: flash_irq_exit_def HAL_FLASH_Lock_def wait_done_def flash_frame_def)
  moreover have "fl_mem ?s2 = m" "s_dw_cache ?s2 = c"
    by (simp_all add: flash_irq_exit_def HAL_FLASH_Lock_def wait_done_def)
  then have "stream lim (p + of_nat (length data)) ?s2" "flash_view ?s2 = mem_poke p data (flash_view s)"
    using mc(2,3) stream_cong [of ?s2 "?s1\<lparr>fl_mem := m, s_dw_cache := c\<rparr>"]
      flash_view_cong [of ?s2 "?s1\<lparr>fl_mem := m, s_dw_cache := c\<rparr>"] by simp_all
  ultimately show ?thesis by blast
qed

lemma flash_flush_stream:
  assumes "fl_waits s = []" "stream lim p s"
  shows "\<exists>s'. stm32g0xx_flash_write OTA_FLASH_TYPE_INTERNAL a [] s = Some (0, s')
    \<and> fl_waits s' = [] \<and> flash_frame s s' \<and> fl_mem s' = flash_view s
    \<and> \<not> dw_valid (s_dw_cache s')"
proof -
  let ?s1 = "s\<lparr>fl_primask := True, fl_locked := False\<rparr>"
  have un: "HAL_FLASH_Unlock (s\<lparr>fl_primask := True\<rparr>) = (True, ?s1)"
    using assms(1) by (simp add: HAL_FLASH_Unlock_def wait_ok_def wait_done_def)
  have "\<exists>c. internal_flash_flush_dw_cache ?s1
      = (0, ?s1\<lparr>fl_mem := flash_view s, s_dw_cache := c\<rparr>) \<and> \<not> dw_valid c"
  proof (cases "dw_valid (s_dw_cache s)")
    case False
    then show ?thesis
      by (intro exI [of _ "s_dw_cache s"]) (simp add: internal_flash_flush_dw_cache_def flash_view_def)
  next
    case True
    then have pn: "unat p mod 8 \<noteq> 0" and c: "dw_addr_aligned (s_dw_cache s) = align_down_u32 p 8"
        "length (dw_buf (s_dw_cache s)) = 8"
      using assms(2) by (simp_all add: stream_def)
    have "p < lim" using assms(2) pn by (auto simp: stream_def order_le_less)
    then have "mem8 (fl_mem s) (align_down_u32 p 8) = replicate 8 0xFF"
      using stream_dw(8) [OF assms(2)] by simp
    then have "internal_flash_program_doubleword (align_down_u32 p 8) (dw_buf (s_dw_cache s)) ?s1
        = (0, ?s1\<lparr>fl_mem := mem_poke (align_down_u32 p 8) (dw_buf (s_dw_cache s)) (fl_mem s)\<rparr>)"
      using program_dw_erased [of ?s1] assms(1) c(2) by simp
    then show ?thesis
      using True c by (intro exI [of _ dw_cleared])
        (simp add: internal_flash_flush_dw_cache_def flash_view_def flash_dw_cache_clear_def dw_cleared_def)
  qed
  then obtain c where fl: "internal_flash_flush_dw_cache ?s1
      = (0, ?s1\<lparr>fl_mem := flash_view s, s_dw_cache := c\<rparr>)" "\<not> dw_valid c" by blast
  show ?thesis
    using un fl assms(1)
    by (simp add: stm32g0xx_flash_write_def flash_irq_enter_def flash_irq_exit_def HAL_FLASH_Lock_def
        wait_done_def flash_frame_def)
qed

subsection \<open>Page erase\<close>

lemma FLASH_PageErase_mem:
  "FLASH_PageErase bank page s = s\<lparr>fl_mem := mem_poke
     (flash_bank_base_from_bank (fl_bank_size s) bank + page * FLASH_PAGE_SIZE)
     (replicate 0x800 0xFF) (fl_mem s)\<rparr>"
  by (simp add: FLASH_PageErase_def flash_bank_base_from_bank_def)

lemma erase_pages_ok:
  assumes "fl_waits s = []" "\<not> fl_locked s" "n * 0x800 < 2 ^ 32"
  shows "erase_pages n bank idx s = (True, s\<lparr>fl_mem := mem_poke
     (flash_bank_base_from_bank (fl_bank_size s) bank + idx * FLASH_PAGE_SIZE)
     (replicate (n * 0x800) 0xFF) (fl_mem s)\<rparr>)"
  using assms
proof (induction n arbitrary: idx s)
  case 0 then show ?case by simp
next
  case (Suc n)
  let ?b = "flash_bank_base_from_bank (fl_bank_size s) bank"
  let ?s1 = "FLASH_PageErase bank idx s"
  have w: "wait_done s = s" using Suc.prems(1) by (simp add: wait_done_def)
  have "erase_pages (Suc n) bank idx s = erase_pages n bank (idx + 1) ?s1"
    using Suc.prems by (simp add: w wait_ok_def)
  also have "\<dots> = (True, ?s1\<lparr>fl_mem := mem_poke (?b + (idx + 1) * FLASH_PAGE_SIZE)
      (replicate (n * 0x800) 0xFF) (fl_mem ?s1)\<rparr>)"
    using Suc.IH [of ?s1 "idx + 1"] Suc.prems by (simp add: FLASH_PageErase_mem)
  also have "mem_poke (?b + (idx + 1) * FLASH_PAGE_SIZE) (replicate (n * 0x800) 0xFF) (fl_mem ?s1)
      = mem_poke (?b + idx * FLASH_PAGE_SIZE) (replicate (Suc n * 0x800) 0xFF) (fl_mem s)"
  proof -
    have "?b + (idx + 1) * FLASH_PAGE_SIZE
        = (?b + idx * FLASH_PAGE_SIZE) + of_nat (length (replicate 0x800 (0xFF :: byte)))"
      by (simp add: distrib_right)
    moreover have "replicate (Suc n * 0x800) (0xFF :: byte)
        = replicate 0x800 0xFF @ replicate (n * 0x800) 0xFF"
      by (simp add: replicate_add)
    ultimately show ?thesis
      using Suc.prems(3) mem_poke_append [of "replicate 0x800 0xFF" "replicate (n * 0x800) 0xFF"]
      by (simp only: FLASH_PageErase_mem) simp
  qed
  finally show ?case by (simp add: FLASH_PageErase_mem)
qed

lemma bank_span:
  assumes "bank_ok s" "FLASH_BASE \<le> cur" "unat cur < 0x08080000"
  defines "b \<equiv> flash_bank_base_from_bank (fl_bank_size s) (flash_bank_from_address (fl_bank_size s) cur)"
  shows "b \<le> cur" "unat b mod 0x800 = 0" "unat cur < unat (b + fl_bank_size s)"
    "unat (b + fl_bank_size s) \<le> 0x08080000" "unat (b + fl_bank_size s) mod 0x800 = 0"
    "flash_page_from_address (fl_bank_size s) cur = (cur - b) div FLASH_PAGE_SIZE"
  using assms by (auto simp: bank_ok_def flash_bank_base_from_bank_def flash_bank_from_address_def
      flash_page_from_address_def unat_order)

lemma word_div_mult_page:
  assumes "unat v mod 0x800 = 0" shows "v div FLASH_PAGE_SIZE * FLASH_PAGE_SIZE = (v :: u32)"
proof -
  have "align_down_u32 v FLASH_PAGE_SIZE = v"
    using assms by (auto simp: word_unat_eq_iff unat_align_down)
  then show ?thesis by (simp add: align_down_u32_def)
qed

lemma HAL_erase_ok:
  assumes "fl_waits s = []" "\<not> fl_locked s" "unat page + unat nb < 0x200000"
  shows "HAL_FLASHEx_Erase bank page nb s = (True, s\<lparr>fl_mem := mem_poke
     (flash_bank_base_from_bank (fl_bank_size s) bank + page * FLASH_PAGE_SIZE)
     (replicate (unat nb * 0x800) 0xFF) (fl_mem s)\<rparr>)"
proof -
  have "page \<le> page + nb" using assms(3) unat_plus_small [of page nb] by (simp add: unat_order)
  moreover have "wait_done s = s" using assms(1) by (simp add: wait_done_def)
  ultimately show ?thesis
    using assms erase_pages_ok [of s "unat nb" bank page] by (simp add: HAL_FLASHEx_Erase_def wait_ok_def)
qed

lemma unat_pages: "unat (v div FLASH_PAGE_SIZE) = unat v div 0x800" for v :: u32
  by (simp add: unat_div)

lemma erase_round:
  assumes s: "bank_ok s"
    and c: "FLASH_BASE \<le> cur" "unat cur mod 0x800 = 0" "unat (r :: u32) mod 0x800 = 0"
      "unat cur + unat r \<le> 0x08080000" "r \<noteq> 0"
  obtains P bank page where "0 < P" "P * 0x800 \<le> unat r" "unat page + P < 0x200000"
    "flash_bank_base_from_bank (fl_bank_size s) bank + page * FLASH_PAGE_SIZE = cur"
    "erase_loop (Suc n) cur r s =
       (case HAL_FLASHEx_Erase bank page (of_nat P) s of
          (ok, s1) \<Rightarrow> if \<not> ok then Some (False, s1)
            else erase_loop n (cur + of_nat (P * 0x800)) (r - of_nat (P * 0x800)) s1)"
proof -
  have r0: "0 < unat r" using c(5) by (simp add: unat_gt_0)
  let ?bs = "fl_bank_size s"
  let ?bank = "flash_bank_from_address ?bs cur"
  let ?b = "flash_bank_base_from_bank ?bs ?bank"
  let ?max = "(?b + ?bs - cur) div FLASH_PAGE_SIZE"
  let ?pg = "if r div FLASH_PAGE_SIZE > ?max then ?max else r div FLASH_PAGE_SIZE"
  let ?page = "flash_page_from_address ?bs cur"
  have cl: "unat cur < 0x08080000" using c(4) r0 by linarith
  note bank = bank_span [OF s c(1) cl]
  have ucb: "unat (cur - ?b) = unat cur - unat ?b" by (rule unat_sub [OF bank(1)])
  have upage: "?b + ?page * FLASH_PAGE_SIZE = cur"
    using word_div_mult_page [of "cur - ?b"] mod_diff_0 [OF c(2) bank(2)] unfolding bank(6) ucb by simp
  have ub: "unat (?b + ?bs - cur) = unat (?b + ?bs) - unat cur"
    using bank(3) by (simp add: unat_sub unat_order)
  have pg: "unat ?pg = min (unat r div 0x800) ((unat (?b + ?bs) - unat cur) div 0x800)"
    by (simp add: unat_order unat_pages ub min_def)
  have "0x800 \<le> unat r" using r0 c(3) by (rule ge_of_mod)
  moreover have "0x800 \<le> unat (?b + ?bs) - unat cur"
    using bank(3) mod_diff_0 [OF bank(5) c(2)] by (intro ge_of_mod) simp_all
  ultimately have pos: "0 < unat ?pg" unfolding pg by (simp add: div_greater_zero_iff)
  have "unat r div 0x800 * 0x800 \<le> unat r" by simp
  then have "unat ?pg * 0x800 \<le> unat r"
    unfolding pg by (meson le_trans min.cobounded1 mult_le_mono1)
  moreover note pos
  moreover have "unat ?page + unat ?pg < 0x200000"
  proof -
    have "unat ?page \<le> unat cur div 0x800" unfolding bank(6) unat_pages ucb by (simp add: div_le_mono)
    moreover have "unat ?pg \<le> unat r div 0x800" unfolding pg by simp
    moreover have "unat cur div 0x800 \<le> 0x10100" "unat r div 0x800 \<le> 0x10100"
      using cl c(4) by linarith+
    ultimately show ?thesis by linarith
  qed
  moreover have "of_nat (unat ?pg * 0x800) = ?pg * FLASH_PAGE_SIZE" "of_nat (unat ?pg) = ?pg" by simp_all
  ultimately show ?thesis
    using c(5) upage by (intro that [of "unat ?pg" ?page ?bank]) (simp_all only: erase_loop.simps Let_def if_False if_True simp_thms)
qed

lemma erase_advance:
  assumes "FLASH_BASE \<le> cur" "unat cur mod 0x800 = 0" "unat (r :: u32) mod 0x800 = 0"
    "unat cur + unat r \<le> 0x08080000" "unat r div 0x800 < Suc n" "0 < P" "P * 0x800 \<le> unat r"
  defines "c' \<equiv> cur + of_nat (P * 0x800)" and "r' \<equiv> r - of_nat (P * 0x800)"
  shows "unat (of_nat P :: u32) = P" "unat r' = unat r - P * 0x800"
    "FLASH_BASE \<le> c'" "unat c' mod 0x800 = 0" "unat r' mod 0x800 = 0"
    "unat c' + unat r' \<le> 0x08080000" "unat r' div 0x800 < n"
proof -
  have "P * 0x800 < 2 ^ 32" using assms(7) unat_lt32 [of r] by linarith
  then have up: "unat (of_nat (P * 0x800) :: u32) = P * 0x800" "unat (of_nat P :: u32) = P"
    unfolding unat_of_nat by simp_all
  then show "unat (of_nat P :: u32) = P" by simp
  have uc: "unat c' = unat cur + P * 0x800"
    using assms(4,7) unfolding c'_def by (intro unat_add_nat) simp
  show ur: "unat r' = unat r - P * 0x800"
    using assms(7) up(1) by (simp add: r'_def unat_sub unat_order)
  show "FLASH_BASE \<le> c'" using assms(1) uc by (simp add: unat_order)
  show "unat c' mod 0x800 = 0" using assms(2) unfolding uc by simp
  show "unat r' mod 0x800 = 0" unfolding ur by (rule mod_diff_0 [OF assms(3)]) simp
  show "unat c' + unat r' \<le> 0x08080000" using assms(4,7) unfolding uc ur by linarith
  show "unat r' div 0x800 < n" using assms(5-7) unfolding ur by linarith
qed

lemma erase_loop_ok:
  assumes "fl_waits s = []" "\<not> fl_locked s" "bank_ok s" "FLASH_BASE \<le> cur" "unat cur mod 0x800 = 0"
    "unat r mod 0x800 = 0" "unat cur + unat r \<le> 0x08080000" "unat r div 0x800 < n"
  shows "erase_loop n cur r s
    = Some (True, s\<lparr>fl_mem := mem_poke cur (replicate (unat r) 0xFF) (fl_mem s)\<rparr>)"
  using assms
proof (induction n arbitrary: cur r s)
  case 0 then show ?case by simp
next
  case (Suc n)
  show ?case
  proof (cases "r = 0")
    case True then show ?thesis by simp
  next
    case False
    from erase_round [OF Suc.prems(3-7) False]
    obtain P bank page where P: "0 < P" "P * 0x800 \<le> unat r" and page: "unat page + P < 0x200000"
      "flash_bank_base_from_bank (fl_bank_size s) bank + page * FLASH_PAGE_SIZE = cur"
      and loop: "erase_loop (Suc n) cur r s =
       (case HAL_FLASHEx_Erase bank page (of_nat P) s of
          (ok, s1) \<Rightarrow> if \<not> ok then Some (False, s1)
            else erase_loop n (cur + of_nat (P * 0x800)) (r - of_nat (P * 0x800)) s1)" by blast
    let ?p = "P * 0x800" and ?s1 = "s\<lparr>fl_mem := mem_poke cur (replicate (P * 0x800) 0xFF) (fl_mem s)\<rparr>"
    note adv = erase_advance [OF Suc.prems(4-8) P]
    have er: "HAL_FLASHEx_Erase bank page (of_nat P) s = (True, ?s1)"
      using HAL_erase_ok [OF Suc.prems(1,2), of page "of_nat P" bank] page adv(1) by simp
    have "erase_loop n (cur + of_nat ?p) (r - of_nat ?p) ?s1
      = Some (True, ?s1\<lparr>fl_mem := mem_poke (cur + of_nat ?p) (replicate (unat (r - of_nat ?p)) 0xFF) (fl_mem ?s1)\<rparr>)"
      by (rule Suc.IH) (use Suc.prems(1-3) adv in \<open>simp_all add: bank_ok_def\<close>)
    moreover have "mem_poke (cur + of_nat ?p) (replicate (unat r - ?p) 0xFF)
        (mem_poke cur (replicate ?p 0xFF) (fl_mem s)) = mem_poke cur (replicate (unat r) 0xFF) (fl_mem s)"
      using mem_poke_split [of ?p "replicate (unat r) 0xFF" cur "fl_mem s"] P(2) unat_lt32 [of r]
      by (simp add: min_def)
    ultimately show ?thesis using loop er adv(2) by simp
  qed
qed

lemma align_up_id:
  assumes "unat n mod 0x800 = 0" "unat n \<le> 0x08080000"
  shows "align_up_u32 n FLASH_PAGE_SIZE = n"
proof -
  have "unat (n + 0x7FF) = unat n + 0x7FF"
    using assms(2) unat_plus_small [of n "0x7FF"] by simp
  moreover have "align_up_u32 n FLASH_PAGE_SIZE = align_down_u32 (n + 0x7FF) FLASH_PAGE_SIZE"
    by (simp add: align_up_u32_def align_down_u32_def add_diff_eq [symmetric])
  ultimately have "unat (align_up_u32 n FLASH_PAGE_SIZE) = (unat n + 0x7FF) div 0x800 * 0x800"
    by (simp add: unat_align_down)
  also have "\<dots> = unat n" using assms(1) by (rule round_up_id)
  finally show ?thesis by (simp add: word_unat_eq_iff)
qed

lemma flash_erase_ok:
  assumes "fl_waits s = []" "bank_ok s" "in_flash addr n" "n \<noteq> 0"
  shows "\<exists>s'. stm32g0xx_flash_erase OTA_FLASH_TYPE_INTERNAL addr n s = Some (0, s')
    \<and> fl_waits s' = [] \<and> flash_frame s s' \<and> \<not> dw_valid (s_dw_cache s')
    \<and> fl_mem s' = mem_poke addr (replicate (unat n) 0xFF) (fl_mem s)"
proof -
  have ad: "align_down_u32 addr FLASH_PAGE_SIZE = addr"
    using assms(3) by (auto simp: word_unat_eq_iff unat_align_down in_flash_def)
  have au: "align_up_u32 n FLASH_PAGE_SIZE = n"
    using align_up_id [of n] assms(3) by (simp add: in_flash_def)
  let ?s1 = "(flash_dw_cache_clear s)\<lparr>fl_primask := True, fl_locked := False\<rparr>"
  have un: "HAL_FLASH_Unlock ((flash_dw_cache_clear s)\<lparr>fl_primask := True\<rparr>) = (True, ?s1)"
    using assms(1) by (simp add: HAL_FLASH_Unlock_def wait_ok_def wait_done_def flash_dw_cache_clear_def)
  have "erase_loop (unat (n div FLASH_PAGE_SIZE) + length (fl_waits ?s1) + 2) addr n ?s1
      = Some (True, ?s1\<lparr>fl_mem := mem_poke addr (replicate (unat n) 0xFF) (fl_mem ?s1)\<rparr>)"
    by (rule erase_loop_ok)
       (use assms in \<open>simp_all add: in_flash_def bank_ok_def flash_dw_cache_clear_def unat_pages\<close>)
  then show ?thesis
    using un assms(1,4) ad au
    by (simp add: stm32g0xx_flash_erase_def flash_erase_internal_pages_def Let_def flash_irq_enter_def
        HAL_FLASH_Lock_def wait_done_def flash_irq_exit_def flash_frame_def flash_dw_cache_clear_def dw_cleared_def
        del: erase_loop.simps)
qed

end
