(* ===== verification/Stm32_Contain.thy ===== *)
theory Stm32_Contain
  imports Stm32_Stream
begin

text \<open>
  What the flash port does when the controller fails anywhere: every call
  returns, restores the interrupt mask, and changes no byte outside the double
  words or pages it was asked to change and the one that was pending.
\<close>

unbundle bit_operations_syntax

text \<open>The cache buffer holds a double word.\<close>

definition cache_wf :: "stm32 \<Rightarrow> bool" where
  "cache_wf s \<longleftrightarrow> length (dw_buf (s_dw_cache s)) = 8"

text \<open>What a call may have left behind: bytes changed between \<open>cur\<close> and the
  end of the double word that holds the last byte, and a pending double word there.\<close>

definition loop_post :: "u32 \<Rightarrow> u32 \<Rightarrow> stm32 \<Rightarrow> stm32 \<Rightarrow> bool" where
  "loop_post cur e s s' \<longleftrightarrow> cache_wf s' \<and> flash_frame s s'
     \<and> (\<forall>x. x < cur \<or> unat e + 7 \<le> unat x \<longrightarrow> fl_mem s' x = fl_mem s x)
     \<and> (dw_valid (s_dw_cache s') \<longrightarrow> s_dw_cache s' = s_dw_cache s
          \<or> cur \<le> dw_addr_aligned (s_dw_cache s') \<and> dw_addr_aligned (s_dw_cache s') < e)"

text \<open>The effect of a write of \<open>n\<close> bytes at \<open>p\<close> is confined to the double words
  of its range and the one that was pending.\<close>

definition write_post :: "u32 \<Rightarrow> nat \<Rightarrow> stm32 \<Rightarrow> stm32 \<Rightarrow> bool" where
  "write_post p n s s' \<longleftrightarrow> cache_wf s'
    \<and> (\<forall>x. (x < align_down_u32 p 8 \<or> unat p + n + 7 \<le> unat x)
          \<and> (dw_valid (s_dw_cache s) \<longrightarrow> 8 \<le> unat (x - dw_addr_aligned (s_dw_cache s)))
          \<longrightarrow> fl_mem s' x = fl_mem s x)
    \<and> (dw_valid (s_dw_cache s') \<longrightarrow> s_dw_cache s' = s_dw_cache s
         \<or> align_down_u32 p 8 \<le> dw_addr_aligned (s_dw_cache s')
           \<and> unat (dw_addr_aligned (s_dw_cache s')) < unat p + n)"

lemma flash_frame_refl [simp]: "flash_frame s s"
  by (simp add: flash_frame_def)

lemma flash_frame_trans: "flash_frame s t \<Longrightarrow> flash_frame t u \<Longrightarrow> flash_frame s u"
  by (simp add: flash_frame_def)

lemma cache_wf_cleared [simp]: "cache_wf (flash_dw_cache_clear s)"
  by (simp add: cache_wf_def flash_dw_cache_clear_def dw_cleared_def)

lemma program_dw_frame:
  assumes "length d = 8"
  obtains rc s' where "internal_flash_program_doubleword a d s = (rc, s')"
    "s_dw_cache s' = s_dw_cache s" "flash_frame s s'"
    "\<And>x. 8 \<le> unat (x - a) \<Longrightarrow> fl_mem s' x = fl_mem s x"
  using assms that
  by (cases "internal_flash_program_doubleword a d s")
     (auto simp: internal_flash_program_doubleword_def HAL_FLASH_Program_def wait_done_def Let_def
       flash_frame_def mem_poke_other split: if_splits)

lemma length_apply_bytes:
  "length (fst b) = 8 \<Longrightarrow> length (fst (apply_bytes addr data e cur b)) = 8"
  by (cases b) (simp add: apply_bytes_def apply_bytes_fold)

lemma flush_frame:
  assumes "cache_wf s"
  obtains rc s' where "internal_flash_flush_dw_cache s = (rc, s')" "cache_wf s'" "flash_frame s s'"
    "\<not> dw_valid (s_dw_cache s')"
    "\<And>x. (dw_valid (s_dw_cache s) \<longrightarrow> 8 \<le> unat (x - dw_addr_aligned (s_dw_cache s)))
        \<Longrightarrow> fl_mem s' x = fl_mem s x"
proof (cases "dw_valid (s_dw_cache s)")
  case False
  then show ?thesis using assms that [of 0 s] by (simp add: internal_flash_flush_dw_cache_def)
next
  case True
  obtain rc s1 where "internal_flash_program_doubleword (dw_addr_aligned (s_dw_cache s)) (dw_buf (s_dw_cache s)) s = (rc, s1)"
    "flash_frame s s1" "\<And>x. 8 \<le> unat (x - dw_addr_aligned (s_dw_cache s)) \<Longrightarrow> fl_mem s1 x = fl_mem s x"
    by (rule program_dw_frame [of "dw_buf (s_dw_cache s)"]) (use assms in \<open>auto simp: cache_wf_def\<close>)
  then show ?thesis
    using True that [of rc "flash_dw_cache_clear s1"]
    by (simp add: internal_flash_flush_dw_cache_def cache_wf_def flash_dw_cache_clear_def dw_cleared_def
        flash_frame_def)
qed

lemma program_loop_step:
  assumes "cur < e"
    "apply_bytes addr data e cur
       (if dw_valid (s_dw_cache s) \<and> dw_addr_aligned (s_dw_cache s) = cur
        then (dw_buf (s_dw_cache s), dw_mask (s_dw_cache s)) else (mem8 (fl_mem s) cur, 0)) = (dw, lm)"
  shows "program_loop (Suc n) addr data e ldw cur s =
    (if cur = ldw \<and> lm \<noteq> 0xFF
     then program_loop n addr data e ldw (cur + 8)
            (s\<lparr>s_dw_cache := \<lparr>dw_addr_aligned = cur, dw_buf = dw, dw_mask = lm, dw_valid = True\<rparr>\<rparr>)
     else (case internal_flash_program_doubleword cur dw s of
             (rc, s1) \<Rightarrow>
               if rc \<noteq> 0 then Some (rc, s1)
               else program_loop n addr data e ldw (cur + 8)
                      (if dw_valid (s_dw_cache s1) \<and> dw_addr_aligned (s_dw_cache s1) = cur
                       then flash_dw_cache_clear s1 else s1)))"
  using assms by (simp only: program_loop.simps Let_def prod.case not_not if_True if_False simp_thms)

lemma loop_post_step:
  assumes "loop_post (cur + 8) e s1 s'" "cur < cur + 8" "cur < e" "flash_frame s s1"
    "\<And>x. x < cur \<or> unat e + 7 \<le> unat x \<Longrightarrow> fl_mem s1 x = fl_mem s x"
    "dw_valid (s_dw_cache s1) \<Longrightarrow> s_dw_cache s1 = s_dw_cache s \<or> dw_addr_aligned (s_dw_cache s1) = cur"
  shows "loop_post cur e s s'"
proof -
  have "cur \<le> a" if "cur + 8 \<le> a" for a using that assms(2) by simp
  then show ?thesis
    using assms by (fastforce simp: loop_post_def intro: flash_frame_trans)
qed

lemma program_loop_frame:
  assumes "cache_wf s" "unat cur mod 8 = 0" "unat e + 8 \<le> 2 ^ 32"
    "(unat e - unat cur + 7) div 8 < n"
  shows "\<exists>rc s'. program_loop n addr data e ldw cur s = Some (rc, s') \<and> loop_post cur e s s'"
  using assms
proof (induction n arbitrary: cur s)
  case 0 then show ?case by simp
next
  case (Suc n)
  let ?c = "s_dw_cache s"
  let ?base = "if dw_valid ?c \<and> dw_addr_aligned ?c = cur then (dw_buf ?c, dw_mask ?c)
               else (mem8 (fl_mem s) cur, 0)"
  obtain dw lm where ap: "apply_bytes addr data e cur ?base = (dw, lm)" by fastforce
  have ldw: "length dw = 8"
    using length_apply_bytes [of ?base addr data e cur] ap Suc.prems(1) by (simp add: cache_wf_def)
  show ?case
  proof (cases "cur < e")
    case False
    then show ?thesis using Suc.prems(1) by (simp add: loop_post_def)
  next
    case True
    have u8: "unat (cur + 8) = unat cur + 8"
      using True Suc.prems(3) unat_plus_small [of cur 8] by (simp add: unat_order)
    have f8: "(unat e - unat (cur + 8) + 7) div 8 < n"
      using True Suc.prems(4) unfolding u8 unat_order by (rule fuel_step)
    have a8: "unat (cur + 8) mod 8 = 0" using Suc.prems(2) u8 by simp
    have out: "8 \<le> unat (x - cur)" if "x < cur \<or> unat e + 7 \<le> unat x" for x
      using that True Suc.prems(3) unat_sub_if' [of x cur] by (auto simp: unat_order)
    show ?thesis
    proof (cases "cur = ldw \<and> lm \<noteq> 0xFF")
      case True
      let ?s1 = "s\<lparr>s_dw_cache := \<lparr>dw_addr_aligned = cur, dw_buf = dw, dw_mask = lm, dw_valid = True\<rparr>\<rparr>"
      have "cache_wf ?s1" using ldw by (simp add: cache_wf_def)
      from Suc.IH [OF this a8 Suc.prems(3) f8]
      obtain rc s' where r: "program_loop n addr data e ldw (cur + 8) ?s1 = Some (rc, s')"
        "loop_post (cur + 8) e ?s1 s'" by blast
      have "loop_post cur e s s'"
        by (rule loop_post_step [OF r(2)]) (use \<open>cur < e\<close> u8 in \<open>simp_all add: unat_order flash_frame_def\<close>)
      then show ?thesis
        using True r(1) program_loop_step [OF \<open>cur < e\<close> ap, of n ldw] by auto
    next
      case False
      obtain rc s1 where p: "internal_flash_program_doubleword cur dw s = (rc, s1)"
        "s_dw_cache s1 = s_dw_cache s" "flash_frame s s1"
        "\<And>x. 8 \<le> unat (x - cur) \<Longrightarrow> fl_mem s1 x = fl_mem s x"
        by (rule program_dw_frame [OF ldw, of cur s]) blast
      let ?s2 = "if dw_valid (s_dw_cache s1) \<and> dw_addr_aligned (s_dw_cache s1) = cur
                 then flash_dw_cache_clear s1 else s1"
      show ?thesis
      proof (cases "rc = 0")
        case False
        have "loop_post cur e s s1"
          using p(2-4) Suc.prems(1) out by (simp add: loop_post_def cache_wf_def)
        then show ?thesis
          using False \<open>\<not> (cur = ldw \<and> lm \<noteq> 0xFF)\<close> p(1) program_loop_step [OF \<open>cur < e\<close> ap, of n ldw] by auto
      next
        case True
        have wf2: "cache_wf ?s2" using p(2) Suc.prems(1) by (simp add: cache_wf_def) (simp add: flash_dw_cache_clear_def dw_cleared_def)
        from Suc.IH [OF this a8 Suc.prems(3) f8]
        obtain rc' s' where r: "program_loop n addr data e ldw (cur + 8) ?s2 = Some (rc', s')"
          "loop_post (cur + 8) e ?s2 s'" by blast
        have "loop_post cur e s s'"
          by (rule loop_post_step [OF r(2)])
             (use \<open>cur < e\<close> u8 p out in \<open>auto simp: unat_order flash_frame_def flash_dw_cache_clear_def dw_cleared_def\<close>)
        then show ?thesis
          using True \<open>\<not> (cur = ldw \<and> lm \<noteq> 0xFF)\<close> p(1) r(1) program_loop_step [OF \<open>cur < e\<close> ap, of n ldw] by auto
      qed
    qed
  qed
qed

lemma flush_contained:
  assumes "cache_wf s"
  obtains rc s' where "internal_flash_flush_dw_cache s = (rc, s')" "flash_frame s s'"
    "write_post p n s s'" "\<not> dw_valid (s_dw_cache s')"
proof -
  obtain rc s' where "internal_flash_flush_dw_cache s = (rc, s')" "cache_wf s'" "flash_frame s s'"
    "\<not> dw_valid (s_dw_cache s')"
    "\<And>x. (dw_valid (s_dw_cache s) \<longrightarrow> 8 \<le> unat (x - dw_addr_aligned (s_dw_cache s)))
        \<Longrightarrow> fl_mem s' x = fl_mem s x"
    by (rule flush_frame [OF assms]) blast
  then show ?thesis by (intro that [of rc s']) (simp_all add: write_post_def)
qed

lemma program_bytes_contained:
  assumes "cache_wf s" "unat p + length data + 8 \<le> 2 ^ 32"
  shows "\<exists>rc s'. internal_flash_program_bytes p data s = Some (rc, s') \<and> flash_frame s s'
    \<and> write_post p (length data) s s'"
proof (cases "data = []")
  case True
  then show ?thesis using assms(1) by (simp add: internal_flash_program_bytes_def write_post_def)
next
  case False
  let ?e = "p + of_nat (length data)"
  have ue: "unat ?e = unat p + length data" using assms(2) by (intro unat_add_nat) simp
  have al: "unat (align_down_u32 p 8) mod 8 = 0" by (simp add: unat_align8 minus_mod_eq_mult_div)
  have "unat p = unat (align_down_u32 p 8) + unat p mod 8" by (simp add: unat_align8)
  then have "unat ?e - unat (align_down_u32 p 8) + 7 \<le> length data + 14"
    using ue mod_less_divisor [of 8 "unat p"] by linarith
  then have fuel: "(unat ?e - unat (align_down_u32 p 8) + 7) div 8 < length data div 8 + 3" by linarith
  have e8: "unat ?e + 8 \<le> 2 ^ 32" using assms(2) ue by simp
  define fl where "fl = (dw_valid (s_dw_cache s) \<and> align_down_u32 p 8 > dw_addr_aligned (s_dw_cache s))"
  obtain frc s1 where f: "(if fl then internal_flash_flush_dw_cache s else (0, s)) = (frc, s1)"
      "flash_frame s s1" "write_post p (length data) s s1" "dw_valid (s_dw_cache s1) \<Longrightarrow> s_dw_cache s1 = s_dw_cache s"
  proof (cases fl)
    case True
    obtain rc s' where "internal_flash_flush_dw_cache s = (rc, s')" "flash_frame s s'"
      "write_post p (length data) s s'" "\<not> dw_valid (s_dw_cache s')"
      by (rule flush_contained [OF assms(1), of p "length data"])
    then show ?thesis using True by (intro that [of rc s']) simp_all
  next
    case F: False
    show ?thesis by (rule that [of 0 s]) (use F assms(1) in \<open>simp_all add: write_post_def\<close>)
  qed
  have wf1: "cache_wf s1" using f(3) by (simp add: write_post_def)
  show ?thesis
  proof (cases "frc = 0")
    case F: False
    then show ?thesis
      using False f by (auto simp: internal_flash_program_bytes_def Let_def fl_def)
  next
    case True
    from program_loop_frame [OF wf1 al e8 fuel, of p data "align_down_u32 (?e - 1) 8"]
    obtain rc s' where l: "program_loop (length data div 8 + 3) p data ?e (align_down_u32 (?e - 1) 8)
        (align_down_u32 p 8) s1 = Some (rc, s')" "loop_post (align_down_u32 p 8) ?e s1 s'" by blast
    have "write_post p (length data) s s'"
      using l(2) f(3,4) by (auto simp: write_post_def loop_post_def ue unat_order)
    moreover have "flash_frame s s'" using l(2) f(2) by (auto simp: loop_post_def intro: flash_frame_trans)
    ultimately show ?thesis
      using False True f(1) l(1) by (auto simp: internal_flash_program_bytes_def Let_def fl_def)
  qed
qed

lemma flash_write_contained:
  assumes "cache_wf s" "unat p + length data + 8 \<le> 2 ^ 32"
  shows "\<exists>rc s'. stm32g0xx_flash_write OTA_FLASH_TYPE_INTERNAL p data s = Some (rc, s')
    \<and> flash_frame s s' \<and> write_post p (length data) s s'"
proof -
  obtain ok s2 where un: "HAL_FLASH_Unlock (s\<lparr>fl_primask := True\<rparr>) = (ok, s2)" by fastforce
  then have s2: "s_dw_cache s2 = s_dw_cache s" "fl_mem s2 = fl_mem s" "cache_wf s2"
      "flash_frame (s\<lparr>fl_primask := True\<rparr>) s2"
    using assms(1)
    by (auto simp: HAL_FLASH_Unlock_def wait_done_def cache_wf_def flash_frame_def split: if_splits)
  obtain rc s3 where r: "(if data = [] then Some (internal_flash_flush_dw_cache s2)
      else internal_flash_program_bytes p data s2) = Some (rc, s3)"
    "flash_frame s2 s3" "write_post p (length data) s2 s3"
  proof (cases "data = []")
    case True
    obtain rc s' where "internal_flash_flush_dw_cache s2 = (rc, s')" "flash_frame s2 s'"
      "write_post p (length data) s2 s'" "\<not> dw_valid (s_dw_cache s')"
      by (rule flush_contained [OF s2(3), of p "length data"])
    then show ?thesis using True by (intro that [of rc s']) simp_all
  next
    case False
    then show ?thesis using that program_bytes_contained [OF s2(3) assms(2)] by auto
  qed
  let ?s4 = "flash_irq_exit (fl_primask s) (snd (HAL_FLASH_Lock s3))"
  have "flash_frame s ?s4" "flash_frame s (flash_irq_exit (fl_primask s) s2)"
    using s2(4) r(2)
    by (auto simp: flash_frame_def flash_irq_exit_def HAL_FLASH_Lock_def wait_done_def)
  moreover have "write_post p (length data) s ?s4"
    using r(3) s2(1,2)
    by (simp add: write_post_def cache_wf_def flash_irq_exit_def HAL_FLASH_Lock_def wait_done_def)
  moreover have "write_post p (length data) s (flash_irq_exit (fl_primask s) s2)"
    using s2 by (simp add: write_post_def cache_wf_def flash_irq_exit_def)
  ultimately show ?thesis
    using un r(1) by (cases ok) (auto simp: stm32g0xx_flash_write_def flash_irq_enter_def)
qed
subsection \<open>A failing erase stays inside its pages\<close>

lemma erase_pages_contained:
  assumes "n * 0x800 < 2 ^ 32" "erase_pages n bank idx s = (ok, s')"
  shows "flash_frame s s' \<and> s_dw_cache s' = s_dw_cache s
    \<and> (\<forall>x. n * 0x800 \<le> unat (x - (flash_bank_base_from_bank (fl_bank_size s) bank + idx * FLASH_PAGE_SIZE))
          \<longrightarrow> fl_mem s' x = fl_mem s x)"
  using assms
proof (induction n arbitrary: idx s)
  case 0 then show ?case by simp
next
  case (Suc n)
  let ?b = "flash_bank_base_from_bank (fl_bank_size s) bank + idx * FLASH_PAGE_SIZE"
  show ?case
  proof (cases "wait_ok s \<and> \<not> fl_locked s")
    case False
    then have "s' = wait_done s" using Suc.prems(2) by auto
    then show ?thesis by (simp add: wait_done_def flash_frame_def)
  next
    case True
    let ?s1 = "FLASH_PageErase bank idx (wait_done s)"
    have e: "erase_pages n bank (idx + 1) ?s1 = (ok, s')" using True Suc.prems(2) by simp
    have s1: "flash_frame s ?s1" "s_dw_cache ?s1 = s_dw_cache s" "fl_bank_size ?s1 = fl_bank_size s"
      "fl_mem ?s1 = mem_poke ?b (replicate 0x800 0xFF) (fl_mem s)"
      by (simp_all add: FLASH_PageErase_mem wait_done_def flash_frame_def)
    have b1: "flash_bank_base_from_bank (fl_bank_size s) bank + (idx + 1) * FLASH_PAGE_SIZE
        = ?b + of_nat 0x800" by (simp add: distrib_right)
    have ih: "flash_frame ?s1 s' \<and> s_dw_cache s' = s_dw_cache ?s1
      \<and> (\<forall>x. n * 0x800 \<le> unat (x - (?b + of_nat 0x800)) \<longrightarrow> fl_mem s' x = fl_mem ?s1 x)"
      using Suc.IH [OF _ e] Suc.prems(1) unfolding s1(3) b1 by simp
    have "fl_mem s' x = fl_mem s x" if x: "Suc n * 0x800 \<le> unat (x - ?b)" for x
    proof -
      have "unat (x - (?b + of_nat 0x800)) = unat (x - ?b) - 0x800"
        using x by (intro unat_diff_inside) simp
      then have "fl_mem s' x = fl_mem ?s1 x" using ih x by simp
      also have "\<dots> = fl_mem s x" using x by (simp add: s1(4) mem_poke_other)
      finally show ?thesis .
    qed
    then show ?thesis using ih s1 by (auto intro: flash_frame_trans)
  qed
qed

lemma HAL_erase_contained:
  assumes h: "HAL_FLASHEx_Erase bank page nb s = (ok, s')" and p: "unat page + unat nb < 0x200000"
  shows "flash_frame s s'" "s_dw_cache s' = s_dw_cache s"
    "unat nb * 0x800 \<le> unat (x - (flash_bank_base_from_bank (fl_bank_size s) bank + page * FLASH_PAGE_SIZE))
       \<Longrightarrow> fl_mem s' x = fl_mem s x"
proof -
  have le: "page \<le> page + nb" using p unat_plus_small [of page nb] by (simp add: unat_order)
  have w: "flash_frame s (wait_done s)" "s_dw_cache (wait_done s) = s_dw_cache s"
    "fl_mem (wait_done s) = fl_mem s" "fl_bank_size (wait_done s) = fl_bank_size s"
    by (simp_all add: wait_done_def flash_frame_def)
  have "flash_frame s s' \<and> s_dw_cache s' = s_dw_cache s
    \<and> (\<forall>x. unat nb * 0x800 \<le> unat (x - (flash_bank_base_from_bank (fl_bank_size s) bank + page * FLASH_PAGE_SIZE))
          \<longrightarrow> fl_mem s' x = fl_mem s x)"
  proof (cases "wait_ok s")
    case False
    then have "s' = wait_done s" using h by (simp add: HAL_FLASHEx_Erase_def)
    then show ?thesis using w by simp
  next
    case True
    then have "erase_pages (unat nb) bank page (wait_done s) = (ok, s')"
      using h le by (simp add: HAL_FLASHEx_Erase_def)
    then show ?thesis
      using erase_pages_contained [of "unat nb" bank page "wait_done s" ok s'] p w
      by (auto intro: flash_frame_trans)
  qed
  then show "flash_frame s s'" "s_dw_cache s' = s_dw_cache s"
    "unat nb * 0x800 \<le> unat (x - (flash_bank_base_from_bank (fl_bank_size s) bank + page * FLASH_PAGE_SIZE))
       \<Longrightarrow> fl_mem s' x = fl_mem s x"
    by blast+
qed

lemma erase_loop_contained:
  assumes "bank_ok s" "FLASH_BASE \<le> cur" "unat cur mod 0x800 = 0"
    "unat r mod 0x800 = 0" "unat cur + unat r \<le> 0x08080000" "unat r div 0x800 < n"
  shows "\<exists>ok s'. erase_loop n cur r s = Some (ok, s') \<and> flash_frame s s' \<and> s_dw_cache s' = s_dw_cache s
    \<and> (\<forall>x. unat r \<le> unat (x - cur) \<longrightarrow> fl_mem s' x = fl_mem s x)"
  using assms
proof (induction n arbitrary: cur r s)
  case 0 then show ?case by simp
next
  case (Suc n)
  show ?case
  proof (cases "r = 0")
    case True then show ?thesis by auto
  next
    case False
    from erase_round [OF Suc.prems(1-5) False]
    obtain P bank page where P: "0 < P" "P * 0x800 \<le> unat r" and page: "unat page + P < 0x200000"
      "flash_bank_base_from_bank (fl_bank_size s) bank + page * FLASH_PAGE_SIZE = cur"
      and loop: "erase_loop (Suc n) cur r s =
       (case HAL_FLASHEx_Erase bank page (of_nat P) s of
          (ok, s1) \<Rightarrow> if \<not> ok then Some (False, s1)
            else erase_loop n (cur + of_nat (P * 0x800)) (r - of_nat (P * 0x800)) s1)" by blast
    let ?p = "P * 0x800"
    note adv = erase_advance [OF Suc.prems(2-6) P]
    obtain ok s1 where h: "HAL_FLASHEx_Erase bank page (of_nat P) s = (ok, s1)" by fastforce
    have s1: "flash_frame s s1" "s_dw_cache s1 = s_dw_cache s"
      "\<And>x. ?p \<le> unat (x - cur) \<Longrightarrow> fl_mem s1 x = fl_mem s x"
      using HAL_erase_contained [OF h] page adv(1) by simp_all
    show ?thesis
    proof (cases ok)
      case False
      have "fl_mem s1 x = fl_mem s x" if "unat r \<le> unat (x - cur)" for x
        using that P(2) by (intro s1(3)) simp
      then show ?thesis using loop h s1 False by auto
    next
      case True
      have "\<exists>ok s'. erase_loop n (cur + of_nat ?p) (r - of_nat ?p) s1 = Some (ok, s') \<and> flash_frame s1 s'
        \<and> s_dw_cache s' = s_dw_cache s1
        \<and> (\<forall>x. unat (r - of_nat ?p) \<le> unat (x - (cur + of_nat ?p)) \<longrightarrow> fl_mem s' x = fl_mem s1 x)"
        by (rule Suc.IH) (use Suc.prems(1) s1(1) adv in \<open>simp_all add: bank_ok_def flash_frame_def\<close>)
      then obtain ok' s' where l: "erase_loop n (cur + of_nat ?p) (r - of_nat ?p) s1 = Some (ok', s')"
        "flash_frame s1 s'" "s_dw_cache s' = s_dw_cache s1"
        "\<And>x. unat r - ?p \<le> unat (x - (cur + of_nat ?p)) \<Longrightarrow> fl_mem s' x = fl_mem s1 x"
        unfolding adv(2) by blast
      have "fl_mem s' x = fl_mem s x" if x: "unat r \<le> unat (x - cur)" for x
      proof -
        have "unat (x - (cur + of_nat ?p)) = unat (x - cur) - ?p"
          using x P(2) by (intro unat_diff_inside) simp
        then have "fl_mem s' x = fl_mem s1 x" using x by (intro l(4)) simp
        also have "\<dots> = fl_mem s x" using x P(2) by (intro s1(3)) simp
        finally show ?thesis .
      qed
      then show ?thesis using loop h True l s1 by (auto intro: flash_frame_trans)
    qed
  qed
qed

end
