(* ===== verification/Stm32_Crc.thy ===== *)
theory Stm32_Crc
  imports Stm32_Flash
begin

text \<open>
  The CRC unit behind the HAL driver: feeding it words, half words and bytes, as
  \<open>CRC_Handle_8\<close> does for speed, gives the byte-serial checksum.
\<close>

unbundle bit_operations_syntax

lemma bit_crc32_shift:
  "bit (crc32_shift c) n \<longleftrightarrow>
     (1 \<le> n \<and> n < 32 \<and> bit c (n - 1)) \<noteq> (bit c 31 \<and> bit (0x04C11DB7::u32) n)"
  unfolding crc32_shift_def
  by (cases "bit c 31")
     (simp_all only: if_True if_False bit_xor_iff bit_push_bit_iff simp_thms
        possible_bit_word, simp_all)

lemma crc32_shift_xor: "crc32_shift (a XOR b) = crc32_shift a XOR crc32_shift b"
  by (rule bit_word_eqI) (auto simp: bit_crc32_shift bit_xor_iff)

lemma crc32_bits_xor: "crc32_bits n (a XOR b) = crc32_bits n a XOR crc32_bits n b"
  by (induction n arbitrary: a b) (simp_all add: crc32_shift_xor)

lemma crc32_bits_add: "crc32_bits (m + n) c = crc32_bits n (crc32_bits m c)"
  by (induction m arbitrary: c) simp_all

lemma crc32_bits_small:
  "n \<le> 32 \<Longrightarrow> (\<And>i. 32 - n \<le> i \<Longrightarrow> \<not> bit x i) \<Longrightarrow> crc32_bits n x = push_bit n x"
proof (induction n arbitrary: x)
  case 0 then show ?case by simp
next
  case (Suc n)
  have "\<not> bit x 31" using Suc.prems by simp
  then have s: "crc32_shift x = push_bit 1 x" by (simp add: crc32_shift_def)
  have nb: "\<not> bit (push_bit 1 x) i" if "32 - n \<le> i" for i
    using Suc.prems(2) [of "i - 1"] Suc.prems(1) that unfolding bit_push_bit_iff by auto
  have "crc32_bits n (push_bit 1 x) = push_bit n (push_bit 1 x)"
    using Suc.prems(1) nb by (intro Suc.IH) simp_all
  then show ?case by (simp only: crc32_bits.simps s push_bit_push_bit One_nat_def add_Suc_right add_0_right)
qed

lemma crc_write8_after:
  assumes "n \<le> 24"
  shows "crc_write8 (crc32_bits n c) b = crc32_bits (n + 8) (c XOR push_bit (24 - n) (ucast b))"
proof -
  have nb: "\<not> bit (push_bit (24 - n) (ucast b) :: u32) i" if "32 - n \<le> i" for i
    using that assms bit_imp_le_length [of b "i - (24 - n)"] by (auto simp: bit_simps)
  have "crc32_bits n (push_bit (24 - n) (ucast b)) = push_bit 24 (ucast b)"
    using crc32_bits_small [OF _ nb] assms by (simp add: push_bit_push_bit)
  then show ?thesis
    by (simp add: crc_write8_def crc32_bits_add crc32_bits_xor)
qed

lemma crc_write16_bytes:
  "crc_write16 c (push_bit 8 (ucast a) OR ucast b) = crc_write8 (crc_write8 c a) b"
proof -
  have w: "push_bit 16 (ucast (push_bit 8 (ucast a) OR ucast b :: u16)) = push_bit 24 (ucast a) XOR push_bit 16 (ucast b :: u32)"
    by (rule bit_word_eqI) (auto simp: bit_simps dest: bit_imp_le_length)
  have "crc_write8 (crc_write8 c a) b = crc_write8 (crc32_bits 8 (c XOR push_bit 24 (ucast a))) b"
    by (simp add: crc_write8_def)
  also have "\<dots> = crc32_bits 16 (c XOR push_bit 24 (ucast a) XOR push_bit 16 (ucast b))"
    using crc_write8_after [of 8] by (simp add: xor.assoc)
  finally show ?thesis by (simp add: crc_write16_def w xor.assoc)
qed

lemma crc_write32_bytes:
  "crc_write32 c (push_bit 24 (ucast w) OR push_bit 16 (ucast x) OR push_bit 8 (ucast y) OR ucast z)
     = crc_write8 (crc_write8 (crc_write8 (crc_write8 c w) x) y) z"
proof -
  have o: "push_bit 24 (ucast w) OR push_bit 16 (ucast x) OR push_bit 8 (ucast y) OR ucast z
      = push_bit 24 (ucast w) XOR push_bit 16 (ucast x) XOR push_bit 8 (ucast y) XOR (ucast z :: u32)"
    by (rule bit_word_eqI) (auto simp: bit_simps dest: bit_imp_le_length)
  have "crc_write8 (crc_write8 (crc_write8 (crc_write8 c w) x) y) z
      = crc_write8 (crc_write8 (crc_write8 (crc32_bits 8 (c XOR push_bit 24 (ucast w))) x) y) z"
    by (simp add: crc_write8_def)
  also have "\<dots> = crc32_bits 32 (c XOR push_bit 24 (ucast w) XOR push_bit 16 (ucast x)
      XOR push_bit 8 (ucast y) XOR ucast z)"
    using crc_write8_after [of 8] crc_write8_after [of 16] crc_write8_after [of 24] by (simp add: xor.assoc)
  finally show ?thesis by (simp add: crc_write32_def o xor.assoc)
qed

lemma CRC_Handle_8_bytewise: "CRC_Handle_8 data dr = foldl crc_write8 dr data"
  by (induction data dr rule: CRC_Handle_8.induct)
     (simp_all add: crc_write16_bytes crc_write32_bytes)

end
