(* ===== verification/Stm32_Driver.thy ===== *)
theory Stm32_Driver
  imports Stm32_Contain Stm32_Crc Flash_Driver
begin

text \<open>
  The flash port implements the contract of \<open>Flash_Driver\<close>, and the
  properties of the port itself.
\<close>

definition stm_idle :: "stm32 \<Rightarrow> bool" where
  "stm_idle s \<longleftrightarrow> \<not> dw_valid (s_dw_cache s)"

text \<open>No flash operation is going to fail, and the application has not been entered.\<close>

definition stm_healthy :: "stm32 \<Rightarrow> bool" where
  "stm_healthy s \<longleftrightarrow> fl_waits s = [] \<and> bank_ok s \<and> cpu_app s = None"

text \<open>A board just out of reset, with the given flash contents.\<close>

definition board :: "(u32 \<Rightarrow> byte) \<Rightarrow> stm32" where
  "board m = \<lparr>fl_mem = m, fl_bank_size = 0x40000, fl_waits = [], fl_locked = True,
     fl_primask = False, s_dw_cache = dw_cleared, crc_dr = 0xFFFFFFFF, cpu_app = None\<rparr>"

lemma stm_healthy_frame:
  "stm_healthy s \<Longrightarrow> flash_frame s s' \<Longrightarrow> fl_waits s' = [] \<Longrightarrow> stm_healthy s'"
  by (simp add: stm_healthy_def flash_frame_def bank_ok_def)

lemma stm32_crc32_cong:
  "fl_mem (snd (stm32g0xx_crc32 m d s)) = fl_mem s"
  "s_dw_cache (snd (stm32g0xx_crc32 m d s)) = s_dw_cache s"
  "fl_waits (snd (stm32g0xx_crc32 m d s)) = fl_waits s"
  "fl_bank_size (snd (stm32g0xx_crc32 m d s)) = fl_bank_size s"
  "cpu_app (snd (stm32g0xx_crc32 m d s)) = cpu_app s"
  by (simp_all add: stm32g0xx_crc32_def HAL_CRC_Calculate_def HAL_CRC_Accumulate_def Let_def)

lemma page_mod8: "x mod 0x800 = 0 \<Longrightarrow> x mod 8 = (0 :: nat)"
  using mod_mod_cancel [of 8 "0x800" x] by simp

interpretation stm: flash_driver
  "stm32g0xx_flash_read OTA_FLASH_TYPE_INTERNAL" "stm32g0xx_flash_write OTA_FLASH_TYPE_INTERNAL"
  "stm32g0xx_flash_erase OTA_FLASH_TYPE_INTERNAL" stm32g0xx_crc32
  fl_mem flash_view stm_idle stm_healthy stream in_flash crc_dr crc_write8 "0xFFFFFFFF"
proof
  fix a n assume "in_flash a n"
  then show "unat a mod 8 = 0 \<and> unat n mod 8 = 0 \<and> unat a + unat n < 2 ^ 32"
    by (simp add: in_flash_def page_mod8)
next
  fix a k and w :: stm32
  show "stm32g0xx_flash_read OTA_FLASH_TYPE_INTERNAL a k w
      = (0, map (\<lambda>j. fl_mem w (a + word_of_nat j)) [0..<k])"
    by (simp add: stm32g0xx_flash_read_def)
next
  fix w :: stm32 and a n :: u32 assume w: "stm_healthy w" "in_flash a n" "n \<noteq> 0"
  from flash_erase_ok [OF _ _ w(2,3), of w] w(1)
  show "\<exists>w'. stm32g0xx_flash_erase OTA_FLASH_TYPE_INTERNAL a n w = Some (0, w') \<and> stm_healthy w'
      \<and> stm_idle w' \<and> fl_mem w' = mem_poke a (replicate (unat n) 0xFF) (fl_mem w)"
    using stm_healthy_frame [OF w(1)] by (auto simp: stm_healthy_def stm_idle_def)
next
  fix w :: stm32 and lim p :: u32 and d :: "byte list"
  assume w: "stm_healthy w" "stream lim p w" "d \<noteq> []" "unat p + length d \<le> unat lim"
  from flash_write_stream [OF _ w(2-4)] w(1)
  show "\<exists>w'. stm32g0xx_flash_write OTA_FLASH_TYPE_INTERNAL p d w = Some (0, w') \<and> stm_healthy w'
      \<and> stream lim (p + of_nat (length d)) w' \<and> flash_view w' = mem_poke p d (flash_view w)"
    using stm_healthy_frame [OF w(1)] by (auto simp: stm_healthy_def)
next
  fix w :: stm32 and lim p a :: u32 assume w: "stm_healthy w" "stream lim p w"
  from flash_flush_stream [OF _ w(2), of a] w(1)
  show "\<exists>w'. stm32g0xx_flash_write OTA_FLASH_TYPE_INTERNAL a [] w = Some (0, w') \<and> stm_healthy w'
      \<and> stm_idle w' \<and> fl_mem w' = flash_view w"
    using stm_healthy_frame [OF w(1)] by (auto simp: stm_healthy_def stm_idle_def)
next
  fix w :: stm32 assume "stm_idle w" then show "flash_view w = fl_mem w"
    by (simp add: stm_idle_def flash_view_def)
next
  fix w :: stm32 and p lim :: u32
  assume "stm_idle w" "p \<le> lim" "unat p mod 8 = 0" "unat lim mod 8 = 0"
    "\<And>a. p \<le> a \<Longrightarrow> a < lim \<Longrightarrow> fl_mem w a = 0xFF"
  then show "stream lim p w" by (simp add: stream_def stm_idle_def align8_id)
next
  fix lim p x :: u32 and w :: stm32 assume "stream lim p w" "fl_mem w x \<noteq> flash_view w x"
  then show "unat p - unat p mod 8 \<le> unat x \<and> x < p" by (rule stream_view)
next
  fix d and w :: stm32 assume "d \<noteq> ([] :: byte list)"
  then show "fst (stm32g0xx_crc32 0 d w) = foldl crc_write8 0xFFFFFFFF d"
    by (simp add: stm32g0xx_crc32_def HAL_CRC_Calculate_def CRC_Handle_8_bytewise Let_def)
next
  fix d and w :: stm32 assume "d \<noteq> ([] :: byte list)"
  then show "fst (stm32g0xx_crc32 1 d w) = foldl crc_write8 (crc_dr w) d"
    by (simp add: stm32g0xx_crc32_def HAL_CRC_Accumulate_def CRC_Handle_8_bytewise Let_def)
next
  fix m d and w :: stm32 assume "d \<noteq> ([] :: byte list)"
  then show "crc_dr (snd (stm32g0xx_crc32 m d w)) = fst (stm32g0xx_crc32 m d w)"
    by (simp add: stm32g0xx_crc32_def HAL_CRC_Calculate_def HAL_CRC_Accumulate_def Let_def)
next
  fix m d lim p and w :: stm32
  let ?w = "snd (stm32g0xx_crc32 m d w)"
  show "fl_mem ?w = fl_mem w" by (rule stm32_crc32_cong)
  show "flash_view ?w = flash_view w" "stm_idle ?w = stm_idle w" "stm_healthy ?w = stm_healthy w"
    "stream lim p ?w = stream lim p w"
    by (simp_all add: flash_view_def stm_idle_def stm_healthy_def bank_ok_def stream_def stm32_crc32_cong)
qed

subsection \<open>Properties of the port\<close>

text \<open>C18: after an erase of whole pages, any sequence of writes that continue one
  another, in pieces of any length, followed by a flush, succeeds and leaves
  exactly the concatenated bytes, although every double word is programmed only
  once; no byte outside the erased pages changes.\<close>

theorem flash_stream_exact:
  assumes "stm_healthy s" "in_flash a n" "n \<noteq> 0" "[] \<notin> set ds" "length (concat ds) \<le> unat n"
  shows "\<exists>s1 s2. stm32g0xx_flash_erase OTA_FLASH_TYPE_INTERNAL a n s = Some (0, s1)
    \<and> write_all (stm32g0xx_flash_write OTA_FLASH_TYPE_INTERNAL) a ds s1 = Some (0, s2)
    \<and> stm32g0xx_flash_read OTA_FLASH_TYPE_INTERNAL a (length (concat ds)) s2 = (0, concat ds)
    \<and> (\<forall>x. unat n \<le> unat (x - a) \<longrightarrow> fl_mem s2 x = fl_mem s x)"
proof -
  from stm.er_ok [OF assms(1-3)]
  obtain s1 where s1: "stm32g0xx_flash_erase OTA_FLASH_TYPE_INTERNAL a n s = Some (0, s1)"
    "stm_healthy s1" "stm_idle s1" "fl_mem s1 = mem_poke a (replicate (unat n) 0xFF) (fl_mem s)" by blast
  have "stream (a + n) a s1" by (rule stm.stream_after_erase [OF assms(2) s1(3,4)])
  from stm.write_all_ok [OF s1(2) this assms(4)] stm.room_end [OF assms(2)] assms(5)
  obtain s2 where s2: "write_all (stm32g0xx_flash_write OTA_FLASH_TYPE_INTERNAL) a ds s1 = Some (0, s2)"
    "fl_mem s2 = mem_poke a (concat ds) (flash_view s1)" by auto
  have "length (concat ds) \<le> 2 ^ 32" using assms(5) unat_lt32 [of n] by linarith
  then have "stm32g0xx_flash_read OTA_FLASH_TYPE_INTERNAL a (length (concat ds)) s2 = (0, concat ds)"
    by (rule stm.read_back [OF s2(2)])
  moreover have "fl_mem s2 x = fl_mem s x" if "unat n \<le> unat (x - a)" for x
    using that assms(5) by (simp add: s2(2) stm.idle_view [OF s1(3)] s1(4) mem_poke_other)
  ultimately show ?thesis using s1(1) s2(1) by blast
qed

theorem flash_stream_exact_witness:
  "\<exists>s1 s2. stm32g0xx_flash_erase OTA_FLASH_TYPE_INTERNAL 0x08010000 0x800 (board (\<lambda>_. 0)) = Some (0, s1)
    \<and> write_all (stm32g0xx_flash_write OTA_FLASH_TYPE_INTERNAL) 0x08010000 [[1, 2, 3], [4], [5, 6, 7, 8, 9]] s1
        = Some (0, s2)
    \<and> stm32g0xx_flash_read OTA_FLASH_TYPE_INTERNAL 0x08010000 9 s2 = (0, [1, 2, 3, 4, 5, 6, 7, 8, 9])"
proof -
  let ?ds = "[[1, 2, 3], [4], [5, 6, 7, 8, 9]] :: byte list list"
  let ?l = "[1, 2, 3, 4, 5, 6, 7, 8, 9] :: byte list"
  have l: "concat ?ds = ?l" "length ?l = 9" by simp_all
  have b: "stm_healthy (board (\<lambda>_. 0))" "in_flash 0x08010000 0x800"
    by (simp_all add: stm_healthy_def board_def bank_ok_def in_flash_def)
  have "(0x800 :: u32) \<noteq> 0" "[] \<notin> set ?ds" "length (concat ?ds) \<le> unat (0x800 :: u32)" by simp_all
  from flash_stream_exact [OF b this] show ?thesis unfolding l by blast
qed

text \<open>C19: whatever the flash controller reports, a write call returns, restores the
  interrupt mask and the other registers, and changes no byte outside the double
  words of its range and the one that was pending.\<close>

theorem flash_write_safe:
  assumes "length (dw_buf (s_dw_cache s)) = 8" "unat p + length data + 8 \<le> 2 ^ 32"
  shows "\<exists>rc s'. stm32g0xx_flash_write OTA_FLASH_TYPE_INTERNAL p data s = Some (rc, s')
    \<and> fl_primask s' = fl_primask s \<and> length (dw_buf (s_dw_cache s')) = 8
    \<and> (\<forall>x. (x < align_down_u32 p 8 \<or> unat p + length data + 7 \<le> unat x)
          \<and> (dw_valid (s_dw_cache s) \<longrightarrow> 8 \<le> unat (x - dw_addr_aligned (s_dw_cache s)))
          \<longrightarrow> fl_mem s' x = fl_mem s x)"
  using flash_write_contained [of s p data] assms
  by (fastforce simp: cache_wf_def flash_frame_def write_post_def)

theorem flash_write_safe_witness:
  "\<exists>rc s'. stm32g0xx_flash_write OTA_FLASH_TYPE_INTERNAL 0x08010003 [1, 2]
       ((board (\<lambda>_. 0xFF))\<lparr>fl_waits := [True, False]\<rparr>) = Some (rc, s')
    \<and> fl_primask s' = False \<and> fl_mem s' 0x08010010 = 0xFF"
  using flash_write_safe [of "(board (\<lambda>_. 0xFF))\<lparr>fl_waits := [True, False]\<rparr>" "0x08010003" "[1, 2]"]
  by (fastforce simp: board_def dw_cleared_def)

text \<open>C20: the CRC driver computes the byte-serial checksum of the whole data, however
  the data is cut into calls and whatever mix of word, half-word and byte writes
  the driver uses.\<close>

theorem crc_chunks_bytewise:
  assumes "d \<noteq> []" "[] \<notin> set ds"
  shows "fst (foldl (\<lambda>(_, s) c. stm32g0xx_crc32 1 c s) (stm32g0xx_crc32 0 d s) ds)
    = foldl crc_write8 0xFFFFFFFF (concat (d # ds))"
proof -
  have "fst (foldl (\<lambda>(_, s) c. stm32g0xx_crc32 1 c s) (v, t) ds) = foldl crc_write8 v (concat ds)"
    if "[] \<notin> set ds" "crc_dr t = v" for v and t :: stm32 and ds
    using that
  proof (induction ds arbitrary: v t)
    case Nil then show ?case by simp
  next
    case (Cons c ds)
    obtain v1 t1 where r: "stm32g0xx_crc32 1 c t = (v1, t1)" by fastforce
    have "crc_dr t1 = v1" "v1 = foldl crc_write8 v c"
      using stm.crc_reg [of c 1 t] stm.crc_next [of c t] Cons.prems r by auto
    then show ?case using Cons.IH [of t1 v1] Cons.prems(1) r by simp
  qed
  moreover obtain v1 t1 where r: "stm32g0xx_crc32 0 d s = (v1, t1)" by fastforce
  moreover have "crc_dr t1 = v1" "v1 = foldl crc_write8 0xFFFFFFFF d"
    using stm.crc_reg [of d 0 s] stm.crc_reset [of d s] assms(1) r by auto
  ultimately show ?thesis using assms(2) by simp
qed

theorem crc_chunks_bytewise_witness:
  "fst (foldl (\<lambda>(_, s) c. stm32g0xx_crc32 1 c s) (stm32g0xx_crc32 0 [1, 2, 3] (board (\<lambda>_. 0))) [[4, 5], [6]])
    = foldl crc_write8 0xFFFFFFFF [1, 2, 3, 4, 5, 6]"
  using crc_chunks_bytewise [of "[1, 2, 3]" "[[4, 5], [6]]" "board (\<lambda>_. 0)"] by simp

lemma erase_loop_stuck:
  assumes "fl_bank_size s = 0x40000" "fl_waits s = []" "r \<noteq> 0"
  shows "erase_loop n 0x08080000 r s = None"
proof (induction n)
  case (Suc n)
  have w: "wait_ok s" "wait_done s = s" using assms(2) by (simp_all add: wait_ok_def wait_done_def)
  show ?case
    using Suc assms w
    by (cases "r div FLASH_PAGE_SIZE = 0")
       (simp_all add: Let_def flash_bank_from_address_def flash_bank_base_from_bank_def
         HAL_FLASHEx_Erase_def word_greater_zero_iff)
qed simp

text \<open>On a part with two banks, an erase that runs past the end of the flash array
  never returns, and interrupts stay masked: the loop comes to a position where
  it can erase no page and asks for none for ever.\<close>

theorem flash_erase_past_end_hangs:
  assumes "fl_bank_size s = 0x40000" "fl_waits s = []" "n \<noteq> 0" "unat n mod 0x800 = 0"
    "unat n \<le> 0x08080000"
  shows "stm32g0xx_flash_erase OTA_FLASH_TYPE_INTERNAL 0x08080000 n s = None"
proof -
  have ad: "align_down_u32 0x08080000 FLASH_PAGE_SIZE = 0x08080000" by (simp add: align_down_u32_def)
  have au: "align_up_u32 n FLASH_PAGE_SIZE = n" using assms(4,5) by (rule align_up_id)
  obtain ok s2 where un: "HAL_FLASH_Unlock ((flash_dw_cache_clear s)\<lparr>fl_primask := True\<rparr>) = (ok, s2)" by fastforce
  then have s2: "ok" "fl_bank_size s2 = 0x40000" "fl_waits s2 = []"
    using assms(1,2)
    by (auto simp: HAL_FLASH_Unlock_def wait_ok_def wait_done_def flash_dw_cache_clear_def split: if_splits)
  then show ?thesis
    using un assms(3) erase_loop_stuck [OF s2(2,3) assms(3)]
    by (simp add: stm32g0xx_flash_erase_def flash_erase_internal_pages_def Let_def flash_irq_enter_def ad au
        del: erase_loop.simps)
qed

end
