(* ===== verification/Ota_Board.thy ===== *)
theory Ota_Board
  imports Ota_Boot Stm32_Driver
begin

text \<open>
  The OTA module on the board: the platform configuration of the flash port, and
  the module's properties there.
\<close>

definition ota_module_platform_config :: "stm32 ota_module_config" where
  "ota_module_platform_config = \<lparr>cfg_record_flash_type = OTA_FLASH_TYPE_INTERNAL,
     cfg_record_addr = OTA_PLATFORM_RECORD_ADDR,
     cfg_flash_start_addr = [OTA_PLATFORM_FLASH_BASE, 0, 0],
     cfg_flash_size = [OTA_PLATFORM_FLASH_SIZE, 0, 0],
     cfg_flash_sector_size = [FLASH_PAGE_SIZE, 0, 0],
     cfg_flash_read_func = Some stm32g0xx_flash_read,
     cfg_flash_write_func = Some stm32g0xx_flash_write,
     cfg_flash_erase_func = Some stm32g0xx_flash_erase,
     cfg_crc32_func = Some stm32g0xx_crc32,
     cfg_jump_func = Some stm32g0xx_jump\<rparr>"

text \<open>The configuration the module holds once it has accepted that one.\<close>

definition platform_cfg :: "stm32 ota_config" where
  "platform_cfg = \<lparr>record_flash_type = OTA_FLASH_TYPE_INTERNAL, record_addr = OTA_PLATFORM_RECORD_ADDR,
     flash_start_addr = [OTA_PLATFORM_FLASH_BASE, 0, 0], flash_size = [OTA_PLATFORM_FLASH_SIZE, 0, 0],
     flash_sector_size = [FLASH_PAGE_SIZE, 0, 0], flash_read_func = stm32g0xx_flash_read,
     flash_write_func = stm32g0xx_flash_write, flash_erase_func = stm32g0xx_flash_erase,
     crc32_func = stm32g0xx_crc32, jump_func = stm32g0xx_jump\<rparr>"

text \<open>The CRC unit's checksum of a byte string, from its reset value.\<close>

definition hw_crc :: "byte list \<Rightarrow> u32" where
  "hw_crc = foldl crc_write8 0xFFFFFFFF"

definition board_ready :: "stm32 ota \<Rightarrow> bool" where
  "board_ready s \<longleftrightarrow> g_inited s \<and> g_cfg s = platform_cfg \<and> stm_healthy (g_world s)"

definition board_record :: "stm32 ota \<Rightarrow> ota_record_info \<Rightarrow> bool" where
  "board_record s r \<longleftrightarrow> holds_record hw_crc (fl_mem (g_world s)) OTA_PLATFORM_RECORD_ADDR r"

text \<open>The one application slot of the board, in a given state.\<close>

definition app_slot :: "byte \<Rightarrow> u32 \<Rightarrow> ota_app_info" where
  "app_slot st n = \<lparr>ai_status = st, ai_verify_count = n, ai_flash_type = OTA_FLASH_TYPE_INTERNAL,
     ai_flash_addr = OTA_PLATFORM_APP1_ADDR, ai_flash_size = OTA_PLATFORM_APP_PARTITION_SIZE\<rparr>"

definition slot_record :: "byte \<Rightarrow> u32 \<Rightarrow> u32 \<Rightarrow> ota_record_info" where
  "slot_record st n flag = seal hw_crc \<lparr>ri_magic = OTA_INFO_MAGIC, ri_ota_app_info = [app_slot st n],
     ri_boot_ymodem_flag = flag, ri_info_crc32 = 0\<rparr>"

text \<open>A package header the module accepts for the slot: the image starts behind the
  header and the whole fits.\<close>

definition good_header :: "ota_package_header \<Rightarrow> bool" where
  "good_header h \<longleftrightarrow> wf_header h \<and> ph_magic h = OTA_PACKAGE_MAGIC
     \<and> ph_header_crc32 h = hw_crc (take (sizeof_header - 4) (hdr56_bytes h))
     \<and> unat (ph_app_offset h) + unat (ph_app_size h) \<le> unat OTA_PLATFORM_APP_PARTITION_SIZE
     \<and> ph_app_offset h < OTA_PLATFORM_APP_PARTITION_SIZE
     \<and> 0 < unat (ph_app_offset h) + unat (ph_app_size h)"

text \<open>Reset: the static variables are cleared, the flash keeps its contents.  The
  configuration is never read before initialisation.\<close>

definition ota_reset :: "(u32 \<Rightarrow> byte) \<Rightarrow> stm32 ota" where
  "ota_reset m = \<lparr>g_cfg = platform_cfg, g_inited = False, g_dl = zero_session, g_world = board m\<rparr>"

definition power_on :: "(u32 \<Rightarrow> byte) \<Rightarrow> (ota_module_err \<times> stm32 ota) option" where
  "power_on m = do {
     (e, s) \<leftarrow> ota_module_init (Some ota_module_platform_config) (ota_reset m);
     if e \<noteq> OTA_MODULE_ERR_OK then Some (e, s) else ota_module_boot_preprocess s
   }"

text \<open>The address at which the application was entered, if it was.\<close>

definition entered :: "stm32 \<Rightarrow> u32 option" where
  "entered w = map_option fst (cpu_app w)"

subsection \<open>The board implements the platform contract\<close>

interpretation board_ota: ota_platform
  "stm32g0xx_flash_read OTA_FLASH_TYPE_INTERNAL" "stm32g0xx_flash_write OTA_FLASH_TYPE_INTERNAL"
  "stm32g0xx_flash_erase OTA_FLASH_TYPE_INTERNAL" stm32g0xx_crc32
  fl_mem flash_view stm_idle stm_healthy stream in_flash crc_dr crc_write8 "0xFFFFFFFF"
  platform_cfg FLASH_PAGE_SIZE
proof unfold_locales
  show "in_flash (record_addr platform_cfg) FLASH_PAGE_SIZE"
    by (simp add: in_flash_def platform_cfg_def)
  show "unat a mod unat FLASH_PAGE_SIZE = 0" if "in_flash a n" for a n
    using that by (simp add: in_flash_def)
qed (simp_all add: platform_cfg_def stm32g0xx_flash_read_def)

lemma config_checked_platform: "config_checked ota_module_platform_config = Some platform_cfg"
  by (simp add: config_checked_def ota_module_platform_config_def platform_cfg_def)

lemma record_addr_platform [simp]: "record_addr platform_cfg = OTA_PLATFORM_RECORD_ADDR"
  and jump_platform [simp]: "jump_func platform_cfg = stm32g0xx_jump"
  by (simp_all add: platform_cfg_def)

text \<open>The lemmas of the contract, for the board.\<close>

lemmas board_init = board_ota.init_ok [folded hw_crc_def, unfolded record_addr_platform]
lemmas board_boot = board_ota.boot_ok [folded hw_crc_def, unfolded record_addr_platform jump_platform]
lemmas board_store = board_ota.record_store_ok [folded hw_crc_def, unfolded record_addr_platform]
lemmas board_load = board_ota.record_load_ok [folded hw_crc_def, unfolded record_addr_platform]
lemmas board_start = board_ota.start_ok [folded hw_crc_def, unfolded record_addr_platform]
lemmas board_chunks = board_ota.chunks_ok [folded hw_crc_def, unfolded record_addr_platform]
lemmas board_update = board_ota.update_run [folded hw_crc_def, unfolded record_addr_platform]
lemmas board_abort = board_ota.abort_ok [folded hw_crc_def, unfolded record_addr_platform]
lemmas board_verify = board_ota.mark_verified_ok [folded hw_crc_def, unfolded record_addr_platform]

lemma ready_board: "board_ready s \<longleftrightarrow> ota_ready platform_cfg stm_healthy s"
  by (simp add: board_ready_def ota_ready_def)

lemma slot_record_simps [simp]:
  "ri_ota_app_info (slot_record st n f) = [app_slot st n]" "wf_record (slot_record st n f)"
  by (simp_all add: slot_record_def wf_record_def)

lemma seal_set_slot_record [simp]:
  "seal hw_crc (set_slot 0 st' n' (slot_record st n f)) = slot_record st' n' f"
  by (simp add: slot_record_def seal_def set_slot_def app_slot_def Let_def record_prefix wf_record_single)

lemma app_area_apart:
  assumes "unat (x - OTA_PLATFORM_APP1_ADDR) < n" "n \<le> 0x70000"
  shows "0x800 \<le> unat (x - OTA_PLATFORM_RECORD_ADDR)"
proof -
  have "unat (x - OTA_PLATFORM_APP1_ADDR + 0x2000) = unat (x - OTA_PLATFORM_APP1_ADDR) + unat (0x2000 :: u32)"
    using assms by (intro unat_plus_small) simp
  then show ?thesis by simp
qed

lemma good_header_fits:
  assumes "good_header h"
  shows "package_fits h (app_slot st n)"
    "board_ota.target (app_slot st n) (ph_app_offset h + ph_app_size h)
       (align_up (ph_app_offset h + ph_app_size h) FLASH_PAGE_SIZE)"
    "unat (ph_app_offset h + ph_app_size h) = unat (ph_app_offset h) + unat (ph_app_size h)"
    "unat (align_up (ph_app_offset h + ph_app_size h) FLASH_PAGE_SIZE) \<le> 0x70000"
proof -
  let ?t = "ph_app_offset h + ph_app_size h"
  have b: "unat (ph_app_offset h) + unat (ph_app_size h) \<le> 0x70000" using assms by (simp add: good_header_def)
  show t: "unat ?t = unat (ph_app_offset h) + unat (ph_app_size h)"
    using b by (intro unat_plus_small) simp
  then show "package_fits h (app_slot st n)"
    using assms by (simp add: package_fits_def app_slot_def good_header_def unat_order)
  have u: "unat (align_up ?t FLASH_PAGE_SIZE) = (unat ?t + 0x7FF) div 0x800 * 0x800"
    using unat_align_up [of FLASH_PAGE_SIZE ?t] b t by simp
  have "(unat ?t + 0x7FF) div 0x800 \<le> (0x70000 + 0x7FF) div 0x800"
    using b t by (intro div_le_mono) simp
  then show le: "unat (align_up ?t FLASH_PAGE_SIZE) \<le> 0x70000" unfolding u by simp
  have ge: "unat ?t \<le> unat (align_up ?t FLASH_PAGE_SIZE)"
    unfolding u using div_mod_decomp [of "unat ?t + 0x7FF" "0x800"] mod_less_divisor [of "0x800" "unat ?t + 0x7FF"]
    by linarith
  then have nz: "align_up ?t FLASH_PAGE_SIZE \<noteq> 0"
    using assms t by (auto simp: good_header_def)
  show "board_ota.target (app_slot st n) ?t (align_up ?t FLASH_PAGE_SIZE)"
    using le ge nz u app_area_apart [OF _ le]
    by (simp add: board_ota.target_def app_slot_def in_flash_def)
qed

text \<open>Start-up on any flash contents.\<close>

lemma board_healthy [simp]: "stm_healthy (board m)"
  by (simp add: stm_healthy_def board_def bank_ok_def)

lemma board_mem [simp]: "fl_mem (board m) = m"
  by (simp add: board_def)

lemma wf_effective: "wf_record (effective_record f m p)"
  by (auto simp: effective_record_def stored_record_def Let_def split: option.splits if_splits)

lemma power_on_ok:
  assumes r: "r = effective_record hw_crc m OTA_PLATFORM_RECORD_ADDR" "ri_ota_app_info r = [a]"
  shows "\<exists>e s. power_on m = Some (e, s)
    \<and> stored_record hw_crc (fl_mem (g_world s)) OTA_PLATFORM_RECORD_ADDR
        = Some (seal hw_crc (r\<lparr>ri_ota_app_info := [snd (boot_spec a)]\<rparr>))
    \<and> (\<forall>x. 0x800 \<le> unat (x - OTA_PLATFORM_RECORD_ADDR) \<longrightarrow> fl_mem (g_world s) x = m x)
    \<and> (if \<not> fst (boot_spec a) then e = OTA_MODULE_ERR_NO_BOOT_CANDIDATE \<and> entered (g_world s) = None
       else let entry = entry_of hw_crc (fl_mem (g_world s)) a in
         if entry = 0 then e = OTA_MODULE_ERR_JUMP_FAILED \<and> entered (g_world s) = None
         else e = OTA_MODULE_ERR_OK \<and> entered (g_world s) = Some entry)"
proof -
  obtain w1 where i: "ota_module_init (Some ota_module_platform_config) (ota_reset m)
      = Some (OTA_MODULE_ERR_OK, (ota_reset m)\<lparr>g_cfg := platform_cfg, g_inited := True, g_dl := zero_session, g_world := w1\<rparr>)"
    and w1: "stm_healthy w1" "holds_record hw_crc (fl_mem w1) OTA_PLATFORM_RECORD_ADDR r"
      "\<forall>x. 0x800 \<le> unat (x - OTA_PLATFORM_RECORD_ADDR) \<longrightarrow> fl_mem w1 x = m x"
    using board_init [OF config_checked_platform, of "ota_reset m"] r(1)
    by (auto simp: ota_reset_def board_mem)
  let ?s = "(ota_reset m)\<lparr>g_cfg := platform_cfg, g_inited := True, g_dl := zero_session, g_world := w1\<rparr>"
  obtain w2 where b: "ota_module_boot_preprocess ?s = Some
      (if fst (boot_spec a)
       then case stm32g0xx_jump (entry_of hw_crc (fl_mem w2) a) w2 of
         (rc, w) \<Rightarrow> (if rc \<noteq> 0 then OTA_MODULE_ERR_JUMP_FAILED else OTA_MODULE_ERR_OK, ?s\<lparr>g_world := w\<rparr>)
       else (OTA_MODULE_ERR_NO_BOOT_CANDIDATE, ?s\<lparr>g_world := w2\<rparr>))"
    and w2: "stm_healthy w2" "holds_record hw_crc (fl_mem w2) OTA_PLATFORM_RECORD_ADDR
        (seal hw_crc (r\<lparr>ri_ota_app_info := [snd (boot_spec a)]\<rparr>))"
      "\<forall>x. 0x800 \<le> unat (x - OTA_PLATFORM_RECORD_ADDR) \<longrightarrow> fl_mem w2 x = fl_mem w1 x"
    using board_boot [of ?s r a] w1(1,2) r(2) by (auto simp: ota_ready_def)
  have app: "cpu_app w2 = None" using w2(1) by (simp add: stm_healthy_def)
  have p: "power_on m = ota_module_boot_preprocess ?s" by (simp add: power_on_def i)
  note st = w2(2) [folded stored_holds]
  show ?thesis
    unfolding p b using w1(3) w2(3) st app
    by (auto simp: stm32g0xx_jump_def entered_def Let_def)
qed

end
