(* ===== verification/Boot_Ymodem.thy ===== *)
theory Boot_Ymodem
  imports Ota_Board Crc16
begin

text \<open>
  The boot loader's Ymodem receiver (\<open>boot/Core/Src/boot_ymodem.c\<close>) and
  \<open>main\<close>.  The record \<open>ymodem\<close> holds the file's static variables
  and the machine around it: the OTA module, the tick counter, the bytes handed
  to the UARTs, which UARTs are receiving, and a script of what arrives while
  the code waits (each wait takes one entry: the ticks it lasts beyond what was
  asked for, and the receptions in it).  A function that does not return to its
  caller gives \<open>Inl\<close> and the reason; the frame parser and the queue call
  each other through the end of a transfer, which is bounded by fuel.
\<close>

unbundle bit_operations_syntax

abbreviation YM_SOH :: byte where "YM_SOH \<equiv> 0x01"
abbreviation YM_STX :: byte where "YM_STX \<equiv> 0x02"
abbreviation YM_EOT :: byte where "YM_EOT \<equiv> 0x04"
abbreviation YM_ACK :: byte where "YM_ACK \<equiv> 0x06"
abbreviation YM_NAK :: byte where "YM_NAK \<equiv> 0x15"
abbreviation YM_CAN :: byte where "YM_CAN \<equiv> 0x18"
abbreviation YM_C :: byte where "YM_C \<equiv> 0x43"
abbreviation RX_DMA_BUF :: nat where "RX_DMA_BUF \<equiv> 2048"
abbreviation STREAM_MAX :: nat where "STREAM_MAX \<equiv> 4096"
abbreviation CHUNK_Q :: nat where "CHUNK_Q \<equiv> 16"
abbreviation T_DISC_C_MS :: u32 where "T_DISC_C_MS \<equiv> 200"
abbreviation T_SESSION_MS :: u32 where "T_SESSION_MS \<equiv> 3000"
abbreviation NAK_RETRIES :: byte where "NAK_RETRIES \<equiv> 20"
abbreviation YM_CANCEL_BURST :: nat where "YM_CANCEL_BURST \<equiv> 8"
abbreviation BOOT_YM_PROBE_WINDOW_MS :: u32 where "BOOT_YM_PROBE_WINDOW_MS \<equiv> 100"
abbreviation BOOT_YMODEM_PROBE_ROUNDS :: nat where "BOOT_YMODEM_PROBE_ROUNDS \<equiv> 3"

datatype uart = HUART1 | HUART2

record rx_chunk =
  ch_uidx :: uart
  ch_len :: nat
  ch_data :: "byte list"

record ymodem =
  s_q :: "rx_chunk list"
  s_q_w :: nat
  s_q_r :: nat
  s_chunk_overflow :: bool
  s_chunk_ovf_uidx :: uart
  s_sb :: "uart \<Rightarrow> byte list"
  s_sl :: "uart \<Rightarrow> nat"
  s_active :: "uart option"
  s_debug :: uart
  s_locked :: bool
  g_boot_debug_uart :: uart
  s_last_rx_ms :: u32
  s_last_c_ms :: u32
  s_in_filename_phase :: bool
  s_expected_seq :: byte
  s_last_acked_seq :: byte
  s_eot_count :: nat
  s_hdr_accum :: "byte list"
  s_hdr_accum_len :: nat
  s_hdr_done :: bool
  s_ota_offset :: u32
  s_expected_total :: u32
  s_ota_session :: bool
  s_can_count :: byte
  s_wire_tail_discard :: bool
  s_nak_streak :: byte
  ym_ota :: "stm32 ota"
  ym_tick :: u32
  ym_wire :: "(uart \<times> byte) list"
  ym_rx_on :: "uart \<Rightarrow> bool"
  ym_script :: "(nat \<times> (uart \<times> byte list) list) list"

datatype stop = Jumped | SystemReset | HardFault | Hang | ErrorHandler

type_synonym run = "(stop \<times> ymodem) + ymodem"

definition and_then :: "run \<Rightarrow> (ymodem \<Rightarrow> run) \<Rightarrow> run" where
  "and_then r f = (case r of Inl h \<Rightarrow> Inl h | Inr s \<Rightarrow> f s)"

subsection \<open>Reception\<close>

definition frame_byte :: "byte \<Rightarrow> bool" where
  "frame_byte b \<longleftrightarrow> b = YM_SOH \<or> b = YM_STX \<or> b = YM_EOT \<or> b = YM_CAN"

definition rx_buf_has_ymodem_frame :: "byte list \<Rightarrow> bool" where
  "rx_buf_has_ymodem_frame p = list_ex frame_byte p"

definition should_listen :: "uart \<Rightarrow> ymodem \<Rightarrow> bool" where
  "should_listen uidx s \<longleftrightarrow> \<not> s_locked s \<or> s_active s = Some uidx"

definition HAL_UART_AbortReceive :: "uart \<Rightarrow> ymodem \<Rightarrow> ymodem" where
  "HAL_UART_AbortReceive hu s = s\<lparr>ym_rx_on := (ym_rx_on s)(hu := False)\<rparr>"

definition HAL_UARTEx_ReceiveToIdle_DMA :: "uart \<Rightarrow> ymodem \<Rightarrow> bool \<times> ymodem" where
  "HAL_UARTEx_ReceiveToIdle_DMA hu s =
     (if ym_rx_on s hu then (False, s) else (True, s\<lparr>ym_rx_on := (ym_rx_on s)(hu := True)\<rparr>))"

definition start_rx_dma_one :: "uart \<Rightarrow> ymodem \<Rightarrow> ymodem" where
  "start_rx_dma_one hu s =
     (let (ok, s1) = HAL_UARTEx_ReceiveToIdle_DMA hu s in
      if \<not> ok then snd (HAL_UARTEx_ReceiveToIdle_DMA hu (HAL_UART_AbortReceive hu s1)) else s1)"

definition start_rx_dma_both :: "ymodem \<Rightarrow> ymodem" where
  "start_rx_dma_both s =
     (let s = s\<lparr>s_locked := False, s_active := None, s_debug := HUART1, g_boot_debug_uart := HUART1\<rparr>;
          s = HAL_UART_AbortReceive HUART2 (HAL_UART_AbortReceive HUART1 s)
      in start_rx_dma_one HUART2 (start_rx_dma_one HUART1 s))"

definition abort_rx_inactive :: "ymodem \<Rightarrow> ymodem" where
  "abort_rx_inactive s =
     (case s_active s of
        Some HUART1 \<Rightarrow> HAL_UART_AbortReceive HUART2 s
      | Some HUART2 \<Rightarrow> HAL_UART_AbortReceive HUART1 s
      | None \<Rightarrow> s)"

definition rx_sm_enqueue :: "uart \<Rightarrow> byte list \<Rightarrow> nat \<Rightarrow> ymodem \<Rightarrow> int \<times> ymodem" where
  "rx_sm_enqueue uidx p len s =
     (let nw = (s_q_w s + 1) mod CHUNK_Q in
      if nw = s_q_r s then (-1, s)
      else
        let n = (if RX_DMA_BUF < len then RX_DMA_BUF else len);
            c = s_q s ! s_q_w s
        in (0, s\<lparr>s_q := (s_q s)[s_q_w s := \<lparr>ch_uidx = uidx, ch_len = len, ch_data = poke 0 (take n p) (ch_data c)\<rparr>],
                 s_q_w := nw\<rparr>))"

definition HAL_UARTEx_RxEventCallback :: "uart \<Rightarrow> byte list \<Rightarrow> ymodem \<Rightarrow> ymodem" where
  "HAL_UARTEx_RxEventCallback huart buf s =
     (let Size = (if RX_DMA_BUF < length buf then RX_DMA_BUF else length buf);
          s = (if 0 < Size \<and> (rx_buf_has_ymodem_frame (take Size buf) \<or> should_listen huart s)
               then s\<lparr>s_last_rx_ms := ym_tick s\<rparr> else s)
      in
        if \<not> should_listen huart s then start_rx_dma_one huart s
        else
          let (rc, s1) = rx_sm_enqueue huart buf Size s in
          if rc \<noteq> 0
          then HAL_UART_AbortReceive huart (s1\<lparr>s_chunk_ovf_uidx := huart, s_chunk_overflow := True\<rparr>)
          else start_rx_dma_one huart s1)"

definition HAL_UART_ErrorCallback :: "uart \<Rightarrow> ymodem \<Rightarrow> ymodem" where
  "HAL_UART_ErrorCallback huart s = start_rx_dma_one huart s"

text \<open>A reception that ends (idle line or full buffer) on a UART that is receiving.\<close>

definition rx_event :: "uart \<times> byte list \<Rightarrow> ymodem \<Rightarrow> ymodem" where
  "rx_event e s =
     (if ym_rx_on s (fst e)
      then HAL_UARTEx_RxEventCallback (fst e) (take RX_DMA_BUF (snd e))
             (s\<lparr>ym_rx_on := (ym_rx_on s)(fst e := False)\<rparr>)
      else s)"

text \<open>Waiting: one entry of the script, \<open>f\<close> giving the ticks that pass.\<close>

definition wait_by :: "(nat \<Rightarrow> nat) \<Rightarrow> ymodem \<Rightarrow> ymodem" where
  "wait_by f s =
     (case ym_script s of
        [] \<Rightarrow> s\<lparr>ym_tick := ym_tick s + of_nat (f 0)\<rparr>
      | (dt, es) # rest \<Rightarrow> fold rx_event es (s\<lparr>ym_tick := ym_tick s + of_nat (f dt), ym_script := rest\<rparr>))"

definition HAL_Delay :: "nat \<Rightarrow> ymodem \<Rightarrow> ymodem" where
  "HAL_Delay n = wait_by (\<lambda>dt. n + dt)"

subsection \<open>Transmission\<close>

definition tx_byte :: "uart option \<Rightarrow> byte \<Rightarrow> ymodem \<Rightarrow> ymodem" where
  "tx_byte hu b s = (case hu of None \<Rightarrow> s | Some u \<Rightarrow> s\<lparr>ym_wire := ym_wire s @ [(u, b)]\<rparr>)"

definition send_ack :: "ymodem \<Rightarrow> ymodem" where
  "send_ack s = tx_byte (s_active s) YM_ACK s"

definition send_nak :: "ymodem \<Rightarrow> ymodem" where
  "send_nak s = tx_byte (s_active s) YM_NAK s"

text \<open>The wait for the transmission to complete gives up after 40 ticks.\<close>

definition uart_wait_tx_line_done :: "uart option \<Rightarrow> ymodem \<Rightarrow> ymodem" where
  "uart_wait_tx_line_done hu s = (case hu of None \<Rightarrow> s | Some _ \<Rightarrow> HAL_Delay 10 (wait_by (\<lambda>dt. min dt 41) s))"

definition send_ymodem_cancel_on :: "uart option \<Rightarrow> ymodem \<Rightarrow> ymodem" where
  "send_ymodem_cancel_on hu s =
     (case hu of None \<Rightarrow> s
      | Some u \<Rightarrow> uart_wait_tx_line_done hu ((tx_byte hu YM_CAN ^^ YM_CANCEL_BURST) s))"

definition send_ymodem_cancel :: "ymodem \<Rightarrow> ymodem" where
  "send_ymodem_cancel s = send_ymodem_cancel_on (s_active s) s"

definition send_c_discovery :: "ymodem \<Rightarrow> ymodem" where
  "send_c_discovery s =
     (if \<not> s_locked s then tx_byte (Some HUART2) YM_C (tx_byte (Some HUART1) YM_C s)
      else tx_byte (s_active s) YM_C s)"

subsection \<open>The transfer\<close>

definition ota_fail_abort :: "ymodem \<Rightarrow> run" where
  "ota_fail_abort s =
     (if s_ota_session s
      then case ota_module_ota_download_abort (ym_ota s) of
          None \<Rightarrow> Inl (Hang, s)
        | Some (_, o') \<Rightarrow> Inr (s\<lparr>ym_ota := o', s_ota_session := False\<rparr>)
      else Inr s)"

definition session_vars_clear :: "ymodem \<Rightarrow> run" where
  "session_vars_clear s = ota_fail_abort
     (s\<lparr>s_sl := (\<lambda>_. 0), s_sb := (\<lambda>_. replicate STREAM_MAX 0), s_in_filename_phase := False,
        s_expected_seq := 0, s_last_acked_seq := 255, s_eot_count := 0,
        s_hdr_accum := replicate sizeof_header 0, s_hdr_accum_len := 0, s_hdr_done := False,
        s_ota_offset := 0, s_expected_total := 0, s_can_count := 0, s_wire_tail_discard := False,
        s_nak_streak := 0\<rparr>)"

definition full_reset :: "ymodem \<Rightarrow> run" where
  "full_reset s =
     and_then (ota_fail_abort s) (\<lambda>s.
     and_then (session_vars_clear s) (\<lambda>s.
       Inr (start_rx_dma_both
         (s\<lparr>s_locked := False, s_active := None, g_boot_debug_uart := HUART1, s_last_c_ms := ym_tick s,
            s_last_rx_ms := ym_tick s, s_q_r := 0, s_q_w := 0, s_chunk_overflow := False,
            s_chunk_ovf_uidx := HUART1\<rparr>))))"

definition lock_ports :: "uart \<Rightarrow> ymodem \<Rightarrow> ymodem" where
  "lock_ports uidx s =
     (let s = s\<lparr>s_locked := True\<rparr>;
          s = (case uidx of
                 HUART1 \<Rightarrow> s\<lparr>s_active := Some HUART1, s_debug := HUART2, s_sl := (s_sl s)(HUART2 := 0)\<rparr>
               | HUART2 \<Rightarrow> s\<lparr>s_active := Some HUART2, s_debug := HUART1, s_sl := (s_sl s)(HUART1 := 0)\<rparr>)
      in abort_rx_inactive
           (s\<lparr>g_boot_debug_uart := s_debug s, s_expected_seq := 0, s_in_filename_phase := True, s_eot_count := 0\<rparr>))"

text \<open>The header is complete: start the update and write the header itself.  The
  flag says whether the loop goes on.\<close>

definition header_complete :: "ymodem \<Rightarrow> (stop \<times> ymodem) + (bool \<times> ymodem)" where
  "header_complete s =
     (let hdr = hdr56_of_bytes (s_hdr_accum s) in
      case ota_module_ota_download_start (Some hdr) (ym_ota s) of
        None \<Rightarrow> Inl (Hang, s)
      | Some (e, o1) \<Rightarrow>
          if e \<noteq> OTA_MODULE_ERR_OK then Inr (False, s\<lparr>ym_ota := o1, s_nak_streak := NAK_RETRIES\<rparr>)
          else
            let s = s\<lparr>ym_ota := o1, s_ota_session := True\<rparr> in
            case ota_module_ota_download 0 (Some (s_hdr_accum s)) (of_nat sizeof_header) (ym_ota s) of
              None \<Rightarrow> Inl (Hang, s)
            | Some (e, o2) \<Rightarrow>
                if e \<noteq> OTA_MODULE_ERR_OK then Inr (False, s\<lparr>ym_ota := o2, s_nak_streak := NAK_RETRIES\<rparr>)
                else Inr (True, s\<lparr>ym_ota := o2, s_hdr_done := True, s_ota_offset := of_nat sizeof_header,
                       s_expected_total := ph_app_offset hdr + ph_app_size hdr\<rparr>))"

text \<open>Bytes the header still needs; a \<open>uint16_t\<close>.\<close>

definition hdr_need :: "ymodem \<Rightarrow> nat" where
  "hdr_need s = (sizeof_header + 65536 - s_hdr_accum_len s) mod 65536"

definition accum_header :: "byte list \<Rightarrow> ymodem \<Rightarrow> ymodem" where
  "accum_header p s = s\<lparr>s_hdr_accum := poke (s_hdr_accum_len s) p (s_hdr_accum s),
     s_hdr_accum_len := s_hdr_accum_len s + length p\<rparr>"

definition payload_remain :: "ymodem \<Rightarrow> u32" where
  "payload_remain s = (if s_ota_offset s \<le> s_expected_total s then s_expected_total s - s_ota_offset s else 0)"

definition write_payload :: "byte list \<Rightarrow> ymodem \<Rightarrow> (stop \<times> ymodem) + (bool \<times> ymodem)" where
  "write_payload d s =
     (case ota_module_ota_download (s_ota_offset s) (Some d) (of_nat (length d)) (ym_ota s) of
        None \<Rightarrow> Inl (Hang, s)
      | Some (e, o1) \<Rightarrow>
          if e \<noteq> OTA_MODULE_ERR_OK then Inr (False, s\<lparr>ym_ota := o1, s_nak_streak := NAK_RETRIES\<rparr>)
          else Inr (True, s\<lparr>ym_ota := o1, s_ota_offset := s_ota_offset s + of_nat (length d)\<rparr>))"

lemma header_complete_done: "header_complete s = Inr (True, s') \<Longrightarrow> s_hdr_done s'"
  by (auto simp: header_complete_def Let_def split: option.splits if_splits)

lemma write_payload_done: "write_payload d s = Inr (go, s') \<Longrightarrow> s_hdr_done s' = s_hdr_done s"
  by (auto simp: write_payload_def split: option.splits if_splits)

lemma hdr_need_eq:
  assumes "s_hdr_accum_len s \<le> sizeof_header" shows "hdr_need s = sizeof_header - s_hdr_accum_len s"
proof -
  have "sizeof_header + 65536 - s_hdr_accum_len s = sizeof_header - s_hdr_accum_len s + 65536"
    using assms by simp
  then have "hdr_need s = (sizeof_header - s_hdr_accum_len s) mod 65536"
    unfolding hdr_need_def by (simp only: mod_add_self2)
  also have "\<dots> = sizeof_header - s_hdr_accum_len s" by (rule mod_less) (simp add: sizeof_header_def)
  finally show ?thesis .
qed

lemma hdr_need_pos: "s_hdr_accum_len s < sizeof_header \<Longrightarrow> 0 < hdr_need s"
  by (simp add: hdr_need_eq)

function append_file_payload :: "byte list \<Rightarrow> ymodem \<Rightarrow> run" where
  "append_file_payload p s =
     (if p = [] then Inr s
      else if \<not> s_hdr_done s then
        let n = min (length p) (hdr_need s);
            s1 = accum_header (take n p) s
        in
          if sizeof_header \<le> s_hdr_accum_len s1
          then case header_complete s1 of
              Inl h \<Rightarrow> Inl h
            | Inr (go, s2) \<Rightarrow> if go then append_file_payload (drop n p) s2 else Inr s2
          else append_file_payload (drop n p) s1
      else if payload_remain s = 0 then Inr s
      else
        let n = min (length p) (unat (payload_remain s)) in
        case write_payload (take n p) s of
          Inl h \<Rightarrow> Inl h
        | Inr (go, s2) \<Rightarrow> if go then append_file_payload (drop n p) s2 else Inr s2)"
  by pat_completeness auto

termination
proof (relation "measure (\<lambda>(p, s). 2 * length p + (if s_hdr_done s then 0 else 1))", goal_cases)
  case 1
  then show ?case by simp
next
  case (2 p s n s1 b go s2)
  then show ?case by (auto dest: header_complete_done)
next
  case (3 p s n s1)
  have "s_hdr_accum_len s + min (length p) (hdr_need s) < sizeof_header"
    using 3 by (simp add: accum_header_def)
  then have "0 < hdr_need s" by (intro hdr_need_pos) simp
  then show ?case using 3 by (auto simp: accum_header_def)
next
  case (4 p s n b go s2)
  then have "0 < n" by (simp add: unat_gt_0)
  then show ?case using 4 by (auto dest: write_payload_done)
qed

declare append_file_payload.simps [simp del]

definition handle_data_block :: "byte \<Rightarrow> byte list \<Rightarrow> ymodem \<Rightarrow> run" where
  "handle_data_block seq payload s =
     (if seq \<noteq> s_expected_seq s then
        if seq = s_last_acked_seq s then Inr (send_ack s)
        else
          let s = send_nak s; s = s\<lparr>s_nak_streak := s_nak_streak s + 1\<rparr> in
          if NAK_RETRIES < s_nak_streak s then full_reset (send_ymodem_cancel s) else Inr s
      else if s_in_filename_phase s then
        Inr ((send_ack (s\<lparr>s_in_filename_phase := False, s_expected_seq := 1, s_last_acked_seq := seq\<rparr>))
               \<lparr>s_nak_streak := 0\<rparr>)
      else
        and_then (append_file_payload payload s) (\<lambda>s.
          if NAK_RETRIES \<le> s_nak_streak s then full_reset (send_ymodem_cancel s)
          else Inr ((send_ack (s\<lparr>s_last_acked_seq := seq, s_expected_seq := seq + 1\<rparr>))\<lparr>s_nak_streak := 0\<rparr>)))"

subsection \<open>Frames\<close>

text \<open>\<open>memmove(buf, buf + k, *plen - k)\<close> and the new length.  When fewer than \<open>k\<close>
  bytes are buffered the length is negative and converted to a \<open>size_t\<close>: the
  copy runs off the end of the RAM.\<close>

definition shift :: "nat \<Rightarrow> uart \<Rightarrow> ymodem \<Rightarrow> run" where
  "shift k uidx s =
     (let n = s_sl s uidx in
      if n < k then Inl (HardFault, s)
      else Inr (s\<lparr>s_sb := (s_sb s)(uidx := poke 0 (slice k (n - k) (s_sb s uidx)) (s_sb s uidx)),
                  s_sl := (s_sl s)(uidx := n - k)\<rparr>))"

definition skip_noise :: "uart \<Rightarrow> ymodem \<Rightarrow> run" where
  "skip_noise uidx s =
     (case first_idx frame_byte (take (s_sl s uidx) (s_sb s uidx)) of
        None \<Rightarrow> shift (s_sl s uidx) uidx s
      | Some i \<Rightarrow> if 0 < i then shift i uidx s else Inr s)"

datatype next_step = Return | Continue | At_eot

definition nak_if_locked :: "ymodem \<Rightarrow> ymodem" where
  "nak_if_locked s = (if s_locked s then send_nak s else s)"

text \<open>The frame at the head of the buffer is complete: checks, and what is done with it.\<close>

definition consume_block :: "uart \<Rightarrow> ymodem \<Rightarrow> run" where
  "consume_block uidx s =
     (let buf = s_sb s uidx; st = buf ! 0;
          dlen = (if st = YM_SOH then 128 else 1024); frlen = 3 + dlen + 2;
          seq = buf ! 1; pay = slice 3 dlen buf;
          crc_rx = mk16 (buf ! (3 + dlen + 1)) (buf ! (3 + dlen))
      in
        if seq + buf ! 2 \<noteq> 255 then and_then (shift 1 uidx s) (\<lambda>s. Inr (nak_if_locked s))
        else if crc_rx \<noteq> ymodem_crc16 pay dlen then
          and_then (shift 1 uidx s) (\<lambda>s.
            if \<not> s_locked s then Inr s
            else
              let s = send_nak s; s = s\<lparr>s_nak_streak := s_nak_streak s + 1\<rparr> in
              if NAK_RETRIES < s_nak_streak s then full_reset (send_ymodem_cancel s) else Inr s)
        else if st = YM_SOH \<and> seq = 0 \<and> pay ! 0 = 0 \<and> s_hdr_done s \<and> 2 \<le> s_eot_count s then
          shift frlen uidx (send_ack (if \<not> s_locked s then lock_ports uidx s else s))
        else
          and_then (handle_data_block seq pay (if \<not> s_locked s then lock_ports uidx s else s))
            (shift frlen uidx))"

text \<open>One pass of the loop, up to the handling of an end of transmission.\<close>

definition consume_step :: "uart \<Rightarrow> ymodem \<Rightarrow> (stop \<times> ymodem) + (next_step \<times> ymodem)" where
  "consume_step uidx s =
     (case skip_noise uidx s of Inl h \<Rightarrow> Inl h | Inr s \<Rightarrow>
        if s_sl s uidx = 0 then Inr (Return, s)
        else if s_locked s \<and> s_active s \<noteq> Some uidx then Inr (Return, s\<lparr>s_sl := (s_sl s)(uidx := 0)\<rparr>)
        else if s_sb s uidx ! 0 = YM_CAN then
          if s_wire_tail_discard s
          then map_sum id (Pair Continue) (shift 1 uidx s)
          else map_sum id (Pair Continue)
            (and_then (shift 1 uidx (s\<lparr>s_can_count := s_can_count s + 1\<rparr>))
               (\<lambda>s. if 2 \<le> s_can_count s then full_reset s else Inr s))
        else
          let s = s\<lparr>s_can_count := 0\<rparr> in
          if s_sb s uidx ! 0 = YM_EOT then
            map_sum id (Pair (if s_wire_tail_discard s then Continue else At_eot)) (shift 1 uidx s)
          else if s_sb s uidx ! 0 \<noteq> YM_SOH \<and> s_sb s uidx ! 0 \<noteq> YM_STX then Inr (Return, s)
          else if s_sl s uidx < 3 + (if s_sb s uidx ! 0 = YM_SOH then 128 else 1024) + 2 then Inr (Return, s)
          else map_sum id (Pair Continue) (consume_block uidx s))"

text \<open>The end of a transfer, with the functions it calls back.\<close>

definition finish_transfer :: "ymodem \<Rightarrow> run" where
  "finish_transfer s =
     (if s_ota_session s \<and> s_hdr_done s
      then case ota_module_ota_download_finish (ym_ota s) of
          None \<Rightarrow> Inl (Hang, s)
        | Some (fin, o1) \<Rightarrow>
            if fin = OTA_MODULE_ERR_OK
            then case ota_module_set_boot_ymodem_flag 0 o1 of
                None \<Rightarrow> Inl (Hang, s)
              | Some (_, o2) \<Rightarrow>
                  (case ota_module_boot_preprocess o2 of
                     None \<Rightarrow> Inl (Hang, s)
                   | Some (_, o3) \<Rightarrow>
                       let s = s\<lparr>ym_ota := o3, s_ota_session := False\<rparr> in
                       if entered (g_world o3) \<noteq> None then Inl (Jumped, s) else Inr s)
            else case ota_module_ota_download_abort o1 of
                None \<Rightarrow> Inl (Hang, s)
              | Some (_, o2) \<Rightarrow> Inr (s\<lparr>ym_ota := o2, s_ota_session := False\<rparr>)
      else Inr s)"

definition handle_eot :: "(ymodem \<Rightarrow> run) \<Rightarrow> (ymodem \<Rightarrow> run) \<Rightarrow> ymodem \<Rightarrow> run" where
  "handle_eot drain consume s =
     (if \<not> s_locked s \<or> s_active s = None then Inr s
      else if s_eot_count s = 0 then Inr ((send_nak s)\<lparr>s_eot_count := 1\<rparr>)
      else if 2 \<le> s_eot_count s then Inr s
      else
        let s = send_ack (s\<lparr>s_eot_count := 2\<rparr>);
            s = uart_wait_tx_line_done (s_active s) s;
            s = HAL_Delay 15 (send_c_discovery s)
        in
          and_then (drain s) (\<lambda>s. and_then (consume s) (\<lambda>s.
            let s = tx_byte (s_active s) 0x4F s;
                s = uart_wait_tx_line_done (s_active s) s;
                s = s\<lparr>s_can_count := 0, s_wire_tail_discard := True\<rparr>
            in
              and_then (drain s) (\<lambda>s. and_then (consume s) (\<lambda>s.
                and_then (finish_transfer s) full_reset)))))"

definition append_stream :: "(uart \<Rightarrow> ymodem \<Rightarrow> run) \<Rightarrow> uart \<Rightarrow> byte list \<Rightarrow> nat \<Rightarrow> ymodem \<Rightarrow> run" where
  "append_stream consume uidx p len s =
     (if STREAM_MAX < s_sl s uidx + len
      then full_reset (send_ymodem_cancel_on (if s_active s \<noteq> None then s_active s else Some uidx) s)
      else consume uidx
        (s\<lparr>s_sb := (s_sb s)(uidx := poke (s_sl s uidx) (take len p) (s_sb s uidx)),
           s_sl := (s_sl s)(uidx := s_sl s uidx + len)\<rparr>))"

text \<open>The functions that call one another, as one recursion on fuel.\<close>

datatype rx_call = Try_consume uart | Drain | Drain_loop

definition try_consume_body :: "(rx_call \<Rightarrow> ymodem \<Rightarrow> run) \<Rightarrow> uart \<Rightarrow> ymodem \<Rightarrow> run" where
  "try_consume_body rec uidx s =
     (if s_sl s uidx = 0 then Inr s
      else case consume_step uidx s of
          Inl h \<Rightarrow> Inl h
        | Inr (Return, s) \<Rightarrow> Inr s
        | Inr (Continue, s) \<Rightarrow> rec (Try_consume uidx) s
        | Inr (At_eot, s) \<Rightarrow>
            and_then (handle_eot (rec Drain) (rec (Try_consume uidx)) s) (rec (Try_consume uidx)))"

definition drain_chunks_body :: "(rx_call \<Rightarrow> ymodem \<Rightarrow> run) \<Rightarrow> ymodem \<Rightarrow> run" where
  "drain_chunks_body rec s =
     (if s_chunk_overflow s
      then full_reset (send_ymodem_cancel_on
        (if s_active s \<noteq> None then s_active s else Some (s_chunk_ovf_uidx s)) s)
      else rec Drain_loop s)"

definition drain_loop_body :: "(rx_call \<Rightarrow> ymodem \<Rightarrow> run) \<Rightarrow> ymodem \<Rightarrow> run" where
  "drain_loop_body rec s =
     (if s_q_r s = s_q_w s then Inr s
      else
        let ch = s_q s ! s_q_r s;
            s = s\<lparr>s_q_r := (s_q_r s + 1) mod CHUNK_Q\<rparr>
        in
          if \<not> should_listen (ch_uidx ch) s then rec Drain_loop s
          else and_then (append_stream (\<lambda>u. rec (Try_consume u)) (ch_uidx ch) (ch_data ch) (ch_len ch) s)
            (rec Drain_loop))"

primrec rx_run :: "nat \<Rightarrow> rx_call \<Rightarrow> ymodem \<Rightarrow> run" where
  "rx_run 0 c s = Inl (Hang, s)"
| "rx_run (Suc n) c s =
     (case c of Try_consume u \<Rightarrow> try_consume_body (rx_run n) u s
      | Drain \<Rightarrow> drain_chunks_body (rx_run n) s
      | Drain_loop \<Rightarrow> drain_loop_body (rx_run n) s)"

definition try_consume_frame :: "nat \<Rightarrow> uart \<Rightarrow> ymodem \<Rightarrow> run" where
  "try_consume_frame fuel uidx = rx_run fuel (Try_consume uidx)"

definition drain_chunks :: "nat \<Rightarrow> ymodem \<Rightarrow> run" where
  "drain_chunks fuel = rx_run fuel Drain"

subsection \<open>Start-up and the main loop\<close>

definition boot_ymodem_init :: "ymodem \<Rightarrow> run" where
  "boot_ymodem_init s =
     and_then (session_vars_clear (s\<lparr>g_boot_debug_uart := HUART1\<rparr>)) (\<lambda>s.
       Inr (send_c_discovery (start_rx_dma_both
         (s\<lparr>s_q_r := 0, s_q_w := 0, s_chunk_overflow := False, s_chunk_ovf_uidx := HUART1,
            s_last_c_ms := ym_tick s, s_last_rx_ms := ym_tick s\<rparr>))))"

text \<open>One round of the probe; the flag says that the host has answered.\<close>

fun probe_window :: "nat \<Rightarrow> u32 \<Rightarrow> ymodem \<Rightarrow> (stop \<times> ymodem) + (bool \<times> ymodem)" where
  "probe_window 0 t0 s = Inl (Hang, s)"
| "probe_window (Suc n) t0 s =
     (if BOOT_YM_PROBE_WINDOW_MS \<le> ym_tick s - t0 then Inr (False, s)
      else case drain_chunks n s of
          Inl h \<Rightarrow> Inl h
        | Inr s \<Rightarrow>
            if s_locked s \<or> 0 < s_sl s HUART1 \<or> 0 < s_sl s HUART2 then Inr (True, s)
            else probe_window n t0 (HAL_Delay 1 s))"

fun probe_rounds :: "nat \<Rightarrow> nat \<Rightarrow> ymodem \<Rightarrow> (stop \<times> ymodem) + (int \<times> ymodem)" where
  "probe_rounds fuel 0 s = Inr (-1, s\<lparr>s_last_rx_ms := ym_tick s, s_last_c_ms := ym_tick s\<rparr>)"
| "probe_rounds fuel (Suc r) s =
     (let s = send_c_discovery s in
      case probe_window fuel (ym_tick s) (s\<lparr>s_last_c_ms := ym_tick s\<rparr>) of
        Inl h \<Rightarrow> Inl h
      | Inr (answered, s) \<Rightarrow> if answered then Inr (0, s) else probe_rounds fuel r s)"

definition boot_ymodem_probe :: "nat \<Rightarrow> nat \<Rightarrow> ymodem \<Rightarrow> (stop \<times> ymodem) + (int \<times> ymodem)" where
  "boot_ymodem_probe fuel discovery_rounds s =
     (if discovery_rounds = 0 then Inr (-1, s) else probe_rounds fuel discovery_rounds s)"

definition poll_idle :: "u32 \<Rightarrow> ymodem \<Rightarrow> run" where
  "poll_idle now s =
     (let idle_dt = now - s_last_rx_ms s in
      if 0 \<le> sint idle_dt \<and> T_SESSION_MS \<le> idle_dt then
        let s = (if s_locked s then send_ymodem_cancel s else s);
            (active, o1) = ota_module_has_active_app_region (ym_ota s);
            s = s\<lparr>ym_ota := o1\<rparr>
        in if active \<noteq> 0 then Inl (SystemReset, s) else full_reset s
      else Inr s)"

definition boot_ymodem_poll :: "nat \<Rightarrow> ymodem \<Rightarrow> run" where
  "boot_ymodem_poll fuel s =
     and_then (drain_chunks fuel s) (\<lambda>s.
       let now = ym_tick s;
           s = (if T_DISC_C_MS \<le> now - s_last_c_ms s
                then (if \<not> s_locked s then send_c_discovery s else s)\<lparr>s_last_c_ms := now\<rparr> else s)
       in poll_idle now s)"

text \<open>\<open>main\<close> up to its endless loop.\<close>

definition main_boot :: "nat \<Rightarrow> ymodem \<Rightarrow> run" where
  "main_boot fuel s =
     and_then (boot_ymodem_init s) (\<lambda>s.
       case ota_module_init (Some ota_module_platform_config) (ym_ota s) of
         None \<Rightarrow> Inl (Hang, s)
       | Some (e, o1) \<Rightarrow>
           if e \<noteq> OTA_MODULE_ERR_OK then Inl (ErrorHandler, s\<lparr>ym_ota := o1\<rparr>)
           else case ota_module_get_boot_ymodem_flag o1 of
               None \<Rightarrow> Inl (Hang, s)
             | Some (flag, o2) \<Rightarrow>
                 if flag = 0
                 then case boot_ymodem_probe fuel BOOT_YMODEM_PROBE_ROUNDS (s\<lparr>ym_ota := o2\<rparr>) of
                     Inl h \<Rightarrow> Inl h
                   | Inr (rc, s) \<Rightarrow>
                       if rc = 0 then Inr s
                       else case ota_module_boot_preprocess (ym_ota s) of
                           None \<Rightarrow> Inl (Hang, s)
                         | Some (_, o3) \<Rightarrow>
                             if entered (g_world o3) \<noteq> None then Inl (Jumped, s\<lparr>ym_ota := o3\<rparr>)
                             else Inr (s\<lparr>ym_ota := o3\<rparr>)
                 else case ota_module_set_boot_ymodem_flag 0 o2 of
                     None \<Rightarrow> Inl (Hang, s)
                   | Some (_, o3) \<Rightarrow> Inr (s\<lparr>ym_ota := o3\<rparr>))"

text \<open>What happens to the boot loader once it is in the loop.\<close>

datatype boot_event = Received uart "byte list" | Line_error uart | Ticks nat | Poll

fun boot_step :: "nat \<Rightarrow> boot_event \<Rightarrow> ymodem \<Rightarrow> run" where
  "boot_step fuel (Received u d) s = Inr (rx_event (u, d) s)"
| "boot_step fuel (Line_error u) s = Inr (HAL_UART_ErrorCallback u s)"
| "boot_step fuel (Ticks n) s = Inr (s\<lparr>ym_tick := ym_tick s + of_nat n\<rparr>)"
| "boot_step fuel Poll s = boot_ymodem_poll fuel s"

fun boot_loop :: "nat \<Rightarrow> boot_event list \<Rightarrow> ymodem \<Rightarrow> run" where
  "boot_loop fuel [] s = Inr s"
| "boot_loop fuel (e # es) s = and_then (boot_step fuel e s) (boot_loop fuel es)"

end
