(* ===== verification/Ymodem_Inv.thy ===== *)
theory Ymodem_Inv
  imports Boot_Ymodem
begin

text \<open>
  The invariant of the Ymodem receiver: every buffer keeps its size and every
  index into one stays inside it, so that no copy of the code leaves its array.
\<close>

definition chunk_ok :: "rx_chunk \<Rightarrow> bool" where
  "chunk_ok c \<longleftrightarrow> length (ch_data c) = RX_DMA_BUF \<and> ch_len c \<le> RX_DMA_BUF"

definition ym_inv :: "ymodem \<Rightarrow> bool" where
  "ym_inv s \<longleftrightarrow> length (s_q s) = CHUNK_Q \<and> list_all chunk_ok (s_q s) \<and> s_q_w s < CHUNK_Q \<and> s_q_r s < CHUNK_Q
     \<and> (\<forall>u. length (s_sb s u) = STREAM_MAX \<and> s_sl s u \<le> STREAM_MAX)
     \<and> length (s_hdr_accum s) = sizeof_header \<and> s_hdr_accum_len s \<le> sizeof_header
     \<and> (s_locked s \<longrightarrow> s_active s \<noteq> None)"

definition run_inv :: "run \<Rightarrow> bool" where
  "run_inv r \<longleftrightarrow> (case r of Inl _ \<Rightarrow> True | Inr s \<Rightarrow> ym_inv s)"

text \<open>Reset: all static variables are zero.\<close>

definition ym_reset :: "(u32 \<Rightarrow> byte) \<Rightarrow> (nat \<times> (uart \<times> byte list) list) list \<Rightarrow> ymodem" where
  "ym_reset m script = \<lparr>s_q = replicate CHUNK_Q \<lparr>ch_uidx = HUART1, ch_len = 0, ch_data = replicate RX_DMA_BUF 0\<rparr>,
     s_q_w = 0, s_q_r = 0, s_chunk_overflow = False, s_chunk_ovf_uidx = HUART1,
     s_sb = (\<lambda>_. replicate STREAM_MAX 0), s_sl = (\<lambda>_. 0), s_active = None, s_debug = HUART1, s_locked = False,
     g_boot_debug_uart = HUART1, s_last_rx_ms = 0, s_last_c_ms = 0, s_in_filename_phase = False,
     s_expected_seq = 0, s_last_acked_seq = 0, s_eot_count = 0, s_hdr_accum = replicate sizeof_header 0,
     s_hdr_accum_len = 0, s_hdr_done = False, s_ota_offset = 0, s_expected_total = 0, s_ota_session = False,
     s_can_count = 0, s_wire_tail_discard = False, s_nak_streak = 0, ym_ota = ota_reset m, ym_tick = 0,
     ym_wire = [], ym_rx_on = (\<lambda>_. False), ym_script = script\<rparr>"

lemma run_inv_simps [simp]: "run_inv (Inl h)" "run_inv (Inr s) = ym_inv s"
  by (simp_all add: run_inv_def)

lemma and_then_simps [simp]: "and_then (Inr s) f = f s" "and_then (Inl h) f = Inl h"
  by (simp_all add: and_then_def)

lemma and_then_inv:
  assumes "run_inv r" "\<And>s. ym_inv s \<Longrightarrow> run_inv (f s)" shows "run_inv (and_then r f)"
  using assms by (cases r) simp_all

lemma ym_inv_reset: "ym_inv (ym_reset m script)"
  by (simp add: ym_inv_def ym_reset_def chunk_ok_def list_all_length)

text \<open>Fields the invariant does not mention.\<close>

lemma ym_inv_upd [simp]:
  "ym_inv (s\<lparr>s_chunk_overflow := a1\<rparr>) = ym_inv s" "ym_inv (s\<lparr>s_chunk_ovf_uidx := a2\<rparr>) = ym_inv s"
  "ym_inv (s\<lparr>s_debug := a3\<rparr>) = ym_inv s" "ym_inv (s\<lparr>g_boot_debug_uart := a3\<rparr>) = ym_inv s"
  "ym_inv (s\<lparr>s_last_rx_ms := a4\<rparr>) = ym_inv s" "ym_inv (s\<lparr>s_last_c_ms := a4\<rparr>) = ym_inv s"
  "ym_inv (s\<lparr>s_in_filename_phase := a1\<rparr>) = ym_inv s" "ym_inv (s\<lparr>s_expected_seq := a5\<rparr>) = ym_inv s"
  "ym_inv (s\<lparr>s_last_acked_seq := a5\<rparr>) = ym_inv s" "ym_inv (s\<lparr>s_eot_count := a6\<rparr>) = ym_inv s"
  "ym_inv (s\<lparr>s_hdr_done := a1\<rparr>) = ym_inv s" "ym_inv (s\<lparr>s_ota_offset := a4\<rparr>) = ym_inv s"
  "ym_inv (s\<lparr>s_expected_total := a4\<rparr>) = ym_inv s" "ym_inv (s\<lparr>s_ota_session := a1\<rparr>) = ym_inv s"
  "ym_inv (s\<lparr>s_can_count := a5\<rparr>) = ym_inv s" "ym_inv (s\<lparr>s_wire_tail_discard := a1\<rparr>) = ym_inv s"
  "ym_inv (s\<lparr>s_nak_streak := a5\<rparr>) = ym_inv s" "ym_inv (s\<lparr>ym_ota := a7\<rparr>) = ym_inv s"
  "ym_inv (s\<lparr>ym_tick := a4\<rparr>) = ym_inv s" "ym_inv (s\<lparr>ym_wire := a8\<rparr>) = ym_inv s"
  "ym_inv (s\<lparr>ym_rx_on := a9\<rparr>) = ym_inv s" "ym_inv (s\<lparr>ym_script := a10\<rparr>) = ym_inv s"
  by (simp_all add: ym_inv_def)

lemma ym_inv_clear:
  "ym_inv s \<Longrightarrow> ym_inv (s\<lparr>s_q_w := 0\<rparr>)" "ym_inv s \<Longrightarrow> ym_inv (s\<lparr>s_q_r := 0\<rparr>)"
  "ym_inv s \<Longrightarrow> ym_inv (s\<lparr>s_locked := False, s_active := a\<rparr>)"
  by (simp_all add: ym_inv_def)

lemma tx_byte_inv [simp]: "ym_inv (tx_byte hu b s) = ym_inv s"
  by (simp add: tx_byte_def split: option.split)

lemma send_inv [simp]: "ym_inv (send_ack s) = ym_inv s" "ym_inv (send_nak s) = ym_inv s"
  "ym_inv (send_c_discovery s) = ym_inv s" "ym_inv (nak_if_locked s) = ym_inv s"
  by (simp_all add: send_ack_def send_nak_def send_c_discovery_def nak_if_locked_def)

lemma rx_dma_inv [simp]: "ym_inv (HAL_UART_AbortReceive u s) = ym_inv s" "ym_inv (start_rx_dma_one u s) = ym_inv s"
  by (simp_all add: HAL_UART_AbortReceive_def start_rx_dma_one_def HAL_UARTEx_ReceiveToIdle_DMA_def)

lemma start_rx_dma_both_inv: "ym_inv s \<Longrightarrow> ym_inv (start_rx_dma_both s)"
  by (simp add: start_rx_dma_both_def Let_def) (simp add: ym_inv_def)

lemma ring_next: "(n + 1) mod CHUNK_Q < CHUNK_Q"
  by simp

lemma enqueue_inv:
  assumes "ym_inv s" "len \<le> RX_DMA_BUF" "len \<le> length p" shows "ym_inv (snd (rx_sm_enqueue u p len s))"
proof -
  have "chunk_ok (s_q s ! s_q_w s)" using assms(1) by (simp add: ym_inv_def list_all_length)
  then have c: "chunk_ok \<lparr>ch_uidx = u, ch_len = len, ch_data = poke 0 (take len p) (ch_data (s_q s ! s_q_w s))\<rparr>"
    using assms(2,3) by (simp add: chunk_ok_def)
  have "list_all chunk_ok ((s_q s)[s_q_w s := \<lparr>ch_uidx = u, ch_len = len,
      ch_data = poke 0 (take len p) (ch_data (s_q s ! s_q_w s))\<rparr>])"
    using assms(1) c by (auto simp: ym_inv_def list_all_iff dest: set_update_subset_insert [THEN subsetD])
  then show ?thesis using assms(1,2) by (simp add: rx_sm_enqueue_def Let_def ym_inv_def)
qed

lemma RxEvent_inv: "ym_inv s \<Longrightarrow> ym_inv (HAL_UARTEx_RxEventCallback u buf s)"
  by (simp add: HAL_UARTEx_RxEventCallback_def Let_def split_beta enqueue_inv)

lemma rx_event_inv: "ym_inv s \<Longrightarrow> ym_inv (rx_event e s)"
  by (simp add: rx_event_def RxEvent_inv)

lemma rx_events_inv: "ym_inv s \<Longrightarrow> ym_inv (fold rx_event es s)"
  by (induction es arbitrary: s) (simp_all add: rx_event_inv)

lemma wait_by_inv: "ym_inv s \<Longrightarrow> ym_inv (wait_by f s)"
  by (simp add: wait_by_def rx_events_inv split: list.split)

lemma HAL_Delay_inv: "ym_inv s \<Longrightarrow> ym_inv (HAL_Delay n s)"
  by (simp add: HAL_Delay_def wait_by_inv)

lemma uart_wait_inv: "ym_inv s \<Longrightarrow> ym_inv (uart_wait_tx_line_done hu s)"
  by (simp add: uart_wait_tx_line_done_def HAL_Delay_inv wait_by_inv split: option.split)

lemma tx_bytes_inv [simp]: "ym_inv ((tx_byte hu b ^^ n) s) = ym_inv s"
  by (induction n) simp_all

lemma cancel_inv: "ym_inv s \<Longrightarrow> ym_inv (send_ymodem_cancel_on hu s)" "ym_inv s \<Longrightarrow> ym_inv (send_ymodem_cancel s)"
  by (simp_all add: send_ymodem_cancel_def send_ymodem_cancel_on_def uart_wait_inv split: option.split)

lemma ota_fail_abort_inv: "ym_inv s \<Longrightarrow> run_inv (ota_fail_abort s)"
  by (simp add: ota_fail_abort_def split: option.split)

lemma session_vars_clear_inv: "ym_inv s \<Longrightarrow> run_inv (session_vars_clear s)"
  unfolding session_vars_clear_def by (rule ota_fail_abort_inv) (simp add: ym_inv_def sizeof_header_def)

lemma full_reset_inv: "ym_inv s \<Longrightarrow> run_inv (full_reset s)"
  unfolding full_reset_def
  by (intro and_then_inv ota_fail_abort_inv session_vars_clear_inv)
     (simp_all add: start_rx_dma_both_inv ym_inv_clear)

lemma lock_ports_inv: "ym_inv s \<Longrightarrow> ym_inv (lock_ports u s)"
  by (cases u) (simp_all add: lock_ports_def Let_def abort_rx_inactive_def, simp_all add: ym_inv_def)

lemma header_complete_inv: "ym_inv s \<Longrightarrow> header_complete s = Inr (go, s') \<Longrightarrow> ym_inv s'"
  by (auto simp: header_complete_def Let_def split: option.splits if_splits)

lemma write_payload_inv: "ym_inv s \<Longrightarrow> write_payload d s = Inr (go, s') \<Longrightarrow> ym_inv s'"
  by (auto simp: write_payload_def split: option.splits if_splits)

lemma accum_header_inv:
  assumes "ym_inv s" "length d \<le> hdr_need s" shows "ym_inv (accum_header d s)"
proof -
  have "s_hdr_accum_len s \<le> sizeof_header" using assms(1) by (simp add: ym_inv_def)
  then have "s_hdr_accum_len s + length d \<le> sizeof_header" using assms(2) hdr_need_eq [of s] by linarith
  then show ?thesis using assms(1) by (simp add: accum_header_def ym_inv_def)
qed

lemma append_file_payload_inv: "ym_inv s \<Longrightarrow> run_inv (append_file_payload p s)"
proof (induction p s rule: append_file_payload.induct)
  case (1 p s)
  have a: "ym_inv (accum_header (take (min (length p) (hdr_need s)) p) s)"
    using "1.prems" by (intro accum_header_inv) simp_all
  show ?case
    unfolding append_file_payload.simps [of p s] Let_def
    using "1.IH" "1.prems" a header_complete_inv [OF a] write_payload_inv [OF "1.prems"]
    by (auto split: sum.split if_split)
qed

lemma reset_after_cancel_inv: "ym_inv s \<Longrightarrow> run_inv (full_reset (send_ymodem_cancel s))"
  by (simp add: full_reset_inv cancel_inv)

lemma handle_data_block_inv: "ym_inv s \<Longrightarrow> run_inv (handle_data_block seq p s)"
  unfolding handle_data_block_def
  by (auto simp: Let_def reset_after_cancel_inv intro!: and_then_inv append_file_payload_inv)

lemma shift_inv: "ym_inv s \<Longrightarrow> run_inv (shift k u s)"
  by (auto simp: shift_def Let_def ym_inv_def intro: le_trans [OF diff_le_self])

lemma skip_noise_inv: "ym_inv s \<Longrightarrow> run_inv (skip_noise u s)"
  by (simp add: skip_noise_def shift_inv split: option.split)

lemma consume_block_inv: "ym_inv s \<Longrightarrow> run_inv (consume_block u s)"
  unfolding consume_block_def Let_def
  by (auto simp: lock_ports_inv reset_after_cancel_inv
      intro!: and_then_inv shift_inv handle_data_block_inv)

definition step_inv :: "(stop \<times> ymodem) + (next_step \<times> ymodem) \<Rightarrow> bool" where
  "step_inv r \<longleftrightarrow> (case r of Inl _ \<Rightarrow> True | Inr (_, s) \<Rightarrow> ym_inv s)"

lemma step_inv_simps [simp]: "step_inv (Inl h)" "step_inv (Inr (x, s)) = ym_inv s"
  "step_inv (map_sum id (Pair x) r) = run_inv r"
  by (simp_all add: step_inv_def run_inv_def split: sum.split)

lemma consume_step_inv:
  assumes "ym_inv s" shows "step_inv (consume_step u s)"
proof (cases "skip_noise u s")
  case (Inl h)
  then show ?thesis by (simp add: consume_step_def)
next
  case (Inr s1)
  then have i: "ym_inv s1" using skip_noise_inv [OF assms, of u] by simp
  then have z: "ym_inv (s1\<lparr>s_sl := (s_sl s1)(u := 0)\<rparr>)" by (simp add: ym_inv_def)
  show ?thesis unfolding consume_step_def
    using Inr i z by (auto simp: Let_def intro!: shift_inv consume_block_inv and_then_inv full_reset_inv)
qed

lemma finish_transfer_inv: "ym_inv s \<Longrightarrow> run_inv (finish_transfer s)"
  by (simp add: finish_transfer_def Let_def split: option.split prod.split)

lemma handle_eot_inv:
  assumes "ym_inv s" "\<And>s. ym_inv s \<Longrightarrow> run_inv (drain s)" "\<And>s. ym_inv s \<Longrightarrow> run_inv (consume s)"
  shows "run_inv (handle_eot drain consume s)"
  unfolding handle_eot_def Let_def
  using assms(1) by (auto simp: uart_wait_inv HAL_Delay_inv
      intro!: and_then_inv assms(2,3) finish_transfer_inv full_reset_inv)

lemma append_stream_inv:
  assumes "ym_inv s" "chunk_ok c" "\<And>u s. ym_inv s \<Longrightarrow> run_inv (consume u s)"
  shows "run_inv (append_stream consume u (ch_data c) (ch_len c) s)"
proof (cases "STREAM_MAX < s_sl s u + ch_len c")
  case True
  then show ?thesis using assms(1) by (simp add: append_stream_def full_reset_inv cancel_inv)
next
  case False
  have "ym_inv (s\<lparr>s_sb := (s_sb s)(u := poke (s_sl s u) (take (ch_len c) (ch_data c)) (s_sb s u)),
      s_sl := (s_sl s)(u := s_sl s u + ch_len c)\<rparr>)"
    using False assms(1,2) by (auto simp: ym_inv_def chunk_ok_def)
  then show ?thesis using False by (simp add: append_stream_def assms(3))
qed

lemma drain_loop_body_inv:
  assumes "ym_inv s" "\<And>c s. ym_inv s \<Longrightarrow> run_inv (rec c s)"
  shows "run_inv (drain_loop_body rec s)"
proof -
  have c: "chunk_ok (s_q s ! s_q_r s)" using assms(1) by (simp add: ym_inv_def list_all_length)
  have i: "ym_inv (s\<lparr>s_q_r := (s_q_r s + 1) mod CHUNK_Q\<rparr>)" using assms(1) by (simp add: ym_inv_def)
  show ?thesis unfolding drain_loop_body_def Let_def
    using assms(1) i by (auto intro!: and_then_inv append_stream_inv c assms(2))
qed

lemma try_consume_body_inv:
  assumes "ym_inv s" "\<And>c s. ym_inv s \<Longrightarrow> run_inv (rec c s)"
  shows "run_inv (try_consume_body rec u s)"
  unfolding try_consume_body_def
  using assms(1) consume_step_inv [OF assms(1), of u]
  by (auto split: sum.split next_step.split intro!: assms(2) and_then_inv handle_eot_inv)

lemma rx_run_inv: "ym_inv s \<Longrightarrow> run_inv (rx_run n c s)"
proof (induction n arbitrary: c s)
  case (Suc n)
  then show ?case
    by (cases c) (simp_all add: try_consume_body_inv drain_loop_body_inv drain_chunks_body_def full_reset_inv cancel_inv)
qed simp

lemma drain_chunks_inv: "ym_inv s \<Longrightarrow> run_inv (drain_chunks n s)"
  by (simp add: drain_chunks_def rx_run_inv)

lemma poll_inv: "ym_inv s \<Longrightarrow> run_inv (boot_ymodem_poll n s)"
  unfolding boot_ymodem_poll_def poll_idle_def Let_def split_beta
  by (auto intro!: and_then_inv drain_chunks_inv full_reset_inv simp: cancel_inv)

lemma boot_step_inv: "ym_inv s \<Longrightarrow> run_inv (boot_step n e s)"
  by (cases e) (simp_all add: rx_event_inv HAL_UART_ErrorCallback_def poll_inv)

lemma boot_loop_inv: "ym_inv s \<Longrightarrow> run_inv (boot_loop n es s)"
  by (induction es arbitrary: s) (auto intro!: and_then_inv boot_step_inv)

lemma probe_window_inv: "ym_inv s \<Longrightarrow> probe_window n t0 s = Inr (b, s') \<Longrightarrow> ym_inv s'"
proof (induction n arbitrary: s)
  case (Suc n)
  then show ?case
    using drain_chunks_inv [of s n] HAL_Delay_inv by (auto split: sum.splits if_splits)
qed simp

lemma probe_rounds_inv: "ym_inv s \<Longrightarrow> probe_rounds n r s = Inr (b, s') \<Longrightarrow> ym_inv s'"
proof (induction r arbitrary: s)
  case (Suc r)
  then show ?case by (auto simp: Let_def dest!: probe_window_inv [rotated] split: sum.splits if_splits)
qed auto

lemma main_boot_inv:
  assumes "ym_inv s" shows "run_inv (main_boot n s)"
proof -
  have "run_inv (boot_ymodem_init s)"
    unfolding boot_ymodem_init_def using assms
    by (intro and_then_inv session_vars_clear_inv) (simp_all add: start_rx_dma_both_inv ym_inv_clear)
  then show ?thesis
    unfolding main_boot_def
    by (rule and_then_inv)
       (auto simp: boot_ymodem_probe_def split: option.splits sum.splits if_splits dest: probe_rounds_inv [rotated])
qed


end
