(* ===== verification/Ota_Props.thy ===== *)
theory Ota_Props
  imports Ota_Board
begin

text \<open>Properties of the OTA module on the board.\<close>

text \<open>Power cycles in a row, as long as each of them enters the application.\<close>

fun boots :: "nat \<Rightarrow> (u32 \<Rightarrow> byte) \<Rightarrow> (u32 \<Rightarrow> byte) option" where
  "boots 0 m = Some m"
| "boots (Suc n) m = do {
     (e, s) \<leftarrow> power_on m;
     if e = OTA_MODULE_ERR_OK \<and> entered (g_world s) \<noteq> None then boots n (fl_mem (g_world s)) else None
   }"

text \<open>Flash contents with a given record, and concrete packages, for the witnesses.\<close>

definition demo_flash :: "byte \<Rightarrow> u32 \<Rightarrow> u32 \<Rightarrow> byte" where
  "demo_flash st n = mem_poke OTA_PLATFORM_RECORD_ADDR (record_bytes (slot_record st n 0)) (\<lambda>_. 0xFF)"

definition demo_ota :: "(u32 \<Rightarrow> byte) \<Rightarrow> stm32 ota" where
  "demo_ota m = (ota_reset m)\<lparr>g_inited := True\<rparr>"

definition seal_pkg :: "ota_package_header \<Rightarrow> ota_package_header" where
  "seal_pkg h = h\<lparr>ph_header_crc32 := hw_crc (take (sizeof_header - 4) (hdr56_bytes h))\<rparr>"

definition demo_body :: "byte list" where
  "demo_body = [1, 2, 3, 4, 5, 6, 7, 8]"

definition demo_header :: ota_package_header where
  "demo_header = seal_pkg \<lparr>ph_magic = OTA_PACKAGE_MAGIC, ph_build_timestamp = 1, ph_app_offset = 56,
     ph_app_size = 8, ph_app_crc32 = body_crc crc_write8 0xFFFFFFFF demo_body,
     ph_app_version = replicate 32 0, ph_header_crc32 = 0\<rparr>"

definition demo_package :: "byte list list" where
  "demo_package = [hdr56_bytes demo_header, [1, 2, 3], [4, 5, 6, 7, 8]]"

lemma slot_record_sealed: "seal hw_crc (slot_record st n f) = slot_record st n f"
  by (simp add: slot_record_def wf_record_def)

lemma demo_flash_holds: "holds_record hw_crc (demo_flash st n) OTA_PLATFORM_RECORD_ADDR (slot_record st n 0)"
proof -
  have len: "length (record_bytes (slot_record st n 0)) = sizeof_record"
    by (rule record_packed.packed_length) simp
  show ?thesis
    using len mem_at_poke [of "record_bytes (slot_record st n 0)" sizeof_record]
    by (simp add: holds_record_def demo_flash_def slot_record_sealed sizeof_record_def)
qed

lemma demo_ota_ready: "board_ready (demo_ota m)" "\<not> dl_started (g_dl (demo_ota m))"
  "board_record (demo_ota (demo_flash st n)) (slot_record st n 0)"
  by (simp_all add: board_ready_def demo_ota_def ota_reset_def zero_session_def board_record_def demo_flash_holds)

lemma demo_header_good: "good_header demo_header"
proof -
  have "length (ph_app_version demo_header) = 32" by (simp add: demo_header_def seal_pkg_def)
  then show ?thesis
    by (simp add: good_header_def wf_header_def)
       (simp add: demo_header_def seal_pkg_def hdr56_bytes_def sizeof_header_def)
qed

lemma demo_package_shape:
  "[] \<notin> set demo_package" "length (concat demo_package) = 64" "drop 56 (concat demo_package) = demo_body"
proof -
  have "length (hdr56_bytes demo_header) = 56"
    using header_packed.packed_length [of demo_header] demo_header_good
    by (simp add: good_header_def sizeof_header_def)
  then show "[] \<notin> set demo_package" "length (concat demo_package) = 64" "drop 56 (concat demo_package) = demo_body"
    by (auto simp: demo_package_def demo_body_def)
qed

subsection \<open>The record\<close>

text \<open>C28: storing the record and loading it again returns the record with its magic number
  and checksum, the load changes nothing in flash, and no byte outside the
  record's page is touched.\<close>

theorem record_store_load:
  assumes "board_ready s" "wf_record r"
  shows "\<exists>s' s''. record_store r s = Some (OTA_MODULE_ERR_OK, s')
    \<and> record_load s' = (OTA_MODULE_ERR_OK, Some (seal hw_crc r), s'')
    \<and> fl_mem (g_world s'') = fl_mem (g_world s')
    \<and> (\<forall>x. 0x800 \<le> unat (x - OTA_PLATFORM_RECORD_ADDR) \<longrightarrow> fl_mem (g_world s') x = fl_mem (g_world s) x)"
proof -
  obtain w where w: "record_store r s = Some (OTA_MODULE_ERR_OK, s\<lparr>g_world := w\<rparr>)"
      "holds_record hw_crc (fl_mem w) OTA_PLATFORM_RECORD_ADDR (seal hw_crc r)"
      "\<forall>x. 0x800 \<le> unat (x - OTA_PLATFORM_RECORD_ADDR) \<longrightarrow> fl_mem w x = fl_mem (g_world s) x"
    using board_store [of s r] assms by (auto simp: ready_board)
  have "record_load (s\<lparr>g_world := w\<rparr>) = (OTA_MODULE_ERR_OK, Some (seal hw_crc r),
      s\<lparr>g_world := snd (stm32g0xx_crc32 0 (take (sizeof_record - 4) (record_bytes (seal hw_crc r))) w)\<rparr>)"
    using board_load [of "s\<lparr>g_world := w\<rparr>" "seal hw_crc r"] assms(1) w(2) by (simp add: board_ready_def)
  then show ?thesis using w by (auto simp: stm32_crc32_cong)
qed

theorem record_store_load_witness:
  "\<exists>s' s''. record_store (slot_record OTA_APP_STATUS_BACKUP 1 0) (demo_ota (\<lambda>_. 0)) = Some (OTA_MODULE_ERR_OK, s')
    \<and> record_load s' = (OTA_MODULE_ERR_OK, Some (slot_record OTA_APP_STATUS_BACKUP 1 0), s'')"
  using record_store_load [OF demo_ota_ready(1), of "slot_record OTA_APP_STATUS_BACKUP 1 0" "\<lambda>_. 0"]
  by (auto simp: slot_record_sealed)

subsection \<open>An update\<close>

text \<open>C21: an update with an acceptable header, sent in pieces of any length, is written
  completely into the slot and nothing but the slot's pages and the record's
  page changes; it is accepted for a trial boot exactly when the image in flash
  has the checksum of the header, and otherwise the slot is marked invalid.\<close>

theorem ota_update:
  assumes "board_ready s" "\<not> dl_started (g_dl s)" "board_record s (slot_record st n f)" "good_header h"
    "[] \<notin> set ds" "length (concat ds) = unat (ph_app_offset h) + unat (ph_app_size h)"
  defines "ok \<equiv> body_crc crc_write8 0xFFFFFFFF (drop (unat (ph_app_offset h)) (concat ds)) = ph_app_crc32 h"
  shows "\<exists>s1 s2 s3. ota_module_ota_download_start (Some h) s = Some (OTA_MODULE_ERR_OK, s1)
    \<and> download_chunks 0 ds s1 = Some (OTA_MODULE_ERR_OK, s2)
    \<and> ota_module_ota_download_finish s2
        = Some (if ok then OTA_MODULE_ERR_OK else OTA_MODULE_ERR_CRC_MISMATCH, s3)
    \<and> board_record s3 (slot_record (if ok then OTA_APP_STATUS_UNVERIFIED else OTA_APP_STATUS_INVALID) 0 f)
    \<and> mem_at (fl_mem (g_world s3)) OTA_PLATFORM_APP1_ADDR (length (concat ds)) = concat ds
    \<and> (\<forall>x. 0x70000 \<le> unat (x - OTA_PLATFORM_APP1_ADDR) \<longrightarrow> 0x800 \<le> unat (x - OTA_PLATFORM_RECORD_ADDR)
          \<longrightarrow> fl_mem (g_world s3) x = fl_mem (g_world s) x)"
proof -
  note h = good_header_fits [OF assms(4)]
  have hd: "wf_header h" "ph_magic h = OTA_PACKAGE_MAGIC"
    "ph_header_crc32 h = hw_crc (take (sizeof_header - 4) (hdr56_bytes h))"
    using assms(4) by (simp_all add: good_header_def)
  have len: "length (concat ds) = unat (ph_app_offset h + ph_app_size h)" using assms(6) h(3) by simp
  from board_update [OF _ assms(2) _ _ h(2) h(1) hd assms(5) len refl, of "slot_record st n f" st n]
  obtain s1 s2 s3 where r: "ota_module_ota_download_start (Some h) s = Some (OTA_MODULE_ERR_OK, s1)"
      "download_chunks 0 ds s1 = Some (OTA_MODULE_ERR_OK, s2)"
      "ota_module_ota_download_finish s2 = Some (if ok then OTA_MODULE_ERR_OK else OTA_MODULE_ERR_CRC_MISMATCH, s3)"
      "holds_record hw_crc (fl_mem (g_world s3)) OTA_PLATFORM_RECORD_ADDR
        (slot_record (if ok then OTA_APP_STATUS_UNVERIFIED else OTA_APP_STATUS_INVALID) 0 f)"
      "mem_at (fl_mem (g_world s3)) (ai_flash_addr (app_slot st n)) (length (concat ds)) = concat ds"
      "\<forall>x. unat (align_up (ph_app_offset h + ph_app_size h) FLASH_PAGE_SIZE) \<le> unat (x - ai_flash_addr (app_slot st n))
        \<longrightarrow> unat FLASH_PAGE_SIZE \<le> unat (x - OTA_PLATFORM_RECORD_ADDR) \<longrightarrow> fl_mem (g_world s3) x = fl_mem (g_world s) x"
    using assms(1,3) by (auto simp: ready_board board_record_def ok_def)
  have "fl_mem (g_world s3) x = fl_mem (g_world s) x"
    if "0x70000 \<le> unat (x - OTA_PLATFORM_APP1_ADDR)" "0x800 \<le> unat (x - OTA_PLATFORM_RECORD_ADDR)" for x
    using that r(6) h(4) by (simp add: app_slot_def)
  then show ?thesis using r by (auto simp: board_record_def app_slot_def)
qed

theorem ota_update_witness:
  "\<exists>s1 s2 s3. ota_module_ota_download_start (Some demo_header) (demo_ota (demo_flash OTA_APP_STATUS_ACTIVE 0))
      = Some (OTA_MODULE_ERR_OK, s1)
    \<and> download_chunks 0 demo_package s1 = Some (OTA_MODULE_ERR_OK, s2)
    \<and> ota_module_ota_download_finish s2 = Some (OTA_MODULE_ERR_OK, s3)
    \<and> board_record s3 (slot_record OTA_APP_STATUS_UNVERIFIED 0 0)"
proof -
  have f: "ph_app_offset demo_header = 56" "ph_app_size demo_header = 8"
    "ph_app_crc32 demo_header = body_crc crc_write8 0xFFFFFFFF demo_body"
    by (simp_all add: demo_header_def seal_pkg_def)
  show ?thesis
    using ota_update [OF demo_ota_ready demo_header_good demo_package_shape(1), of OTA_APP_STATUS_ACTIVE 0]
    by (auto simp: f demo_package_shape)
qed



subsection \<open>Start-up\<close>

text \<open>C23: whatever the flash contains, start-up ends: the record in force (the stored one
  if it is valid, the default one otherwise) decides alone, as \<open>boot_spec\<close>
  says, whether the application is entered and at which address; the decision's
  new state is in flash, and nothing outside the record's page has changed.\<close>

theorem boot_decision:
  fixes m :: "u32 \<Rightarrow> byte"
  defines "r \<equiv> effective_record hw_crc m OTA_PLATFORM_RECORD_ADDR"
  defines "a \<equiv> ri_ota_app_info r ! 0"
  shows "\<exists>e s. power_on m = Some (e, s)
    \<and> stored_record hw_crc (fl_mem (g_world s)) OTA_PLATFORM_RECORD_ADDR
        = Some (seal hw_crc (r\<lparr>ri_ota_app_info := [snd (boot_spec a)]\<rparr>))
    \<and> (\<forall>x. 0x800 \<le> unat (x - OTA_PLATFORM_RECORD_ADDR) \<longrightarrow> fl_mem (g_world s) x = m x)
    \<and> (if \<not> fst (boot_spec a) then e = OTA_MODULE_ERR_NO_BOOT_CANDIDATE \<and> entered (g_world s) = None
       else let entry = entry_of hw_crc (fl_mem (g_world s)) a in
         if entry = 0 then e = OTA_MODULE_ERR_JUMP_FAILED \<and> entered (g_world s) = None
         else e = OTA_MODULE_ERR_OK \<and> entered (g_world s) = Some entry)"
proof -
  obtain b where b: "ri_ota_app_info r = [b]"
    using wf_effective [of hw_crc m OTA_PLATFORM_RECORD_ADDR] by (auto simp: r_def wf_record_single)
  have r: "r = effective_record hw_crc m OTA_PLATFORM_RECORD_ADDR" by (simp add: r_def)
  have "b = a" by (simp add: a_def b)
  then show ?thesis using power_on_ok [OF r b] by (simp only:)
qed

theorem boot_decision_witness:
  "\<exists>s. power_on (demo_flash OTA_APP_STATUS_INVALID 0) = Some (OTA_MODULE_ERR_NO_BOOT_CANDIDATE, s)
    \<and> entered (g_world s) = None"
  using boot_decision [of "demo_flash OTA_APP_STATUS_INVALID 0"]
  by (auto simp: effective_of_stored [OF demo_flash_holds] boot_spec_def app_slot_def)

lemma slot_entry_nonzero: "entry_of hw_crc m (app_slot st n) \<noteq> 0"
proof -
  have "OTA_PLATFORM_APP1_ADDR + x \<noteq> 0" if "x < OTA_PLATFORM_APP_PARTITION_SIZE" for x
    using that unat_plus_small [of OTA_PLATFORM_APP1_ADDR x] by (auto simp: unat_order)
  then show ?thesis by (simp add: entry_of_def app_slot_def Let_def)
qed

lemma power_on_slot:
  assumes "holds_record hw_crc m OTA_PLATFORM_RECORD_ADDR (slot_record st n f)"
  shows "\<exists>e s. power_on m = Some (e, s)
    \<and> holds_record hw_crc (fl_mem (g_world s)) OTA_PLATFORM_RECORD_ADDR
        (slot_record (ai_status (snd (boot_spec (app_slot st n)))) (ai_verify_count (snd (boot_spec (app_slot st n)))) f)
    \<and> (\<forall>x. 0x800 \<le> unat (x - OTA_PLATFORM_RECORD_ADDR) \<longrightarrow> fl_mem (g_world s) x = m x)
    \<and> (if fst (boot_spec (app_slot st n))
       then e = OTA_MODULE_ERR_OK \<and> entered (g_world s) \<noteq> None
       else e = OTA_MODULE_ERR_NO_BOOT_CANDIDATE \<and> entered (g_world s) = None)"
proof -
  let ?a = "app_slot st n" and ?b = "boot_spec (app_slot st n)"
  have b: "snd ?b = app_slot (ai_status (snd ?b)) (ai_verify_count (snd ?b))"
    by (simp add: boot_spec_def app_slot_def)
  have r: "seal hw_crc ((slot_record st n f)\<lparr>ri_ota_app_info := [app_slot st' n']\<rparr>) = slot_record st' n' f" for st' n'
    by (simp add: slot_record_def seal_def Let_def record_prefix wf_record_single)
  note nz = slot_entry_nonzero [of _ st n]
  have "seal hw_crc ((slot_record st n f)\<lparr>ri_ota_app_info := [snd ?b]\<rparr>)
      = slot_record (ai_status (snd ?b)) (ai_verify_count (snd ?b)) f"
    by (metis b r)
  then show ?thesis
    using power_on_ok [OF effective_of_stored [OF assms, symmetric] slot_record_simps(1)] nz
    by (auto simp: stored_holds Let_def split: if_splits)
qed

lemma app_slot_simps [simp]: "ai_status (app_slot st n) = st" "ai_verify_count (app_slot st n) = n"
  by (simp_all add: app_slot_def)

lemma boot_spec_slot [simp]:
  "boot_spec (app_slot OTA_APP_STATUS_UNVERIFIED 0) = (True, app_slot OTA_APP_STATUS_UNVERIFIED 1)"
  "boot_spec (app_slot OTA_APP_STATUS_UNVERIFIED 1) = (True, app_slot OTA_APP_STATUS_UNVERIFIED 2)"
  "boot_spec (app_slot OTA_APP_STATUS_UNVERIFIED 2) = (False, app_slot OTA_APP_STATUS_INVALID 0)"
  "boot_spec (app_slot OTA_APP_STATUS_ACTIVE n) = (True, app_slot OTA_APP_STATUS_ACTIVE n)"
  "boot_spec (app_slot OTA_APP_STATUS_INVALID n) = (False, app_slot OTA_APP_STATUS_INVALID n)"
  by (simp_all add: boot_spec_def app_slot_def word_le_nat_alt)

text \<open>C24: an image on trial that never confirms itself is entered at the first two
  start-ups, and from the third on it is refused: its slot is marked invalid.\<close>

theorem trial_boots:
  assumes "holds_record hw_crc m OTA_PLATFORM_RECORD_ADDR (slot_record OTA_APP_STATUS_UNVERIFIED 0 f)"
  shows "\<exists>m2 s3. boots 1 m \<noteq> None \<and> boots 2 m = Some m2 \<and> boots 3 m = None
    \<and> power_on m2 = Some (OTA_MODULE_ERR_NO_BOOT_CANDIDATE, s3)
    \<and> holds_record hw_crc (fl_mem (g_world s3)) OTA_PLATFORM_RECORD_ADDR
        (slot_record OTA_APP_STATUS_INVALID 0 f)"
proof -
  obtain s1 where s1: "power_on m = Some (OTA_MODULE_ERR_OK, s1)" "entered (g_world s1) \<noteq> None"
      "holds_record hw_crc (fl_mem (g_world s1)) OTA_PLATFORM_RECORD_ADDR (slot_record OTA_APP_STATUS_UNVERIFIED 1 f)"
    using power_on_slot [OF assms] by auto
  obtain s2 where s2: "power_on (fl_mem (g_world s1)) = Some (OTA_MODULE_ERR_OK, s2)" "entered (g_world s2) \<noteq> None"
      "holds_record hw_crc (fl_mem (g_world s2)) OTA_PLATFORM_RECORD_ADDR (slot_record OTA_APP_STATUS_UNVERIFIED 2 f)"
    using power_on_slot [OF s1(3)] by auto
  obtain s3 where s3: "power_on (fl_mem (g_world s2)) = Some (OTA_MODULE_ERR_NO_BOOT_CANDIDATE, s3)"
      "holds_record hw_crc (fl_mem (g_world s3)) OTA_PLATFORM_RECORD_ADDR (slot_record OTA_APP_STATUS_INVALID 0 f)"
    using power_on_slot [OF s2(3)] by auto
  show ?thesis using s1 s2 s3 by (simp add: numeral_2_eq_2 numeral_3_eq_3)
qed

theorem trial_boots_witness:
  "boots 2 (demo_flash OTA_APP_STATUS_UNVERIFIED 0) \<noteq> None \<and> boots 3 (demo_flash OTA_APP_STATUS_UNVERIFIED 0) = None"
  using trial_boots [OF demo_flash_holds] by auto

lemma active_boots:
  assumes "holds_record hw_crc m OTA_PLATFORM_RECORD_ADDR (slot_record OTA_APP_STATUS_ACTIVE n f)"
  shows "boots k m \<noteq> None"
  using assms
proof (induction k arbitrary: m)
  case (Suc k)
  obtain s where "power_on m = Some (OTA_MODULE_ERR_OK, s)" "entered (g_world s) \<noteq> None"
      "holds_record hw_crc (fl_mem (g_world s)) OTA_PLATFORM_RECORD_ADDR (slot_record OTA_APP_STATUS_ACTIVE n f)"
    using power_on_slot [OF Suc.prems] by auto
  with Suc.IH [of "fl_mem (g_world s)"] show ?case by simp
qed simp

text \<open>C25: an image on trial that confirms itself is active from then on: it is entered at
  every later start-up, however many there are.\<close>

theorem confirmed_image_boots:
  assumes "board_ready s" "board_record s (slot_record OTA_APP_STATUS_UNVERIFIED n f)"
  shows "\<exists>s'. ota_module_app_mark_verified s = Some (OTA_MODULE_ERR_OK, s')
    \<and> board_record s' (slot_record OTA_APP_STATUS_ACTIVE 0 f)
    \<and> (\<forall>k. boots k (fl_mem (g_world s')) \<noteq> None)"
proof -
  obtain w where w: "ota_module_app_mark_verified s = Some (OTA_MODULE_ERR_OK, s\<lparr>g_world := w\<rparr>)"
      "holds_record hw_crc (fl_mem w) OTA_PLATFORM_RECORD_ADDR (slot_record OTA_APP_STATUS_ACTIVE 0 f)"
    using board_verify [of s "slot_record OTA_APP_STATUS_UNVERIFIED n f" "app_slot OTA_APP_STATUS_UNVERIFIED n"] assms
    by (auto simp: ready_board board_record_def app_slot_def)
  have "boots k (fl_mem w) \<noteq> None" for k by (rule active_boots [OF w(2)])
  with w show ?thesis by (auto simp: board_record_def)
qed

theorem confirmed_image_boots_witness:
  "\<exists>s'. ota_module_app_mark_verified (demo_ota (demo_flash OTA_APP_STATUS_UNVERIFIED 1))
      = Some (OTA_MODULE_ERR_OK, s') \<and> boots 10 (fl_mem (g_world s')) \<noteq> None"
  using confirmed_image_boots [OF demo_ota_ready(1,3)] by blast

text \<open>C26: an aborted update leaves an invalid slot that no start-up enters.\<close>

theorem abort_not_entered:
  assumes "board_ready s" "board_record s (slot_record st n f)"
    "if dl_started (g_dl s) then dl_target_index (g_dl s) = 0 else st = OTA_APP_STATUS_DOWNLOADING"
  shows "\<exists>s1 s2. ota_module_ota_download_abort s = Some (OTA_MODULE_ERR_OK, s1)
    \<and> \<not> dl_started (g_dl s1) \<and> board_record s1 (slot_record OTA_APP_STATUS_INVALID 0 f)
    \<and> power_on (fl_mem (g_world s1)) = Some (OTA_MODULE_ERR_NO_BOOT_CANDIDATE, s2)
    \<and> entered (g_world s2) = None"
proof -
  obtain w where w: "ota_module_ota_download_abort s = Some (OTA_MODULE_ERR_OK, s\<lparr>g_world := w, g_dl := zero_session\<rparr>)"
      "holds_record hw_crc (fl_mem w) OTA_PLATFORM_RECORD_ADDR (slot_record OTA_APP_STATUS_INVALID 0 f)"
    using board_abort [of s "slot_record st n f" "app_slot st n"] assms
    by (auto simp: ready_board board_record_def app_slot_def split: if_splits)
  obtain s2 where "power_on (fl_mem w) = Some (OTA_MODULE_ERR_NO_BOOT_CANDIDATE, s2)" "entered (g_world s2) = None"
    using power_on_slot [OF w(2)] by auto
  with w show ?thesis by (auto simp: board_record_def zero_session_def)
qed

theorem abort_not_entered_witness:
  "\<exists>s1 s2. ota_module_ota_download_abort (demo_ota (demo_flash OTA_APP_STATUS_DOWNLOADING 0))
      = Some (OTA_MODULE_ERR_OK, s1)
    \<and> power_on (fl_mem (g_world s1)) = Some (OTA_MODULE_ERR_NO_BOOT_CANDIDATE, s2)"
  using abort_not_entered [OF demo_ota_ready(1,3), of OTA_APP_STATUS_DOWNLOADING 0]
  by (auto simp: demo_ota_def ota_reset_def zero_session_def)

subsection \<open>Rejected pieces\<close>



subsection \<open>A lost record\<close>

lemma un32_erased: "4 \<le> n \<Longrightarrow> un32 (replicate n 0xFF) \<noteq> OTA_PACKAGE_MAGIC"
proof -
  assume "4 \<le> n"
  then have "replicate n (0xFF :: byte) = replicate 4 0xFF @ replicate (n - 4) 0xFF"
    by (simp flip: replicate_add)
  also have "\<dots> = 0xFF # 0xFF # 0xFF # 0xFF # replicate (n - 4) 0xFF" by (simp add: numeral_eq_Suc)
  finally show ?thesis by (simp add: mk32_def mk16_def)
qed

text \<open>A reset between the erase and the write of \<open>record_store\<close> leaves the record's page
  erased.  The default record then counts, and it says that the slot holds an
  active image: start-up enters the slot whatever it contains, also one that an
  unfinished download has just erased.\<close>

theorem erased_record_enters_slot:
  assumes "\<And>x. unat (x - OTA_PLATFORM_RECORD_ADDR) < 0x800 \<Longrightarrow> m x = 0xFF"
    "\<And>x. unat (x - OTA_PLATFORM_APP1_ADDR) < 0x70000 \<Longrightarrow> m x = 0xFF"
  shows "\<exists>s. power_on m = Some (OTA_MODULE_ERR_OK, s) \<and> entered (g_world s) = Some OTA_PLATFORM_APP1_ADDR"
proof -
  have ff: "mem_at m' p n = replicate n 0xFF"
    if "\<And>x. unat (x - p) < k \<Longrightarrow> m' x = 0xFF" "n \<le> k" "k \<le> 0x70000" for m' p n k
    using that by (intro nth_equalityI) (simp_all add: mem_at_def unat_of_nat)
  have "mem_at m OTA_PLATFORM_RECORD_ADDR sizeof_record = replicate sizeof_record 0xFF"
    using assms(1) by (intro ff [of OTA_PLATFORM_RECORD_ADDR "0x800" m]) (simp_all add: sizeof_record_def)
  then have n: "stored_record hw_crc m OTA_PLATFORM_RECORD_ADDR = None"
    using un32_erased [of sizeof_record] by (simp add: stored_record_def record_of_bytes_def sizeof_record_def Let_def)
  have d: "effective_record hw_crc m OTA_PLATFORM_RECORD_ADDR = slot_record OTA_APP_STATUS_ACTIVE 0 0"
    by (simp add: effective_record_def n slot_record_def ota_record_default_info_def app_slot_def)
  let ?a = "app_slot OTA_APP_STATUS_ACTIVE 0"
  obtain s where s: "power_on m = Some (if entry_of hw_crc (fl_mem (g_world s)) ?a = 0
        then OTA_MODULE_ERR_JUMP_FAILED else OTA_MODULE_ERR_OK, s)"
      "entry_of hw_crc (fl_mem (g_world s)) ?a \<noteq> 0 \<Longrightarrow> entered (g_world s) = Some (entry_of hw_crc (fl_mem (g_world s)) ?a)"
      "\<forall>x. 0x800 \<le> unat (x - OTA_PLATFORM_RECORD_ADDR) \<longrightarrow> fl_mem (g_world s) x = m x"
    using power_on_ok [OF d [symmetric], of ?a] by (auto simp: boot_spec_def app_slot_def Let_def split: if_splits)
  have "mem_at (fl_mem (g_world s)) OTA_PLATFORM_APP1_ADDR sizeof_header = replicate sizeof_header 0xFF"
    by (rule ff [where k = "0x70000"]) (use s(3) assms(2) app_area_apart in \<open>auto simp: sizeof_header_def\<close>)
  then have "entry_of hw_crc (fl_mem (g_world s)) ?a = OTA_PLATFORM_APP1_ADDR"
    using un32_erased [of sizeof_header] by (simp add: entry_of_def app_slot_def hdr56_of_bytes_def sizeof_header_def Let_def)
  with s show ?thesis by auto
qed

end
