(* ===== verification/Ymodem_Ota.thy ===== *)
theory Ymodem_Ota
  imports Ymodem_Inv Ota_Props
begin

text \<open>
  The OTA module as the Ymodem receiver drives it: the state in which the first
  \<open>k\<close> bytes of a package have been written.
\<close>

definition total_size :: "ota_package_header \<Rightarrow> nat" where
  "total_size h = unat (ph_app_offset h) + unat (ph_app_size h)"

definition ota_progress :: "u32 \<Rightarrow> ota_package_header \<Rightarrow> byte list \<Rightarrow> nat \<Rightarrow> stm32 ota \<Rightarrow> bool" where
  "ota_progress f h img k s \<longleftrightarrow> board_ready s \<and> board_record s (slot_record OTA_APP_STATUS_DOWNLOADING 0 f)
     \<and> good_header h \<and> k \<le> total_size h
     \<and> g_dl s = (download_session 0 h)\<lparr>dl_downloaded_size := of_nat k\<rparr>
     \<and> stream (OTA_PLATFORM_APP1_ADDR + align_up (ph_app_offset h + ph_app_size h) FLASH_PAGE_SIZE)
         (OTA_PLATFORM_APP1_ADDR + of_nat k) (g_world s)
     \<and> mem_at (flash_view (g_world s)) OTA_PLATFORM_APP1_ADDR k = take k img"

lemma total_bound: "good_header h \<Longrightarrow> total_size h \<le> 0x70000"
  by (simp add: good_header_def total_size_def)

lemma total_unat: "good_header h \<Longrightarrow> unat (ph_app_offset h + ph_app_size h) = total_size h"
  by (simp add: total_size_def good_header_fits(3))

lemma progress_start:
  assumes "board_ready s" "\<not> dl_started (g_dl s)" "board_record s (slot_record st n f)" "good_header h"
  shows "\<exists>s'. ota_module_ota_download_start (Some h) s = Some (OTA_MODULE_ERR_OK, s') \<and> ota_progress f h img 0 s'"
proof -
  note h = good_header_fits [OF assms(4)]
  let ?n = "align_up (ph_app_offset h + ph_app_size h) FLASH_PAGE_SIZE"
  have hd: "wf_header h" "ph_magic h = OTA_PACKAGE_MAGIC"
    "ph_header_crc32 h = hw_crc (take (sizeof_header - 4) (hdr56_bytes h))"
    using assms(4) by (simp_all add: good_header_def)
  from board_start [OF _ assms(2) _ _ h(2) h(1) hd, of "slot_record st n f" st n]
  obtain w1 where st: "ota_module_ota_download_start (Some h) s
      = Some (OTA_MODULE_ERR_OK, s\<lparr>g_world := w1, g_dl := download_session 0 h\<rparr>)"
    and w1: "stm_healthy w1" "stm_idle w1"
      "holds_record hw_crc (fl_mem w1) OTA_PLATFORM_RECORD_ADDR (slot_record OTA_APP_STATUS_DOWNLOADING 0 f)"
      "\<forall>x. unat (x - OTA_PLATFORM_APP1_ADDR) < unat ?n \<longrightarrow> fl_mem w1 x = 0xFF"
    using assms(1,3) by (auto simp: ready_board board_record_def app_slot_def)
  have room: "in_flash OTA_PLATFORM_APP1_ADDR ?n"
    using h(2) [of st n] by (simp add: board_ota.target_def app_slot_def)
  have "stream (OTA_PLATFORM_APP1_ADDR + ?n) OTA_PLATFORM_APP1_ADDR w1"
    by (rule stm.stream_erased [OF room w1(2)]) (use w1(4) in blast)
  then show ?thesis
    using st w1 assms(1,4)
    by (auto simp: ota_progress_def board_ready_def board_record_def download_session_def mem_at_def)
qed

lemma progress_step:
  assumes p: "ota_progress f h img k s" and d: "d \<noteq> []" "k + length d \<le> total_size h"
    "take (k + length d) img = take k img @ d"
  shows "\<exists>s'. ota_module_ota_download (of_nat k) (Some d) (of_nat (length d)) s = Some (OTA_MODULE_ERR_OK, s')
    \<and> ota_progress f h img (k + length d) s'"
proof -
  let ?p = OTA_PLATFORM_APP1_ADDR and ?n = "align_up (ph_app_offset h + ph_app_size h) FLASH_PAGE_SIZE"
  let ?a = "app_slot OTA_APP_STATUS_DOWNLOADING 0" and ?k = "of_nat k :: u32"
  have good: "good_header h" and ready: "board_ready s" using p by (simp_all add: ota_progress_def)
  note h = good_header_fits [OF good]
  have k: "unat ?k = k" using p total_bound [OF good] by (intro unat_of_nat32) (simp add: ota_progress_def)
  obtain w where w: "ota_module_ota_download ?k (Some d) (of_nat (length d)) s = Some (OTA_MODULE_ERR_OK,
        s\<lparr>g_world := w, g_dl := (download_session 0 h)\<lparr>dl_downloaded_size := ?k + of_nat (length d)\<rparr>\<rparr>)"
      "stm_healthy w" "holds_record hw_crc (fl_mem w) OTA_PLATFORM_RECORD_ADDR (slot_record OTA_APP_STATUS_DOWNLOADING 0 f)"
      "stream (?p + ?n) (?p + (?k + of_nat (length d))) w"
      "flash_view w = mem_poke (?p + ?k) d (flash_view (g_world s))"
    using board_ota.download_ok [folded hw_crc_def, unfolded record_addr_platform,
        of s "slot_record OTA_APP_STATUS_DOWNLOADING 0 f" ?a ?n ?k h d] p h d(1,2) k total_unat [OF good]
    by (auto simp: ota_progress_def ready_board board_record_def app_slot_def)
  have "mem_at (flash_view w) ?p (k + length d) = mem_at (flash_view w) ?p k @ mem_at (flash_view w) (?p + ?k) (length d)"
    by (rule mem_at_split)
  also have "mem_at (flash_view w) (?p + ?k) (length d) = d"
    using mem_at_poke [of d "length d" "?p + ?k"] d(2) total_bound [OF good] by (simp add: w(5))
  also have "mem_at (flash_view w) ?p k = mem_at (flash_view (g_world s)) ?p k"
  proof (rule mem_at_cong)
    fix j assume j: "j < k"
    have "length d \<le> unat (?p + of_nat j - (?p + of_nat k))"
      using j d(2) total_bound [OF good]
      by (intro unat_diff_outside) (simp_all add: unat_of_nat)
    then show "flash_view w (?p + of_nat j) = flash_view (g_world s) (?p + of_nat j)"
      by (simp add: w(5) mem_poke_other)
  qed
  also have "\<dots> = take k img" using p by (simp add: ota_progress_def)
  finally have "mem_at (flash_view w) ?p (k + length d) = take (k + length d) img" using d(3) by simp
  then show ?thesis
    using w d(2) good ready by (auto simp: ota_progress_def board_ready_def board_record_def)
qed

lemma progress_finish:
  assumes p: "ota_progress f h img (total_size h) s"
    and crc: "body_crc crc_write8 0xFFFFFFFF (drop (unat (ph_app_offset h)) (take (total_size h) img)) = ph_app_crc32 h"
  shows "\<exists>s'. ota_module_ota_download_finish s = Some (OTA_MODULE_ERR_OK, s') \<and> board_ready s'
    \<and> board_record s' (slot_record OTA_APP_STATUS_UNVERIFIED 0 f)
    \<and> mem_at (fl_mem (g_world s')) OTA_PLATFORM_APP1_ADDR (total_size h) = take (total_size h) img"
proof -
  let ?p = OTA_PLATFORM_APP1_ADDR and ?t = "ph_app_offset h + ph_app_size h"
  let ?n = "align_up ?t FLASH_PAGE_SIZE" and ?a = "app_slot OTA_APP_STATUS_DOWNLOADING 0"
  let ?v = "flash_view (g_world s)" and ?r = "slot_record OTA_APP_STATUS_DOWNLOADING 0 f"
  have good: "good_header h" and ready: "board_ready s" using p by (simp_all add: ota_progress_def)
  note h = good_header_fits [OF good] and t = total_unat [OF good]
  have tt: "of_nat (total_size h) = ?t" unfolding t [symmetric] by simp
  have st: "stream (?p + ?n) (?p + ?t) (g_world s)" using p tt by (simp add: ota_progress_def)
  have rec: "holds_record hw_crc (fl_mem (g_world s)) OTA_PLATFORM_RECORD_ADDR ?r"
    using p by (simp add: ota_progress_def board_record_def)
  have apart: "?v x = fl_mem (g_world s) x" if "unat (x - OTA_PLATFORM_RECORD_ADDR) < 0x800" for x
  proof -
    have "fl_mem (g_world s) x = ?v x"
      by (rule board_ota.stream_apart [OF h(2) [of OTA_APP_STATUS_DOWNLOADING 0], where k = ?t and lim = "?p + ?n"])
         (use that st h(2) [of OTA_APP_STATUS_DOWNLOADING 0] in \<open>simp_all add: app_slot_def board_ota.target_def\<close>)
    then show ?thesis by simp
  qed
  have "sizeof_record \<le> 0x800" by (simp add: sizeof_record_def)
  then have rv: "holds_record hw_crc ?v OTA_PLATFORM_RECORD_ADDR ?r"
    using holds_record_cong [OF rec apart] by blast
  have img: "mem_at ?v ?p (total_size h) = take (total_size h) img" using p by (simp add: ota_progress_def)
  have "mem_at ?v ?p (total_size h) = mem_at ?v ?p (unat (ph_app_offset h))
      @ mem_at ?v (?p + ph_app_offset h) (unat (ph_app_size h))"
    using mem_at_split [of ?v ?p "unat (ph_app_offset h)" "unat (ph_app_size h)"] by (simp add: total_size_def)
  then have body: "mem_at ?v (?p + ph_app_offset h) (unat (ph_app_size h))
      = drop (unat (ph_app_offset h)) (take (total_size h) img)"
    unfolding img by (metis append_eq_conv_conj length_mem_at)
  obtain w where w: "ota_module_ota_download_finish s = Some (OTA_MODULE_ERR_OK, s\<lparr>g_world := w, g_dl := zero_session\<rparr>)"
      "stm_healthy w" "holds_record hw_crc (fl_mem w) OTA_PLATFORM_RECORD_ADDR (slot_record OTA_APP_STATUS_UNVERIFIED 0 f)"
      "\<forall>x. 0x800 \<le> unat (x - OTA_PLATFORM_RECORD_ADDR) \<longrightarrow> fl_mem w x = ?v x"
    using board_ota.finish_ok [folded hw_crc_def, unfolded record_addr_platform,
        of s ?r "?p + ?n" "?p + ?t" h ?a ?n True] p rec rv st h body crc tt
    by (auto simp: ota_progress_def ready_board app_slot_def)
  have "mem_at (fl_mem w) ?p (total_size h) = mem_at ?v ?p (total_size h)"
  proof (rule mem_at_cong)
    fix j assume "j < total_size h"
    then have "0x800 \<le> unat (?p + of_nat j - OTA_PLATFORM_RECORD_ADDR)"
      using total_bound [OF good] by (intro app_area_apart [where n = "0x70000"]) (simp_all add: unat_of_nat)
    then show "fl_mem w (?p + of_nat j) = ?v (?p + of_nat j)" using w(4) by blast
  qed
  then show ?thesis using w ready img by (auto simp: board_ready_def board_record_def)
qed

context ota_platform
begin

lemma set_flag_ok:
  assumes s: "ota_ready cfg healthy s" "rec_at (mem (g_world s)) r"
  shows "\<exists>w'. ota_module_set_boot_ymodem_flag fl s = Some (OTA_MODULE_ERR_OK, s\<lparr>g_world := w'\<rparr>)
    \<and> healthy w' \<and> rec_at (mem w') (seal crcf (r\<lparr>ri_boot_ymodem_flag := fl\<rparr>))
    \<and> (\<forall>x. unat sector \<le> unat (x - record_addr cfg) \<longrightarrow> mem w' x = mem (g_world s) x)"
proof -
  have "wf_record (r\<lparr>ri_boot_ymodem_flag := fl\<rparr>)" using s(2) by (simp add: holds_record_def)
  from store_after_load [OF s this] show ?thesis
    using s record_load_ok [OF _ _ s(2)] by (auto simp: ota_module_set_boot_ymodem_flag_def ota_ready_def)
qed

end

lemmas board_set_flag = board_ota.set_flag_ok [folded hw_crc_def, unfolded record_addr_platform]

lemma slot_record_flag: "seal hw_crc ((slot_record st n f)\<lparr>ri_boot_ymodem_flag := f'\<rparr>) = slot_record st n f'"
  by (simp add: slot_record_def seal_def Let_def record_prefix wf_record_single)

lemma mem_at_app_cong:
  assumes "n \<le> 0x70000" "\<And>x. 0x800 \<le> unat (x - OTA_PLATFORM_RECORD_ADDR) \<Longrightarrow> m' x = m x"
  shows "mem_at m' OTA_PLATFORM_APP1_ADDR n = mem_at m OTA_PLATFORM_APP1_ADDR n"
proof (rule mem_at_cong)
  fix j assume "j < n"
  then have "0x800 \<le> unat (OTA_PLATFORM_APP1_ADDR + of_nat j - OTA_PLATFORM_RECORD_ADDR)"
    using assms(1) by (intro app_area_apart [where n = "0x70000"]) (simp_all add: unat_of_nat)
  then show "m' (OTA_PLATFORM_APP1_ADDR + of_nat j) = m (OTA_PLATFORM_APP1_ADDR + of_nat j)" by (rule assms(2))
qed

lemma package_entry:
  assumes "good_header h" "mem_at m OTA_PLATFORM_APP1_ADDR sizeof_header = hdr56_bytes h"
  shows "entry_of hw_crc m (app_slot st n) = OTA_PLATFORM_APP1_ADDR + ph_app_offset h"
  using assms by (simp add: entry_of_def app_slot_def good_header_def header_packed.packed_dec_only
      sizeof_header_def word_le_nat_alt Let_def)

lemma finish_transfer_ok:
  assumes "s_ota_session s" "s_hdr_done s" "ota_progress f h img (total_size h) (ym_ota s)"
    and crc: "body_crc crc_write8 0xFFFFFFFF (drop (unat (ph_app_offset h)) (take (total_size h) img)) = ph_app_crc32 h"
    and hd: "take sizeof_header img = hdr56_bytes h" "sizeof_header \<le> total_size h"
  shows "\<exists>o3. finish_transfer s = Inl (Jumped, s\<lparr>ym_ota := o3, s_ota_session := False\<rparr>)
    \<and> board_record o3 (slot_record OTA_APP_STATUS_UNVERIFIED 1 0)
    \<and> mem_at (fl_mem (g_world o3)) OTA_PLATFORM_APP1_ADDR (total_size h) = take (total_size h) img
    \<and> entered (g_world o3) = Some (OTA_PLATFORM_APP1_ADDR + ph_app_offset h)"
proof -
  let ?r = "slot_record OTA_APP_STATUS_UNVERIFIED 0" and ?a = "app_slot OTA_APP_STATUS_UNVERIFIED 0"
  have good: "good_header h" using assms(3) by (simp add: ota_progress_def)
  note tb = total_bound [OF good]
  obtain o1 where o1: "ota_module_ota_download_finish (ym_ota s) = Some (OTA_MODULE_ERR_OK, o1)"
      "board_ready o1" "board_record o1 (?r f)"
      "mem_at (fl_mem (g_world o1)) OTA_PLATFORM_APP1_ADDR (total_size h) = take (total_size h) img"
    using progress_finish [OF assms(3) crc] by blast
  obtain w2 where w2: "ota_module_set_boot_ymodem_flag 0 o1 = Some (OTA_MODULE_ERR_OK, o1\<lparr>g_world := w2\<rparr>)"
      "stm_healthy w2" "holds_record hw_crc (fl_mem w2) OTA_PLATFORM_RECORD_ADDR (?r 0)"
      "\<forall>x. 0x800 \<le> unat (x - OTA_PLATFORM_RECORD_ADDR) \<longrightarrow> fl_mem w2 x = fl_mem (g_world o1) x"
    using board_set_flag [of o1 "?r f" 0] o1(2,3) by (auto simp: ready_board board_record_def slot_record_flag)
  let ?o2 = "o1\<lparr>g_world := w2\<rparr>"
  obtain w3 where w3: "ota_module_boot_preprocess ?o2 = Some
        (case stm32g0xx_jump (entry_of hw_crc (fl_mem w3) ?a) w3 of
         (rc, w) \<Rightarrow> (if rc \<noteq> 0 then OTA_MODULE_ERR_JUMP_FAILED else OTA_MODULE_ERR_OK, ?o2\<lparr>g_world := w\<rparr>))"
      "stm_healthy w3" "holds_record hw_crc (fl_mem w3) OTA_PLATFORM_RECORD_ADDR
        (seal hw_crc ((?r 0)\<lparr>ri_ota_app_info := [app_slot OTA_APP_STATUS_UNVERIFIED 1]\<rparr>))"
      "\<forall>x. 0x800 \<le> unat (x - OTA_PLATFORM_RECORD_ADDR) \<longrightarrow> fl_mem w3 x = fl_mem w2 x"
    using board_boot [of ?o2 "?r 0" ?a] o1(2) w2(2,3) by (auto simp: ota_ready_def board_ready_def)
  have rec: "seal hw_crc ((?r 0)\<lparr>ri_ota_app_info := [app_slot OTA_APP_STATUS_UNVERIFIED 1]\<rparr>)
      = slot_record OTA_APP_STATUS_UNVERIFIED 1 0"
    by (simp add: slot_record_def seal_def Let_def record_prefix wf_record_single)
  have img: "mem_at (fl_mem w3) OTA_PLATFORM_APP1_ADDR (total_size h) = take (total_size h) img"
    using mem_at_app_cong [OF tb, of "fl_mem w3" "fl_mem (g_world o1)"] w2(4) w3(4) o1(4) by simp
  have "mem_at (fl_mem w3) OTA_PLATFORM_APP1_ADDR sizeof_header = take sizeof_header (take (total_size h) img)"
    using mem_at_split [of "fl_mem w3" OTA_PLATFORM_APP1_ADDR sizeof_header "total_size h - sizeof_header"] hd(2) img
    by (metis append_eq_conv_conj le_add_diff_inverse length_mem_at)
  then have "mem_at (fl_mem w3) OTA_PLATFORM_APP1_ADDR sizeof_header = hdr56_bytes h"
    using hd by (simp add: min_absorb1)
  then have e: "entry_of hw_crc (fl_mem w3) ?a = OTA_PLATFORM_APP1_ADDR + ph_app_offset h"
    by (rule package_entry [OF good])
  have "unat (OTA_PLATFORM_APP1_ADDR + ph_app_offset h) = unat OTA_PLATFORM_APP1_ADDR + unat (ph_app_offset h)"
    using good by (intro unat_plus_small) (simp add: good_header_def)
  then have nz: "OTA_PLATFORM_APP1_ADDR + ph_app_offset h \<noteq> 0" by (auto simp: word_unat_eq_iff)
  let ?e = "OTA_PLATFORM_APP1_ADDR + ph_app_offset h"
  obtain w4 where w4: "stm32g0xx_jump ?e w3 = (0, w4)" "entered w4 = Some ?e" "fl_mem w4 = fl_mem w3"
    using nz by (simp add: stm32g0xx_jump_def entered_def)
  show ?thesis
    using assms(1,2) o1(1) w2(1) w3(1,3) img e w4
    by (intro exI [of _ "?o2\<lparr>g_world := w4\<rparr>"]) (simp add: finish_transfer_def board_record_def rec)
qed

end
