(* ===== verification/Ymodem_Transfer.thy ===== *)
theory Ymodem_Transfer
  imports Ymodem_Ota
begin

text \<open>
  A whole transfer: frames as the sender forms them, their reception and the
  processing of one frame per poll, the payload, and the end of the transfer.
\<close>

definition ym_frame :: "byte \<Rightarrow> byte list \<Rightarrow> byte list" where
  "ym_frame seq p = (let c = ymodem_crc16 p (length p) in
     (if length p = 128 then YM_SOH else YM_STX) # seq # (255 - seq) # p @ [hi8 c, lo8 c])"

definition block_size :: "byte list \<Rightarrow> bool" where
  "block_size p \<longleftrightarrow> length p = 128 \<or> length p = 1024"

text \<open>Nothing is buffered and the receiver listens on the UART.\<close>

definition ym_idle :: "uart \<Rightarrow> ymodem \<Rightarrow> bool" where
  "ym_idle u s \<longleftrightarrow> ym_inv s \<and> s_q_r s = s_q_w s \<and> \<not> s_chunk_overflow s \<and> s_sl s u = 0
     \<and> ym_rx_on s u \<and> should_listen u s \<and> ym_script s = []"

text \<open>The receiver with bytes just moved from the queue into the assembly buffer.\<close>

definition loaded :: "uart \<Rightarrow> byte list \<Rightarrow> ymodem \<Rightarrow> ymodem" where
  "loaded u d s = s\<lparr>s_last_rx_ms := ym_tick s,
     s_q := (s_q s)[s_q_w s := \<lparr>ch_uidx = u, ch_len = length d, ch_data = poke 0 d (ch_data (s_q s ! s_q_w s))\<rparr>],
     s_q_w := (s_q_w s + 1) mod CHUNK_Q, s_q_r := (s_q_w s + 1) mod CHUNK_Q,
     s_sb := (s_sb s)(u := poke 0 d (s_sb s u)), s_sl := (s_sl s)(u := length d)\<rparr>"

lemma mod16_next: "n < CHUNK_Q \<Longrightarrow> (n + 1) mod CHUNK_Q \<noteq> n"
  by (cases "n = 15") auto

lemma should_listen_upd [simp]:
  "should_listen u (s\<lparr>s_last_rx_ms := a1\<rparr>) = should_listen u s" "should_listen u (s\<lparr>s_q := a2\<rparr>) = should_listen u s"
  "should_listen u (s\<lparr>s_q_w := a3\<rparr>) = should_listen u s" "should_listen u (s\<lparr>s_q_r := a3\<rparr>) = should_listen u s"
  "should_listen u (s\<lparr>ym_rx_on := a4\<rparr>) = should_listen u s"
  by (simp_all add: should_listen_def)

lemma received:
  assumes "ym_idle u s" "d \<noteq> []" "length d \<le> RX_DMA_BUF"
  shows "rx_event (u, d) s = s\<lparr>s_last_rx_ms := ym_tick s,
     s_q := (s_q s)[s_q_w s := \<lparr>ch_uidx = u, ch_len = length d, ch_data = poke 0 d (ch_data (s_q s ! s_q_w s))\<rparr>],
     s_q_w := (s_q_w s + 1) mod CHUNK_Q\<rparr>"
proof -
  have q: "s_q_w s < CHUNK_Q" "s_q_r s = s_q_w s" "ym_rx_on s u" "should_listen u s"
    using assms(1) by (simp_all add: ym_idle_def ym_inv_def)
  have "(s_q_w s + 1) mod CHUNK_Q \<noteq> s_q_w s" by (rule mod16_next [OF q(1)])
  then show ?thesis
    using q assms(2,3)
    by (simp add: rx_event_def HAL_UARTEx_RxEventCallback_def Let_def rx_sm_enqueue_def
        start_rx_dma_one_def HAL_UARTEx_ReceiveToIdle_DMA_def fun_upd_idem)
qed

text \<open>Receive and poll: the bytes are parsed in an otherwise empty buffer.\<close>

lemma receive_poll:
  assumes s: "ym_idle u s" and d: "d \<noteq> []" "length d \<le> RX_DMA_BUF"
    and run: "rx_run n (Try_consume u) (loaded u d s) = r"
      "case r of Inl _ \<Rightarrow> True | Inr s1 \<Rightarrow> s_q_r s1 = s_q_w s1 \<and> s_last_rx_ms s1 = ym_tick s1 \<and> s_locked s1"
  shows "boot_loop (Suc (Suc n)) [Received u d, Poll] s =
    (case r of Inl h \<Rightarrow> Inl h | Inr s1 \<Rightarrow>
       Inr (if T_DISC_C_MS \<le> ym_tick s1 - s_last_c_ms s1 then s1\<lparr>s_last_c_ms := ym_tick s1\<rparr> else s1))"
proof -
  let ?s = "rx_event (u, d) s" and ?w = "(s_q_w s + 1) mod CHUNK_Q"
  have q: "s_q_w s < CHUNK_Q" "s_q_r s = s_q_w s" "should_listen u s" "length (s_q s) = CHUNK_Q"
      "\<not> s_chunk_overflow s" "s_sl s u = 0" "chunk_ok (s_q s ! s_q_w s)"
    using s by (simp_all add: ym_idle_def ym_inv_def list_all_length)
  have ne: "?w \<noteq> s_q_w s" by (rule mod16_next [OF q(1)])
  have dl: "take (length d) (poke 0 d (ch_data (s_q s ! s_q_w s))) = d"
    using d(2) q(7) by (simp add: poke_def)
  have "rx_run (Suc n) Drain_loop ?s =
      and_then (append_stream (\<lambda>u. rx_run n (Try_consume u)) u (poke 0 d (ch_data (s_q s ! s_q_w s))) (length d)
        (?s\<lparr>s_q_r := ?w\<rparr>)) (rx_run n Drain_loop)"
    using q ne by (simp add: drain_loop_body_def received [OF s d] Let_def)
  also have "append_stream (\<lambda>u. rx_run n (Try_consume u)) u (poke 0 d (ch_data (s_q s ! s_q_w s))) (length d)
      (?s\<lparr>s_q_r := ?w\<rparr>) = rx_run n (Try_consume u) (loaded u d s)"
    using q d dl by (simp add: append_stream_def received [OF s d] loaded_def)
  finally have dr: "drain_chunks (Suc (Suc n)) ?s = and_then r (rx_run n Drain_loop)"
    using q run(1) by (simp add: drain_chunks_def drain_chunks_body_def received [OF s d])
  show ?thesis
  proof (cases r)
    case (Inl h)
    then show ?thesis using dr by (simp add: boot_ymodem_poll_def)
  next
    case (Inr s1)
    then have "n \<noteq> 0" using run(1) by (cases n) auto
    then obtain k where "n = Suc k" by (cases n) auto
    then have "rx_run n Drain_loop s1 = Inr s1" using run(2) Inr by (simp add: drain_loop_body_def)
    then have "drain_chunks (Suc (Suc n)) ?s = Inr s1" using dr Inr by simp
    moreover have "\<not> T_SESSION_MS \<le> (0 :: u32)" by simp
    ultimately show ?thesis
      using Inr run(2) by (auto simp: boot_ymodem_poll_def poll_idle_def Let_def)
  qed
qed

subsection \<open>One frame\<close>

lemma length_ym_frame [simp]: "length (ym_frame seq p) = length p + 5"
  by (simp add: ym_frame_def Let_def)

definition prepared :: "uart \<Rightarrow> ymodem \<Rightarrow> ymodem" where
  "prepared u s = (let s = s\<lparr>s_can_count := 0\<rparr> in if \<not> s_locked s then lock_ports u s else s)"

lemma seq_complement: "seq + (255 - seq) = (255 :: byte)"
  by simp

lemma consume_block_frame:
  assumes b: "s_sb s u = ym_frame seq p @ rest" "block_size p" and e: "s_eot_count s < 2"
  shows "consume_block u s = and_then (handle_data_block seq p (if \<not> s_locked s then lock_ports u s else s))
    (shift (length p + 5) u)"
proof -
  let ?c = "ymodem_crc16 p (length p)"
  have n: "s_sb s u ! 0 = (if length p = 128 then YM_SOH else YM_STX)" "s_sb s u ! 1 = seq" "s_sb s u ! 2 = 255 - seq"
    "slice 3 (length p) (s_sb s u) = p" "s_sb s u ! (3 + length p) = hi8 ?c" "s_sb s u ! (3 + length p + 1) = lo8 ?c"
    by (simp_all add: b(1) ym_frame_def Let_def slice_def nth_append numeral_2_eq_2 numeral_3_eq_3)
  have d: "(if s_sb s u ! 0 = YM_SOH then 128 else 1024) = length p"
    using b(2) by (auto simp: n block_size_def)
  have "\<not> 2 \<le> s_eot_count s" using e by simp
  then show ?thesis
    unfolding consume_block_def Let_def d unfolding n(2-) seq_complement mk16_lo_hi
    by (simp add: add.commute)
qed

lemma consume_frame:
  assumes b: "s_sb s u = ym_frame seq p @ rest" "s_sl s u = length p + 5" "block_size p"
    and s: "s_locked s \<Longrightarrow> s_active s = Some u" "s_eot_count s < 2"
  shows "rx_run (Suc n) (Try_consume u) s =
    and_then (and_then (handle_data_block seq p (prepared u s)) (shift (length p + 5) u)) (rx_run n (Try_consume u))"
proof -
  have h: "s_sb s u ! 0 = (if length p = 128 then YM_SOH else YM_STX)" "s_sb s u \<noteq> []"
    by (simp_all add: b(1) ym_frame_def Let_def)
  then have f: "frame_byte (s_sb s u ! 0)" "s_sb s u ! 0 \<noteq> YM_CAN" "s_sb s u ! 0 \<noteq> YM_EOT"
    by (simp_all add: frame_byte_def)
  have "first_idx frame_byte (take (s_sl s u) (s_sb s u)) = Some 0"
    using f(1) h(2) b(2) by (cases "s_sb s u") (simp_all add: take_Cons')
  then have k: "skip_noise u s = Inr s" by (simp add: skip_noise_def)
  let ?s = "s\<lparr>s_can_count := 0\<rparr>"
  have len: "\<not> s_sl s u < 3 + (if s_sb s u ! 0 = YM_SOH then 128 else 1024) + 2"
    using b(2,3) by (auto simp: h block_size_def)
  have "consume_step u s = map_sum id (Pair Continue) (consume_block u ?s)"
    using k f h(1) len s b(2) by (auto simp: consume_step_def Let_def split: if_splits)
  also have "consume_block u ?s = and_then (handle_data_block seq p (prepared u s)) (shift (length p + 5) u)"
    using consume_block_frame [of ?s u seq p rest] b s by (simp add: prepared_def)
  finally show ?thesis
    using b(2) by (cases "and_then (handle_data_block seq p (prepared u s)) (shift (length p + 5) u)")
      (simp_all add: try_consume_body_def)
qed

text \<open>The frame is removed from the buffer when the handler leaves the buffer alone.\<close>

lemma shift_all:
  assumes "s_sl s u = k" shows "shift k u s = Inr (s\<lparr>s_sl := (s_sl s)(u := 0)\<rparr>)"
  using assms by (simp add: shift_def slice_def poke_def)

lemma consume_frame_ok:
  assumes b: "s_sb s u = ym_frame seq p @ rest" "s_sl s u = length p + 5" "block_size p"
    and s: "s_locked s \<Longrightarrow> s_active s = Some u" "s_eot_count s < 2"
    and h: "handle_data_block seq p (prepared u s) = Inr s1" "s_sl s1 u = length p + 5"
  shows "rx_run (Suc (Suc n)) (Try_consume u) s = Inr (s1\<lparr>s_sl := (s_sl s1)(u := 0)\<rparr>)"
  using consume_frame [OF b s, of "Suc n"] h shift_all [OF h(2)] by (simp add: try_consume_body_def)

subsection \<open>The payload\<close>

lemma append_payload_stop:
  "p = [] \<or> s_hdr_done s \<and> payload_remain s = 0 \<Longrightarrow> append_file_payload p s = Inr s"
  by (auto simp: append_file_payload.simps [of p s])

lemma payload_write:
  assumes "s_hdr_done s" "ota_progress f h img k (ym_ota s)" "s_ota_offset s = of_nat k"
    "s_expected_total s = ph_app_offset h + ph_app_size h" "total_size h \<le> length img"
    "take (total_size h - k) p = take (min (length p) (total_size h - k)) (drop k img)"
  shows "\<exists>o'. append_file_payload p s = Inr (s\<lparr>ym_ota := o', s_ota_offset := of_nat (min (k + length p) (total_size h))\<rparr>)
    \<and> ota_progress f h img (min (k + length p) (total_size h)) o'"
proof -
  let ?T = "total_size h" and ?n = "min (length p) (total_size h - k)"
  have good: "good_header h" and k: "k \<le> ?T" using assms(2) by (simp_all add: ota_progress_def)
  have uk: "unat (of_nat k :: u32) = k" using k total_bound [OF good] by (intro unat_of_nat32) simp
  have tt: "of_nat ?T = ph_app_offset h + ph_app_size h" unfolding total_unat [OF good, symmetric] by simp
  have le: "s_ota_offset s \<le> s_expected_total s"
    using k uk total_unat [OF good] assms(3,4) by (simp add: word_le_nat_alt)
  have rm: "unat (payload_remain s) = ?T - k"
    using le uk total_unat [OF good] assms(3,4) by (simp add: payload_remain_def unat_sub)
  show ?thesis
  proof (cases "p = [] \<or> k = ?T")
    case True
    then have "append_file_payload p s = Inr s"
      using rm assms(1) by (auto simp: append_file_payload.simps [of p s] unat_eq_zero)
    moreover have "min (k + length p) ?T = k" using True k by auto
    ultimately show ?thesis using assms(2,3) by (intro exI [of _ "ym_ota s"]) simp
  next
    case False
    then have n: "0 < ?n" "k + ?n = min (k + length p) ?T" using k by auto
    have d: "take ?n p = take ?n (drop k img)" "take ?n p \<noteq> []"
      using assms(6) n(1) False by (auto simp: min_def split: if_splits)
    have ln: "length (take ?n p) = ?n" by simp
    have "take (k + length (take ?n p)) img = take k img @ take ?n p"
      unfolding ln using d(1) by (simp only: take_add)
    moreover have "k + length (take ?n p) \<le> ?T" using k by simp
    ultimately obtain o1 where o1: "ota_module_ota_download (of_nat k) (Some (take ?n p)) (of_nat ?n) (ym_ota s)
        = Some (OTA_MODULE_ERR_OK, o1)" "ota_progress f h img (k + ?n) o1"
      using progress_step [OF assms(2) d(2)] unfolding ln by blast
    let ?s = "s\<lparr>ym_ota := o1, s_ota_offset := of_nat (k + ?n)\<rparr>"
    have wp: "write_payload (take ?n p) s = Inr (True, ?s)"
      using o1(1) assms(3) by (simp add: write_payload_def min_def split: if_splits)
    have "append_file_payload (drop ?n p) ?s = Inr ?s"
    proof (cases "drop ?n p = []")
      case rest: False
      then have "k + ?n = ?T" using k by (auto simp: min_def split: if_splits)
      then have "payload_remain ?s = 0"
        using tt assms(4) by (simp add: payload_remain_def)
      then show ?thesis using assms(1) by (intro append_payload_stop) simp
    qed (simp add: append_payload_stop)
    then have "append_file_payload p s = Inr ?s"
      using False rm wp assms(1) k by (auto simp: append_file_payload.simps [of p s] Let_def unat_eq_zero)
    then show ?thesis using o1(2) unfolding n(2) by blast
  qed
qed

lemma payload_first:
  assumes s: "\<not> s_hdr_done s" "s_hdr_accum_len s = 0" "length (s_hdr_accum s) = sizeof_header"
    "board_ready (ym_ota s)" "\<not> dl_started (g_dl (ym_ota s))" "board_record (ym_ota s) (slot_record st n f)"
    and h: "good_header h" "sizeof_header \<le> total_size h" "total_size h \<le> length img"
      "take sizeof_header img = hdr56_bytes h"
    and p: "sizeof_header \<le> length p" "p = take (length p) img"
  shows "\<exists>o'. append_file_payload p s = Inr (s\<lparr>s_hdr_accum := hdr56_bytes h, s_hdr_accum_len := sizeof_header,
      s_ota_session := True, s_hdr_done := True, s_expected_total := ph_app_offset h + ph_app_size h,
      ym_ota := o', s_ota_offset := of_nat (min (length p) (total_size h))\<rparr>)
    \<and> ota_progress f h img (min (length p) (total_size h)) o'"
proof -
  let ?b = "hdr56_bytes h" and ?T = "total_size h"
  have wf: "wf_header h" using h(1) by (simp add: good_header_def)
  have len: "length ?b = sizeof_header" by (rule header_packed.packed_length [OF wf])
  have nd: "min (length p) (hdr_need s) = sizeof_header" using s(2) p(1) hdr_need_eq [of s] by simp
  have tk: "take sizeof_header p = ?b"
    using p(2) h(4) p(1) by (metis min.absorb1 take_take)
  let ?s1 = "s\<lparr>s_hdr_accum := ?b, s_hdr_accum_len := sizeof_header\<rparr>"
  have ac: "accum_header (take sizeof_header p) s = ?s1"
    using s(2,3) len by (simp add: accum_header_def tk poke_def)
  obtain o1 where o1: "ota_module_ota_download_start (Some h) (ym_ota s) = Some (OTA_MODULE_ERR_OK, o1)"
      "ota_progress f h img 0 o1"
    using progress_start [OF s(4-6) h(1)] by blast
  have "take (0 + length ?b) img = take 0 img @ ?b" using h(4) len by simp
  moreover have "?b \<noteq> []" using len by (auto simp: sizeof_header_def)
  ultimately obtain o2 where o2: "ota_module_ota_download 0 (Some ?b) (of_nat sizeof_header) o1 = Some (OTA_MODULE_ERR_OK, o2)"
      "ota_progress f h img sizeof_header o2"
    using progress_step [OF o1(2), of ?b] len h(2) by (auto simp: sizeof_header_def)
  let ?s2 = "?s1\<lparr>ym_ota := o2, s_ota_session := True, s_hdr_done := True, s_ota_offset := of_nat sizeof_header,
    s_expected_total := ph_app_offset h + ph_app_size h\<rparr>"
  have hc: "header_complete ?s1 = Inr (True, ?s2)"
    using o1(1) o2(1) by (simp add: header_complete_def header_packed.packed_dec_only [OF wf] Let_def)
  have "append_file_payload p s = append_file_payload (drop sizeof_header p) ?s2"
    using s(1) p(1) nd ac hc by (auto simp: append_file_payload.simps [of p s] Let_def sizeof_header_def)
  moreover have "drop sizeof_header p = take (length p - sizeof_header) (drop sizeof_header img)"
    by (subst p(2)) (simp add: drop_take)
  then have "take (?T - sizeof_header) (drop sizeof_header p)
      = take (min (length p - sizeof_header) (?T - sizeof_header)) (drop sizeof_header img)"
    by (simp only: take_take min.commute)
  moreover have "min (sizeof_header + length (drop sizeof_header p)) ?T = min (length p) ?T" using p(1) by simp
  ultimately show ?thesis
    using payload_write [of ?s2 f h img sizeof_header "drop sizeof_header p"] o2(2) h(3) by auto
qed

subsection \<open>Blocks in sequence\<close>

text \<open>The link is locked to the UART, in the data phase, and expects block \<open>seq\<close>.\<close>

definition link_fields :: "uart \<Rightarrow> ymodem \<Rightarrow> bool" where
  "link_fields u s \<longleftrightarrow> s_locked s \<and> s_active s = Some u \<and> \<not> s_in_filename_phase s \<and> s_eot_count s = 0
     \<and> s_nak_streak s = 0 \<and> \<not> s_wire_tail_discard s \<and> ym_script s = [] \<and> ym_rx_on s u
     \<and> \<not> s_chunk_overflow s \<and> s_q_r s = s_q_w s"

definition ym_link :: "uart \<Rightarrow> byte \<Rightarrow> ymodem \<Rightarrow> bool" where
  "ym_link u seq s \<longleftrightarrow> link_fields u s \<and> ym_idle u s \<and> s_expected_seq s = seq"

lemma boot_loop_append: "boot_loop n (es @ es') s = and_then (boot_loop n es s) (boot_loop n es')"
  by (induction es arbitrary: s) (auto simp: and_then_def split: sum.split)

lemma loaded_buffer:
  assumes "ym_idle u s" shows "s_sb (loaded u d s) u = d @ drop (length d) (s_sb s u)"
  by (simp add: loaded_def poke_def)

lemma loaded_simps [simp]:
  "s_sl (loaded u d s) u = length d" "s_locked (loaded u d s) = s_locked s" "s_active (loaded u d s) = s_active s"
  "s_eot_count (loaded u d s) = s_eot_count s" "s_expected_seq (loaded u d s) = s_expected_seq s"
  "s_in_filename_phase (loaded u d s) = s_in_filename_phase s" "s_nak_streak (loaded u d s) = s_nak_streak s"
  "s_wire_tail_discard (loaded u d s) = s_wire_tail_discard s" "ym_script (loaded u d s) = ym_script s"
  "ym_rx_on (loaded u d s) = ym_rx_on s" "s_chunk_overflow (loaded u d s) = s_chunk_overflow s"
  "s_q_r (loaded u d s) = s_q_w (loaded u d s)" "s_last_rx_ms (loaded u d s) = ym_tick (loaded u d s)"
  "ym_ota (loaded u d s) = ym_ota s" "s_hdr_done (loaded u d s) = s_hdr_done s"
  "s_ota_offset (loaded u d s) = s_ota_offset s" "s_expected_total (loaded u d s) = s_expected_total s"
  "s_hdr_accum (loaded u d s) = s_hdr_accum s" "s_hdr_accum_len (loaded u d s) = s_hdr_accum_len s"
  "s_ota_session (loaded u d s) = s_ota_session s" "s_last_acked_seq (loaded u d s) = s_last_acked_seq s"
  by (simp_all add: loaded_def)

text \<open>A block whose payload is accepted is acknowledged, and the next one is expected.\<close>

lemma link_block:
  assumes s: "ym_link u seq s" "block_size p"
    and ap: "append_file_payload p ((loaded u (ym_frame seq p) s)\<lparr>s_can_count := 0\<rparr>) = Inr s2"
    and s2: "link_fields u s2" "s_sl s2 u = length p + 5" "s_last_rx_ms s2 = ym_tick s2"
  shows "\<exists>s'. boot_loop (Suc (Suc (Suc (Suc n)))) [Received u (ym_frame seq p), Poll] s = Inr s'
    \<and> ym_link u (seq + 1) s' \<and> ym_ota s' = ym_ota s2 \<and> s_hdr_done s' = s_hdr_done s2
    \<and> s_ota_session s' = s_ota_session s2 \<and> s_ota_offset s' = s_ota_offset s2
    \<and> s_expected_total s' = s_expected_total s2"
proof -
  let ?f = "ym_frame seq p"
  let ?L = "loaded u ?f s"
  have i: "ym_idle u s" and l: "link_fields u s" and q: "s_expected_seq s = seq" using s(1) by (simp_all add: ym_link_def)
  have inv: "ym_inv s" using i by (simp add: ym_idle_def)
  have d: "?f \<noteq> []" "length ?f \<le> RX_DMA_BUF" using s(2) by (auto simp: ym_frame_def Let_def block_size_def)
  let ?s3 = "(send_ack (s2\<lparr>s_last_acked_seq := seq, s_expected_seq := seq + 1\<rparr>))\<lparr>s_nak_streak := 0\<rparr>"
  have hb: "handle_data_block seq p (prepared u ?L) = Inr ?s3"
    using ap l q s2(1) by (simp add: handle_data_block_def prepared_def link_fields_def)
  have s3: "s_sl ?s3 u = length p + 5" using s2(2) by (simp add: send_ack_def tx_byte_def split: option.split)
  have "rx_run (Suc (Suc n)) (Try_consume u) ?L = Inr (?s3\<lparr>s_sl := (s_sl ?s3)(u := 0)\<rparr>)"
    using l by (intro consume_frame_ok [OF loaded_buffer [OF i] _ s(2) _ _ hb s3]) (simp_all add: link_fields_def)
  note run = receive_poll [OF i d this]
  let ?s4 = "?s3\<lparr>s_sl := (s_sl ?s3)(u := 0)\<rparr>"
  have f4: "link_fields u ?s4" "s_expected_seq ?s4 = seq + 1" "ym_ota ?s4 = ym_ota s2" "s_hdr_done ?s4 = s_hdr_done s2"
      "s_ota_session ?s4 = s_ota_session s2" "s_ota_offset ?s4 = s_ota_offset s2"
      "s_expected_total ?s4 = s_expected_total s2" "s_last_rx_ms ?s4 = ym_tick ?s4" "s_sl ?s4 u = 0"
    using s2 by (simp_all add: send_ack_def tx_byte_def link_fields_def split: option.split)
  define s5 where "s5 = (if T_DISC_C_MS \<le> ym_tick ?s4 - s_last_c_ms ?s4 then ?s4\<lparr>s_last_c_ms := ym_tick ?s4\<rparr> else ?s4)"
  have r: "boot_loop (Suc (Suc (Suc (Suc n)))) [Received u ?f, Poll] s = Inr s5"
    using run f4 by (simp add: s5_def link_fields_def)
  have "ym_inv s5" using boot_loop_inv [OF inv, of "Suc (Suc (Suc (Suc n)))" "[Received u ?f, Poll]"] r by simp
  moreover have "link_fields u s5" "s_expected_seq s5 = seq + 1" "ym_ota s5 = ym_ota s2" "s_hdr_done s5 = s_hdr_done s2"
      "s_ota_session s5 = s_ota_session s2" "s_ota_offset s5 = s_ota_offset s2"
      "s_expected_total s5 = s_expected_total s2" "s_sl s5 u = 0"
    using f4 unfolding s5_def by (simp_all add: link_fields_def)
  ultimately show ?thesis
    using r by (intro exI [of _ s5]) (simp add: ym_link_def ym_idle_def link_fields_def should_listen_def)
qed

text \<open>The first \<open>k\<close> bytes of the package have been written and block \<open>seq\<close> is next.\<close>

definition receiving ::
  "uart \<Rightarrow> u32 \<Rightarrow> ota_package_header \<Rightarrow> byte list \<Rightarrow> nat \<Rightarrow> byte \<Rightarrow> ymodem \<Rightarrow> bool" where
  "receiving u f h img k seq s \<longleftrightarrow> ym_link u seq s \<and> s_hdr_done s \<and> s_ota_session s
     \<and> ota_progress f h img k (ym_ota s) \<and> s_ota_offset s = of_nat k
     \<and> s_expected_total s = ph_app_offset h + ph_app_size h"

lemma block_step:
  assumes r: "receiving u f h img k seq s" and p: "block_size p" "total_size h \<le> length img"
    "take (total_size h - k) p = take (min (length p) (total_size h - k)) (drop k img)"
  shows "\<exists>s'. boot_loop (Suc (Suc (Suc (Suc n)))) [Received u (ym_frame seq p), Poll] s = Inr s'
    \<and> receiving u f h img (min (k + length p) (total_size h)) (seq + 1) s'"
proof -
  let ?s = "(loaded u (ym_frame seq p) s)\<lparr>s_can_count := 0\<rparr>"
  obtain o' where o': "append_file_payload p ?s
      = Inr (?s\<lparr>ym_ota := o', s_ota_offset := of_nat (min (k + length p) (total_size h))\<rparr>)"
      "ota_progress f h img (min (k + length p) (total_size h)) o'"
    using payload_write [of ?s f h img k p] r p by (auto simp: receiving_def)
  from r have l: "ym_link u seq s" by (simp add: receiving_def)
  show ?thesis
    using link_block [OF l p(1) o'(1), of n] l o'(2) r
    by (auto simp: receiving_def ym_link_def link_fields_def)
qed

fun block_events :: "uart \<Rightarrow> byte \<Rightarrow> byte list list \<Rightarrow> boot_event list" where
  "block_events u seq [] = []"
| "block_events u seq (p # ps) = Received u (ym_frame seq p) # Poll # block_events u (seq + 1) ps"

lemma block_window:
  assumes "img = pre @ p @ post" "T \<le> length img"
  shows "take (T - min (length pre) T) p = take (min (length p) (T - min (length pre) T)) (drop (min (length pre) T) img)"
proof (cases "length pre \<le> T")
  case True
  then show ?thesis using assms(1) by (simp add: min_def)
qed simp

lemma blocks_ok:
  assumes "receiving u f h img (min (length pre) (total_size h)) seq s" "list_all block_size bs"
    "img = pre @ concat bs" "total_size h \<le> length img"
  shows "\<exists>s'. boot_loop (Suc (Suc (Suc (Suc n)))) (block_events u seq bs) s = Inr s'
    \<and> receiving u f h img (total_size h) (seq + of_nat (length bs)) s'"
  using assms
proof (induction bs arbitrary: pre seq s)
  case Nil
  then show ?case by (simp add: min_absorb2)
next
  case (Cons p bs)
  have b: "block_size p" using Cons.prems(2) by simp
  have w: "take (total_size h - min (length pre) (total_size h)) p
      = take (min (length p) (total_size h - min (length pre) (total_size h))) (drop (min (length pre) (total_size h)) img)"
    using block_window [of img pre p "concat bs" "total_size h"] Cons.prems(3,4) by simp
  obtain s1 where s1: "boot_loop (Suc (Suc (Suc (Suc n)))) [Received u (ym_frame seq p), Poll] s = Inr s1"
      "receiving u f h img (min (min (length pre) (total_size h) + length p) (total_size h)) (seq + 1) s1"
    using block_step [OF Cons.prems(1) b Cons.prems(4) w] by blast
  have "min (min (length pre) (total_size h) + length p) (total_size h) = min (length (pre @ p)) (total_size h)" by simp
  then obtain s2 where "boot_loop (Suc (Suc (Suc (Suc n)))) (block_events u (seq + 1) bs) s1 = Inr s2"
      "receiving u f h img (total_size h) (seq + 1 + of_nat (length bs)) s2"
    using Cons.IH [of "pre @ p" "seq + 1" s1] s1(2) Cons.prems by (auto simp del: boot_loop.simps)
  then show ?case
    using s1(1) boot_loop_append [of "Suc (Suc (Suc (Suc n)))" "[Received u (ym_frame seq p), Poll]" "block_events u (seq + 1) bs" s]
    by (simp add: add.assoc)
qed

text \<open>Before a transfer: nothing received yet, no link.\<close>

definition awaiting :: "uart \<Rightarrow> byte \<Rightarrow> u32 \<Rightarrow> u32 \<Rightarrow> ymodem \<Rightarrow> bool" where
  "awaiting u st n f s \<longleftrightarrow> ym_idle u s \<and> \<not> s_locked s \<and> s_eot_count s = 0 \<and> \<not> s_wire_tail_discard s
     \<and> \<not> s_hdr_done s \<and> s_hdr_accum_len s = 0 \<and> board_ready (ym_ota s) \<and> \<not> dl_started (g_dl (ym_ota s))
     \<and> board_record (ym_ota s) (slot_record st n f)"

text \<open>The link is up and the file name has been acknowledged.\<close>

definition named :: "uart \<Rightarrow> byte \<Rightarrow> u32 \<Rightarrow> u32 \<Rightarrow> ymodem \<Rightarrow> bool" where
  "named u st n f s \<longleftrightarrow> ym_link u 1 s \<and> \<not> s_hdr_done s \<and> s_hdr_accum_len s = 0 \<and> board_ready (ym_ota s)
     \<and> \<not> dl_started (g_dl (ym_ota s)) \<and> board_record (ym_ota s) (slot_record st n f)"

lemma lock_ports_fields:
  "s_locked (lock_ports u s)" "s_active (lock_ports u s) = Some u" "s_expected_seq (lock_ports u s) = 0"
  "s_in_filename_phase (lock_ports u s)" "s_eot_count (lock_ports u s) = 0" "s_sl (lock_ports u s) u = s_sl s u"
  "ym_rx_on (lock_ports u s) u = ym_rx_on s u" "ym_script (lock_ports u s) = ym_script s"
  "s_q_r (lock_ports u s) = s_q_r s" "s_q_w (lock_ports u s) = s_q_w s"
  "s_chunk_overflow (lock_ports u s) = s_chunk_overflow s" "s_last_rx_ms (lock_ports u s) = s_last_rx_ms s"
  "ym_tick (lock_ports u s) = ym_tick s" "ym_ota (lock_ports u s) = ym_ota s" "s_hdr_done (lock_ports u s) = s_hdr_done s"
  "s_hdr_accum_len (lock_ports u s) = s_hdr_accum_len s" "s_wire_tail_discard (lock_ports u s) = s_wire_tail_discard s"
  by (cases u; simp add: lock_ports_def abort_rx_inactive_def HAL_UART_AbortReceive_def Let_def)+

lemma name_step:
  assumes a: "awaiting u st k f s" "block_size p"
  shows "\<exists>s'. boot_loop (Suc (Suc (Suc (Suc n)))) [Received u (ym_frame 0 p), Poll] s = Inr s' \<and> named u st k f s'"
proof -
  let ?f = "ym_frame 0 p" and ?L = "loaded u (ym_frame 0 p) s"
  have i: "ym_idle u s" using a(1) by (simp add: awaiting_def)
  have d: "?f \<noteq> []" "length ?f \<le> RX_DMA_BUF" using a(2) by (auto simp: ym_frame_def Let_def block_size_def)
  let ?P = "lock_ports u (?L\<lparr>s_can_count := 0\<rparr>)"
  have P: "prepared u ?L = ?P" using a(1) by (simp add: prepared_def awaiting_def)
  let ?s3 = "(send_ack (?P\<lparr>s_in_filename_phase := False, s_expected_seq := 1, s_last_acked_seq := 0\<rparr>))\<lparr>s_nak_streak := 0\<rparr>"
  have hb: "handle_data_block 0 p (prepared u ?L) = Inr ?s3"
    unfolding P by (simp add: handle_data_block_def lock_ports_fields)
  have s3: "s_sl ?s3 u = length p + 5"
    by (simp add: send_ack_def tx_byte_def lock_ports_fields split: option.split)
  let ?s4 = "?s3\<lparr>s_sl := (s_sl ?s3)(u := 0)\<rparr>"
  have "rx_run (Suc (Suc n)) (Try_consume u) ?L = Inr ?s4"
    using a(1) by (intro consume_frame_ok [OF loaded_buffer [OF i] _ a(2) _ _ hb s3]) (simp_all add: awaiting_def)
  note run = receive_poll [OF i d this]
  have idle: "ym_script s = []" "ym_rx_on s u" "\<not> s_chunk_overflow s" using i by (simp_all add: ym_idle_def)
  have f4: "link_fields u ?s4" "s_expected_seq ?s4 = 1" "ym_ota ?s4 = ym_ota s" "\<not> s_hdr_done ?s4"
      "s_hdr_accum_len ?s4 = 0" "s_last_rx_ms ?s4 = ym_tick ?s4" "s_sl ?s4 u = 0"
    using a(1) idle
    by (simp_all add: send_ack_def tx_byte_def link_fields_def lock_ports_fields awaiting_def split: option.split)
  define s5 where "s5 = (if T_DISC_C_MS \<le> ym_tick ?s4 - s_last_c_ms ?s4 then ?s4\<lparr>s_last_c_ms := ym_tick ?s4\<rparr> else ?s4)"
  have r: "boot_loop (Suc (Suc (Suc (Suc n)))) [Received u ?f, Poll] s = Inr s5"
    using run f4 by (simp add: s5_def link_fields_def)
  have "ym_inv s" using i by (simp add: ym_idle_def)
  then have "ym_inv s5" using boot_loop_inv [of s "Suc (Suc (Suc (Suc n)))" "[Received u ?f, Poll]"] r by simp
  moreover have "link_fields u s5" "s_expected_seq s5 = 1" "ym_ota s5 = ym_ota s" "\<not> s_hdr_done s5"
      "s_hdr_accum_len s5 = 0" "s_sl s5 u = 0"
    using f4 unfolding s5_def by (simp_all add: link_fields_def)
  ultimately show ?thesis
    using r a(1)
    by (intro exI [of _ s5])
       (simp add: named_def awaiting_def ym_link_def ym_idle_def link_fields_def should_listen_def)
qed

lemma first_block_step:
  assumes a: "named u st k f s" "block_size p"
    and h: "good_header h" "sizeof_header \<le> total_size h" "total_size h \<le> length img"
      "take sizeof_header img = hdr56_bytes h" "p = take (length p) img"
  shows "\<exists>s'. boot_loop (Suc (Suc (Suc (Suc n)))) [Received u (ym_frame 1 p), Poll] s = Inr s'
    \<and> receiving u f h img (min (length p) (total_size h)) 2 s'"
proof -
  let ?s = "(loaded u (ym_frame 1 p) s)\<lparr>s_can_count := 0\<rparr>"
  from a(1) have l: "ym_link u 1 s" by (simp add: named_def)
  have len: "length (s_hdr_accum s) = sizeof_header" using l by (simp add: ym_link_def ym_idle_def ym_inv_def)
  have ph: "sizeof_header \<le> length p" using a(2) by (auto simp: block_size_def sizeof_header_def)
  let ?s2 = "\<lambda>o'. ?s\<lparr>s_hdr_accum := hdr56_bytes h, s_hdr_accum_len := sizeof_header,
      s_ota_session := True, s_hdr_done := True, s_expected_total := ph_app_offset h + ph_app_size h,
      ym_ota := o', s_ota_offset := of_nat (min (length p) (total_size h))\<rparr>"
  obtain o' where o': "append_file_payload p ?s = Inr (?s2 o')"
      "ota_progress f h img (min (length p) (total_size h)) o'"
    using payload_first [of ?s st k f h img p] a(1) len h ph by (auto simp: named_def)
  have f2: "link_fields u (?s2 o')" "s_sl (?s2 o') u = length p + 5" "s_last_rx_ms (?s2 o') = ym_tick (?s2 o')"
    using l by (simp_all add: ym_link_def link_fields_def)
  from link_block [OF l a(2) o'(1) f2, of n] o'(2) show ?thesis
    by (auto simp: receiving_def)
qed

subsection \<open>The end of the transfer\<close>

text \<open>The link is up, nothing is buffered or will arrive.\<close>

definition calm :: "uart \<Rightarrow> stm32 ota \<Rightarrow> ymodem \<Rightarrow> bool" where
  "calm u o' s \<longleftrightarrow> s_locked s \<and> s_active s = Some u \<and> s_sl s u = 0 \<and> s_q_r s = s_q_w s
     \<and> \<not> s_chunk_overflow s \<and> ym_script s = [] \<and> s_ota_session s \<and> s_hdr_done s \<and> ym_ota s = o'"

lemma calm_upd [simp]:
  "calm u o' (s\<lparr>ym_tick := a1\<rparr>) = calm u o' s" "calm u o' (s\<lparr>ym_wire := a2\<rparr>) = calm u o' s"
  "calm u o' (s\<lparr>s_eot_count := a3\<rparr>) = calm u o' s" "calm u o' (s\<lparr>s_can_count := a4\<rparr>) = calm u o' s"
  "calm u o' (s\<lparr>s_wire_tail_discard := a5\<rparr>) = calm u o' s"
  by (simp_all add: calm_def)

lemma calm_tx [simp]: "calm u o' (tx_byte hu b s) = calm u o' s"
  by (simp add: tx_byte_def split: option.split)

lemma calm_send [simp]: "calm u o' (send_ack s) = calm u o' s" "calm u o' (send_nak s) = calm u o' s"
  "calm u o' (send_c_discovery s) = calm u o' s"
  by (simp_all add: send_ack_def send_nak_def send_c_discovery_def)

lemma calm_wait: "calm u o' s \<Longrightarrow> calm u o' (wait_by g s)"
  by (simp add: wait_by_def calm_def)

lemma calm_waits: "calm u o' s \<Longrightarrow> calm u o' (HAL_Delay n s)" "calm u o' s \<Longrightarrow> calm u o' (uart_wait_tx_line_done hu s)"
  by (simp_all add: HAL_Delay_def uart_wait_tx_line_done_def calm_wait split: option.split)

lemma calm_runs:
  assumes "calm u o' s"
  shows "rx_run (Suc n) (Try_consume u) s = Inr s" "rx_run (Suc (Suc n)) Drain s = Inr s"
  using assms by (simp_all add: try_consume_body_def drain_chunks_body_def drain_loop_body_def calm_def)

lemma second_eot:
  assumes c: "calm u o' s" and e: "s_eot_count s = 1"
    and fin: "\<And>s. calm u o' s \<Longrightarrow> \<exists>s'. finish_transfer s = Inl (Jumped, s') \<and> P s'"
  shows "\<exists>s'. handle_eot (rx_run (Suc (Suc n)) Drain) (rx_run (Suc (Suc n)) (Try_consume u)) s = Inl (Jumped, s') \<and> P s'"
proof -
  define s1 where "s1 = HAL_Delay 15 (send_c_discovery (uart_wait_tx_line_done
    (s_active (send_ack (s\<lparr>s_eot_count := 2\<rparr>))) (send_ack (s\<lparr>s_eot_count := 2\<rparr>))))"
  define s2 where "s2 = (uart_wait_tx_line_done (s_active (tx_byte (s_active s1) 0x4F s1))
    (tx_byte (s_active s1) 0x4F s1))\<lparr>s_can_count := 0, s_wire_tail_discard := True\<rparr>"
  have c1: "calm u o' s1" unfolding s1_def using c by (simp add: calm_waits)
  have c2: "calm u o' s2" unfolding s2_def using c1 by (simp add: calm_waits)
  obtain s' where s': "finish_transfer s2 = Inl (Jumped, s')" "P s'" using fin [OF c2] by blast
  have "s_locked s" "s_active s = Some u" using c by (simp_all add: calm_def)
  then have "handle_eot (rx_run (Suc (Suc n)) Drain) (rx_run (Suc (Suc n)) (Try_consume u)) s
      = and_then (finish_transfer s2) full_reset"
    using e calm_runs [OF c1] calm_runs [OF c2]
    by (simp add: handle_eot_def Let_def s1_def [symmetric] s2_def [symmetric] del: rx_run.simps)
  then show ?thesis using s' by auto
qed

lemma eot_step:
  assumes b: "s_sb s u = YM_EOT # rest" "s_sl s u = 1" and s: "s_locked s" "s_active s = Some u" "\<not> s_wire_tail_discard s"
  shows "consume_step u s = Inr (At_eot, s\<lparr>s_can_count := 0, s_sl := (s_sl s)(u := 0)\<rparr>)"
  using assms shift_all [of "s\<lparr>s_can_count := 0\<rparr>" u 1]
  by (simp add: consume_step_def skip_noise_def frame_byte_def Let_def)

text \<open>After the first end of transmission.\<close>

lemma first_eot:
  assumes r: "receiving u f h img k seq s"
  shows "\<exists>s'. boot_loop (Suc (Suc (Suc (Suc n)))) [Received u [YM_EOT], Poll] s = Inr s'
    \<and> ym_idle u s' \<and> calm u (ym_ota s) s' \<and> s_eot_count s' = 1 \<and> \<not> s_wire_tail_discard s'"
proof -
  let ?L = "loaded u [YM_EOT] s"
  have l: "link_fields u s" "ym_idle u s" "s_ota_session s" "s_hdr_done s"
    using r by (simp_all add: receiving_def ym_link_def)
  let ?s1 = "?L\<lparr>s_can_count := 0, s_sl := (s_sl ?L)(u := 0)\<rparr>"
  let ?s2 = "(send_nak ?s1)\<lparr>s_eot_count := 1\<rparr>"
  have st: "consume_step u ?L = Inr (At_eot, ?s1)"
    using l(1) loaded_buffer [OF l(2), of "[YM_EOT]"]
    by (intro eot_step [where rest = "drop 1 (s_sb s u)"]) (simp_all add: link_fields_def)
  have eo: "handle_eot d c ?s1 = Inr ?s2" for d c
    using l(1) by (simp add: handle_eot_def link_fields_def)
  have sl: "s_sl ?s2 u = 0" by (simp add: send_nak_def tx_byte_def split: option.split)
  have "rx_run (Suc (Suc n)) (Try_consume u) ?L = Inr ?s2"
    using st eo sl by (simp add: try_consume_body_def)
  note run = receive_poll [OF l(2) _ _ this]
  have f2: "calm u (ym_ota s) ?s2" "s_eot_count ?s2 = 1" "\<not> s_wire_tail_discard ?s2" "s_last_rx_ms ?s2 = ym_tick ?s2"
      "ym_rx_on ?s2 u"
    using l by (simp_all add: send_nak_def tx_byte_def calm_def link_fields_def split: option.split)
  define s3 where "s3 = (if T_DISC_C_MS \<le> ym_tick ?s2 - s_last_c_ms ?s2 then ?s2\<lparr>s_last_c_ms := ym_tick ?s2\<rparr> else ?s2)"
  have b: "boot_loop (Suc (Suc (Suc (Suc n)))) [Received u [YM_EOT], Poll] s = Inr s3"
    using run f2 by (simp add: s3_def calm_def)
  have "ym_inv s" using l(2) by (simp add: ym_idle_def)
  then have "ym_inv s3"
    using boot_loop_inv [of s "Suc (Suc (Suc (Suc n)))" "[Received u [YM_EOT], Poll]"] b by simp
  moreover have "calm u (ym_ota s) s3" "s_eot_count s3 = 1" "\<not> s_wire_tail_discard s3" "ym_rx_on s3 u"
    using f2 unfolding s3_def by (simp_all add: calm_def)
  ultimately show ?thesis
    using b by (intro exI [of _ s3]) (simp add: ym_idle_def calm_def should_listen_def)
qed

lemma last_eot:
  assumes i: "ym_idle u s" "calm u o' s" "s_eot_count s = 1" "\<not> s_wire_tail_discard s"
    and fin: "\<And>s. calm u o' s \<Longrightarrow> \<exists>s'. finish_transfer s = Inl (Jumped, s') \<and> P s'"
  shows "\<exists>s'. boot_loop (Suc (Suc (Suc (Suc (Suc n))))) [Received u [YM_EOT], Poll] s = Inl (Jumped, s') \<and> P s'"
proof -
  let ?L = "loaded u [YM_EOT] s"
  let ?s1 = "?L\<lparr>s_can_count := 0, s_sl := (s_sl ?L)(u := 0)\<rparr>"
  have st: "consume_step u ?L = Inr (At_eot, ?s1)"
    using i loaded_buffer [OF i(1), of "[YM_EOT]"]
    by (intro eot_step [where rest = "drop 1 (s_sb s u)"]) (simp_all add: calm_def)
  have "calm u o' ?s1" "s_eot_count ?s1 = 1" using i by (simp_all add: calm_def)
  then obtain s' where s': "handle_eot (rx_run (Suc (Suc n)) Drain) (rx_run (Suc (Suc n)) (Try_consume u)) ?s1
      = Inl (Jumped, s')" "P s'"
    using second_eot [OF _ _ fin] by blast
  have "rx_run (Suc (Suc (Suc n))) (Try_consume u) ?L = Inl (Jumped, s')"
    using st s'(1) by (subst rx_run.simps) (simp add: try_consume_body_def del: rx_run.simps)
  from receive_poll [OF i(1) _ _ this] s'(2) show ?thesis by simp
qed

text \<open>What a sender does, one frame per poll of the receiver.\<close>

definition transfer :: "uart \<Rightarrow> byte list \<Rightarrow> byte list list \<Rightarrow> boot_event list" where
  "transfer u name bs = [Received u (ym_frame 0 name), Poll] @ block_events u 1 bs
     @ [Received u [YM_EOT], Poll] @ [Received u [YM_EOT], Poll]"

lemma block_events_Cons:
  "block_events u seq (p # ps) = [Received u (ym_frame seq p), Poll] @ block_events u (seq + 1) ps"
  by simp

lemma transfer_runs:
  assumes a: "awaiting u st k f s" "block_size name" "list_all block_size bs" "bs \<noteq> []"
    and h: "good_header h" "sizeof_header \<le> total_size h" "total_size h \<le> length (concat bs)"
      "take sizeof_header (concat bs) = hdr56_bytes h"
      "body_crc crc_write8 0xFFFFFFFF (drop (unat (ph_app_offset h)) (take (total_size h) (concat bs))) = ph_app_crc32 h"
  shows "\<exists>s'. boot_loop (Suc (Suc (Suc (Suc (Suc n))))) (transfer u name bs) s = Inl (Jumped, s')
    \<and> board_record (ym_ota s') (slot_record OTA_APP_STATUS_UNVERIFIED 1 0)
    \<and> mem_at (fl_mem (g_world (ym_ota s'))) OTA_PLATFORM_APP1_ADDR (total_size h) = take (total_size h) (concat bs)
    \<and> entered (g_world (ym_ota s')) = Some (OTA_PLATFORM_APP1_ADDR + ph_app_offset h)"
proof -
  let ?n = "Suc (Suc (Suc (Suc (Suc n))))" and ?img = "concat bs"
  obtain p ps where bs: "bs = p # ps" using a(4) by (cases bs) auto
  obtain s1 where s1: "boot_loop ?n [Received u (ym_frame 0 name), Poll] s = Inr s1" "named u st k f s1"
    using name_step [OF a(1,2)] by blast
  have "block_size p" "p = take (length p) ?img" using a(3) bs by simp_all
  then obtain s2 where s2: "boot_loop ?n [Received u (ym_frame 1 p), Poll] s1 = Inr s2"
      "receiving u f h ?img (min (length p) (total_size h)) 2 s2"
    using first_block_step [OF s1(2) _ h(1-4)] by blast
  obtain s3 where s3: "boot_loop ?n (block_events u 2 ps) s2 = Inr s3"
      "receiving u f h ?img (total_size h) (2 + of_nat (length ps)) s3"
    using blocks_ok [OF s2(2), of ps "Suc n"] a(3) bs h(3) by auto
  obtain s4 where s4: "boot_loop ?n [Received u [YM_EOT], Poll] s3 = Inr s4" "ym_idle u s4" "calm u (ym_ota s3) s4"
      "s_eot_count s4 = 1" "\<not> s_wire_tail_discard s4"
    using first_eot [OF s3(2), of "Suc n"] by blast
  let ?P = "\<lambda>s'. board_record (ym_ota s') (slot_record OTA_APP_STATUS_UNVERIFIED 1 0)
    \<and> mem_at (fl_mem (g_world (ym_ota s'))) OTA_PLATFORM_APP1_ADDR (total_size h) = take (total_size h) ?img
    \<and> entered (g_world (ym_ota s')) = Some (OTA_PLATFORM_APP1_ADDR + ph_app_offset h)"
  have "\<exists>s'. finish_transfer s = Inl (Jumped, s') \<and> ?P s'" if "calm u (ym_ota s3) s" for s
    using finish_transfer_ok [of s f h ?img] that s3(2) h by (auto simp: calm_def receiving_def)
  then obtain s5 where s5: "boot_loop ?n [Received u [YM_EOT], Poll] s4 = Inl (Jumped, s5)" "?P s5"
    using last_eot [OF s4(2-5), of ?P n] by blast
  have "boot_loop ?n (transfer u name bs) s = Inl (Jumped, s5)"
    unfolding transfer_def bs block_events_Cons append_assoc
    by (simp add: boot_loop_append s1(1) s2(1) s3(1) s4(1) s5(1) del: boot_loop.simps append_Cons)
  then show ?thesis using s5(2) by blast
qed

end
