(* ===== verification/Boot_Main.thy ===== *)
theory Boot_Main
  imports Ymodem_Transfer
begin

text \<open>
  The boot loader as a whole: from reset through \<open>main\<close> to the application or
  to the Ymodem loop, and the properties of the receiver.
\<close>

context ota_platform
begin

lemma get_flag_ok:
  assumes "ota_ready cfg healthy s" "rec_at (mem (g_world s)) r"
  shows "\<exists>w'. ota_module_get_boot_ymodem_flag s = Some (ri_boot_ymodem_flag r, s\<lparr>g_world := w'\<rparr>)
    \<and> healthy w' \<and> mem w' = mem (g_world s)"
  using record_load_ok [OF _ _ assms(2)] assms(1)
  by (intro exI [of _ "snd (crc 0 (take (sizeof_record - 4) (record_bytes r)) (g_world s))"])
     (simp add: ota_module_get_boot_ymodem_flag_def ota_ready_def crc_keeps)

end

lemmas board_get_flag = board_ota.get_flag_ok [folded hw_crc_def, unfolded record_addr_platform]

lemma slot_record_flag_field [simp]: "ri_boot_ymodem_flag (slot_record st n f) = f"
  by (simp add: slot_record_def)

text \<open>Initialisation of the module on a board with a valid record.\<close>

lemma board_started:
  assumes "holds_record hw_crc m OTA_PLATFORM_RECORD_ADDR (slot_record st n f)"
  shows "\<exists>o1 o2. ota_module_init (Some ota_module_platform_config) (ota_reset m) = Some (OTA_MODULE_ERR_OK, o1)
    \<and> ota_module_get_boot_ymodem_flag o1 = Some (f, o2) \<and> board_ready o2 \<and> \<not> dl_started (g_dl o2)
    \<and> board_record o2 (slot_record st n f)
    \<and> (\<forall>x. 0x800 \<le> unat (x - OTA_PLATFORM_RECORD_ADDR) \<longrightarrow> fl_mem (g_world o2) x = m x)"
proof -
  obtain w1 where w1: "ota_module_init (Some ota_module_platform_config) (ota_reset m)
      = Some (OTA_MODULE_ERR_OK, (ota_reset m)\<lparr>g_cfg := platform_cfg, g_inited := True, g_dl := zero_session, g_world := w1\<rparr>)"
      "stm_healthy w1" "holds_record hw_crc (fl_mem w1) OTA_PLATFORM_RECORD_ADDR (slot_record st n f)"
      "\<forall>x. 0x800 \<le> unat (x - OTA_PLATFORM_RECORD_ADDR) \<longrightarrow> fl_mem w1 x = m x"
    using board_init [OF config_checked_platform, of "ota_reset m"] effective_of_stored [OF assms]
    by (auto simp: ota_reset_def)
  let ?o1 = "(ota_reset m)\<lparr>g_cfg := platform_cfg, g_inited := True, g_dl := zero_session, g_world := w1\<rparr>"
  obtain w2 where "ota_module_get_boot_ymodem_flag ?o1 = Some (f, ?o1\<lparr>g_world := w2\<rparr>)" "stm_healthy w2"
      "fl_mem w2 = fl_mem w1"
    using board_get_flag [of ?o1 "slot_record st n f"] w1(2,3) by (auto simp: ota_ready_def)
  with w1 show ?thesis
    by (intro exI [of _ ?o1] exI [of _ "?o1\<lparr>g_world := w2\<rparr>"])
       (simp add: board_ready_def board_record_def zero_session_def)
qed

text \<open>The receiver after its initialisation: both UARTs receive, nothing is buffered.\<close>

definition quiet :: "ymodem \<Rightarrow> bool" where
  "quiet s \<longleftrightarrow> ym_inv s \<and> s_q_r s = s_q_w s \<and> \<not> s_chunk_overflow s \<and> s_sl s = (\<lambda>_. 0) \<and> ym_rx_on s = (\<lambda>_. True)
     \<and> \<not> s_locked s \<and> ym_script s = [] \<and> s_eot_count s = 0 \<and> \<not> s_wire_tail_discard s \<and> \<not> s_hdr_done s
     \<and> s_hdr_accum_len s = 0"

lemma not_huart1: "u \<noteq> HUART1 \<longleftrightarrow> u = HUART2"
  by (cases u) simp_all

lemma init_quiet: "\<exists>s. boot_ymodem_init (ym_reset m []) = Inr s \<and> quiet s \<and> ym_ota s = ota_reset m"
proof -
  obtain s where s: "boot_ymodem_init (ym_reset m []) = Inr s"
    by (simp add: boot_ymodem_init_def session_vars_clear_def ota_fail_abort_def ym_reset_def)
  have i: "ym_inv s"
    using s ym_inv_reset [of m "[]"] and_then_inv [OF session_vars_clear_inv]
    by (auto simp: boot_ymodem_init_def start_rx_dma_both_inv ym_inv_clear dest!: arg_cong [where f = run_inv])
  have "quiet s \<and> ym_ota s = ota_reset m"
    using s i
    by (auto simp: quiet_def boot_ymodem_init_def session_vars_clear_def ota_fail_abort_def ym_reset_def
        send_c_discovery_def tx_byte_def start_rx_dma_both_def start_rx_dma_one_def HAL_UARTEx_ReceiveToIdle_DMA_def
        HAL_UART_AbortReceive_def Let_def fun_eq_iff not_huart1)
  with s show ?thesis by blast
qed

lemma quiet_upd [simp]:
  "quiet (s\<lparr>ym_tick := a1\<rparr>) = quiet s" "quiet (s\<lparr>ym_wire := a2\<rparr>) = quiet s" "quiet (s\<lparr>s_last_c_ms := a3\<rparr>) = quiet s"
  "quiet (s\<lparr>s_last_rx_ms := a3\<rparr>) = quiet s" "quiet (s\<lparr>ym_ota := a4\<rparr>) = quiet s"
  by (simp_all add: quiet_def)

lemma quiet_c: "quiet (send_c_discovery s) = quiet s" "ym_ota (send_c_discovery s) = ym_ota s"
  "ym_tick (send_c_discovery s) = ym_tick s"
  by (simp_all add: send_c_discovery_def tx_byte_def split: option.split)

lemma quiet_drain: "quiet s \<Longrightarrow> drain_chunks (Suc (Suc n)) s = Inr s"
  by (simp add: drain_chunks_def drain_chunks_body_def drain_loop_body_def quiet_def)

lemma quiet_awaiting:
  assumes "quiet s" "board_ready (ym_ota s)" "\<not> dl_started (g_dl (ym_ota s))" "board_record (ym_ota s) (slot_record st n f)"
  shows "awaiting u st n f s"
  using assms by (simp add: awaiting_def quiet_def ym_idle_def should_listen_def)

text \<open>A probe that nobody answers ends after its three rounds.\<close>

lemma window_quiet:
  assumes "quiet s" "ym_tick s = t0 + of_nat j" "j \<le> 100" "103 \<le> fuel + j"
  shows "probe_window fuel t0 s = Inr (False, s\<lparr>ym_tick := t0 + 100\<rparr>)"
  using assms
proof (induction "100 - j" arbitrary: j s fuel)
  case 0
  then obtain n where n: "fuel = Suc n" by (cases fuel) auto
  have "j = 100" using 0 by simp
  then have "ym_tick s - t0 = 100" "ym_tick s = t0 + 100" using 0 by simp_all
  then show ?case using n by simp
next
  case (Suc d)
  then obtain n where n: "fuel = Suc (Suc (Suc n))"
    by (cases fuel; cases "fuel - 1"; cases "fuel - 2") auto
  have j: "unat (of_nat j :: u32) = j" using Suc by (intro unat_of_nat32) simp
  have "\<not> BOOT_YM_PROBE_WINDOW_MS \<le> ym_tick s - t0" using Suc j by (simp add: word_le_nat_alt)
  moreover have "HAL_Delay 1 s = s\<lparr>ym_tick := ym_tick s + 1\<rparr>"
    using Suc.prems(1) by (simp add: HAL_Delay_def wait_by_def quiet_def)
  moreover have "\<not> (s_locked s \<or> 0 < s_sl s HUART1 \<or> 0 < s_sl s HUART2)"
    using Suc.prems(1) by (simp add: quiet_def)
  ultimately have "probe_window fuel t0 s = probe_window (Suc (Suc n)) t0 (s\<lparr>ym_tick := ym_tick s + 1\<rparr>)"
    using quiet_drain [OF Suc.prems(1)] by (simp add: n)
  also have "\<dots> = Inr (False, (s\<lparr>ym_tick := ym_tick s + 1\<rparr>)\<lparr>ym_tick := t0 + 100\<rparr>)"
    using Suc by (intro Suc.hyps(1) [of "Suc j"]) (simp_all add: n)
  finally show ?case by simp
qed

lemma rounds_quiet:
  assumes "quiet s" "103 \<le> fuel"
  shows "\<exists>s'. probe_rounds fuel r s = Inr (-1, s') \<and> quiet s' \<and> ym_ota s' = ym_ota s"
  using assms(1)
proof (induction r arbitrary: s)
  case (Suc r)
  let ?s = "(send_c_discovery s)\<lparr>s_last_c_ms := ym_tick (send_c_discovery s)\<rparr>"
  have q: "quiet ?s" using Suc.prems by (simp add: quiet_c)
  have "probe_window fuel (ym_tick ?s) ?s = Inr (False, ?s\<lparr>ym_tick := ym_tick ?s + 100\<rparr>)"
    using assms(2) by (intro window_quiet [OF q, of _ 0]) simp_all
  moreover have "quiet (?s\<lparr>ym_tick := ym_tick ?s + 100\<rparr>)" using q by simp
  ultimately show ?case
    using Suc.IH [of "?s\<lparr>ym_tick := ym_tick ?s + 100\<rparr>"] by (simp add: Let_def quiet_c)
qed simp

subsection \<open>From reset\<close>

lemma main_update_mode:
  assumes "holds_record hw_crc m OTA_PLATFORM_RECORD_ADDR (slot_record st n f)" "f \<noteq> 0"
  shows "\<exists>s. main_boot fuel (ym_reset m []) = Inr s \<and> (\<forall>u. awaiting u st n 0 s)"
proof -
  obtain s0 where s0: "boot_ymodem_init (ym_reset m []) = Inr s0" "quiet s0" "ym_ota s0 = ota_reset m"
    using init_quiet by blast
  obtain o1 o2 where o: "ota_module_init (Some ota_module_platform_config) (ota_reset m) = Some (OTA_MODULE_ERR_OK, o1)"
      "ota_module_get_boot_ymodem_flag o1 = Some (f, o2)" "board_ready o2" "\<not> dl_started (g_dl o2)"
      "board_record o2 (slot_record st n f)"
    using board_started [OF assms(1)] by blast
  obtain w where w: "ota_module_set_boot_ymodem_flag 0 o2 = Some (OTA_MODULE_ERR_OK, o2\<lparr>g_world := w\<rparr>)" "stm_healthy w"
      "holds_record hw_crc (fl_mem w) OTA_PLATFORM_RECORD_ADDR (slot_record st n 0)"
    using board_set_flag [of o2 "slot_record st n f" 0] o(3,5)
    by (auto simp: ready_board board_record_def slot_record_flag)
  have "main_boot fuel (ym_reset m []) = Inr (s0\<lparr>ym_ota := o2\<lparr>g_world := w\<rparr>\<rparr>)"
    using s0 o(1,2) w(1) assms(2) by (simp add: main_boot_def)
  moreover have "awaiting u st n 0 (s0\<lparr>ym_ota := o2\<lparr>g_world := w\<rparr>\<rparr>)" for u
    using s0(2) o(3,4) w(2,3) by (intro quiet_awaiting) (simp_all add: board_ready_def board_record_def)
  ultimately show ?thesis by blast
qed

text \<open>C29: a board that was asked to update itself (the flag in its record is set) goes from
  reset into the Ymodem loop, and a sender that transmits a package with a
  correct header and a correct checksum, in blocks of 128 or 1024 bytes on
  either UART, gets its image into the slot byte for byte and started at the
  entry point the header gives, as an image on its first trial.\<close>

theorem ymodem_update:
  assumes "holds_record hw_crc m OTA_PLATFORM_RECORD_ADDR (slot_record st k f)" "f \<noteq> 0" "5 \<le> fuel"
    "block_size name" "list_all block_size bs" "bs \<noteq> []" "good_header h" "sizeof_header \<le> total_size h"
    "total_size h \<le> length (concat bs)" "take sizeof_header (concat bs) = hdr56_bytes h"
    "body_crc crc_write8 0xFFFFFFFF (drop (unat (ph_app_offset h)) (take (total_size h) (concat bs))) = ph_app_crc32 h"
  shows "\<exists>s. and_then (main_boot fuel (ym_reset m [])) (boot_loop fuel (transfer u name bs)) = Inl (Jumped, s)
    \<and> board_record (ym_ota s) (slot_record OTA_APP_STATUS_UNVERIFIED 1 0)
    \<and> mem_at (fl_mem (g_world (ym_ota s))) OTA_PLATFORM_APP1_ADDR (total_size h) = take (total_size h) (concat bs)
    \<and> entered (g_world (ym_ota s)) = Some (OTA_PLATFORM_APP1_ADDR + ph_app_offset h)"
proof -
  obtain s0 where s0: "main_boot fuel (ym_reset m []) = Inr s0" "awaiting u st k 0 s0"
    using main_update_mode [OF assms(1,2)] by blast
  define n where "n = fuel - 5"
  have n: "Suc (Suc (Suc (Suc (Suc n)))) = fuel" using assms(3) by (simp add: n_def)
  show ?thesis using transfer_runs [OF s0(2) assms(4-11), of n] unfolding n by (simp add: s0(1))
qed

definition demo_block :: "byte list" where
  "demo_block = concat demo_package @ replicate 64 0x1A"

definition update_flash :: "u32 \<Rightarrow> byte" where
  "update_flash = mem_poke OTA_PLATFORM_RECORD_ADDR (record_bytes (slot_record OTA_APP_STATUS_ACTIVE 0 1)) (\<lambda>_. 0xFF)"

lemma update_flash_holds: "holds_record hw_crc update_flash OTA_PLATFORM_RECORD_ADDR (slot_record OTA_APP_STATUS_ACTIVE 0 1)"
proof -
  have len: "length (record_bytes (slot_record OTA_APP_STATUS_ACTIVE 0 1)) = sizeof_record"
    by (rule record_packed.packed_length) simp
  show ?thesis
    using len mem_at_poke [of "record_bytes (slot_record OTA_APP_STATUS_ACTIVE 0 1)" sizeof_record]
    by (simp add: holds_record_def update_flash_def slot_record_sealed sizeof_record_def)
qed

lemma demo_block_shape:
  "length demo_block = 128" "total_size demo_header = 64" "take sizeof_header demo_block = hdr56_bytes demo_header"
  "drop 56 (take 64 demo_block) = demo_body"
proof -
  have f: "ph_app_offset demo_header = 56" "ph_app_size demo_header = 8"
    by (simp_all add: demo_header_def seal_pkg_def)
  have l: "length (hdr56_bytes demo_header) = 56"
    using header_packed.packed_length [of demo_header] demo_header_good
    by (simp add: good_header_def sizeof_header_def)
  show "length demo_block = 128" "drop 56 (take 64 demo_block) = demo_body"
    using demo_package_shape(2,3) by (simp_all add: demo_block_def)
  show "total_size demo_header = 64" by (simp add: total_size_def f)
  show "take sizeof_header demo_block = hdr56_bytes demo_header"
    using l by (simp add: demo_block_def demo_package_def sizeof_header_def)
qed

theorem ymodem_update_witness:
  "\<exists>s. and_then (main_boot 5 (ym_reset update_flash []))
      (boot_loop 5 (transfer HUART2 (replicate 128 0) [demo_block])) = Inl (Jumped, s)
    \<and> entered (g_world (ym_ota s)) = Some (OTA_PLATFORM_APP1_ADDR + 56)"
proof -
  have f: "ph_app_offset demo_header = 56" "ph_app_crc32 demo_header = body_crc crc_write8 0xFFFFFFFF demo_body"
    by (simp_all add: demo_header_def seal_pkg_def)
  show ?thesis
    using ymodem_update [OF update_flash_holds, of 5 "replicate 128 0" "[demo_block]" demo_header HUART2]
      demo_header_good demo_block_shape f
    by (auto simp: block_size_def sizeof_header_def)
qed

text \<open>C30: with no host on the line the boot loader does not wait for ever: after three
  rounds of probing it follows the boot decision, so that a bootable image is
  entered and otherwise the Ymodem loop is reached.  A fuel of 103 is enough for
  the 100 ticks of a round.\<close>

theorem main_without_host:
  assumes "holds_record hw_crc m OTA_PLATFORM_RECORD_ADDR (slot_record st n 0)" "103 \<le> fuel"
  shows "\<exists>s. main_boot fuel (ym_reset m []) = (if fst (boot_spec (app_slot st n)) then Inl (Jumped, s) else Inr s)
    \<and> (entered (g_world (ym_ota s)) \<noteq> None \<longleftrightarrow> fst (boot_spec (app_slot st n)))
    \<and> (\<forall>x. 0x800 \<le> unat (x - OTA_PLATFORM_RECORD_ADDR) \<longrightarrow> fl_mem (g_world (ym_ota s)) x = m x)"
proof -
  let ?a = "app_slot st n"
  obtain s0 where s0: "boot_ymodem_init (ym_reset m []) = Inr s0" "quiet s0" "ym_ota s0 = ota_reset m"
    using init_quiet by blast
  obtain o1 o2 where o: "ota_module_init (Some ota_module_platform_config) (ota_reset m) = Some (OTA_MODULE_ERR_OK, o1)"
      "ota_module_get_boot_ymodem_flag o1 = Some (0, o2)" "board_ready o2" "board_record o2 (slot_record st n 0)"
      "\<forall>x. 0x800 \<le> unat (x - OTA_PLATFORM_RECORD_ADDR) \<longrightarrow> fl_mem (g_world o2) x = m x"
    using board_started [OF assms(1)] by blast
  obtain s1 where s1: "probe_rounds fuel BOOT_YMODEM_PROBE_ROUNDS (s0\<lparr>ym_ota := o2\<rparr>) = Inr (-1, s1)" "ym_ota s1 = o2"
    using rounds_quiet [of "s0\<lparr>ym_ota := o2\<rparr>" fuel BOOT_YMODEM_PROBE_ROUNDS] s0(2) assms(2) by auto
  obtain w where w: "ota_module_boot_preprocess o2 = Some
      (if fst (boot_spec ?a)
       then case stm32g0xx_jump (entry_of hw_crc (fl_mem w) ?a) w of
         (rc, w') \<Rightarrow> (if rc \<noteq> 0 then OTA_MODULE_ERR_JUMP_FAILED else OTA_MODULE_ERR_OK, o2\<lparr>g_world := w'\<rparr>)
       else (OTA_MODULE_ERR_NO_BOOT_CANDIDATE, o2\<lparr>g_world := w\<rparr>))"
      "stm_healthy w" "\<forall>x. 0x800 \<le> unat (x - OTA_PLATFORM_RECORD_ADDR) \<longrightarrow> fl_mem w x = fl_mem (g_world o2) x"
    using board_boot [of o2 "slot_record st n 0" ?a] o(3,4) by (auto simp: ready_board board_record_def)
  have nz: "entry_of hw_crc (fl_mem w) ?a \<noteq> 0" by (rule slot_entry_nonzero)
  have "\<exists>o3. ota_module_boot_preprocess o2 = Some (if fst (boot_spec ?a) then OTA_MODULE_ERR_OK else OTA_MODULE_ERR_NO_BOOT_CANDIDATE, o3)
      \<and> (entered (g_world o3) \<noteq> None \<longleftrightarrow> fst (boot_spec ?a)) \<and> fl_mem (g_world o3) = fl_mem w"
    using w(1,2) nz by (auto simp: stm32g0xx_jump_def entered_def stm_healthy_def)
  then obtain o3 where o3: "ota_module_boot_preprocess o2
        = Some (if fst (boot_spec ?a) then OTA_MODULE_ERR_OK else OTA_MODULE_ERR_NO_BOOT_CANDIDATE, o3)"
      "entered (g_world o3) \<noteq> None \<longleftrightarrow> fst (boot_spec ?a)" "fl_mem (g_world o3) = fl_mem w" by blast
  have "main_boot fuel (ym_reset m []) = (if fst (boot_spec ?a) then Inl (Jumped, s1\<lparr>ym_ota := o3\<rparr>) else Inr (s1\<lparr>ym_ota := o3\<rparr>))"
    using s0 o(1,2) s1 o3(1,2) by (auto simp: main_boot_def boot_ymodem_probe_def)
  then show ?thesis using o3 w(3) o(5) by (intro exI [of _ "s1\<lparr>ym_ota := o3\<rparr>"]) simp
qed

theorem main_without_host_witness:
  "\<exists>s. main_boot 103 (ym_reset (demo_flash OTA_APP_STATUS_ACTIVE 0) []) = Inl (Jumped, s)"
  using main_without_host [OF demo_flash_holds, of 103 OTA_APP_STATUS_ACTIVE 0] by auto

subsection \<open>Single blocks\<close>

text \<open>C31: a block that the receiver has already acknowledged and gets again is
  acknowledged again and changes neither the OTA module, nor the flash, nor the
  block that is expected next.\<close>

theorem duplicate_block_ignored:
  assumes "ym_link u seq s" "s_last_acked_seq s = old" "old \<noteq> seq" "block_size p" "5 \<le> fuel"
  shows "\<exists>s'. boot_loop fuel [Received u (ym_frame old p), Poll] s = Inr s'
    \<and> ym_link u seq s' \<and> ym_ota s' = ym_ota s \<and> s_ota_offset s' = s_ota_offset s
    \<and> s_last_acked_seq s' = old \<and> ym_wire s' = ym_wire s @ [(u, YM_ACK)]"
proof -
  define n where "n = fuel - 4"
  have fu: "fuel = Suc (Suc (Suc (Suc n)))" using assms(5) by (simp add: n_def)
  let ?f = "ym_frame old p" and ?L = "loaded u (ym_frame old p) s"
  have i: "ym_idle u s" and l: "link_fields u s" and q: "s_expected_seq s = seq"
    using assms(1) by (simp_all add: ym_link_def)
  have d: "?f \<noteq> []" "length ?f \<le> RX_DMA_BUF" using assms(4) by (auto simp: ym_frame_def Let_def block_size_def)
  let ?s1 = "send_ack (?L\<lparr>s_can_count := 0\<rparr>)"
  have hb: "handle_data_block old p (prepared u ?L) = Inr ?s1"
    using l q assms(2,3) by (simp add: handle_data_block_def prepared_def link_fields_def)
  have sl: "s_sl ?s1 u = length p + 5" by (simp add: send_ack_def tx_byte_def split: option.split)
  let ?s2 = "?s1\<lparr>s_sl := (s_sl ?s1)(u := 0)\<rparr>"
  have "rx_run (Suc (Suc n)) (Try_consume u) ?L = Inr ?s2"
    using l by (intro consume_frame_ok [OF loaded_buffer [OF i] _ assms(4) _ _ hb sl]) (simp_all add: link_fields_def)
  note run = receive_poll [OF i d this]
  have act: "s_active s = Some u" using l by (simp add: link_fields_def)
  have f2: "link_fields u ?s2" "s_expected_seq ?s2 = seq" "ym_ota ?s2 = ym_ota s" "s_ota_offset ?s2 = s_ota_offset s"
      "s_last_acked_seq ?s2 = old" "ym_wire ?s2 = ym_wire s @ [(u, YM_ACK)]" "s_last_rx_ms ?s2 = ym_tick ?s2"
      "s_sl ?s2 u = 0"
    using l q assms(2) act
    by (simp_all add: send_ack_def tx_byte_def link_fields_def loaded_def)
  define s3 where "s3 = (if T_DISC_C_MS \<le> ym_tick ?s2 - s_last_c_ms ?s2 then ?s2\<lparr>s_last_c_ms := ym_tick ?s2\<rparr> else ?s2)"
  have r: "boot_loop fuel [Received u ?f, Poll] s = Inr s3"
    using run f2 unfolding fu by (simp add: s3_def link_fields_def)
  have "ym_inv s" using i by (simp add: ym_idle_def)
  then have "ym_inv s3" using boot_loop_inv [of s fuel "[Received u ?f, Poll]"] r by simp
  moreover have "link_fields u s3" "s_expected_seq s3 = seq" "ym_ota s3 = ym_ota s" "s_ota_offset s3 = s_ota_offset s"
      "s_last_acked_seq s3 = old" "ym_wire s3 = ym_wire s @ [(u, YM_ACK)]" "s_sl s3 u = 0"
    using f2 unfolding s3_def by (simp_all add: link_fields_def)
  ultimately show ?thesis
    using r by (intro exI [of _ s3]) (simp add: ym_link_def ym_idle_def link_fields_def should_listen_def)
qed

definition linked_demo :: ymodem where
  "linked_demo = (ym_reset (\<lambda>_. 0) [])\<lparr>s_locked := True, s_active := Some HUART1, s_expected_seq := 5,
     s_last_acked_seq := 4, ym_rx_on := (\<lambda>_. True)\<rparr>"

lemma linked_demo_link: "ym_link HUART1 5 linked_demo" "s_last_acked_seq linked_demo = 4"
  using ym_inv_reset [of "\<lambda>_. 0" "[]"]
  by (simp_all add: ym_link_def linked_demo_def link_fields_def ym_idle_def should_listen_def ym_inv_def ym_reset_def)

theorem duplicate_block_ignored_witness:
  "\<exists>s'. boot_loop 5 [Received HUART1 (ym_frame 4 (replicate 128 0)), Poll] linked_demo = Inr s'
    \<and> ym_link HUART1 5 s' \<and> ym_ota s' = ym_ota linked_demo"
  using duplicate_block_ignored [OF linked_demo_link, of "replicate 128 0" 5] by (auto simp: block_size_def)

subsection \<open>A rejected package\<close>

lemma tx_bytes_wire: "\<exists>w. (tx_byte hu b ^^ n) s = s\<lparr>ym_wire := w\<rparr>"
proof (induction n)
  case 0
  show ?case by (intro exI [of _ "ym_wire s"]) simp
next
  case (Suc n)
  then show ?case by (auto simp: tx_byte_def split: option.split)
qed

lemma cancel_quiet:
  assumes "ym_script s = []" shows "\<exists>w t. send_ymodem_cancel s = s\<lparr>ym_wire := w, ym_tick := t\<rparr>"
proof (cases "s_active s")
  case None
  then show ?thesis
    by (intro exI [of _ "ym_wire s"] exI [of _ "ym_tick s"]) (simp add: send_ymodem_cancel_def send_ymodem_cancel_on_def)
next
  case (Some u)
  obtain w where "(tx_byte (Some u) YM_CAN ^^ YM_CANCEL_BURST) s = s\<lparr>ym_wire := w\<rparr>" using tx_bytes_wire by blast
  then show ?thesis
    using Some assms
    by (auto simp: send_ymodem_cancel_def send_ymodem_cancel_on_def uart_wait_tx_line_done_def HAL_Delay_def wait_by_def)
qed

lemma full_reset_empties:
  assumes "\<not> s_ota_session s" shows "\<exists>s'. full_reset s = Inr s' \<and> s_sl s' u = 0"
  using assms
  by (simp add: full_reset_def ota_fail_abort_def session_vars_clear_def start_rx_dma_both_def start_rx_dma_one_def
      HAL_UARTEx_ReceiveToIdle_DMA_def HAL_UART_AbortReceive_def Let_def)

text \<open>When the OTA module refuses the package, here for a wrong magic number, the
  receiver cancels the transfer and resets itself while a frame is being
  processed.  The parser then removes the frame from the buffer that the reset
  has emptied: the length of its \<open>memmove\<close> is negative.\<close>

theorem rejected_package_faults:
  assumes a: "named u st k f s" "\<not> s_ota_session s" "block_size p" "5 \<le> fuel"
    and h: "ph_magic (hdr56_of_bytes (take sizeof_header p)) \<noteq> OTA_PACKAGE_MAGIC"
  shows "\<exists>s'. boot_loop fuel [Received u (ym_frame 1 p), Poll] s = Inl (HardFault, s')"
proof -
  define n where "n = fuel - 3"
  have fu: "fuel = Suc (Suc (Suc n))" using a(4) by (simp add: n_def)
  let ?f = "ym_frame 1 p" and ?L = "loaded u (ym_frame 1 p) s"
  have l: "ym_link u 1 s" "\<not> s_hdr_done s" "s_hdr_accum_len s = 0" "board_ready (ym_ota s)"
      "\<not> dl_started (g_dl (ym_ota s))"
    using a(1) by (simp_all add: named_def)
  have i: "ym_idle u s" and lf: "link_fields u s" and q: "s_expected_seq s = 1" using l(1) by (simp_all add: ym_link_def)
  have acc: "length (s_hdr_accum s) = sizeof_header" using i by (simp add: ym_idle_def ym_inv_def)
  have d: "?f \<noteq> []" "length ?f \<le> RX_DMA_BUF" and ph: "sizeof_header \<le> length p"
    using a(3) by (auto simp: ym_frame_def Let_def block_size_def sizeof_header_def)
  let ?s0 = "?L\<lparr>s_can_count := 0\<rparr>"
  let ?s1 = "?s0\<lparr>s_hdr_accum := take sizeof_header p, s_hdr_accum_len := sizeof_header\<rparr>"
  have nd: "min (length p) (hdr_need ?s0) = sizeof_header" using l(3) ph hdr_need_eq [of ?s0] by simp
  have ac: "accum_header (take sizeof_header p) ?s0 = ?s1"
    using l(3) acc ph by (simp add: accum_header_def poke_def min_absorb1)
  have st: "ota_module_ota_download_start (Some (hdr56_of_bytes (take sizeof_header p))) (ym_ota s)
      = Some (OTA_MODULE_ERR_PACKAGE_MAGIC, ym_ota s)"
    using l(4,5) h by (simp add: ota_module_ota_download_start_def board_ready_def)
  have hc: "header_complete ?s1 = Inr (False, ?s1\<lparr>ym_ota := ym_ota s, s_nak_streak := NAK_RETRIES\<rparr>)"
    using st by (simp add: header_complete_def Let_def)
  let ?s2 = "?s1\<lparr>ym_ota := ym_ota s, s_nak_streak := NAK_RETRIES\<rparr>"
  have ap: "append_file_payload p ?s0 = Inr ?s2"
    using l(2) ph nd ac hc by (auto simp: append_file_payload.simps [of p ?s0] Let_def sizeof_header_def)
  have "ym_script ?s2 = []" using lf by (simp add: link_fields_def)
  then obtain w t where c: "send_ymodem_cancel ?s2 = ?s2\<lparr>ym_wire := w, ym_tick := t\<rparr>" using cancel_quiet by blast
  have "\<not> s_ota_session (send_ymodem_cancel ?s2)" using a(2) by (simp add: c)
  then obtain s3 where s3: "full_reset (send_ymodem_cancel ?s2) = Inr s3" "s_sl s3 u = 0"
    using full_reset_empties by blast
  have hb: "handle_data_block 1 p (prepared u ?L) = Inr s3"
    using lf q ap s3(1) by (simp add: handle_data_block_def prepared_def link_fields_def)
  have "rx_run (Suc n) (Try_consume u) ?L = Inl (HardFault, s3)"
    using consume_frame [OF loaded_buffer [OF i, of ?f] _ a(3), of n] lf hb s3(2)
    by (simp add: link_fields_def shift_def)
  from receive_poll [OF i d this] show ?thesis unfolding fu by simp
qed

end
