(* ===== verification/Ms41908m.thy ===== *)
theory Ms41908m
  imports Neo_Prelude
begin

text \<open>
  The lens motor driver of the MCU application:
  \<open>ms41908m.c\<close>, \<open>ms41908m.h\<close>, \<open>ms41908m_reg.h\<close> and the board port
  \<open>ms41908m_port.c\<close>.  The chip drives two stepper motors, focus and zoom.  Each
  motor has a step register holding the size of the next batch; one pulse on the
  shared \<open>VD_FZ\<close> pin starts a batch of both, and the chip raises \<open>PLS1\<close> or
  \<open>PLS2\<close> when a batch is over.  A motor task splits a long move into batches,
  follows the position and runs the reset-zero state machine.

  The C structure has every field twice, for zoom and for focus, and the C
  functions come in pairs.  Here an \<open>axis\<close> record holds the fields of one motor
  and an operation takes the motor it acts on; the public functions keep both
  names.  The event group is a set of named events, one for each bit of
  \<open>ms41908m_port.h\<close>.

  The SPI bus, the mutex, memory for the kernel objects and the timer commands
  can fail: each takes its next outcome from a script, and an empty script means
  success.  The chip itself is part of the state: its registers, the batch it is
  executing, and where each motor really stands.
\<close>

subsection \<open>Data\<close>

datatype sys_result =
    SYS_OK | SYS_ERR_INVALID_ARG | SYS_ERR_INVALID_STATE | SYS_ERR_INVALID_SIZE | SYS_ERR_INVALID_FMT
  | SYS_ERR_NO_MEM | SYS_ERR_NOT_FOUND | SYS_ERR_NOT_SUPPORTED | SYS_ERR_NOT_FINISHED | SYS_ERR_TIMEOUT
  | SYS_ERR_CHECK | SYS_ERR_RESULT | SYS_ERR_MUTEX | SYS_ERR_HAL | SYS_ERR_BUSY | SYS_ERR_OUT_OF_RANGE
  | SYS_ERR_FAILED | SYS_ERR_UNKNOW

datatype motor = FOCUS | ZOOM

datatype ms_state = STATE_NO_CFG | STATE_STOPPED | STATE_RUNNING | STATE_RESET_ZERO | STATE_ERROR

datatype event = PLS motor | PI motor | COMPLETED motor | REQ_RESET motor | RESET_DONE motor

datatype rz_phase = RZ_IDLE | RZ_EXIT_LOW_START | RZ_EXIT_LOW_WAIT | RZ_CAPTURE_START | RZ_CAPTURE_WAIT

record iris_config =
  iris_tgt :: u16
  over_lpf_fc_1st :: byte
  over_lpf_fc_2nd :: byte
  dec_ave :: byte
  as_flt_off :: byte
  asound_lpf_fc :: byte
  dgain :: byte
  iris_calc_nr :: byte
  iris_round :: byte
  pid_zero :: byte
  pid_pole :: byte
  arw :: byte
  lmt_enb :: byte
  pwm_flt_off :: byte
  pwm_lpf_fc :: byte
  pwm_iris :: byte
  dt_adj_iris :: byte
  hall_bias_dac :: byte
  hall_offset_dac :: byte
  tgt_lpf_fc :: byte
  tgt_flt_off :: byte
  pid_inv :: byte
  hall_gain :: byte
  aaf_fc :: byte
  start1 :: u16
  width1 :: u16
  p1_en :: byte
  start2 :: u16
  width2 :: byte
  p2_en :: byte
  tgt_in_test :: u16
  duty_test :: byte
  asw_mode :: byte
  test_en1 :: byte
  mode_sel_iris :: byte
  mode_sel_fz :: byte
  pdwnb :: byte
  adc_test :: byte
  pid_clip :: byte
  tgt_update :: byte
  ave_speed :: byte

record motor_config =
  dt1 :: byte
  pwm_mode :: byte
  pwm_res :: byte
  fz_test :: byte
  test_en2 :: byte
  dt2a :: byte
  phmodab :: byte
  ppwa :: byte
  ppwb :: byte
  leda :: byte
  microab :: byte
  dt2b :: byte
  phmodcd :: byte
  ppwc :: byte
  ppwd :: byte
  ledb :: byte
  microcd :: byte

record run_config =
  is_valid :: bool
  direction :: bool
  intct :: u16
  unload_psum :: int
  load_psum :: int

record axis =
  ax_state :: ms_state
  ax_is_r_zero :: bool
  ax_position :: int
  ax_pos_min :: int
  ax_pos_max :: int
  ax_run_config :: run_config
  ax_start_tick :: u32
  ax_batch_active :: bool
  ax_pls_rcvd :: bool

record reset_sm =
  rz_phase :: rz_phase
  rz_type :: motor
  rz_pi_irq :: motor
  rz_pi_event :: "event set"
  rz_complete_event :: "event set"
  rz_pi_triggered :: bool
  rz_abort_requested :: bool

record ms =
  is_initialized :: bool
  iris_state :: ms_state
  axes :: "motor \<Rightarrow> axis"
  s_motor_task :: bool
  s_iris_timer :: bool
  s_rst :: reset_sm
  rst_last_result :: "motor \<Rightarrow> sys_result"
  s_app_event_cb :: "nat option"
  s_app_notify :: "(event \<times> sys_result) list"
  s_mutex :: bool
  s_event_group :: "event set option"
  \<comment> \<open>the board and the chip\<close>
  regs :: "byte \<Rightarrow> u16"
  chip_batch :: "motor \<Rightarrow> int option"
  lens_at :: "motor \<Rightarrow> int"
  pi_level :: "motor \<Rightarrow> bool"
  pi_input :: bool
  vd_is :: nat
  iris_ticking :: bool
  ms_tick :: u32
  app_log :: "(nat \<times> event \<times> sys_result) list"
  \<comment> \<open>outcomes still to come\<close>
  env_spi :: "bool list"
  env_lock :: "bool list"
  env_alloc :: "bool list"
  env_timer :: "bool list"
  env_cut :: "int list"

definition g_default_iris_config :: iris_config where
  "g_default_iris_config = \<lparr>iris_tgt = 0, over_lpf_fc_1st = 2, over_lpf_fc_2nd = 2, dec_ave = 0, as_flt_off = 0,
     asound_lpf_fc = 2, dgain = 0x30, iris_calc_nr = 0, iris_round = 15, pid_zero = 6, pid_pole = 6,
     arw = 0, lmt_enb = 1, pwm_flt_off = 0, pwm_lpf_fc = 0, pwm_iris = 7, dt_adj_iris = 0,
     hall_bias_dac = 0x4C, hall_offset_dac = 0x80, tgt_lpf_fc = 4, tgt_flt_off = 0, pid_inv = 0,
     hall_gain = 5, aaf_fc = 0, start1 = 0, width1 = 0, p1_en = 0, start2 = 0, width2 = 0, p2_en = 0,
     tgt_in_test = 0x80, duty_test = 0, asw_mode = 0, test_en1 = 1, mode_sel_iris = 0, mode_sel_fz = 0,
     pdwnb = 1, adc_test = 0, pid_clip = 0, tgt_update = 0, ave_speed = 12\<rparr>"

definition g_default_motor_config :: motor_config where
  "g_default_motor_config = \<lparr>dt1 = 0x0A, pwm_mode = 30, pwm_res = 2, fz_test = 7, test_en2 = 1,
     dt2a = 3, phmodab = 0, ppwa = 200, ppwb = 200, leda = 0, microab = 0,
     dt2b = 3, phmodcd = 22, ppwc = 200, ppwd = 200, ledb = 0, microcd = 0\<rparr>"

text \<open>What \<open>memset\<close> leaves in the instance and in the state machine.\<close>

definition zero_axis :: axis where
  "zero_axis = \<lparr>ax_state = STATE_NO_CFG, ax_is_r_zero = False, ax_position = 0, ax_pos_min = 0, ax_pos_max = 0,
     ax_run_config = \<lparr>is_valid = False, direction = False, intct = 0, unload_psum = 0, load_psum = 0\<rparr>,
     ax_start_tick = 0, ax_batch_active = False, ax_pls_rcvd = False\<rparr>"

definition zero_rst :: reset_sm where
  "zero_rst = \<lparr>rz_phase = RZ_IDLE, rz_type = FOCUS, rz_pi_irq = FOCUS, rz_pi_event = {}, rz_complete_event = {},
     rz_pi_triggered = False, rz_abort_requested = False\<rparr>"

definition upd_axis :: "motor \<Rightarrow> (axis \<Rightarrow> axis) \<Rightarrow> ms \<Rightarrow> ms" where
  "upd_axis m f s = s\<lparr>axes := (axes s)(m := f (axes s m))\<rparr>"

definition set_state :: "motor \<Rightarrow> ms_state \<Rightarrow> ms \<Rightarrow> ms" where
  "set_state m x = upd_axis m (\<lambda>a. a\<lparr>ax_state := x\<rparr>)"

definition set_r_zero :: "motor \<Rightarrow> bool \<Rightarrow> ms \<Rightarrow> ms" where
  "set_r_zero m x = upd_axis m (\<lambda>a. a\<lparr>ax_is_r_zero := x\<rparr>)"

abbreviation upd_run :: "motor \<Rightarrow> (run_config \<Rightarrow> run_config) \<Rightarrow> ms \<Rightarrow> ms" where
  "upd_run m f \<equiv> upd_axis m (\<lambda>a. a\<lparr>ax_run_config := f (ax_run_config a)\<rparr>)"

text \<open>Arithmetic on \<open>int32_t\<close>.\<close>

definition s32 :: "int \<Rightarrow> int" where
  "s32 x = (x + 2147483648) mod 4294967296 - 2147483648"

subsection \<open>The chip and the kernel\<close>

definition REG_FOCUS_STEP :: byte where "REG_FOCUS_STEP = 0x24"
definition REG_FOCUS_PPS :: byte where "REG_FOCUS_PPS = 0x25"
definition REG_ZOOM_STEP :: byte where "REG_ZOOM_STEP = 0x29"
definition REG_ZOOM_PPS :: byte where "REG_ZOOM_PPS = 0x2A"

fun step_addr :: "motor \<Rightarrow> byte" where
  "step_addr FOCUS = REG_FOCUS_STEP"
| "step_addr ZOOM = REG_ZOOM_STEP"

fun pps_addr :: "motor \<Rightarrow> byte" where
  "pps_addr FOCUS = REG_FOCUS_PPS"
| "pps_addr ZOOM = REG_ZOOM_PPS"

definition STEP_CCWCW_BIT :: u16 where "STEP_CCWCW_BIT = 0x100"
definition STEP_ENDIS_BIT :: u16 where "STEP_ENDIS_BIT = 0x400"
definition STEP_LED_BIT :: u16 where "STEP_LED_BIT = 0x800"
definition STEP_MICRO_MASK :: u16 where "STEP_MICRO_MASK = 0x3000"

text \<open>The batch a step register asks for: its low byte in micro steps, backwards when
  the direction bit is set, and nothing when the output is off or the count is zero.\<close>

definition reg_batch :: "u16 \<Rightarrow> int option" where
  "reg_batch r =
     (let n = uint (r AND 0xFF) in
      if r AND STEP_ENDIS_BIT = 0 \<or> n = 0 then None
      else Some (if r AND STEP_CCWCW_BIT = 0 then n else - n))"

text \<open>A pulse on \<open>VD_FZ\<close> starts the batch in each step register.  A motor in the
  middle of a batch is cut short: it has gone only part of the way.\<close>

definition vd_motor :: "motor \<Rightarrow> ms \<Rightarrow> ms" where
  "vd_motor m s =
     (let s1 = (case chip_batch s m of
                  None \<Rightarrow> s
                | Some d \<Rightarrow> (case env_cut s of
                      [] \<Rightarrow> s
                    | k # ks \<Rightarrow> s\<lparr>lens_at := (lens_at s)(m := lens_at s m + k), env_cut := ks\<rparr>))
      in s1\<lparr>chip_batch := (chip_batch s1)(m := reg_batch (regs s1 (step_addr m)))\<rparr>)"

definition vd_pulse_fz :: "ms \<Rightarrow> ms" where
  "vd_pulse_fz s = vd_motor ZOOM (vd_motor FOCUS s)"

definition set_event :: "event set \<Rightarrow> ms \<Rightarrow> ms" where
  "set_event e s = s\<lparr>s_event_group := map_option (\<lambda>g. g \<union> e) (s_event_group s)\<rparr>"

datatype irq_pin = PLS1_Pin | PLS2_Pin | Z_RST_Pin | F_RST_Pin | Other_Pin

definition ms41908m_port_irq_handler :: "irq_pin \<Rightarrow> ms \<Rightarrow> ms" where
  "ms41908m_port_irq_handler pin s =
     (if s_event_group s = None then s
      else case pin of
          PLS1_Pin \<Rightarrow> set_event {PLS FOCUS} s
        | PLS2_Pin \<Rightarrow> set_event {PLS ZOOM} s
        | Z_RST_Pin \<Rightarrow> set_event {PI ZOOM} s
        | F_RST_Pin \<Rightarrow> set_event {PI FOCUS} s
        | Other_Pin \<Rightarrow> s)"

fun pls_pin :: "motor \<Rightarrow> irq_pin" where
  "pls_pin FOCUS = PLS1_Pin"
| "pls_pin ZOOM = PLS2_Pin"

fun pi_pin :: "motor \<Rightarrow> irq_pin" where
  "pi_pin FOCUS = F_RST_Pin"
| "pi_pin ZOOM = Z_RST_Pin"

text \<open>The chip finishes the batch it executes and raises the pulse interrupt.\<close>

definition chip_done :: "motor \<Rightarrow> ms \<Rightarrow> ms" where
  "chip_done m s =
     (case chip_batch s m of
        None \<Rightarrow> s
      | Some d \<Rightarrow> ms41908m_port_irq_handler (pls_pin m)
          (s\<lparr>lens_at := (lens_at s)(m := lens_at s m + d), chip_batch := (chip_batch s)(m := None)\<rparr>))"

text \<open>The position sensor changes.  A falling edge interrupts when the pin is an input.\<close>

definition pi_change :: "motor \<Rightarrow> bool \<Rightarrow> ms \<Rightarrow> ms" where
  "pi_change m high s =
     (let s1 = s\<lparr>pi_level := (pi_level s)(m := high)\<rparr> in
      if pi_input s \<and> pi_level s m \<and> \<not> high then ms41908m_port_irq_handler (pi_pin m) s1 else s1)"

definition take_env :: "(ms \<Rightarrow> bool list) \<Rightarrow> ms \<Rightarrow> bool" where
  "take_env f s = (case f s of [] \<Rightarrow> True | b # _ \<Rightarrow> b)"

definition spi_next :: "ms \<Rightarrow> bool \<times> ms" where
  "spi_next s = (take_env env_spi s, s\<lparr>env_spi := tl (env_spi s)\<rparr>)"

definition alloc_next :: "ms \<Rightarrow> bool \<times> ms" where
  "alloc_next s = (take_env env_alloc s, s\<lparr>env_alloc := tl (env_alloc s)\<rparr>)"

definition timer_next :: "ms \<Rightarrow> bool \<times> ms" where
  "timer_next s = (take_env env_timer s, s\<lparr>env_timer := tl (env_timer s)\<rparr>)"

subsection \<open>The port\<close>

definition ms41908m_port_delay_ms :: "u32 \<Rightarrow> ms \<Rightarrow> ms" where
  "ms41908m_port_delay_ms d s = s\<lparr>ms_tick := ms_tick s + d\<rparr>"

text \<open>The reset pin clears the chip.\<close>

definition chip_reset :: "ms \<Rightarrow> ms" where
  "chip_reset s = s\<lparr>regs := (\<lambda>_. 0), chip_batch := (\<lambda>_. None)\<rparr>"

definition ms41908m_port_init :: "ms \<Rightarrow> sys_result \<times> ms" where
  "ms41908m_port_init s =
     (if s_mutex s \<or> s_event_group s \<noteq> None then (SYS_ERR_INVALID_STATE, s)
      else
        let (ok, s) = alloc_next s in
        if \<not> ok then (SYS_ERR_NO_MEM, s)
        else
          let s = s\<lparr>s_mutex := True\<rparr>;
              (ok, s) = alloc_next s
          in
            if \<not> ok then (SYS_ERR_NO_MEM, s\<lparr>s_mutex := False\<rparr>)
            else
              let s = s\<lparr>s_event_group := Some {}\<rparr>;
                  s = ms41908m_port_delay_ms 10 s;
                  s = ms41908m_port_delay_ms 10 s;
                  s = ms41908m_port_delay_ms 50 (chip_reset s)
              in (SYS_OK, s))"

definition ms41908m_port_deinit :: "ms \<Rightarrow> ms" where
  "ms41908m_port_deinit s = s\<lparr>s_event_group := None, s_mutex := False\<rparr>"

definition ms41908m_port_write :: "byte \<Rightarrow> u16 \<Rightarrow> ms \<Rightarrow> sys_result \<times> ms" where
  "ms41908m_port_write addr data s =
     (let (ok, s) = spi_next s in
      if ok then (SYS_OK, s\<lparr>regs := (regs s)(addr AND 0x3F := data)\<rparr>) else (SYS_ERR_HAL, s))"

text \<open>The read stores through its pointer only on success, so the value the variable
  had before comes along.\<close>

definition ms41908m_port_read :: "byte \<Rightarrow> u16 \<Rightarrow> ms \<Rightarrow> sys_result \<times> u16 \<times> ms" where
  "ms41908m_port_read addr old s =
     (let (ok, s) = spi_next s in
      if ok then (SYS_OK, regs s (addr AND 0x3F), s) else (SYS_ERR_HAL, old, s))"

definition ms41908m_port_output_vd_iris :: "ms \<Rightarrow> ms" where
  "ms41908m_port_output_vd_iris s = s\<lparr>vd_is := vd_is s + 1\<rparr>"

definition ms41908m_port_output_vd :: "motor \<Rightarrow> ms \<Rightarrow> ms" where
  "ms41908m_port_output_vd m s = vd_pulse_fz s"

text \<open>A pin left in analogue mode reads as zero.\<close>

definition ms41908m_port_read_irq_status :: "motor \<Rightarrow> ms \<Rightarrow> bool" where
  "ms41908m_port_read_irq_status m s = (pi_input s \<and> pi_level s m)"

definition ms41908m_port_lock :: "ms \<Rightarrow> sys_result \<times> ms" where
  "ms41908m_port_lock s =
     (if \<not> s_mutex s then (SYS_ERR_INVALID_STATE, s)
      else if take_env env_lock s then (SYS_OK, s\<lparr>env_lock := tl (env_lock s)\<rparr>)
      else (SYS_ERR_MUTEX, s\<lparr>env_lock := tl (env_lock s)\<rparr>))"

text \<open>The wait: the bits present when it returns, and whether they are cleared.  What
  other tasks do while the caller blocks is applied to the state before.\<close>

definition ms41908m_port_wait_for_event :: "event set \<Rightarrow> bool \<Rightarrow> bool \<Rightarrow> ms \<Rightarrow> event set \<times> ms" where
  "ms41908m_port_wait_for_event msk clear_on_exit wait_all s =
     (case s_event_group s of
        None \<Rightarrow> ({}, s)
      | Some g \<Rightarrow>
          let met = (if wait_all then msk \<subseteq> g else g \<inter> msk \<noteq> {});
              s1 = (if met \<and> clear_on_exit then s\<lparr>s_event_group := Some (g - msk)\<rparr> else s)
          in (if g \<inter> msk \<noteq> {} then g else {}, s1))"

definition ms41908m_port_set_event :: "event set \<Rightarrow> ms \<Rightarrow> sys_result \<times> ms" where
  "ms41908m_port_set_event e s =
     (if s_event_group s = None then (SYS_ERR_INVALID_STATE, s) else (SYS_OK, set_event e s))"

definition ms41908m_port_clear_event :: "event set \<Rightarrow> ms \<Rightarrow> ms" where
  "ms41908m_port_clear_event e s = s\<lparr>s_event_group := map_option (\<lambda>g. g - e) (s_event_group s)\<rparr>"

definition ms41908m_port_pi_irq_enable :: "ms \<Rightarrow> ms" where
  "ms41908m_port_pi_irq_enable s = (ms41908m_port_clear_event {PI ZOOM, PI FOCUS} s)\<lparr>pi_input := True\<rparr>"

definition ms41908m_port_pi_irq_disable :: "ms \<Rightarrow> ms" where
  "ms41908m_port_pi_irq_disable s = ms41908m_port_clear_event {PI ZOOM, PI FOCUS} (s\<lparr>pi_input := False\<rparr>)"

definition ms41908m_port_create_timer :: "ms \<Rightarrow> bool \<times> ms" where
  "ms41908m_port_create_timer s = alloc_next s"

definition ms41908m_port_create_task :: "ms \<Rightarrow> bool \<times> ms" where
  "ms41908m_port_create_task s = alloc_next s"

definition ms41908m_port_start_timer :: "ms \<Rightarrow> sys_result \<times> ms" where
  "ms41908m_port_start_timer s =
     (if \<not> s_iris_timer s then (SYS_ERR_INVALID_ARG, s)
      else let (ok, s) = timer_next s in
        if ok then (SYS_OK, s\<lparr>iris_ticking := True\<rparr>) else (SYS_ERR_FAILED, s))"

definition ms41908m_port_stop_timer :: "ms \<Rightarrow> sys_result \<times> ms" where
  "ms41908m_port_stop_timer s =
     (if \<not> s_iris_timer s then (SYS_ERR_INVALID_ARG, s)
      else let (ok, s) = timer_next s in
        if ok then (SYS_OK, s\<lparr>iris_ticking := False\<rparr>) else (SYS_ERR_FAILED, s))"

definition ms41908m_port_delete_timer :: "ms \<Rightarrow> sys_result \<times> ms" where
  "ms41908m_port_delete_timer s =
     (if \<not> s_iris_timer s then (SYS_ERR_INVALID_ARG, s)
      else let (ok, s) = timer_next s in
        if ok then (SYS_OK, s\<lparr>iris_ticking := False\<rparr>) else (SYS_ERR_FAILED, s))"

subsection \<open>Notifications\<close>

definition APP_NOTIFY_CAP :: nat where "APP_NOTIFY_CAP = 8"

definition ms41908m_queue_app_notify :: "event \<Rightarrow> sys_result \<Rightarrow> ms \<Rightarrow> ms" where
  "ms41908m_queue_app_notify e r s =
     (if length (s_app_notify s) < APP_NOTIFY_CAP then s\<lparr>s_app_notify := s_app_notify s @ [(e, r)]\<rparr> else s)"

definition ms41908m_port_set_event_notify :: "event \<Rightarrow> sys_result \<Rightarrow> ms \<Rightarrow> ms" where
  "ms41908m_port_set_event_notify e r s = ms41908m_queue_app_notify e r (snd (ms41908m_port_set_event {e} s))"

definition ms41908m_dispatch_pending_app_events :: "ms \<Rightarrow> ms" where
  "ms41908m_dispatch_pending_app_events s =
     (if s_app_notify s = [] then s
      else case s_app_event_cb s of
          None \<Rightarrow> s\<lparr>s_app_notify := []\<rparr>
        | Some cb \<Rightarrow> s\<lparr>app_log := app_log s @ map (Pair cb) (s_app_notify s), s_app_notify := []\<rparr>)"

subsection \<open>Batches\<close>

definition batch_pending :: "axis \<Rightarrow> bool" where
  "batch_pending a = (ax_batch_active a \<and> \<not> ax_pls_rcvd a)"

definition can_fire_vd_fz :: "ms \<Rightarrow> bool" where
  "can_fire_vd_fz s = (\<not> (batch_pending (axes s FOCUS) \<or> batch_pending (axes s ZOOM)))"

definition mark_batch :: "motor \<Rightarrow> ms \<Rightarrow> ms" where
  "mark_batch m s =
     (if ax_state (axes s m) = STATE_RUNNING
      then upd_axis m (\<lambda>a. a\<lparr>ax_batch_active := True, ax_pls_rcvd := False, ax_start_tick := ms_tick s\<rparr>) s
      else s)"

definition calc_intct_from_pps :: "u16 \<Rightarrow> nat" where
  "calc_intct_from_pps pps = 27000000 div (unat pps * 24)"

definition calc_intct_from_psum :: "u16 \<Rightarrow> nat" where
  "calc_intct_from_psum psum = 27000000 div (unat psum * 16 * 24)"

definition calc_psum_from_intct :: "u16 \<Rightarrow> nat" where
  "calc_psum_from_intct i = 27000000 div (unat i * 16 * 24)"

definition RAW_PPS_MIN :: nat where "RAW_PPS_MIN = 24"
definition RAW_PPS_MAX :: nat where "RAW_PPS_MAX = 8000"
definition RAW_PSUM_MIN :: int where "RAW_PSUM_MIN = 1"
definition RAW_PSUM_MAX :: int where "RAW_PSUM_MAX = 65535"

definition raw_pps_bad :: "u16 \<Rightarrow> bool" where
  "raw_pps_bad pps = (unat pps < RAW_PPS_MIN \<or> RAW_PPS_MAX < unat pps)"

definition raw_psum_bad :: "int \<Rightarrow> bool" where
  "raw_psum_bad n = (\<bar>n\<bar> < RAW_PSUM_MIN \<or> RAW_PSUM_MAX < \<bar>n\<bar>)"

text \<open>The speed and the batch size of a single move.  Both are \<open>uint16_t\<close>.\<close>

definition start_intct :: "u16 \<Rightarrow> u16" where
  "start_intct pps =
     (let i = of_nat (calc_intct_from_pps pps) :: u16 in if i < 1 then 1 else i)"

definition start_psum :: "u16 \<Rightarrow> int \<Rightarrow> u16" where
  "start_psum pps n =
     (let p = of_nat (calc_psum_from_intct (start_intct pps)) :: u16;
          p = (if 255 < p then 255 else if p < 1 then 1 else p)
      in if \<bar>n\<bar> < uint p then of_int \<bar>n\<bar> else p)"

definition run_of :: "int \<Rightarrow> u16 \<Rightarrow> u16 \<Rightarrow> run_config" where
  "run_of n i p = \<lparr>is_valid = True, direction = (0 \<le> n), intct = i, unload_psum = \<bar>n\<bar> - uint p, load_psum = uint p\<rparr>"

definition step_reg_of :: "u16 \<Rightarrow> u16 \<Rightarrow> bool \<Rightarrow> u16" where
  "step_reg_of old psum dir =
     (let r = old AND (STEP_MICRO_MASK OR STEP_LED_BIT);
          r = r OR STEP_ENDIS_BIT;
          r = r OR (psum AND 0xFF)
      in if \<not> dir then r OR STEP_CCWCW_BIT else r)"

definition invalidate_run :: "motor \<Rightarrow> ms \<Rightarrow> ms" where
  "invalidate_run m = upd_run m (\<lambda>c. c\<lparr>is_valid := False\<rparr>)"

subsection \<open>Starting and stopping a motor\<close>

definition ms41908m_motor_start_impl :: "motor \<Rightarrow> u16 \<Rightarrow> int \<Rightarrow> ms \<Rightarrow> sys_result \<times> ms" where
  "ms41908m_motor_start_impl m pps micro_steps s =
     (let a = axes s m; target_pos = s32 (ax_position a + micro_steps) in
      if raw_pps_bad pps then (SYS_ERR_INVALID_ARG, s)
      else if raw_psum_bad micro_steps then (SYS_ERR_INVALID_ARG, s)
      else if ax_state a = STATE_NO_CFG then (SYS_ERR_INVALID_STATE, s)
      else if ax_state a = STATE_RUNNING then (SYS_ERR_BUSY, s)
      else if ax_state a \<noteq> STATE_STOPPED \<and> ax_state a \<noteq> STATE_RESET_ZERO then (SYS_ERR_INVALID_STATE, s)
      else if ax_is_r_zero a \<and> ax_pos_min a < ax_pos_max a
              \<and> (target_pos < ax_pos_min a \<or> ax_pos_max a < target_pos) then (SYS_ERR_OUT_OF_RANGE, s)
      else
        let psum = start_psum pps micro_steps;
            s = upd_run m (\<lambda>_. run_of micro_steps (start_intct pps) psum) s;
            (ret, step_reg, s) = ms41908m_port_read (step_addr m) 0 s
        in
        if ret \<noteq> SYS_OK then (ret, invalidate_run m s)
        else
          let step_reg = step_reg_of step_reg psum (0 \<le> micro_steps);
              (ret, s) = ms41908m_port_write (pps_addr m) (start_intct pps) s
          in
          if ret \<noteq> SYS_OK then (ret, invalidate_run m s)
          else
            let (ret, s) = ms41908m_port_write (step_addr m) step_reg s in
            if ret \<noteq> SYS_OK then (ret, invalidate_run m s)
            else
              let s = ms41908m_port_clear_event {COMPLETED m} s;
                  s = set_state m STATE_RUNNING s;
                  s = upd_axis m (\<lambda>a. a\<lparr>ax_start_tick := ms_tick s, ax_batch_active := False, ax_pls_rcvd := False\<rparr>) s
              in
              if can_fire_vd_fz s
              then (SYS_OK, ms41908m_port_output_vd m (mark_batch ZOOM (mark_batch FOCUS s)))
              else (SYS_OK, s))"

definition ms41908m_motor_stop_impl :: "motor \<Rightarrow> ms \<Rightarrow> sys_result \<times> ms" where
  "ms41908m_motor_stop_impl m s =
     (if ax_state (axes s m) = STATE_NO_CFG then (SYS_OK, s)
      else
        let (ret, step_reg, s) = ms41908m_port_read (step_addr m) 0 s in
        if ret \<noteq> SYS_OK then (ret, s)
        else
          let (ret, s) = ms41908m_port_write (step_addr m) (step_reg AND 0xFF00) s in
          if ret \<noteq> SYS_OK then (ret, s)
          else
            let s = upd_axis m (\<lambda>a. a\<lparr>ax_batch_active := False, ax_pls_rcvd := False\<rparr>) s;
                s = upd_run m (\<lambda>c. c\<lparr>is_valid := False, unload_psum := 0\<rparr>) s;
                s = set_state m (if rz_phase (s_rst s) \<noteq> RZ_IDLE \<and> rz_type (s_rst s) = m
                                 then STATE_RESET_ZERO else STATE_STOPPED) s
            in
            if can_fire_vd_fz s
            then (SYS_OK, ms41908m_port_output_vd m (mark_batch ZOOM (mark_batch FOCUS s)))
            else (SYS_OK, s))"

subsection \<open>Register images\<close>

definition fld :: "byte \<Rightarrow> nat \<Rightarrow> u16 \<Rightarrow> u16" where
  "fld v sh msk = (push_bit sh (ucast v) AND msk)"

text \<open>Writes in order; the first failure ends the sequence.\<close>

fun port_writes :: "(byte \<times> u16) list \<Rightarrow> ms \<Rightarrow> sys_result \<times> ms" where
  "port_writes [] s = (SYS_OK, s)"
| "port_writes ((addr, v) # ws) s =
     (let (ret, s) = ms41908m_port_write addr v s in if ret \<noteq> SYS_OK then (ret, s) else port_writes ws s)"

definition ms41908m_write_iris_config :: "iris_config \<Rightarrow> ms \<Rightarrow> sys_result \<times> ms" where
  "ms41908m_write_iris_config c = port_writes
     [(0x00, iris_tgt c AND 0x03FF),
      (0x01, fld (over_lpf_fc_1st c) 0 0x3 OR fld (over_lpf_fc_2nd c) 2 0xC OR fld (dec_ave c) 4 0x10
             OR fld (as_flt_off c) 5 0x20 OR fld (asound_lpf_fc c) 6 0x1C0 OR fld (dgain c) 9 0xFE00),
      (0x02, fld (iris_calc_nr c) 0 0xF OR fld (iris_round c) 4 0xF0 OR fld (pid_zero c) 8 0xF00
             OR fld (pid_pole c) 12 0xF000),
      (0x03, fld (arw c) 0 0xF OR fld (lmt_enb c) 4 0x10 OR fld (pwm_flt_off c) 5 0x20
             OR fld (pwm_lpf_fc c) 6 0x1C0 OR fld (pwm_iris c) 9 0xE00 OR fld (dt_adj_iris c) 12 0x3000),
      (0x04, fld (hall_bias_dac c) 0 0xFF OR fld (hall_offset_dac c) 8 0xFF00),
      (0x05, fld (tgt_lpf_fc c) 0 0xF OR fld (tgt_flt_off c) 4 0x10 OR fld (pid_inv c) 5 0x20
             OR fld (hall_gain c) 8 0xF00 OR fld (aaf_fc c) 12 0x1000),
      (0x06, start1 c AND 0x03FF),
      (0x07, (width1 c AND 0x0FFF) OR push_bit 15 (ucast (p1_en c AND 1))),
      (0x08, start2 c AND 0x03FF),
      (0x09, (ucast (width2 c) AND 0x3F) OR push_bit 15 (ucast (p2_en c AND 1))),
      (0x0A, (tgt_in_test c AND 0x03FF) OR fld (duty_test c) 10 0x400),
      (0x0B, fld (asw_mode c) 3 0x18 OR 0x80 OR fld (mode_sel_iris c) 8 0x100 OR fld (mode_sel_fz c) 9 0x200
             OR fld (pdwnb c) 10 0x400 OR fld (adc_test c) 11 0x800 OR fld (pid_clip c) 12 0xF000),
      (0x0E, (ucast (tgt_update c) AND 0xFF) OR fld (ave_speed c) 8 0x1F00)]"

definition ms41908m_write_motor_config :: "motor_config \<Rightarrow> ms \<Rightarrow> sys_result \<times> ms" where
  "ms41908m_write_motor_config c s =
     (let (ret, s) = port_writes
        [(0x20, (ucast (dt1 c) AND 0xFF) OR fld (pwm_mode c) 8 0x1F00 OR fld (pwm_res c) 13 0x6000),
         (0x21, 0x0087)] s
      in if ret \<noteq> SYS_OK then (ret, s)
      else
        let (ret, reg_val, s) = ms41908m_port_read 0x0B 0 s in
        if ret \<noteq> SYS_OK then (ret, s)
        else port_writes
          [(0x0B, reg_val OR 0x80),
           (0x22, fld (dt2a c) 0 0xFF OR fld (phmodab c) 8 0x3F00),
           (0x23, (ucast (ppwa c) AND 0xFF) OR fld (ppwb c) 8 0xFF00),
           (REG_FOCUS_STEP, STEP_ENDIS_BIT OR (if leda c AND 1 \<noteq> 0 then STEP_LED_BIT else 0)
              OR push_bit 12 (ucast (microab c AND 3))),
           (REG_FOCUS_PPS, 0),
           (0x27, fld (dt2b c) 0 0xFF OR fld (phmodcd c) 8 0x3F00),
           (0x28, (ucast (ppwc c) AND 0xFF) OR fld (ppwd c) 8 0xFF00),
           (REG_ZOOM_STEP, STEP_ENDIS_BIT OR (if ledb c AND 1 \<noteq> 0 then STEP_LED_BIT else 0)
              OR push_bit 12 (ucast (microcd c AND 3))),
           (REG_ZOOM_PPS, 0)] s)"

subsection \<open>Reset zero\<close>

definition ms41908m_reset_sm_active :: "ms \<Rightarrow> bool" where
  "ms41908m_reset_sm_active s = (rz_phase (s_rst s) \<noteq> RZ_IDLE)"

definition rz_events :: "ms \<Rightarrow> event set" where
  "rz_events s = rz_pi_event (s_rst s) \<union> rz_complete_event (s_rst s)"

definition set_phase :: "rz_phase \<Rightarrow> ms \<Rightarrow> ms" where
  "set_phase p s = s\<lparr>s_rst := (s_rst s)\<lparr>rz_phase := p\<rparr>\<rparr>"

text \<open>The part both outcomes share once the position is settled.\<close>

definition rz_finish :: "sys_result \<Rightarrow> ms \<Rightarrow> ms" where
  "rz_finish err s =
     (let m = rz_type (s_rst s);
          s = set_state m STATE_STOPPED s;
          s = s\<lparr>s_rst := (s_rst s)\<lparr>rz_phase := RZ_IDLE, rz_abort_requested := False\<rparr>\<rparr>;
          s = ms41908m_port_clear_event (rz_events s) s;
          s = ms41908m_port_pi_irq_disable s;
          s = s\<lparr>rst_last_result := (rst_last_result s)(m := err)\<rparr>
      in ms41908m_port_set_event_notify (RESET_DONE m) err s)"

definition rz_stop_if_running :: "ms \<Rightarrow> ms" where
  "rz_stop_if_running s =
     (let m = rz_type (s_rst s) in
      if ax_state (axes s m) = STATE_RUNNING then snd (ms41908m_motor_stop_impl m s) else s)"

definition ms41908m_reset_sm_complete_ok_locked :: "ms \<Rightarrow> ms" where
  "ms41908m_reset_sm_complete_ok_locked s =
     (let m = rz_type (s_rst s);
          s = rz_stop_if_running s;
          s = upd_axis m (\<lambda>a. a\<lparr>ax_position := 0, ax_is_r_zero := True\<rparr>) s
      in rz_finish SYS_OK s)"

definition ms41908m_reset_sm_complete_err_locked :: "sys_result \<Rightarrow> ms \<Rightarrow> ms" where
  "ms41908m_reset_sm_complete_err_locked err s =
     (let m = rz_type (s_rst s);
          s = rz_stop_if_running s;
          s = set_r_zero m False s
      in rz_finish err s)"

definition ms41908m_rz_pi_is_high_locked :: "ms \<Rightarrow> bool" where
  "ms41908m_rz_pi_is_high_locked s = ms41908m_port_read_irq_status (rz_pi_irq (s_rst s)) s"

definition TRAVEL_MARGIN :: int where "TRAVEL_MARGIN = 400"

definition ms41908m_rz_span_zero_to_min_locked :: "ms \<Rightarrow> int" where
  "ms41908m_rz_span_zero_to_min_locked s =
     (let span = s32 (- ax_pos_min (axes s (rz_type (s_rst s)))) in
      s32 ((if span < 0 then 0 else span) + TRAVEL_MARGIN))"

definition ms41908m_rz_span_zero_to_max_locked :: "ms \<Rightarrow> int" where
  "ms41908m_rz_span_zero_to_max_locked s =
     (let span = ax_pos_max (axes s (rz_type (s_rst s))) in
      s32 ((if span < 0 then 0 else span) + TRAVEL_MARGIN))"

definition ms41908m_rz_steps_to_clear_pi_locked :: "ms \<Rightarrow> int" where
  "ms41908m_rz_steps_to_clear_pi_locked s =
     (if rz_type (s_rst s) = ZOOM then ms41908m_rz_span_zero_to_min_locked s
      else s32 (- ms41908m_rz_span_zero_to_max_locked s))"

definition ms41908m_rz_steps_to_home_edge_locked :: "ms \<Rightarrow> int" where
  "ms41908m_rz_steps_to_home_edge_locked s =
     (if rz_type (s_rst s) = ZOOM then s32 (- ms41908m_rz_span_zero_to_max_locked s)
      else ms41908m_rz_span_zero_to_min_locked s)"

definition ms41908m_reset_sm_arm_locked :: "motor \<Rightarrow> ms \<Rightarrow> ms" where
  "ms41908m_reset_sm_arm_locked m s =
     (let s = s\<lparr>s_rst := zero_rst\<lparr>rz_type := m, rz_pi_irq := m, rz_pi_event := {PI m},
                  rz_complete_event := {COMPLETED m}\<rparr>\<rparr>;
          s = set_r_zero m False s;
          s = ms41908m_port_clear_event (rz_events s) s;
          s = ms41908m_port_pi_irq_enable s
      in set_phase (if ms41908m_rz_pi_is_high_locked s then RZ_CAPTURE_START else RZ_EXIT_LOW_START) s)"

definition ms41908m_reset_sm_try_arm_locked :: "motor \<Rightarrow> ms \<Rightarrow> ms" where
  "ms41908m_reset_sm_try_arm_locked m s =
     (let a = axes s m in
      if rz_phase (s_rst s) \<noteq> RZ_IDLE then s
      else if ax_state a \<noteq> STATE_RESET_ZERO then s
      else if ax_pos_max a \<le> ax_pos_min a \<or> 0 < ax_pos_min a \<or> ax_pos_max a < 0 then
        let s = set_state m STATE_STOPPED s;
            s = s\<lparr>rst_last_result := (rst_last_result s)(m := SYS_ERR_INVALID_STATE)\<rparr>
        in ms41908m_port_set_event_notify (RESET_DONE m) SYS_ERR_INVALID_STATE s
      else ms41908m_reset_sm_arm_locked m s)"

definition ms41908m_reset_sm_try_arm_zoom_locked :: "ms \<Rightarrow> ms" where
  "ms41908m_reset_sm_try_arm_zoom_locked = ms41908m_reset_sm_try_arm_locked ZOOM"

definition ms41908m_reset_sm_try_arm_focus_locked :: "ms \<Rightarrow> ms" where
  "ms41908m_reset_sm_try_arm_focus_locked = ms41908m_reset_sm_try_arm_locked FOCUS"

definition RESET_FAST_PPS :: u16 where "RESET_FAST_PPS = 1200"
definition RESET_SLOW_PPS :: u16 where "RESET_SLOW_PPS = 400"

definition rz_exit_low_start :: "ms \<Rightarrow> ms" where
  "rz_exit_low_start s =
     (if rz_abort_requested (s_rst s) then ms41908m_reset_sm_complete_err_locked SYS_ERR_NOT_FINISHED s
      else if ms41908m_rz_pi_is_high_locked s then set_phase RZ_CAPTURE_START s
      else
        let (ret, s) = ms41908m_motor_start_impl (rz_type (s_rst s)) RESET_FAST_PPS
                         (ms41908m_rz_steps_to_clear_pi_locked s) s
        in if ret \<noteq> SYS_OK then ms41908m_reset_sm_complete_err_locked ret s
           else set_phase RZ_EXIT_LOW_WAIT s)"

definition rz_exit_low_wait :: "ms \<Rightarrow> ms" where
  "rz_exit_low_wait s =
     (let m = rz_type (s_rst s) in
      if rz_abort_requested (s_rst s) then ms41908m_reset_sm_complete_err_locked SYS_ERR_NOT_FINISHED s
      else if ms41908m_rz_pi_is_high_locked s then
        let s = snd (ms41908m_motor_stop_impl m s);
            s = ms41908m_port_clear_event (rz_events s) s
        in set_phase RZ_CAPTURE_START s
      else
        let ce = rz_complete_event (s_rst s);
            (ev, s) = ms41908m_port_wait_for_event ce False False s;
            s = (if ev \<inter> ce \<noteq> {} then ms41908m_port_clear_event ce s else s)
        in
        if ax_state (axes s m) = STATE_RUNNING then s
        else if ms41908m_rz_pi_is_high_locked s then set_phase RZ_CAPTURE_START s
        else ms41908m_reset_sm_complete_err_locked SYS_ERR_TIMEOUT s)"

definition rz_capture_start :: "ms \<Rightarrow> ms" where
  "rz_capture_start s =
     (if rz_abort_requested (s_rst s) then ms41908m_reset_sm_complete_err_locked SYS_ERR_NOT_FINISHED s
      else
        let s = ms41908m_port_clear_event (rz_events s) s;
            (ret, s) = ms41908m_motor_start_impl (rz_type (s_rst s)) RESET_SLOW_PPS
                         (ms41908m_rz_steps_to_home_edge_locked s) s
        in if ret \<noteq> SYS_OK then ms41908m_reset_sm_complete_err_locked ret s
           else set_phase RZ_CAPTURE_WAIT s)"

definition rz_captured :: "ms \<Rightarrow> ms" where
  "rz_captured s =
     (let s = snd (ms41908m_motor_stop_impl (rz_type (s_rst s)) s);
          s = s\<lparr>s_rst := (s_rst s)\<lparr>rz_pi_triggered := True\<rparr>\<rparr>;
          s = ms41908m_port_clear_event (rz_events s) s
      in ms41908m_reset_sm_complete_ok_locked s)"

definition rz_capture_wait :: "ms \<Rightarrow> ms" where
  "rz_capture_wait s =
     (let m = rz_type (s_rst s); pe = rz_pi_event (s_rst s); ce = rz_complete_event (s_rst s) in
      if rz_abort_requested (s_rst s) then ms41908m_reset_sm_complete_err_locked SYS_ERR_NOT_FINISHED s
      else
        let (ev, s) = ms41908m_port_wait_for_event (pe \<union> ce) False False s in
        if ax_state (axes s m) = STATE_RUNNING then
          if ev \<inter> pe \<noteq> {} then rz_captured s
          else if ev \<inter> ce \<noteq> {} then ms41908m_port_clear_event ce s
          else s
        else
          if ev \<inter> pe \<noteq> {} then rz_captured s
          else if ev \<inter> ce \<noteq> {} then
            let s = ms41908m_port_clear_event ce s in
            if \<not> rz_pi_triggered (s_rst s) then ms41908m_reset_sm_complete_err_locked SYS_ERR_TIMEOUT s else s
          else s)"

definition ms41908m_reset_sm_step_once_locked :: "ms \<Rightarrow> ms" where
  "ms41908m_reset_sm_step_once_locked s =
     (case rz_phase (s_rst s) of
        RZ_IDLE \<Rightarrow> s
      | RZ_EXIT_LOW_START \<Rightarrow> rz_exit_low_start s
      | RZ_EXIT_LOW_WAIT \<Rightarrow> rz_exit_low_wait s
      | RZ_CAPTURE_START \<Rightarrow> rz_capture_start s
      | RZ_CAPTURE_WAIT \<Rightarrow> rz_capture_wait s)"

text \<open>At most 32 steps of the state machine in one turn of the task.\<close>

primrec rz_steps :: "nat \<Rightarrow> ms \<Rightarrow> ms" where
  "rz_steps 0 s = s"
| "rz_steps (Suc n) s =
     (if rz_phase (s_rst s) \<noteq> RZ_IDLE then rz_steps n (ms41908m_reset_sm_step_once_locked s) else s)"

definition ms41908m_reset_sm_run_locked :: "ms \<Rightarrow> ms" where
  "ms41908m_reset_sm_run_locked s = rz_steps 32 s"

subsection \<open>The motor task\<close>

definition MOTOR_TIMEOUT_MS :: u32 where "MOTOR_TIMEOUT_MS = 5000"

definition axis_timeout :: "motor \<Rightarrow> ms \<Rightarrow> ms" where
  "axis_timeout m s =
     (if ax_state (axes s m) = STATE_RUNNING \<and> MOTOR_TIMEOUT_MS \<le> ms_tick s - ax_start_tick (axes s m) then
        let s = snd (ms41908m_motor_stop_impl m s);
            s = set_state m STATE_ERROR s;
            s = set_r_zero m False s
        in ms41908m_port_set_event_notify (COMPLETED m) SYS_ERR_TIMEOUT s
      else s)"

text \<open>One motor's share of a pulse interrupt.  The variable \<open>ret\<close> of the task is
  shared by both motors, so it is threaded through.\<close>

definition axis_load_last :: "motor \<Rightarrow> ms \<Rightarrow> sys_result \<times> ms" where
  "axis_load_last m s =
     (let left = unload_psum (ax_run_config (axes s m));
          s = upd_run m (\<lambda>c. c\<lparr>load_psum := left, unload_psum := 0\<rparr>) s;
          (ret, step_reg, s) = ms41908m_port_read (step_addr m) 0 s
      in if ret = SYS_OK
         then ms41908m_port_write (step_addr m) ((step_reg AND 0xFF00) OR of_int left) s
         else (ret, s))"

definition axis_completed :: "motor \<Rightarrow> ms \<Rightarrow> ms" where
  "axis_completed m s =
     (let s = snd (ms41908m_motor_stop_impl m s) in
      if rz_phase (s_rst s) \<noteq> RZ_IDLE \<and> rz_type (s_rst s) = m \<and> rz_complete_event (s_rst s) = {COMPLETED m}
      then snd (ms41908m_port_set_event {COMPLETED m} s)
      else ms41908m_port_set_event_notify (COMPLETED m) SYS_OK s)"

definition axis_count :: "axis \<Rightarrow> axis" where
  "axis_count a = (let rc = ax_run_config a in
     a\<lparr>ax_position := s32 (if direction rc then ax_position a + load_psum rc else ax_position a - load_psum rc)\<rparr>)"

definition axis_pls :: "motor \<Rightarrow> sys_result \<times> ms \<Rightarrow> sys_result \<times> ms" where
  "axis_pls m rs =
     (let (ret, s) = rs;
          s = upd_axis m (\<lambda>a. a\<lparr>ax_pls_rcvd := True\<rparr>) s;
          rc = ax_run_config (axes s m)
      in
      if \<not> is_valid rc then (ret, s)
      else
        let s = upd_axis m axis_count s in
        if 0 < unload_psum rc then
          let (ret, s) =
                (if load_psum rc \<le> unload_psum rc
                 then (ret, upd_run m (\<lambda>c. c\<lparr>unload_psum := unload_psum c - load_psum c\<rparr>) s)
                 else axis_load_last m s)
          in
          if ret \<noteq> SYS_OK
          then (ret, set_r_zero m False (set_state m STATE_ERROR (snd (ms41908m_motor_stop_impl m s))))
          else (ret, s)
        else (ret, axis_completed m s))"

definition any_running :: "ms \<Rightarrow> bool" where
  "any_running s = (ax_state (axes s FOCUS) = STATE_RUNNING \<or> ax_state (axes s ZOOM) = STATE_RUNNING)"

definition task_pulses :: "event set \<Rightarrow> ms \<Rightarrow> ms" where
  "task_pulses bits s =
     (let rs = (SYS_OK, s);
          rs = (if PLS FOCUS \<in> bits \<and> ax_state (axes (snd rs) FOCUS) = STATE_RUNNING then axis_pls FOCUS rs else rs);
          rs = (if PLS ZOOM \<in> bits \<and> ax_state (axes (snd rs) ZOOM) = STATE_RUNNING then axis_pls ZOOM rs else rs);
          s = snd rs
      in if can_fire_vd_fz s \<and> any_running s
         then ms41908m_port_output_vd FOCUS (mark_batch ZOOM (mark_batch FOCUS s))
         else s)"

definition task_wait_mask :: "ms \<Rightarrow> event set" where
  "task_wait_mask s =
     {PLS FOCUS, PLS ZOOM, REQ_RESET ZOOM, REQ_RESET FOCUS}
     \<union> (if rz_phase (s_rst s) \<noteq> RZ_IDLE then rz_events s else {})"

text \<open>One turn of the task loop.  \<open>isr\<close> holds the events interrupts raise while the
  body runs, before it clears the pulse events.\<close>

definition task_body :: "event set \<Rightarrow> event set \<Rightarrow> ms \<Rightarrow> ms" where
  "task_body isr bits s =
     (let s = (if rz_phase (s_rst s) = RZ_IDLE then axis_timeout ZOOM (axis_timeout FOCUS s) else s);
          s = (if REQ_RESET ZOOM \<in> bits
               then ms41908m_port_clear_event {REQ_RESET ZOOM} (ms41908m_reset_sm_try_arm_zoom_locked s) else s);
          s = (if REQ_RESET FOCUS \<in> bits
               then ms41908m_port_clear_event {REQ_RESET FOCUS} (ms41908m_reset_sm_try_arm_focus_locked s) else s);
          pulsed = PLS FOCUS \<in> bits \<or> PLS ZOOM \<in> bits;
          s = (if pulsed then task_pulses bits s else s);
          s = set_event isr s;
          s = (if pulsed then ms41908m_port_clear_event {PLS FOCUS, PLS ZOOM} s else s)
      in if rz_phase (s_rst s) \<noteq> RZ_IDLE then ms41908m_reset_sm_run_locked s else s)"

definition ms41908m_motor_task_handler :: "event set \<Rightarrow> ms \<Rightarrow> ms" where
  "ms41908m_motor_task_handler isr s =
     (let (bits, s) = ms41908m_port_wait_for_event (task_wait_mask s) False False s;
          (ret, s) = ms41908m_port_lock s
      in if ret \<noteq> SYS_OK then set_event isr s
         else ms41908m_dispatch_pending_app_events (task_body isr bits s))"

definition ms41908m_iris_timer_handler :: "ms \<Rightarrow> ms" where
  "ms41908m_iris_timer_handler s = (if iris_state s = STATE_RUNNING then ms41908m_port_output_vd_iris s else s)"

subsection \<open>Public operations\<close>

definition ms41908m_set_event_callback :: "nat option \<Rightarrow> ms \<Rightarrow> ms" where
  "ms41908m_set_event_callback cb s = s\<lparr>s_app_event_cb := cb\<rparr>"

definition ms41908m_init :: "ms \<Rightarrow> sys_result \<times> ms" where
  "ms41908m_init s =
     (if is_initialized s then (SYS_ERR_INVALID_STATE, s)
      else
        let s = s\<lparr>is_initialized := False, iris_state := STATE_NO_CFG, axes := (\<lambda>_. zero_axis), s_rst := zero_rst,
                  rst_last_result := (\<lambda>_. SYS_ERR_INVALID_STATE)\<rparr>;
            (ret, s) = ms41908m_port_init s
        in
        if ret \<noteq> SYS_OK then (ret, s)
        else
          let (ok, s) = ms41908m_port_create_task s; s = s\<lparr>s_motor_task := ok\<rparr> in
          if \<not> ok then (SYS_ERR_NO_MEM, ms41908m_port_deinit s)
          else
            let (ok, s) = ms41908m_port_create_timer s; s = s\<lparr>s_iris_timer := ok\<rparr> in
            if \<not> ok then (SYS_ERR_NO_MEM, ms41908m_port_deinit (s\<lparr>s_motor_task := False\<rparr>))
            else (SYS_OK, s\<lparr>is_initialized := True\<rparr>))"

definition ms41908m_iris_config :: "iris_config option \<Rightarrow> ms \<Rightarrow> sys_result \<times> ms" where
  "ms41908m_iris_config config s =
     (case config of
        None \<Rightarrow> (SYS_ERR_INVALID_ARG, s)
      | Some c \<Rightarrow>
          if \<not> is_initialized s then (SYS_ERR_INVALID_ARG, s)
          else
            let (ret, s) = ms41908m_port_lock s in
            if ret \<noteq> SYS_OK then (ret, s)
            else
              let (ret, s) = ms41908m_write_iris_config c s;
                  s = (if ret = SYS_OK \<and> (iris_state s = STATE_NO_CFG \<or> iris_state s = STATE_ERROR)
                       then s\<lparr>iris_state := STATE_STOPPED\<rparr> else s)
              in (ret, ms41908m_port_output_vd_iris s))"

definition ms41908m_iris_update_target :: "u16 \<Rightarrow> ms \<Rightarrow> sys_result \<times> ms" where
  "ms41908m_iris_update_target target s =
     (if \<not> is_initialized s then (SYS_ERR_INVALID_STATE, s)
      else if iris_state s = STATE_NO_CFG then (SYS_ERR_INVALID_STATE, s)
      else
        let (ret, s) = ms41908m_port_lock s in
        if ret \<noteq> SYS_OK then (ret, s) else ms41908m_port_write 0x00 (target AND 0x03FF) s)"

definition ms41908m_iris_read_adc :: "ms \<Rightarrow> u16 \<times> ms" where
  "ms41908m_iris_read_adc s =
     (if \<not> is_initialized s then (0, s)
      else
        let (ret, s) = ms41908m_port_lock s in
        if ret \<noteq> SYS_OK then (0, s)
        else let (_, adc_val, s) = ms41908m_port_read 0x0C 0 s in (adc_val AND 0x03FF, s))"

definition ms41908m_iris_get_state :: "ms \<Rightarrow> ms_state" where
  "ms41908m_iris_get_state s = iris_state s"

definition ms41908m_iris_run :: "ms \<Rightarrow> sys_result \<times> ms" where
  "ms41908m_iris_run s =
     (if \<not> is_initialized s then (SYS_ERR_INVALID_STATE, s)
      else if iris_state s = STATE_NO_CFG then (SYS_ERR_INVALID_STATE, s)
      else if iris_state s = STATE_RUNNING then (SYS_OK, s)
      else
        let (ret, s) = ms41908m_port_start_timer s in
        if ret = SYS_OK then (ret, ms41908m_port_output_vd_iris (s\<lparr>iris_state := STATE_RUNNING\<rparr>)) else (ret, s))"

definition ms41908m_iris_stop :: "ms \<Rightarrow> sys_result \<times> ms" where
  "ms41908m_iris_stop s =
     (if \<not> is_initialized s then (SYS_ERR_INVALID_STATE, s)
      else if iris_state s = STATE_NO_CFG then (SYS_OK, s)
      else (SYS_OK, (snd (ms41908m_port_stop_timer s))\<lparr>iris_state := STATE_STOPPED\<rparr>))"

definition configured :: "motor \<Rightarrow> ms \<Rightarrow> ms" where
  "configured m s =
     (if ax_state (axes s m) = STATE_NO_CFG \<or> ax_state (axes s m) = STATE_ERROR
      then set_state m STATE_STOPPED s else s)"

definition ms41908m_motor_config :: "motor_config option \<Rightarrow> ms \<Rightarrow> sys_result \<times> ms" where
  "ms41908m_motor_config config s =
     (case config of
        None \<Rightarrow> (SYS_ERR_INVALID_ARG, s)
      | Some c \<Rightarrow>
          if \<not> is_initialized s then (SYS_ERR_INVALID_ARG, s)
          else
            let (ret, s) = ms41908m_port_lock s in
            if ret \<noteq> SYS_OK then (ret, s)
            else if ms41908m_reset_sm_active s then (SYS_ERR_BUSY, s)
            else
              let (ret, s) = ms41908m_write_motor_config c s in
              (ret, if ret = SYS_OK then configured FOCUS (configured ZOOM s) else s))"

definition axis_busy :: "motor \<Rightarrow> ms \<Rightarrow> bool" where
  "axis_busy m s =
     (ax_state (axes s m) = STATE_RUNNING \<or> ax_state (axes s m) = STATE_RESET_ZERO \<or> ms41908m_reset_sm_active s)"

definition axis_run :: "motor \<Rightarrow> u16 \<Rightarrow> int \<Rightarrow> ms \<Rightarrow> sys_result \<times> ms" where
  "axis_run m pps micro_steps s =
     (if \<not> is_initialized s then (SYS_ERR_INVALID_STATE, s)
      else if micro_steps = 0 then (SYS_OK, s)
      else if ax_state (axes s m) = STATE_NO_CFG then (SYS_ERR_INVALID_STATE, s)
      else
        let (ret, s) = ms41908m_port_lock s in
        if ret \<noteq> SYS_OK then (ret, s)
        else if axis_busy m s then (SYS_ERR_BUSY, s)
        else ms41908m_motor_start_impl m pps micro_steps s)"

definition ms41908m_zoom_run :: "u16 \<Rightarrow> int \<Rightarrow> ms \<Rightarrow> sys_result \<times> ms" where
  "ms41908m_zoom_run = axis_run ZOOM"

definition ms41908m_focus_run :: "u16 \<Rightarrow> int \<Rightarrow> ms \<Rightarrow> sys_result \<times> ms" where
  "ms41908m_focus_run = axis_run FOCUS"

definition axis_run_to_position :: "motor \<Rightarrow> u16 \<Rightarrow> int \<Rightarrow> ms \<Rightarrow> sys_result \<times> ms" where
  "axis_run_to_position m pps position s =
     (if \<not> is_initialized s then (SYS_ERR_INVALID_STATE, s)
      else if ax_state (axes s m) = STATE_NO_CFG then (SYS_ERR_INVALID_STATE, s)
      else if \<not> ax_is_r_zero (axes s m) then (SYS_ERR_INVALID_STATE, s)
      else
        let (ret, s) = ms41908m_port_lock s in
        if ret \<noteq> SYS_OK then (ret, s)
        else if axis_busy m s then (SYS_ERR_BUSY, s)
        else
          let delta = s32 (position - ax_position (axes s m)) in
          if delta = 0 then (SYS_OK, s) else ms41908m_motor_start_impl m pps delta s)"

definition ms41908m_zoom_run_to_position :: "u16 \<Rightarrow> int \<Rightarrow> ms \<Rightarrow> sys_result \<times> ms" where
  "ms41908m_zoom_run_to_position = axis_run_to_position ZOOM"

definition ms41908m_focus_run_to_position :: "u16 \<Rightarrow> int \<Rightarrow> ms \<Rightarrow> sys_result \<times> ms" where
  "ms41908m_focus_run_to_position = axis_run_to_position FOCUS"

fun other :: "motor \<Rightarrow> motor" where
  "other FOCUS = ZOOM"
| "other ZOOM = FOCUS"

definition axis_reset_zero :: "motor \<Rightarrow> ms \<Rightarrow> sys_result \<times> ms" where
  "axis_reset_zero m s =
     (if \<not> is_initialized s then (SYS_ERR_INVALID_STATE, s)
      else if ax_state (axes s m) = STATE_NO_CFG then (SYS_ERR_INVALID_STATE, s)
      else
        let (ret, s) = ms41908m_port_lock s in
        if ret \<noteq> SYS_OK then (ret, s)
        else if ax_state (axes s (other m)) = STATE_RUNNING \<or> axis_busy m s then (SYS_ERR_BUSY, s)
        else
          let s = ms41908m_port_clear_event {RESET_DONE m} s;
              s = set_state m STATE_RESET_ZERO (set_r_zero m False s)
          in (SYS_OK, snd (ms41908m_port_set_event {REQ_RESET m} s)))"

definition ms41908m_zoom_reset_zero :: "ms \<Rightarrow> sys_result \<times> ms" where
  "ms41908m_zoom_reset_zero = axis_reset_zero ZOOM"

definition ms41908m_focus_reset_zero :: "ms \<Rightarrow> sys_result \<times> ms" where
  "ms41908m_focus_reset_zero = axis_reset_zero FOCUS"

text \<open>The blocking waits.  \<open>during\<close> is what the rest of the system does to the driver
  until the wait returns.\<close>

definition axis_wait_reset_done :: "motor \<Rightarrow> (ms \<Rightarrow> ms) \<Rightarrow> ms \<Rightarrow> sys_result \<times> ms" where
  "axis_wait_reset_done m during s =
     (if \<not> is_initialized s then (SYS_ERR_INVALID_STATE, s)
      else
        let (ev, s) = ms41908m_port_wait_for_event {RESET_DONE m} True False (during s) in
        (if RESET_DONE m \<in> ev then rst_last_result s m else SYS_ERR_TIMEOUT, s))"

definition ms41908m_zoom_wait_reset_done :: "(ms \<Rightarrow> ms) \<Rightarrow> ms \<Rightarrow> sys_result \<times> ms" where
  "ms41908m_zoom_wait_reset_done = axis_wait_reset_done ZOOM"

definition ms41908m_focus_wait_reset_done :: "(ms \<Rightarrow> ms) \<Rightarrow> ms \<Rightarrow> sys_result \<times> ms" where
  "ms41908m_focus_wait_reset_done = axis_wait_reset_done FOCUS"

definition axis_wait_for_completion :: "motor \<Rightarrow> (ms \<Rightarrow> ms) \<Rightarrow> ms \<Rightarrow> sys_result \<times> ms" where
  "axis_wait_for_completion m during s =
     (if \<not> is_initialized s then (SYS_ERR_INVALID_STATE, s)
      else if ax_state (axes s m) \<noteq> STATE_RUNNING then (SYS_OK, s)
      else
        let (ev, s) = ms41908m_port_wait_for_event {COMPLETED m} True False (during s) in
        (if COMPLETED m \<in> ev then SYS_OK else SYS_ERR_TIMEOUT, s))"

definition ms41908m_zoom_wait_for_completion :: "(ms \<Rightarrow> ms) \<Rightarrow> ms \<Rightarrow> sys_result \<times> ms" where
  "ms41908m_zoom_wait_for_completion = axis_wait_for_completion ZOOM"

definition ms41908m_focus_wait_for_completion :: "(ms \<Rightarrow> ms) \<Rightarrow> ms \<Rightarrow> sys_result \<times> ms" where
  "ms41908m_focus_wait_for_completion = axis_wait_for_completion FOCUS"

definition axis_set_position_limit :: "motor \<Rightarrow> int \<Rightarrow> int \<Rightarrow> ms \<Rightarrow> sys_result \<times> ms" where
  "axis_set_position_limit m position_min position_max s =
     (if \<not> is_initialized s then (SYS_ERR_INVALID_STATE, s)
      else if position_max \<le> position_min then (SYS_ERR_INVALID_ARG, s)
      else if 0 < position_min \<or> position_max < 0 then (SYS_ERR_INVALID_ARG, s)
      else (SYS_OK, upd_axis m (\<lambda>a. a\<lparr>ax_pos_min := position_min, ax_pos_max := position_max\<rparr>) s))"

definition ms41908m_zoom_set_position_limit :: "int \<Rightarrow> int \<Rightarrow> ms \<Rightarrow> sys_result \<times> ms" where
  "ms41908m_zoom_set_position_limit = axis_set_position_limit ZOOM"

definition ms41908m_focus_set_position_limit :: "int \<Rightarrow> int \<Rightarrow> ms \<Rightarrow> sys_result \<times> ms" where
  "ms41908m_focus_set_position_limit = axis_set_position_limit FOCUS"

definition axis_read_pi :: "motor \<Rightarrow> ms \<Rightarrow> int" where
  "axis_read_pi m s = (if \<not> is_initialized s then -1 else if ms41908m_port_read_irq_status m s then 1 else 0)"

definition ms41908m_read_pi_zoom :: "ms \<Rightarrow> int" where
  "ms41908m_read_pi_zoom = axis_read_pi ZOOM"

definition ms41908m_read_pi_focus :: "ms \<Rightarrow> int" where
  "ms41908m_read_pi_focus = axis_read_pi FOCUS"

definition axis_stop :: "motor \<Rightarrow> ms \<Rightarrow> sys_result \<times> ms" where
  "axis_stop m s =
     (if \<not> is_initialized s then (SYS_ERR_INVALID_STATE, s)
      else
        let (ret, s) = ms41908m_port_lock s in
        if ret \<noteq> SYS_OK then (ret, s)
        else
          let was_running = (ax_state (axes s m) = STATE_RUNNING);
              s = (if rz_phase (s_rst s) \<noteq> RZ_IDLE \<and> rz_type (s_rst s) = m
                   then s\<lparr>s_rst := (s_rst s)\<lparr>rz_abort_requested := True\<rparr>\<rparr> else s);
              (ret, s) = ms41908m_motor_stop_impl m s
          in (ret, if ret = SYS_OK \<and> was_running then set_r_zero m False s else s))"

definition ms41908m_zoom_stop :: "ms \<Rightarrow> sys_result \<times> ms" where
  "ms41908m_zoom_stop = axis_stop ZOOM"

definition ms41908m_focus_stop :: "ms \<Rightarrow> sys_result \<times> ms" where
  "ms41908m_focus_stop = axis_stop FOCUS"

definition ms41908m_deinit :: "ms \<Rightarrow> ms" where
  "ms41908m_deinit s =
     (if \<not> is_initialized s then s
      else
        let s = snd (ms41908m_iris_stop s);
            s = snd (ms41908m_focus_stop s);
            s = snd (ms41908m_zoom_stop s);
            s = (if s_iris_timer s
                 then (snd (ms41908m_port_delete_timer (snd (ms41908m_port_stop_timer s))))\<lparr>s_iris_timer := False\<rparr>
                 else s);
            s = s\<lparr>s_motor_task := False\<rparr>;
            s = ms41908m_port_deinit s
        in s\<lparr>s_app_event_cb := None, s_app_notify := [], is_initialized := False, iris_state := STATE_NO_CFG,
             axes := (\<lambda>_. zero_axis), s_rst := zero_rst\<rparr>)"

subsection \<open>Both motors at once\<close>

text \<open>The batch size and the speed of one motor of a synchronous move.  The speed is
  stored in a \<open>uint16_t\<close> before it is bounded.\<close>

definition sync_psum :: "u16 \<Rightarrow> int \<Rightarrow> u16" where
  "sync_psum pps n =
     (let p = of_nat (calc_psum_from_intct (of_nat (calc_intct_from_pps pps))) :: u16;
          p = (if \<bar>n\<bar> < uint p then of_int \<bar>n\<bar> else p);
          p = (if 255 < p then 255 else p)
      in if p < 1 then 1 else p)"

definition sync_intct :: "u16 \<Rightarrow> int \<Rightarrow> u16" where
  "sync_intct pps n =
     (let i = of_nat (calc_intct_from_psum (sync_psum pps n)) :: u16 in if i < 1 then 1 else i)"

text \<open>Programming one motor of a synchronous move, up to its state change.\<close>

definition sync_axis :: "motor \<Rightarrow> u16 \<Rightarrow> int \<Rightarrow> ms \<Rightarrow> sys_result \<times> ms" where
  "sync_axis m pps micro_steps s =
     (let psum = sync_psum pps micro_steps;
          i = sync_intct pps micro_steps;
          s = upd_run m (\<lambda>_. run_of micro_steps i psum) s;
          (ret, s) = ms41908m_port_write (pps_addr m) i s
      in
      if ret \<noteq> SYS_OK then (ret, s)
      else
        let (ret, step_reg, s) = ms41908m_port_read (step_addr m) 0 s in
        if ret \<noteq> SYS_OK then (ret, s)
        else
          let (ret, s) = ms41908m_port_write (step_addr m) (step_reg_of step_reg psum (0 \<le> micro_steps)) s in
          if ret \<noteq> SYS_OK then (ret, s)
          else
            let s = ms41908m_port_clear_event {COMPLETED m} s;
                s = upd_axis m (\<lambda>a. a\<lparr>ax_start_tick := ms_tick s\<rparr>) s
            in (SYS_OK, set_state m STATE_RUNNING s))"

definition sync_stop_axis :: "motor \<Rightarrow> ms \<Rightarrow> ms" where
  "sync_stop_axis m s =
     (let s = invalidate_run m s in
      if ax_state (axes s m) = STATE_NO_CFG then s else set_state m STATE_STOPPED s)"

definition sync_err :: "ms \<Rightarrow> ms" where
  "sync_err s = sync_stop_axis FOCUS (sync_stop_axis ZOOM s)"

definition sync_bad :: "u16 \<Rightarrow> int \<Rightarrow> bool" where
  "sync_bad pps n = (raw_pps_bad pps \<or> raw_psum_bad n)"

definition ms41908m_zf_sync_run :: "u16 \<Rightarrow> int \<Rightarrow> u16 \<Rightarrow> int \<Rightarrow> ms \<Rightarrow> sys_result \<times> ms" where
  "ms41908m_zf_sync_run zm_pps zm_micro_steps fs_pps fs_micro_steps s =
     (if \<not> is_initialized s then (SYS_ERR_INVALID_STATE, s)
      else if ax_state (axes s ZOOM) = STATE_NO_CFG \<or> ax_state (axes s FOCUS) = STATE_NO_CFG
      then (SYS_ERR_INVALID_STATE, s)
      else
        let (ret, s) = ms41908m_port_lock s in
        if ret \<noteq> SYS_OK then (ret, s)
        else if axis_busy ZOOM s \<or> axis_busy FOCUS s then (SYS_ERR_BUSY, s)
        else if zm_micro_steps \<noteq> 0 \<and> sync_bad zm_pps zm_micro_steps then (SYS_ERR_INVALID_ARG, s)
        else
          let (ret, s) = (if zm_micro_steps \<noteq> 0 then sync_axis ZOOM zm_pps zm_micro_steps s else (SYS_OK, s)) in
          if ret \<noteq> SYS_OK then (ret, sync_err s)
          else if fs_micro_steps \<noteq> 0 \<and> sync_bad fs_pps fs_micro_steps then
            (SYS_ERR_INVALID_ARG,
             if zm_micro_steps \<noteq> 0 then set_state ZOOM STATE_STOPPED (invalidate_run ZOOM s) else s)
          else
            let (ret, s) = (if fs_micro_steps \<noteq> 0 then sync_axis FOCUS fs_pps fs_micro_steps s else (SYS_OK, s)) in
            if ret \<noteq> SYS_OK then (ret, sync_err s)
            else if \<not> any_running s then (SYS_OK, s)
            else (SYS_OK, ms41908m_port_output_vd FOCUS (mark_batch FOCUS (mark_batch ZOOM s))))"

definition ms41908m_zf_sync_wait_for_completion :: "(ms \<Rightarrow> ms) \<Rightarrow> ms \<Rightarrow> sys_result \<times> ms" where
  "ms41908m_zf_sync_wait_for_completion during s =
     (if \<not> is_initialized s then (SYS_ERR_INVALID_STATE, s)
      else if \<not> any_running s then (SYS_OK, s)
      else
        let msk = {COMPLETED FOCUS, COMPLETED ZOOM};
            (ev, s) = ms41908m_port_wait_for_event msk True True (during s)
        in (if msk \<subseteq> ev then SYS_OK else SYS_ERR_TIMEOUT, s))"

subsection \<open>Getters\<close>

definition ms41908m_get_zoom_state :: "ms \<Rightarrow> ms_state" where
  "ms41908m_get_zoom_state s = ax_state (axes s ZOOM)"

definition ms41908m_get_focus_state :: "ms \<Rightarrow> ms_state" where
  "ms41908m_get_focus_state s = ax_state (axes s FOCUS)"

definition ms41908m_get_zoom_position :: "ms \<Rightarrow> int" where
  "ms41908m_get_zoom_position s = ax_position (axes s ZOOM)"

definition ms41908m_get_focus_position :: "ms \<Rightarrow> int" where
  "ms41908m_get_focus_position s = ax_position (axes s FOCUS)"

definition ms41908m_zoom_is_reset_zero :: "ms \<Rightarrow> bool" where
  "ms41908m_zoom_is_reset_zero s = ax_is_r_zero (axes s ZOOM)"

definition ms41908m_focus_is_reset_zero :: "ms \<Rightarrow> bool" where
  "ms41908m_focus_is_reset_zero s = ax_is_r_zero (axes s FOCUS)"

end
