(* ===== verification/Lens.thy ===== *)
theory Lens
  imports Ms41908m
begin

text \<open>
  The lens controller of the MCU application: \<open>lens_controller.c\<close>,
  \<open>lens_controller.h\<close>, the profiles in \<open>lens_profile.c\<close>,
  \<open>lens_profile_af0832.c\<close> and \<open>lens_profile_fg2009.c\<close>, and the two
  functions of \<open>bsp_ctrl.c\<close> that switch the IR-cut filter.  The controller sits
  between the application and the motor driver: it knows the connected lens, converts
  physical steps into the driver's units, refuses what the lens cannot do, and switches
  between lens models.

  Every operation holds the controller's mutex, so operations are atomic with respect to
  each other.  Memory for the mutex and its acquisition can fail, following a script as in
  the driver.  An enumeration argument outside the enumeration is the last constructor of
  its datatype.
\<close>

subsection \<open>Data\<close>

datatype lens_model = LENS_MODEL_AF0832 | LENS_MODEL_FG2009 | LENS_MODEL_COUNT

datatype lens_axis = LENS_AXIS_ZOOM | LENS_AXIS_FOCUS | LENS_AXIS_BAD

datatype lens_config_mode = LENS_CONFIG_ALL | LENS_CONFIG_IRIS | LENS_CONFIG_MOTOR | LENS_CONFIG_BAD

datatype lens_ircut_mode = LENS_IRCUT_UNKNOWN | LENS_IRCUT_DAY | LENS_IRCUT_NIGHT

record lens_axis_profile =
  psum_units_per_step :: byte
  min_pps :: u16
  max_pps :: u16
  default_pps :: u16
  nominal_travel_steps :: u16
  travel_tolerance_steps :: u16
  direction_sign :: int

record lens_capabilities =
  supports_relative :: bool
  supports_absolute :: bool
  supports_home :: bool
  supports_pi :: bool
  supports_sync_relative :: bool
  supports_ircut :: bool
  supports_iris :: bool

record lens_profile =
  lp_model :: lens_model
  lp_name :: string
  lp_motor_config :: "motor_config option"
  lp_iris_config :: "iris_config option"
  lp_zoom :: lens_axis_profile
  lp_focus :: lens_axis_profile
  capabilities :: lens_capabilities
  ircut_day_level :: byte
  ircut_night_level :: byte
  ircut_min_interval_ms :: u16

definition g_lens_profile_af0832 :: lens_profile where
  "g_lens_profile_af0832 = \<lparr>lp_model = LENS_MODEL_AF0832, lp_name = ''AF0832D09'',
     lp_motor_config = Some g_default_motor_config, lp_iris_config = Some g_default_iris_config,
     lp_zoom = \<lparr>psum_units_per_step = 4, min_pps = 24, max_pps = 1000, default_pps = 800,
       nominal_travel_steps = 999, travel_tolerance_steps = 0, direction_sign = 1\<rparr>,
     lp_focus = \<lparr>psum_units_per_step = 4, min_pps = 24, max_pps = 1000, default_pps = 800,
       nominal_travel_steps = 359, travel_tolerance_steps = 0, direction_sign = 1\<rparr>,
     capabilities = \<lparr>supports_relative = True, supports_absolute = True, supports_home = True, supports_pi = True,
       supports_sync_relative = True, supports_ircut = True, supports_iris = True\<rparr>,
     ircut_day_level = 1, ircut_night_level = 0, ircut_min_interval_ms = 0\<rparr>"

definition s_fg2009_motor_config :: motor_config where
  "s_fg2009_motor_config = \<lparr>dt1 = 0x0A, pwm_mode = 30, pwm_res = 2, fz_test = 7, test_en2 = 1,
     dt2a = 3, phmodab = 0, ppwa = 200, ppwb = 200, leda = 0, microab = 0,
     dt2b = 3, phmodcd = 22, ppwc = 200, ppwd = 200, ledb = 0, microcd = 0\<rparr>"

definition g_lens_profile_fg2009 :: lens_profile where
  "g_lens_profile_fg2009 = \<lparr>lp_model = LENS_MODEL_FG2009, lp_name = ''FG20090AD4K-H33B78S'',
     lp_motor_config = Some s_fg2009_motor_config, lp_iris_config = None,
     lp_zoom = \<lparr>psum_units_per_step = 8, min_pps = 500, max_pps = 900, default_pps = 600,
       nominal_travel_steps = 2463, travel_tolerance_steps = 20, direction_sign = 1\<rparr>,
     lp_focus = \<lparr>psum_units_per_step = 8, min_pps = 500, max_pps = 900, default_pps = 600,
       nominal_travel_steps = 2453, travel_tolerance_steps = 20, direction_sign = - 1\<rparr>,
     capabilities = \<lparr>supports_relative = True, supports_absolute = False, supports_home = False, supports_pi = False,
       supports_sync_relative = True, supports_ircut = True, supports_iris = False\<rparr>,
     ircut_day_level = 0, ircut_night_level = 1, ircut_min_interval_ms = 2000\<rparr>"

record lens =
  s_active_profile :: lens_profile
  s_ircut_mode :: lens_ircut_mode
  s_ircut_level :: byte
  s_ircut_level_valid :: bool
  s_ircut_action_seen :: bool
  s_ircut_last_tick :: u32
  s_controller_mutex :: bool
  s_controller_initialized :: bool
  s_controller_configured :: bool
  s_last_config_mode :: lens_config_mode
  s_event_callback :: "nat option"
  \<comment> \<open>the driver, the filter's pin, the kernel\<close>
  drv :: ms
  ir_cut_pin :: bool
  mutex_held :: bool
  tick_freq :: u32
  ctrl_alloc :: "bool list"
  ctrl_lock :: "bool list"

subsection \<open>Profiles\<close>

fun lens_profile_get :: "lens_model \<Rightarrow> lens_profile option" where
  "lens_profile_get LENS_MODEL_AF0832 = Some g_lens_profile_af0832"
| "lens_profile_get LENS_MODEL_FG2009 = Some g_lens_profile_fg2009"
| "lens_profile_get LENS_MODEL_COUNT = None"

definition lens_profile_get_active :: "lens \<Rightarrow> lens_profile" where
  "lens_profile_get_active s = s_active_profile s"

definition lens_profile_get_active_model :: "lens \<Rightarrow> lens_model" where
  "lens_profile_get_active_model s = lp_model (s_active_profile s)"

definition lens_profile_select :: "lens_model \<Rightarrow> lens \<Rightarrow> sys_result \<times> lens" where
  "lens_profile_select model s =
     (case lens_profile_get model of
        None \<Rightarrow> (SYS_ERR_INVALID_ARG, s)
      | Some p \<Rightarrow> (SYS_OK, s\<lparr>s_active_profile := p\<rparr>))"

subsection \<open>Locking\<close>

definition lens_controller_bootstrap :: "lens \<Rightarrow> sys_result \<times> lens" where
  "lens_controller_bootstrap s =
     (if s_controller_mutex s then (SYS_OK, s)
      else case ctrl_alloc s of
          False # r \<Rightarrow> (SYS_ERR_NO_MEM, s\<lparr>ctrl_alloc := r\<rparr>)
        | r \<Rightarrow> (SYS_OK, s\<lparr>s_controller_mutex := True, ctrl_alloc := tl r\<rparr>))"

definition lens_controller_lock :: "lens \<Rightarrow> sys_result \<times> lens" where
  "lens_controller_lock s =
     (let (ret, s) = lens_controller_bootstrap s in
      if ret \<noteq> SYS_OK then (ret, s)
      else case ctrl_lock s of
          False # r \<Rightarrow> (SYS_ERR_MUTEX, s\<lparr>ctrl_lock := r\<rparr>)
        | r \<Rightarrow> (SYS_OK, s\<lparr>mutex_held := True, ctrl_lock := tl r\<rparr>))"

definition lens_controller_unlock :: "lens \<Rightarrow> lens" where
  "lens_controller_unlock s = (if s_controller_mutex s then s\<lparr>mutex_held := False\<rparr> else s)"

text \<open>The frame every public operation has, and a call into the driver.\<close>

definition locked :: "(lens \<Rightarrow> sys_result \<times> lens) \<Rightarrow> lens \<Rightarrow> sys_result \<times> lens" where
  "locked f s =
     (let (ret, s) = lens_controller_lock s in
      if ret \<noteq> SYS_OK then (ret, s)
      else let (ret, s) = f s in (ret, lens_controller_unlock s))"

definition call :: "(ms \<Rightarrow> sys_result \<times> ms) \<Rightarrow> lens \<Rightarrow> sys_result \<times> lens" where
  "call f s = (let (ret, d) = f (drv s) in (ret, s\<lparr>drv := d\<rparr>))"

definition if_supported ::
  "(lens_capabilities \<Rightarrow> bool) \<Rightarrow> (lens \<Rightarrow> sys_result \<times> lens) \<Rightarrow> lens \<Rightarrow> sys_result \<times> lens" where
  "if_supported cap f s =
     (if cap (capabilities (lens_profile_get_active s)) then f s else (SYS_ERR_NOT_SUPPORTED, s))"

definition lens_reset_runtime_state :: "lens \<Rightarrow> lens" where
  "lens_reset_runtime_state s = s\<lparr>s_ircut_mode := LENS_IRCUT_UNKNOWN, s_ircut_level := 0, s_ircut_level_valid := False,
     s_ircut_action_seen := False, s_ircut_last_tick := 0\<rparr>"

fun lens_axis_profile_of :: "lens_axis \<Rightarrow> lens \<Rightarrow> lens_axis_profile option" where
  "lens_axis_profile_of LENS_AXIS_ZOOM s = Some (lp_zoom (lens_profile_get_active s))"
| "lens_axis_profile_of LENS_AXIS_FOCUS s = Some (lp_focus (lens_profile_get_active s))"
| "lens_axis_profile_of LENS_AXIS_BAD s = None"

text \<open>The product is taken in 64 bits, where it cannot overflow.\<close>

definition lens_elapsed_ms :: "u32 \<Rightarrow> u32 \<Rightarrow> lens \<Rightarrow> u32" where
  "lens_elapsed_ms start now s =
     (if tick_freq s = 0 then 0 else of_nat ((unat (now - start) * 1000) div unat (tick_freq s)))"

subsection \<open>Life cycle\<close>

definition configure_motors :: "lens \<Rightarrow> sys_result \<times> lens" where
  "configure_motors s =
     (case lp_motor_config (lens_profile_get_active s) of
        None \<Rightarrow> (SYS_ERR_INVALID_STATE, s)
      | Some c \<Rightarrow> call (ms41908m_motor_config (Some c)) s)"

definition lens_controller_configure_locked :: "lens_config_mode \<Rightarrow> lens \<Rightarrow> sys_result \<times> lens" where
  "lens_controller_configure_locked mode s =
     (let p = lens_profile_get_active s in
      if mode = LENS_CONFIG_BAD then (SYS_ERR_OUT_OF_RANGE, s)
      else if mode = LENS_CONFIG_ALL \<or> mode = LENS_CONFIG_IRIS then
        if \<not> supports_iris (capabilities p) \<or> lp_iris_config p = None then
          if mode = LENS_CONFIG_IRIS then (SYS_ERR_NOT_SUPPORTED, s) else configure_motors s
        else
          let (ret, s) = call (ms41908m_iris_config (lp_iris_config p)) s in
          if ret \<noteq> SYS_OK \<or> mode = LENS_CONFIG_IRIS then (ret, s) else configure_motors s
      else configure_motors s)"

definition lens_controller_init :: "lens \<Rightarrow> sys_result \<times> lens" where
  "lens_controller_init = locked (\<lambda>s.
     if s_controller_initialized s then (SYS_ERR_INVALID_STATE, s)
     else
       let s = lens_reset_runtime_state s;
           (ret, s) = call ms41908m_init s
       in
       if ret = SYS_OK
       then (ret, s\<lparr>s_controller_initialized := True, s_controller_configured := False,
                    drv := ms41908m_set_event_callback (s_event_callback s) (drv s)\<rparr>)
       else (ret, s))"

definition lens_controller_deinit :: "lens \<Rightarrow> lens" where
  "lens_controller_deinit s =
     (let (ret, s) = lens_controller_lock s in
      if ret \<noteq> SYS_OK then s
      else
        let s = (if s_controller_initialized s then s\<lparr>drv := ms41908m_deinit (drv s)\<rparr> else s);
            s = s\<lparr>s_controller_initialized := False, s_controller_configured := False\<rparr>
        in lens_controller_unlock (lens_reset_runtime_state s))"

definition lens_controller_configure :: "lens_config_mode \<Rightarrow> lens \<Rightarrow> sys_result \<times> lens" where
  "lens_controller_configure mode = locked (\<lambda>s.
     if \<not> s_controller_initialized s then (SYS_ERR_INVALID_STATE, s)
     else
       let (ret, s) = lens_controller_configure_locked mode s in
       (ret, if ret = SYS_OK then s\<lparr>s_controller_configured := True, s_last_config_mode := mode\<rparr> else s))"

definition lens_controller_set_event_callback :: "nat option \<Rightarrow> lens \<Rightarrow> lens" where
  "lens_controller_set_event_callback cb s =
     (let (ret, s) = lens_controller_lock s in
      if ret \<noteq> SYS_OK then s
      else
        let s = s\<lparr>s_event_callback := cb\<rparr>;
            s = (if s_controller_initialized s then s\<lparr>drv := ms41908m_set_event_callback cb (drv s)\<rparr> else s)
        in lens_controller_unlock s)"

text \<open>Bringing the driver up for the active profile: once for the new model and once more,
  when that fails, for the old one.\<close>

definition bring_up :: "bool \<Rightarrow> lens_config_mode \<Rightarrow> lens \<Rightarrow> sys_result \<times> lens" where
  "bring_up was_configured mode s =
     (let (ret, s) = call ms41908m_init s in
      if ret \<noteq> SYS_OK then (ret, s)
      else
        let s = s\<lparr>s_controller_initialized := True,
                  drv := ms41908m_set_event_callback (s_event_callback s) (drv s)\<rparr>
        in
        if was_configured then
          let (ret, s) = lens_controller_configure_locked mode s in
          (ret, if ret = SYS_OK then s\<lparr>s_controller_configured := True, s_last_config_mode := mode\<rparr> else s)
        else (ret, s))"

definition lens_busy :: "lens \<Rightarrow> bool" where
  "lens_busy s =
     (ms41908m_get_zoom_state (drv s) = STATE_RUNNING \<or> ms41908m_get_zoom_state (drv s) = STATE_RESET_ZERO
      \<or> ms41908m_get_focus_state (drv s) = STATE_RUNNING \<or> ms41908m_get_focus_state (drv s) = STATE_RESET_ZERO
      \<or> ms41908m_iris_get_state (drv s) = STATE_RUNNING)"

definition select_profile_locked :: "lens_model \<Rightarrow> lens \<Rightarrow> sys_result \<times> lens" where
  "select_profile_locked model s =
     (if lens_profile_get_active_model s = model then (SYS_OK, s)
      else if \<not> s_controller_initialized s then
        let (ret, s) = lens_profile_select model s in (ret, lens_reset_runtime_state s)
      else if lens_busy s then (SYS_ERR_BUSY, s)
      else
        let old_model = lens_profile_get_active_model s;
            old_config_mode = s_last_config_mode s;
            was_configured = s_controller_configured s;
            s = s\<lparr>drv := ms41908m_deinit (drv s), s_controller_initialized := False, s_controller_configured := False\<rparr>;
            (ret, s) = lens_profile_select model s;
            (ret, s) = (if ret = SYS_OK then bring_up was_configured old_config_mode s else (ret, s))
        in
        if ret = SYS_OK then (ret, lens_reset_runtime_state s)
        else
          let s = (if s_controller_initialized s
                   then s\<lparr>drv := ms41908m_deinit (drv s), s_controller_initialized := False\<rparr> else s);
              s = snd (lens_profile_select old_model s);
              s = snd (bring_up was_configured old_config_mode s)
          in (ret, lens_reset_runtime_state s))"

definition lens_controller_select_profile :: "lens_model \<Rightarrow> lens \<Rightarrow> sys_result \<times> lens" where
  "lens_controller_select_profile model s =
     (if lens_profile_get model = None then (SYS_ERR_INVALID_ARG, s) else locked (select_profile_locked model) s)"

definition lens_get_active_profile :: "lens \<Rightarrow> lens_profile" where
  "lens_get_active_profile s = lens_profile_get_active s"

definition lens_get_capabilities :: "lens \<Rightarrow> lens_capabilities" where
  "lens_get_capabilities s = capabilities (lens_profile_get_active s)"

subsection \<open>Relative moves\<close>

text \<open>\<open>outs\<close> says that both result pointers are given.\<close>

definition lens_convert_relative ::
  "lens_axis \<Rightarrow> u16 \<Rightarrow> int \<Rightarrow> bool \<Rightarrow> lens \<Rightarrow> sys_result + u16 \<times> int" where
  "lens_convert_relative axis physical_pps physical_steps outs s =
     (case lens_axis_profile_of axis s of
        None \<Rightarrow> Inl SYS_ERR_INVALID_ARG
      | Some a \<Rightarrow>
          if \<not> outs then Inl SYS_ERR_INVALID_ARG
          else if \<not> supports_relative (capabilities (lens_profile_get_active s)) then Inl SYS_ERR_NOT_SUPPORTED
          else if physical_steps = 0 then Inr (0, 0)
          else if physical_pps < min_pps a \<or> max_pps a < physical_pps then Inl SYS_ERR_OUT_OF_RANGE
          else
            let converted_pps = unat physical_pps * unat (psum_units_per_step a);
                converted_steps = physical_steps * uint (psum_units_per_step a) * direction_sign a
            in
            if 65535 < converted_pps \<or> converted_pps < RAW_PPS_MIN \<or> RAW_PPS_MAX < converted_pps
               \<or> RAW_PSUM_MAX < converted_steps \<or> converted_steps < - RAW_PSUM_MAX
               \<or> 2147483647 < converted_steps \<or> converted_steps < - 2147483648
            then Inl SYS_ERR_OUT_OF_RANGE
            else Inr (of_nat converted_pps, converted_steps))"

definition move_relative ::
  "lens_axis \<Rightarrow> (u16 \<Rightarrow> int \<Rightarrow> ms \<Rightarrow> sys_result \<times> ms) \<Rightarrow> u16 \<Rightarrow> int \<Rightarrow> lens \<Rightarrow> sys_result \<times> lens" where
  "move_relative axis run physical_pps physical_steps = locked (\<lambda>s.
     case lens_convert_relative axis physical_pps physical_steps True s of
       Inl ret \<Rightarrow> (ret, s)
     | Inr (raw_pps, raw_steps) \<Rightarrow> if physical_steps \<noteq> 0 then call (run raw_pps raw_steps) s else (SYS_OK, s))"

definition lens_zoom_move_relative :: "u16 \<Rightarrow> int \<Rightarrow> lens \<Rightarrow> sys_result \<times> lens" where
  "lens_zoom_move_relative = move_relative LENS_AXIS_ZOOM ms41908m_zoom_run"

definition lens_focus_move_relative :: "u16 \<Rightarrow> int \<Rightarrow> lens \<Rightarrow> sys_result \<times> lens" where
  "lens_focus_move_relative = move_relative LENS_AXIS_FOCUS ms41908m_focus_run"

definition lens_dual_move_relative :: "u16 \<Rightarrow> int \<Rightarrow> u16 \<Rightarrow> int \<Rightarrow> lens \<Rightarrow> sys_result \<times> lens" where
  "lens_dual_move_relative zoom_pps zoom_steps focus_pps focus_steps = locked (if_supported supports_sync_relative (\<lambda>s.
     case lens_convert_relative LENS_AXIS_ZOOM zoom_pps zoom_steps True s of
       Inl ret \<Rightarrow> (ret, s)
     | Inr (zp, zn) \<Rightarrow>
         (case lens_convert_relative LENS_AXIS_FOCUS focus_pps focus_steps True s of
            Inl ret \<Rightarrow> (ret, s)
          | Inr (fp, fn) \<Rightarrow>
              if zoom_steps = 0 \<and> focus_steps = 0 then (SYS_OK, s) else call (ms41908m_zf_sync_run zp zn fp fn) s)))"

subsection \<open>Calls passed on to the driver\<close>

definition lens_zoom_run_raw :: "u16 \<Rightarrow> int \<Rightarrow> lens \<Rightarrow> sys_result \<times> lens" where
  "lens_zoom_run_raw raw_pps n = locked (if_supported supports_relative (call (ms41908m_zoom_run raw_pps n)))"

definition lens_focus_run_raw :: "u16 \<Rightarrow> int \<Rightarrow> lens \<Rightarrow> sys_result \<times> lens" where
  "lens_focus_run_raw raw_pps n = locked (if_supported supports_relative (call (ms41908m_focus_run raw_pps n)))"

definition lens_dual_run_raw :: "u16 \<Rightarrow> int \<Rightarrow> u16 \<Rightarrow> int \<Rightarrow> lens \<Rightarrow> sys_result \<times> lens" where
  "lens_dual_run_raw zp zn fp fn = locked (if_supported supports_sync_relative (call (ms41908m_zf_sync_run zp zn fp fn)))"

definition lens_zoom_move_absolute :: "u16 \<Rightarrow> int \<Rightarrow> lens \<Rightarrow> sys_result \<times> lens" where
  "lens_zoom_move_absolute raw_pps p = locked (if_supported supports_absolute (call (ms41908m_zoom_run_to_position raw_pps p)))"

definition lens_focus_move_absolute :: "u16 \<Rightarrow> int \<Rightarrow> lens \<Rightarrow> sys_result \<times> lens" where
  "lens_focus_move_absolute raw_pps p = locked (if_supported supports_absolute (call (ms41908m_focus_run_to_position raw_pps p)))"

definition lens_zoom_home :: "lens \<Rightarrow> sys_result \<times> lens" where
  "lens_zoom_home = locked (if_supported supports_home (call ms41908m_zoom_reset_zero))"

definition lens_focus_home :: "lens \<Rightarrow> sys_result \<times> lens" where
  "lens_focus_home = locked (if_supported supports_home (call ms41908m_focus_reset_zero))"

definition lens_zoom_set_position_limit :: "int \<Rightarrow> int \<Rightarrow> lens \<Rightarrow> sys_result \<times> lens" where
  "lens_zoom_set_position_limit a b = locked (if_supported supports_absolute (call (ms41908m_zoom_set_position_limit a b)))"

definition lens_focus_set_position_limit :: "int \<Rightarrow> int \<Rightarrow> lens \<Rightarrow> sys_result \<times> lens" where
  "lens_focus_set_position_limit a b = locked (if_supported supports_absolute (call (ms41908m_focus_set_position_limit a b)))"

definition lens_zoom_stop :: "lens \<Rightarrow> sys_result \<times> lens" where
  "lens_zoom_stop = locked (call ms41908m_zoom_stop)"

definition lens_focus_stop :: "lens \<Rightarrow> sys_result \<times> lens" where
  "lens_focus_stop = locked (call ms41908m_focus_stop)"

text \<open>The waits do not take the controller's mutex.\<close>

definition lens_zoom_wait :: "(ms \<Rightarrow> ms) \<Rightarrow> lens \<Rightarrow> sys_result \<times> lens" where
  "lens_zoom_wait during = call (ms41908m_zoom_wait_for_completion during)"

definition lens_focus_wait :: "(ms \<Rightarrow> ms) \<Rightarrow> lens \<Rightarrow> sys_result \<times> lens" where
  "lens_focus_wait during = call (ms41908m_focus_wait_for_completion during)"

definition lens_dual_wait :: "(ms \<Rightarrow> ms) \<Rightarrow> lens \<Rightarrow> sys_result \<times> lens" where
  "lens_dual_wait during = call (ms41908m_zf_sync_wait_for_completion during)"

definition lens_zoom_wait_home :: "(ms \<Rightarrow> ms) \<Rightarrow> lens \<Rightarrow> sys_result \<times> lens" where
  "lens_zoom_wait_home during = if_supported supports_home (call (ms41908m_zoom_wait_reset_done during))"

definition lens_focus_wait_home :: "(ms \<Rightarrow> ms) \<Rightarrow> lens \<Rightarrow> sys_result \<times> lens" where
  "lens_focus_wait_home during = if_supported supports_home (call (ms41908m_focus_wait_reset_done during))"

definition lens_get_iris_state :: "lens \<Rightarrow> ms_state" where
  "lens_get_iris_state s =
     (if supports_iris (capabilities (lens_profile_get_active s)) then ms41908m_iris_get_state (drv s) else STATE_NO_CFG)"

definition lens_get_zoom_state :: "lens \<Rightarrow> ms_state" where
  "lens_get_zoom_state s = ms41908m_get_zoom_state (drv s)"

definition lens_get_focus_state :: "lens \<Rightarrow> ms_state" where
  "lens_get_focus_state s = ms41908m_get_focus_state (drv s)"

definition lens_get_zoom_position :: "lens \<Rightarrow> int" where
  "lens_get_zoom_position s = ms41908m_get_zoom_position (drv s)"

definition lens_get_focus_position :: "lens \<Rightarrow> int" where
  "lens_get_focus_position s = ms41908m_get_focus_position (drv s)"

definition lens_zoom_is_homed :: "lens \<Rightarrow> bool" where
  "lens_zoom_is_homed s = (supports_home (capabilities (lens_profile_get_active s)) \<and> ms41908m_zoom_is_reset_zero (drv s))"

definition lens_focus_is_homed :: "lens \<Rightarrow> bool" where
  "lens_focus_is_homed s = (supports_home (capabilities (lens_profile_get_active s)) \<and> ms41908m_focus_is_reset_zero (drv s))"

definition lens_read_pi_zoom :: "lens \<Rightarrow> sys_result + int" where
  "lens_read_pi_zoom s =
     (if supports_pi (capabilities (lens_profile_get_active s)) then Inr (ms41908m_read_pi_zoom (drv s))
      else Inl SYS_ERR_NOT_SUPPORTED)"

definition lens_read_pi_focus :: "lens \<Rightarrow> sys_result + int" where
  "lens_read_pi_focus s =
     (if supports_pi (capabilities (lens_profile_get_active s)) then Inr (ms41908m_read_pi_focus (drv s))
      else Inl SYS_ERR_NOT_SUPPORTED)"

definition lens_iris_run :: "lens \<Rightarrow> sys_result \<times> lens" where
  "lens_iris_run = locked (if_supported supports_iris (call ms41908m_iris_run))"

definition lens_iris_stop :: "lens \<Rightarrow> sys_result \<times> lens" where
  "lens_iris_stop = locked (if_supported supports_iris (call ms41908m_iris_stop))"

definition lens_iris_update_target :: "u16 \<Rightarrow> lens \<Rightarrow> sys_result \<times> lens" where
  "lens_iris_update_target target = locked (if_supported supports_iris (call (ms41908m_iris_update_target target)))"

text \<open>The value is read through a pointer, which may be missing.\<close>

definition lens_iris_read_adc :: "bool \<Rightarrow> lens \<Rightarrow> (sys_result \<times> u16 option) \<times> lens" where
  "lens_iris_read_adc has_adc s =
     (if \<not> has_adc then ((SYS_ERR_INVALID_ARG, None), s)
      else
        let (ret, s) = lens_controller_lock s in
        if ret \<noteq> SYS_OK then ((ret, None), s)
        else if \<not> supports_iris (capabilities (lens_profile_get_active s))
        then ((SYS_ERR_NOT_SUPPORTED, None), lens_controller_unlock s)
        else
          let (adc, d) = ms41908m_iris_read_adc (drv s) in
          ((SYS_OK, Some adc), lens_controller_unlock (s\<lparr>drv := d\<rparr>)))"

subsection \<open>The IR-cut filter\<close>

definition bsp_ctrl_set_ir_cut :: "byte \<Rightarrow> lens \<Rightarrow> sys_result \<times> lens" where
  "bsp_ctrl_set_ir_cut enable s = (SYS_OK, s\<lparr>ir_cut_pin := (enable \<noteq> 0)\<rparr>)"

definition bsp_ctrl_get_ir_cut :: "lens \<Rightarrow> byte" where
  "bsp_ctrl_get_ir_cut s = (if ir_cut_pin s then 1 else 0)"

definition lens_ircut_set_raw_level_locked :: "byte \<Rightarrow> lens \<Rightarrow> sys_result \<times> lens" where
  "lens_ircut_set_raw_level_locked lvl s =
     (let p = lens_profile_get_active s; level = (if lvl \<noteq> 0 then 1 else 0) in
      if \<not> supports_ircut (capabilities p) then (SYS_ERR_NOT_SUPPORTED, s)
      else if s_ircut_level_valid s \<and> s_ircut_level s = level then (SYS_OK, s)
      else
        let now = ms_tick (drv s) in
        if s_ircut_action_seen s \<and> 0 < ircut_min_interval_ms p
           \<and> lens_elapsed_ms (s_ircut_last_tick s) now s < ucast (ircut_min_interval_ms p) then (SYS_ERR_BUSY, s)
        else
          let (ret, s) = bsp_ctrl_set_ir_cut level s in
          if ret \<noteq> SYS_OK then (SYS_ERR_HAL, s)
          else (SYS_OK, s\<lparr>s_ircut_level := level, s_ircut_level_valid := True, s_ircut_action_seen := True,
                          s_ircut_last_tick := now,
                          s_ircut_mode := (if level = ircut_day_level p then LENS_IRCUT_DAY
                                           else if level = ircut_night_level p then LENS_IRCUT_NIGHT
                                           else LENS_IRCUT_UNKNOWN)\<rparr>))"

definition lens_ircut_set_raw_level :: "byte \<Rightarrow> lens \<Rightarrow> sys_result \<times> lens" where
  "lens_ircut_set_raw_level level = locked (lens_ircut_set_raw_level_locked level)"

definition lens_ircut_get_raw_level :: "lens \<Rightarrow> byte" where
  "lens_ircut_get_raw_level = bsp_ctrl_get_ir_cut"

definition lens_ircut_set_day :: "lens \<Rightarrow> sys_result \<times> lens" where
  "lens_ircut_set_day = locked (\<lambda>s. lens_ircut_set_raw_level_locked (ircut_day_level (lens_profile_get_active s)) s)"

definition lens_ircut_set_night :: "lens \<Rightarrow> sys_result \<times> lens" where
  "lens_ircut_set_night = locked (\<lambda>s. lens_ircut_set_raw_level_locked (ircut_night_level (lens_profile_get_active s)) s)"

definition lens_ircut_get_mode :: "lens \<Rightarrow> lens_ircut_mode" where
  "lens_ircut_get_mode s = s_ircut_mode s"

end
