(* ===== verification/Ms41908m_Inv.thy ===== *)
theory Ms41908m_Inv
  imports Ms41908m
begin

text \<open>
  The invariant of the lens motor driver: for a motor that has been homed, the
  position the driver keeps is the position of the motor relative to the point
  where it was homed, up to the one batch that is under way.  Each operation of
  the driver keeps it while the SPI bus is healthy.  The books of a motor are its
  \<open>axis\<close> record, its step register, the batch the chip executes and where the motor
  stands; most operations leave them alone.
\<close>

subsection \<open>Step registers\<close>

lemma motor_all: "(\<forall>m. P m) \<longleftrightarrow> P FOCUS \<and> P ZOOM"
  by (metis motor.exhaust)

lemmas step_bits = STEP_CCWCW_BIT_def STEP_ENDIS_BIT_def STEP_LED_BIT_def STEP_MICRO_MASK_def

lemma addr_simps [simp]:
  "step_addr m AND 0x3F = step_addr m" "pps_addr m AND 0x3F = pps_addr m"
  "step_addr m = step_addr m' \<longleftrightarrow> m = m'" "step_addr m \<noteq> pps_addr m'" "pps_addr m \<noteq> step_addr m'"
  by (cases m; cases m'; simp add: REG_FOCUS_STEP_def REG_FOCUS_PPS_def REG_ZOOM_STEP_def REG_ZOOM_PPS_def)+

lemma and_ff00: "(r AND 0xFF00) AND (0xFF :: u16) = 0" "(r AND 0xFF00) AND (0x400 :: u16) = r AND 0x400"
  "(r AND 0xFF00) AND (0x100 :: u16) = r AND 0x100"
  by (simp_all add: and.assoc)

lemma reg_batch_stopped [simp]: "reg_batch (r AND 0xFF00) = None"
  by (simp add: reg_batch_def and_ff00)

lemma low_byte: "(p :: u16) AND 0xFF = take_bit 8 p"
  by (simp add: take_bit_eq_mask mask_eq_exp_minus_1)

lemma uint_low: "uint (p :: u16) \<le> 255 \<Longrightarrow> uint (p AND 0xFF) = uint p"
  by (simp only: low_byte unsigned_take_bit_eq) (simp add: take_bit_int_eq_self)

lemma and_orD: "((x :: u16) OR y) AND z = (x AND z) OR (y AND z)"
  by (rule bit.conj_disj_distrib2)

lemma reg_batch_step:
  assumes "1 \<le> uint p" "uint p \<le> 255"
  shows "reg_batch (step_reg_of old p dir) = Some (if dir then uint p else - uint p)"
proof -
  have a: "(p AND 0xFF) AND 0xFF = p AND (0xFF :: u16)" "(p AND 0xFF) AND 0x400 = (0 :: u16)"
    "(p AND 0xFF) AND 0x100 = (0 :: u16)"
    by (simp_all add: and.assoc)
  have b: "(old AND 0x3800) AND 0xFF = (0 :: u16)" "(old AND 0x3800) AND 0x400 = (0 :: u16)"
    "(old AND 0x3800) AND 0x100 = (0 :: u16)"
    by (simp_all add: and.assoc)
  let ?r = "step_reg_of old p dir"
  have "?r AND 0xFF = p AND 0xFF" "?r AND 0x400 = 0x400" "?r AND 0x100 = (if dir then 0 else 0x100)"
    by (simp_all add: step_reg_of_def step_bits Let_def and_orD a b)
  then show ?thesis using assms by (simp add: reg_batch_def step_bits Let_def uint_low)
qed

lemma reg_batch_reload:
  assumes "reg_batch r = Some d" "1 \<le> n" "n \<le> 255"
  shows "reg_batch ((r AND 0xFF00) OR of_int n) = Some (if 0 < d then n else - n)"
proof -
  let ?w = "of_int n :: u16"
  have u: "uint ?w = n" using assms(2,3) by (simp add: unsigned_of_int take_bit_eq_mod)
  have w: "?w = ?w AND 0xFF"
    by (rule word_uint_eqI) (use u assms(3) uint_low [of ?w] in simp)
  have a: "?w AND 0x400 = 0" "?w AND 0x100 = 0"
    by (subst w, simp add: and.assoc)+
  have "((r AND 0xFF00) OR ?w) AND 0xFF = ?w AND 0xFF" "((r AND 0xFF00) OR ?w) AND 0x400 = r AND 0x400"
    "((r AND 0xFF00) OR ?w) AND 0x100 = r AND 0x100"
    by (simp_all only: and_orD and_ff00 a) simp_all
  moreover have "uint (?w AND 0xFF) = n" using u assms(3) by (simp add: uint_low)
  moreover have "uint (r AND 0xFF) \<ge> 0" by simp
  ultimately show ?thesis using assms
    by (auto simp: reg_batch_def step_bits Let_def order_less_le split: if_splits)
qed

lemma start_psum_range:
  assumes "\<not> raw_psum_bad n"
  shows "1 \<le> uint (start_psum pps n)" "uint (start_psum pps n) \<le> 255" "uint (start_psum pps n) \<le> \<bar>n\<bar>"
proof -
  define q where "q = (of_nat (calc_psum_from_intct (start_intct pps)) :: u16)"
  define p where "p = (if 255 < q then 255 else if q < 1 then 1 else q)"
  have p: "1 \<le> uint p" "uint p \<le> 255" by (auto simp: p_def word_less_def not_less)
  have n: "1 \<le> \<bar>n\<bar>" "\<bar>n\<bar> < uint p \<Longrightarrow> uint (of_int \<bar>n\<bar> :: u16) = \<bar>n\<bar>"
    using assms p by (auto simp: raw_psum_bad_def RAW_PSUM_MIN_def unsigned_of_int take_bit_int_eq_self)
  have e: "start_psum pps n = (if \<bar>n\<bar> < uint p then of_int \<bar>n\<bar> else p)"
    by (simp add: start_psum_def p_def q_def Let_def)
  show "1 \<le> uint (start_psum pps n)" "uint (start_psum pps n) \<le> 255" "uint (start_psum pps n) \<le> \<bar>n\<bar>"
    using p n by (auto simp: e)
qed

lemma sync_psum_range:
  assumes "\<not> raw_psum_bad n"
  shows "1 \<le> uint (sync_psum pps n)" "uint (sync_psum pps n) \<le> 255" "uint (sync_psum pps n) \<le> \<bar>n\<bar>"
proof -
  define q where "q = (of_nat (calc_psum_from_intct (of_nat (calc_intct_from_pps pps))) :: u16)"
  define p where "p = (if \<bar>n\<bar> < uint q then of_int \<bar>n\<bar> else q)"
  have n: "1 \<le> \<bar>n\<bar>" using assms by (auto simp: raw_psum_bad_def RAW_PSUM_MIN_def)
  have "uint q < 65536" using uint_bounded [of q] by simp
  then have p: "uint p \<le> \<bar>n\<bar>" by (auto simp: p_def unsigned_of_int take_bit_int_eq_self)
  have e: "sync_psum pps n = (let p = (if 255 < p then 255 else p) in if p < 1 then 1 else p)"
    by (simp add: sync_psum_def p_def q_def Let_def)
  show "1 \<le> uint (sync_psum pps n)" "uint (sync_psum pps n) \<le> 255" "uint (sync_psum pps n) \<le> \<bar>n\<bar>"
    using p n by (auto simp: e Let_def word_less_def not_less)
qed

subsection \<open>What a motor's fields say\<close>

definition signed_load :: "axis \<Rightarrow> int" where
  "signed_load a = (if direction (ax_run_config a) then load_psum (ax_run_config a) else - load_psum (ax_run_config a))"

text \<open>A motor in motion: the register holds the batch the driver believes in.\<close>

definition run_ok :: "axis \<Rightarrow> u16 \<Rightarrow> bool" where
  "run_ok a r =
     (let c = ax_run_config a in
      is_valid c \<and> 1 \<le> load_psum c \<and> load_psum c \<le> 255 \<and> 0 \<le> unload_psum c
      \<and> reg_batch r = Some (signed_load a))"

text \<open>The driver's view of a homed motor against the chip.  \<open>h\<close> is where the motor
  stood when it was homed, \<open>p\<close> says that a pulse of this motor is not yet handled,
  \<open>b\<close> is the batch the chip executes and \<open>x\<close> is where the motor stands.\<close>

definition homed_ok :: "int \<Rightarrow> bool \<Rightarrow> axis \<Rightarrow> u16 \<Rightarrow> int option \<Rightarrow> int \<Rightarrow> bool" where
  "homed_ok h p a r b x =
     (let exact = (b = None \<and> \<not> p \<and> ax_position a = s32 (x - h)) in
      case ax_state a of
        STATE_STOPPED \<Rightarrow> exact \<and> reg_batch r = None
      | STATE_RUNNING \<Rightarrow> run_ok a r \<and>
          (if batch_pending a
           then (b = Some (signed_load a) \<and> \<not> p \<and> ax_position a = s32 (x - h))
              \<or> (b = None \<and> p \<and> ax_position a = s32 (x - h - signed_load a))
           else exact)
      | _ \<Rightarrow> False)"

definition axis_ok :: "int \<Rightarrow> bool \<Rightarrow> axis \<Rightarrow> u16 \<Rightarrow> int option \<Rightarrow> int \<Rightarrow> bool" where
  "axis_ok h p a r b x =
     ((batch_pending a \<longrightarrow> ax_state a = STATE_RUNNING) \<and> (ax_is_r_zero a \<longrightarrow> homed_ok h p a r b x))"

definition resetting :: "ms \<Rightarrow> motor \<Rightarrow> bool" where
  "resetting s m = (rz_phase (s_rst s) \<noteq> RZ_IDLE \<and> rz_type (s_rst s) = m)"

text \<open>The motors take turns at reset zero: while one is being reset, or waits for it, the
  other does not move.\<close>

definition reset_ok :: "ms \<Rightarrow> bool" where
  "reset_ok s = (\<forall>m.
     (resetting s m \<longrightarrow> ax_state (axes s (other m)) \<noteq> STATE_RUNNING \<and> ax_state (axes s m) \<noteq> STATE_NO_CFG
        \<and> \<not> ax_is_r_zero (axes s m)) \<and>
     (rz_phase (s_rst s) = RZ_IDLE \<and> ax_state (axes s m) = STATE_RESET_ZERO \<longrightarrow>
        ax_state (axes s (other m)) \<noteq> STATE_RUNNING))"

definition ms_ok :: "(motor \<Rightarrow> int) \<Rightarrow> motor set \<Rightarrow> ms \<Rightarrow> bool" where
  "ms_ok h P s =
     (env_spi s = [] \<and> reset_ok s \<and>
      (\<forall>m. axis_ok (h m) (m \<in> P) (axes s m) (regs s (step_addr m)) (chip_batch s m) (lens_at s m)) \<and>
      (\<forall>m. ax_is_r_zero (axes s m) \<longrightarrow> s_event_group s \<noteq> None))"

subsection \<open>Operations on a healthy bus\<close>

lemma spi_healthy:
  assumes "env_spi s = []"
  shows "ms41908m_port_write addr v s = (SYS_OK, s\<lparr>regs := (regs s)(addr AND 0x3F := v)\<rparr>)"
    "ms41908m_port_read addr old s = (SYS_OK, regs s (addr AND 0x3F), s)"
proof -
  have "s\<lparr>env_spi := []\<rparr> = s" using assms by (cases s) simp
  then have "spi_next s = (True, s)" using assms by (simp add: spi_next_def take_env_def)
  then show "ms41908m_port_write addr v s = (SYS_OK, s\<lparr>regs := (regs s)(addr AND 0x3F := v)\<rparr>)"
    "ms41908m_port_read addr old s = (SYS_OK, regs s (addr AND 0x3F), s)"
    by (simp_all add: ms41908m_port_write_def ms41908m_port_read_def)
qed

lemma upd_axis_simps [simp]:
  "axes (upd_axis m f s) = (axes s)(m := f (axes s m))"
  "regs (upd_axis m f s) = regs s" "chip_batch (upd_axis m f s) = chip_batch s" "lens_at (upd_axis m f s) = lens_at s"
  "env_spi (upd_axis m f s) = env_spi s" "s_rst (upd_axis m f s) = s_rst s"
  "s_event_group (upd_axis m f s) = s_event_group s" "ms_tick (upd_axis m f s) = ms_tick s"
  "env_cut (upd_axis m f s) = env_cut s" "is_initialized (upd_axis m f s) = is_initialized s"
  "s_mutex (upd_axis m f s) = s_mutex s" "s_app_notify (upd_axis m f s) = s_app_notify s"
  "env_lock (upd_axis m f s) = env_lock s" "rst_last_result (upd_axis m f s) = rst_last_result s"
  "pi_level (upd_axis m f s) = pi_level s" "pi_input (upd_axis m f s) = pi_input s"
  "s_app_event_cb (upd_axis m f s) = s_app_event_cb s" "app_log (upd_axis m f s) = app_log s"
  by (simp_all add: upd_axis_def)

definition fire :: "ms \<Rightarrow> ms" where
  "fire s = vd_pulse_fz (mark_batch ZOOM (mark_batch FOCUS s))"

definition marked :: "u32 \<Rightarrow> axis \<Rightarrow> axis" where
  "marked t a = (if ax_state a = STATE_RUNNING
     then a\<lparr>ax_batch_active := True, ax_pls_rcvd := False, ax_start_tick := t\<rparr> else a)"

lemma mark_batch_eq: "mark_batch m s = s\<lparr>axes := (axes s)(m := marked (ms_tick s) (axes s m))\<rparr>"
  by (simp add: mark_batch_def marked_def upd_axis_def)

lemma mark_both: "mark_batch ZOOM (mark_batch FOCUS s) = s\<lparr>axes := (\<lambda>m. marked (ms_tick s) (axes s m))\<rparr>"
  "mark_batch FOCUS (mark_batch ZOOM s) = s\<lparr>axes := (\<lambda>m. marked (ms_tick s) (axes s m))\<rparr>"
proof -
  have f: "f(FOCUS := g (f FOCUS), ZOOM := g (f ZOOM)) = (\<lambda>m. g (f m))"
    "f(ZOOM := g (f ZOOM), FOCUS := g (f FOCUS)) = (\<lambda>m. g (f m))" for f :: "motor \<Rightarrow> axis" and g
    by (rule ext, case_tac m, simp_all)+
  show "mark_batch ZOOM (mark_batch FOCUS s) = s\<lparr>axes := (\<lambda>m. marked (ms_tick s) (axes s m))\<rparr>"
    "mark_batch FOCUS (mark_batch ZOOM s) = s\<lparr>axes := (\<lambda>m. marked (ms_tick s) (axes s m))\<rparr>"
    by (simp_all add: mark_batch_eq f)
qed

lemma vd_motor_simps [simp]:
  "axes (vd_motor m s) = axes s" "regs (vd_motor m s) = regs s" "s_rst (vd_motor m s) = s_rst s"
  "env_spi (vd_motor m s) = env_spi s" "s_event_group (vd_motor m s) = s_event_group s"
  "ms_tick (vd_motor m s) = ms_tick s" "s_app_notify (vd_motor m s) = s_app_notify s"
  "is_initialized (vd_motor m s) = is_initialized s" "s_mutex (vd_motor m s) = s_mutex s"
  "pi_level (vd_motor m s) = pi_level s" "pi_input (vd_motor m s) = pi_input s"
  "env_lock (vd_motor m s) = env_lock s" "rst_last_result (vd_motor m s) = rst_last_result s"
  "s_app_event_cb (vd_motor m s) = s_app_event_cb s" "app_log (vd_motor m s) = app_log s"
  "chip_batch (vd_motor m s) = (chip_batch s)(m := reg_batch (regs s (step_addr m)))"
  by (simp_all add: vd_motor_def Let_def split: option.split list.split)

lemma vd_motor_lens:
  "m \<noteq> m' \<or> chip_batch s m = None \<Longrightarrow> lens_at (vd_motor m s) m' = lens_at s m'"
  by (auto simp: vd_motor_def Let_def split: option.split list.split)

lemma fire_simps [simp]:
  "axes (fire s) = (\<lambda>m. marked (ms_tick s) (axes s m))" "regs (fire s) = regs s" "s_rst (fire s) = s_rst s"
  "env_spi (fire s) = env_spi s" "s_event_group (fire s) = s_event_group s" "ms_tick (fire s) = ms_tick s"
  "s_app_notify (fire s) = s_app_notify s" "is_initialized (fire s) = is_initialized s"
  "s_mutex (fire s) = s_mutex s" "pi_level (fire s) = pi_level s" "pi_input (fire s) = pi_input s"
  "env_lock (fire s) = env_lock s" "rst_last_result (fire s) = rst_last_result s"
  "s_app_event_cb (fire s) = s_app_event_cb s" "app_log (fire s) = app_log s"
  "chip_batch (fire s) m = reg_batch (regs s (step_addr m))"
  by (cases m; simp add: fire_def vd_pulse_fz_def mark_both)+

lemma fire_lens: "chip_batch s m = None \<Longrightarrow> lens_at (fire s) m = lens_at s m"
  by (cases m) (simp_all add: fire_def vd_pulse_fz_def mark_both vd_motor_lens)

lemma marked_simps [simp]:
  "ax_state (marked t a) = ax_state a" "ax_is_r_zero (marked t a) = ax_is_r_zero a"
  "ax_position (marked t a) = ax_position a" "ax_run_config (marked t a) = ax_run_config a"
  "ax_pos_min (marked t a) = ax_pos_min a" "ax_pos_max (marked t a) = ax_pos_max a"
  "signed_load (marked t a) = signed_load a" "run_ok (marked t a) r = run_ok a r"
  by (simp_all add: marked_def signed_load_def run_ok_def Let_def)

lemma marked_pending: "batch_pending (marked t a) \<longleftrightarrow> ax_state a = STATE_RUNNING \<or> batch_pending a"
  by (auto simp: marked_def batch_pending_def)

lemma can_fire: "can_fire_vd_fz s \<longleftrightarrow> (\<forall>m. \<not> batch_pending (axes s m))"
  by (simp add: can_fire_vd_fz_def motor_all)

lemma fire_axis_ok:
  assumes "axis_ok h p a r b x" "\<not> batch_pending a" "b = None \<Longrightarrow> x' = x"
  shows "axis_ok h p (marked t a) r (reg_batch r) x'"
  using assms
  by (auto simp: axis_ok_def homed_ok_def Let_def marked_pending run_ok_def split: ms_state.splits)

lemma fire_ok:
  assumes "ms_ok h P s" "can_fire_vd_fz s"
  shows "ms_ok h P (fire s)"
proof -
  have "axis_ok (h m) (m \<in> P) (axes (fire s) m) (regs (fire s) (step_addr m)) (chip_batch (fire s) m) (lens_at (fire s) m)" for m
    using assms fire_lens [of s m] by (auto simp: ms_ok_def can_fire intro!: fire_axis_ok)
  then show ?thesis using assms by (auto simp: ms_ok_def reset_ok_def resetting_def)
qed

subsection \<open>Stopping and starting\<close>

definition fire_if :: "ms \<Rightarrow> ms" where
  "fire_if s = (if can_fire_vd_fz s then fire s else s)"

lemma fire_if_ok: "ms_ok h P s \<Longrightarrow> ms_ok h P (fire_if s)"
  by (simp add: fire_if_def fire_ok)

definition stopped_axis :: "bool \<Rightarrow> axis \<Rightarrow> axis" where
  "stopped_axis rz a = a\<lparr>ax_batch_active := False, ax_pls_rcvd := False,
     ax_run_config := (ax_run_config a)\<lparr>is_valid := False, unload_psum := 0\<rparr>,
     ax_state := (if rz then STATE_RESET_ZERO else STATE_STOPPED)\<rparr>"

definition stop_state :: "motor \<Rightarrow> ms \<Rightarrow> ms" where
  "stop_state m s = s\<lparr>regs := (regs s)(step_addr m := regs s (step_addr m) AND 0xFF00),
     axes := (axes s)(m := stopped_axis (resetting s m) (axes s m))\<rparr>"

lemma stop_impl_eq:
  assumes "env_spi s = []"
  shows "ms41908m_motor_stop_impl m s =
    (SYS_OK, if ax_state (axes s m) = STATE_NO_CFG then s else fire_if (stop_state m s))"
proof -
  define s1 where "s1 = s\<lparr>regs := (regs s)(step_addr m := regs s (step_addr m) AND 0xFF00)\<rparr>"
  have e: "set_state m (if rz_phase (s_rst s1) \<noteq> RZ_IDLE \<and> rz_type (s_rst s1) = m
       then STATE_RESET_ZERO else STATE_STOPPED)
      (upd_run m (\<lambda>c. c\<lparr>is_valid := False, unload_psum := 0\<rparr>)
        (upd_axis m (\<lambda>a. a\<lparr>ax_batch_active := False, ax_pls_rcvd := False\<rparr>) s1)) = stop_state m s"
    by (simp add: set_state_def upd_axis_def stop_state_def stopped_axis_def resetting_def s1_def)
  have "ms41908m_port_write (step_addr m) (regs s (step_addr m) AND 0xFF00) s = (SYS_OK, s1)"
    using assms by (simp add: spi_healthy s1_def)
  then show ?thesis using assms e
    by (simp add: ms41908m_motor_stop_impl_def spi_healthy fire_if_def fire_def ms41908m_port_output_vd_def)
qed

lemma stop_state_simps [simp]:
  "axes (stop_state m s) = (axes s)(m := stopped_axis (resetting s m) (axes s m))"
  "regs (stop_state m s) = (regs s)(step_addr m := regs s (step_addr m) AND 0xFF00)"
  "chip_batch (stop_state m s) = chip_batch s" "lens_at (stop_state m s) = lens_at s"
  "env_spi (stop_state m s) = env_spi s" "s_rst (stop_state m s) = s_rst s"
  "s_event_group (stop_state m s) = s_event_group s" "ms_tick (stop_state m s) = ms_tick s"
  "s_app_notify (stop_state m s) = s_app_notify s" "env_lock (stop_state m s) = env_lock s"
  by (simp_all add: stop_state_def)

lemma stopped_axis_simps [simp]:
  "ax_state (stopped_axis rz a) = (if rz then STATE_RESET_ZERO else STATE_STOPPED)"
  "ax_is_r_zero (stopped_axis rz a) = ax_is_r_zero a" "ax_position (stopped_axis rz a) = ax_position a"
  "\<not> batch_pending (stopped_axis rz a)"
  by (simp_all add: stopped_axis_def batch_pending_def)

lemma other_neq [simp]: "other m \<noteq> m" "m \<noteq> other m" "other (other m) = m"
  by (cases m; simp)+

lemma neq_other: "m' \<noteq> m \<longleftrightarrow> m' = other m" "m \<noteq> m' \<longleftrightarrow> m' = other m"
  by (cases m; cases m'; simp)+

text \<open>Stopping keeps the books straight when the motor is not homed, or stands exactly
  where the driver thinks.\<close>

lemma stop_state_ok:
  assumes ok: "ms_ok h P s" and cfg: "ax_state (axes s m) \<noteq> STATE_NO_CFG"
    and ex: "ax_is_r_zero (axes s m) \<Longrightarrow>
      chip_batch s m = None \<and> m \<notin> P \<and> ax_position (axes s m) = s32 (lens_at s m - h m)"
  shows "ms_ok h P (stop_state m s)"
proof -
  have "axis_ok (h m') (m' \<in> P) (axes (stop_state m s) m') (regs (stop_state m s) (step_addr m'))
      (chip_batch s m') (lens_at s m')" for m'
  proof (cases "m' = m")
    case True
    have "\<not> (resetting s m \<and> ax_is_r_zero (axes s m))" using ok by (auto simp: ms_ok_def reset_ok_def)
    then show ?thesis using True ex by (auto simp: axis_ok_def homed_ok_def Let_def)
  qed (use ok in \<open>simp add: ms_ok_def\<close>)
  moreover have "reset_ok (stop_state m s)"
    using ok cfg by (auto simp: ms_ok_def reset_ok_def resetting_def)
  ultimately show ?thesis using ok by (auto simp: ms_ok_def split: if_splits)
qed

lemma stop_ok:
  assumes "ms_ok h P s"
    and "ax_state (axes s m) \<noteq> STATE_NO_CFG \<Longrightarrow> ax_is_r_zero (axes s m) \<Longrightarrow>
      chip_batch s m = None \<and> m \<notin> P \<and> ax_position (axes s m) = s32 (lens_at s m - h m)"
  shows "ms_ok h P (snd (ms41908m_motor_stop_impl m s))"
proof -
  have "env_spi s = []" using assms(1) by (simp add: ms_ok_def)
  then show ?thesis using assms by (simp add: stop_impl_eq fire_if_ok stop_state_ok)
qed

definition started_axis :: "run_config \<Rightarrow> u32 \<Rightarrow> axis \<Rightarrow> axis" where
  "started_axis c t a = a\<lparr>ax_run_config := c, ax_state := STATE_RUNNING, ax_start_tick := t,
     ax_batch_active := False, ax_pls_rcvd := False\<rparr>"

definition start_state :: "motor \<Rightarrow> u16 \<Rightarrow> int \<Rightarrow> ms \<Rightarrow> ms" where
  "start_state m pps n s = s\<lparr>
     regs := (regs s)(pps_addr m := start_intct pps,
       step_addr m := step_reg_of (regs s (step_addr m)) (start_psum pps n) (0 \<le> n)),
     s_event_group := map_option (\<lambda>g. g - {COMPLETED m}) (s_event_group s),
     axes := (axes s)(m := started_axis (run_of n (start_intct pps) (start_psum pps n)) (ms_tick s) (axes s m))\<rparr>"

lemma start_impl_eq:
  assumes "env_spi s = []"
  shows "ms41908m_motor_start_impl m pps n s =
    (let a = axes s m; t = s32 (ax_position a + n) in
     if raw_pps_bad pps \<or> raw_psum_bad n then (SYS_ERR_INVALID_ARG, s)
     else if ax_state a = STATE_RUNNING then (SYS_ERR_BUSY, s)
     else if ax_state a \<noteq> STATE_STOPPED \<and> ax_state a \<noteq> STATE_RESET_ZERO then (SYS_ERR_INVALID_STATE, s)
     else if ax_is_r_zero a \<and> ax_pos_min a < ax_pos_max a \<and> (t < ax_pos_min a \<or> ax_pos_max a < t)
     then (SYS_ERR_OUT_OF_RANGE, s)
     else (SYS_OK, fire_if (start_state m pps n s)))"
proof -
  define c where "c = run_of n (start_intct pps) (start_psum pps n)"
  define s1 where "s1 = upd_run m (\<lambda>_. c) s"
  define s2 where "s2 = s1\<lparr>regs := (regs s)(pps_addr m := start_intct pps,
       step_addr m := step_reg_of (regs s (step_addr m)) (start_psum pps n) (0 \<le> n))\<rparr>"
  have w: "ms41908m_port_read (step_addr m) 0 s1 = (SYS_OK, regs s (step_addr m), s1)"
    "ms41908m_port_write (pps_addr m) v s1 = (SYS_OK, s1\<lparr>regs := (regs s)(pps_addr m := v)\<rparr>)"
    "ms41908m_port_write (step_addr m) w (s1\<lparr>regs := (regs s)(pps_addr m := v)\<rparr>)
       = (SYS_OK, s1\<lparr>regs := (regs s)(pps_addr m := v, step_addr m := w)\<rparr>)" for v w
    using assms by (simp_all add: spi_healthy s1_def upd_axis_def)
  have e: "upd_axis m (\<lambda>a. a\<lparr>ax_start_tick := ms_tick (set_state m STATE_RUNNING (ms41908m_port_clear_event {COMPLETED m} s2)),
        ax_batch_active := False, ax_pls_rcvd := False\<rparr>)
      (set_state m STATE_RUNNING (ms41908m_port_clear_event {COMPLETED m} s2)) = start_state m pps n s"
    by (simp add: set_state_def upd_axis_def start_state_def started_axis_def s2_def s1_def c_def
        ms41908m_port_clear_event_def)
  show ?thesis
    unfolding ms41908m_motor_start_impl_def
    by (auto simp: Let_def w e s2_def [symmetric] s1_def [symmetric] c_def [symmetric] fire_if_def fire_def
        ms41908m_port_output_vd_def)
qed

lemma start_state_simps [simp]:
  "axes (start_state m pps n s) =
     (axes s)(m := started_axis (run_of n (start_intct pps) (start_psum pps n)) (ms_tick s) (axes s m))"
  "regs (start_state m pps n s) = (regs s)(pps_addr m := start_intct pps,
       step_addr m := step_reg_of (regs s (step_addr m)) (start_psum pps n) (0 \<le> n))"
  "chip_batch (start_state m pps n s) = chip_batch s" "lens_at (start_state m pps n s) = lens_at s"
  "env_spi (start_state m pps n s) = env_spi s" "s_rst (start_state m pps n s) = s_rst s"
  "s_event_group (start_state m pps n s) = map_option (\<lambda>g. g - {COMPLETED m}) (s_event_group s)"
  "ms_tick (start_state m pps n s) = ms_tick s" "s_app_notify (start_state m pps n s) = s_app_notify s"
  "env_lock (start_state m pps n s) = env_lock s"
  by (simp_all add: start_state_def)

lemma started_axis_simps [simp]:
  "ax_state (started_axis c t a) = STATE_RUNNING" "ax_is_r_zero (started_axis c t a) = ax_is_r_zero a"
  "ax_position (started_axis c t a) = ax_position a" "ax_run_config (started_axis c t a) = c"
  "\<not> batch_pending (started_axis c t a)"
  by (simp_all add: started_axis_def batch_pending_def)

lemma started_run_ok:
  assumes "\<not> raw_psum_bad n" "1 \<le> uint p" "uint p \<le> 255" "uint p \<le> \<bar>n\<bar>"
  shows "run_ok (started_axis (run_of n i p) t a) (step_reg_of r p (0 \<le> n))"
  using assms by (simp add: run_ok_def Let_def signed_load_def run_of_def reg_batch_step)

text \<open>A motor may start when the other one neither is being reset nor waits for it.\<close>

definition start_safe :: "motor \<Rightarrow> ms \<Rightarrow> bool" where
  "start_safe m s = (\<not> resetting s (other m) \<and>
     (rz_phase (s_rst s) = RZ_IDLE \<longrightarrow> ax_state (axes s (other m)) \<noteq> STATE_RESET_ZERO))"

lemma start_state_ok:
  assumes ok: "ms_ok h P s" and n: "\<not> raw_psum_bad n" and safe: "start_safe m s"
    and st: "ax_state (axes s m) = STATE_STOPPED \<or> ax_state (axes s m) = STATE_RESET_ZERO"
  shows "ms_ok h P (start_state m pps n s)"
proof -
  have "axis_ok (h m') (m' \<in> P) (axes (start_state m pps n s) m') (regs (start_state m pps n s) (step_addr m'))
      (chip_batch s m') (lens_at s m')" for m'
  proof (cases "m' = m")
    case True
    have "axis_ok (h m) (m \<in> P) (axes s m) (regs s (step_addr m)) (chip_batch s m) (lens_at s m)"
      using ok by (simp add: ms_ok_def)
    then show ?thesis using True n st start_psum_range [OF n]
      by (auto simp: axis_ok_def homed_ok_def Let_def started_run_ok)
  qed (use ok in \<open>simp add: ms_ok_def\<close>)
  moreover have "reset_ok (start_state m pps n s)"
    using ok st safe unfolding ms_ok_def reset_ok_def start_safe_def resetting_def
    by (auto simp: neq_other)
  ultimately show ?thesis using ok by (auto simp: ms_ok_def split: if_splits)
qed

lemma motor_start_ok:
  assumes "ms_ok h P s" "start_safe m s"
  shows "ms_ok h P (snd (ms41908m_motor_start_impl m pps n s))"
proof -
  have "env_spi s = []" using assms(1) by (simp add: ms_ok_def)
  then show ?thesis using assms by (auto simp: start_impl_eq Let_def intro!: fire_if_ok start_state_ok)
qed

lemma vd_motor_axes: "vd_motor m (s\<lparr>axes := f\<rparr>) = (vd_motor m s)\<lparr>axes := f\<rparr>"
  by (simp add: vd_motor_def Let_def split: option.split list.split)

lemma fire_axes:
  "fire (s\<lparr>axes := f\<rparr>) = (fire s)\<lparr>axes := (\<lambda>m. marked (ms_tick s) (f m))\<rparr>"
  by (simp add: fire_def vd_pulse_fz_def mark_both vd_motor_axes)

lemma set_r_zero_simps [simp]:
  "axes (set_r_zero m v s) = (axes s)(m := (axes s m)\<lparr>ax_is_r_zero := v\<rparr>)"
  "regs (set_r_zero m v s) = regs s" "chip_batch (set_r_zero m v s) = chip_batch s"
  "lens_at (set_r_zero m v s) = lens_at s" "env_spi (set_r_zero m v s) = env_spi s"
  "s_rst (set_r_zero m v s) = s_rst s" "s_event_group (set_r_zero m v s) = s_event_group s"
  "s_app_notify (set_r_zero m v s) = s_app_notify s"
  by (simp_all add: set_r_zero_def)

lemma fire_r_zero: "fire (set_r_zero m v s) = set_r_zero m v (fire s)"
proof -
  have "marked t (a\<lparr>ax_is_r_zero := v\<rparr>) = (marked t a)\<lparr>ax_is_r_zero := v\<rparr>" for t a
    by (simp add: marked_def)
  then have "(\<lambda>m'. marked t (((axes s)(m := (axes s m)\<lparr>ax_is_r_zero := v\<rparr>)) m'))
    = (\<lambda>m'. marked t (axes s m'))(m := (marked t (axes s m))\<lparr>ax_is_r_zero := v\<rparr>)" for t
    by auto
  then show ?thesis by (simp add: set_r_zero_def upd_axis_def fire_axes)
qed

lemma stop_r_zero:
  assumes "env_spi s = []"
  shows "set_r_zero m v (snd (ms41908m_motor_stop_impl m s)) = snd (ms41908m_motor_stop_impl m (set_r_zero m v s))"
proof -
  have "stopped_axis rz (a\<lparr>ax_is_r_zero := v\<rparr>) = (stopped_axis rz a)\<lparr>ax_is_r_zero := v\<rparr>" for rz a
    by (cases a) (simp add: stopped_axis_def)
  then have "stop_state m (set_r_zero m v s) = set_r_zero m v (stop_state m s)"
    by (simp add: set_r_zero_def upd_axis_def stop_state_def resetting_def)
  moreover have "fire_if (set_r_zero m v t) = set_r_zero m v (fire_if t)" for t
    by (auto simp: fire_if_def fire_r_zero can_fire batch_pending_def)
  ultimately show ?thesis using assms by (simp add: stop_impl_eq)
qed

lemma unhome_ok: "ms_ok h P s \<Longrightarrow> ms_ok h P (set_r_zero m False s)"
  by (auto simp: ms_ok_def axis_ok_def reset_ok_def resetting_def batch_pending_def neq_other split: if_splits)

lemma stop_unhome_ok:
  assumes "ms_ok h P s" shows "ms_ok h P (set_r_zero m False (snd (ms41908m_motor_stop_impl m s)))"
proof -
  have "env_spi s = []" using assms by (simp add: ms_ok_def)
  moreover have "ms_ok h P (snd (ms41908m_motor_stop_impl m (set_r_zero m False s)))"
    by (rule stop_ok [OF unhome_ok [OF assms]]) simp
  ultimately show ?thesis by (simp add: stop_r_zero)
qed

subsection \<open>Steps that leave the books alone\<close>

definition same_books :: "ms \<Rightarrow> ms \<Rightarrow> bool" where
  "same_books s t = (axes t = axes s \<and> regs t = regs s \<and> chip_batch t = chip_batch s \<and> lens_at t = lens_at s
     \<and> env_spi t = env_spi s \<and> s_rst t = s_rst s \<and> (s_event_group t = None \<longleftrightarrow> s_event_group s = None))"

lemma same_books_ok: "same_books s t \<Longrightarrow> ms_ok h P s \<Longrightarrow> ms_ok h P t"
  by (simp add: same_books_def ms_ok_def reset_ok_def resetting_def)

lemma same_books_refl [simp]: "same_books s s"
  by (simp add: same_books_def)

lemma same_books_trans: "same_books s t \<Longrightarrow> same_books t u \<Longrightarrow> same_books s u"
  by (simp add: same_books_def)

lemma books_kept [simp]:
  "same_books s (set_event e s)" "same_books s (ms41908m_port_clear_event e s)"
  "same_books s (snd (ms41908m_port_set_event e s))" "same_books s (ms41908m_queue_app_notify f r s)"
  "same_books s (ms41908m_port_set_event_notify f r s)" "same_books s (ms41908m_dispatch_pending_app_events s)"
  "same_books s (snd (ms41908m_port_wait_for_event msk cl wa s))" "same_books s (snd (ms41908m_port_lock s))"
  "same_books s (s\<lparr>rst_last_result := l\<rparr>)" "same_books s (ms41908m_port_pi_irq_disable s)"
  "same_books s (ms41908m_port_pi_irq_enable s)"
  by (auto simp: same_books_def set_event_def ms41908m_port_clear_event_def ms41908m_port_set_event_def
      ms41908m_queue_app_notify_def ms41908m_port_set_event_notify_def ms41908m_dispatch_pending_app_events_def
      ms41908m_port_wait_for_event_def ms41908m_port_lock_def ms41908m_port_pi_irq_disable_def
      ms41908m_port_pi_irq_enable_def Let_def split: option.split)

lemmas books_ok = same_books_ok [OF books_kept(1)] same_books_ok [OF books_kept(2)] same_books_ok [OF books_kept(3)]
  same_books_ok [OF books_kept(4)] same_books_ok [OF books_kept(5)] same_books_ok [OF books_kept(6)]
  same_books_ok [OF books_kept(7)] same_books_ok [OF books_kept(8)] same_books_ok [OF books_kept(9)]
  same_books_ok [OF books_kept(10)] same_books_ok [OF books_kept(11)]

lemma books_simps [simp]:
  "axes (set_event e s) = axes s" "axes (ms41908m_port_clear_event e s) = axes s"
  "axes (snd (ms41908m_port_set_event e s)) = axes s" "axes (ms41908m_port_set_event_notify f r s) = axes s"
  "axes (ms41908m_dispatch_pending_app_events s) = axes s"
  "s_rst (set_event e s) = s_rst s" "s_rst (ms41908m_port_clear_event e s) = s_rst s"
  "s_rst (snd (ms41908m_port_set_event e s)) = s_rst s" "s_rst (ms41908m_port_set_event_notify f r s) = s_rst s"
  "lens_at (set_event e s) = lens_at s" "lens_at (ms41908m_port_clear_event e s) = lens_at s"
  "lens_at (snd (ms41908m_port_set_event e s)) = lens_at s" "lens_at (ms41908m_port_set_event_notify f r s) = lens_at s"
  "lens_at (ms41908m_dispatch_pending_app_events s) = lens_at s"
  using books_kept(1) [of s e] books_kept(2) [of s e] books_kept(3) [of s e] books_kept(5) [of s f r] books_kept(6) [of s]
  by (simp_all add: same_books_def)

lemma set_state_simps [simp]:
  "axes (set_state m x s) = (axes s)(m := (axes s m)\<lparr>ax_state := x\<rparr>)"
  "regs (set_state m x s) = regs s" "chip_batch (set_state m x s) = chip_batch s"
  "lens_at (set_state m x s) = lens_at s" "env_spi (set_state m x s) = env_spi s"
  "s_rst (set_state m x s) = s_rst s" "s_event_group (set_state m x s) = s_event_group s"
  by (simp_all add: set_state_def)

lemma set_state_ok:
  assumes ok: "ms_ok h P s" and a: "\<not> ax_is_r_zero (axes s m)" "\<not> batch_pending (axes s m)"
    and x: "x \<noteq> STATE_RUNNING" "x \<noteq> STATE_NO_CFG"
      "x = STATE_RESET_ZERO \<Longrightarrow> ax_state (axes s (other m)) \<noteq> STATE_RUNNING"
  shows "ms_ok h P (set_state m x s)"
proof -
  have "axis_ok (h m') (m' \<in> P) (axes (set_state m x s) m') (regs s (step_addr m')) (chip_batch s m') (lens_at s m')" for m'
    using ok a x by (cases "m' = m") (auto simp: ms_ok_def axis_ok_def batch_pending_def)
  moreover have "reset_ok (set_state m x s)"
    using ok x by (auto simp: ms_ok_def reset_ok_def resetting_def neq_other)
  ultimately show ?thesis using ok by (auto simp: ms_ok_def split: if_splits)
qed

lemma stop_facts:
  assumes "env_spi s = []" "ax_state (axes s m) \<noteq> STATE_NO_CFG"
  defines "t \<equiv> snd (ms41908m_motor_stop_impl m s)"
  shows "ax_state (axes t m) = (if resetting s m then STATE_RESET_ZERO else STATE_STOPPED)"
    "ax_state (axes t (other m)) = ax_state (axes s (other m))" "\<not> batch_pending (axes t m)"
    "ax_is_r_zero (axes t m') = ax_is_r_zero (axes s m')" "s_rst t = s_rst s" "env_spi t = []"
    "reg_batch (regs t (step_addr m)) = None" "s_event_group t = s_event_group s"
    "\<not> batch_pending (axes s (other m)) \<Longrightarrow> chip_batch t m = None"
  using assms
  by (auto simp: stop_impl_eq fire_if_def marked_pending can_fire neq_other)

subsection \<open>The task's turn\<close>

lemma timeout_ok:
  assumes ok: "ms_ok h P s" and idle: "rz_phase (s_rst s) = RZ_IDLE"
  shows "ms_ok h P (axis_timeout m s)" "s_rst (axis_timeout m s) = s_rst s"
    "ax_is_r_zero (axes (axis_timeout m s) m') \<Longrightarrow> ax_is_r_zero (axes s m')"
    "ax_state (axes (axis_timeout m s) m') = STATE_RESET_ZERO \<Longrightarrow> ax_state (axes s m') = STATE_RESET_ZERO"
proof -
  define t where "t = snd (ms41908m_motor_stop_impl m s)"
  have e: "env_spi s = []" using ok by (simp add: ms_ok_def)
  have "ax_state (axes s m) = STATE_RUNNING \<Longrightarrow> ms_ok h P (set_r_zero m False (set_state m STATE_ERROR t))"
  proof -
    assume r: "ax_state (axes s m) = STATE_RUNNING"
    have c: "set_r_zero m False (set_state m STATE_ERROR t) = set_state m STATE_ERROR (set_r_zero m False t)"
      by (cases "axes t m") (simp add: set_r_zero_def set_state_def upd_axis_def)
    have "\<not> batch_pending (axes t m)" unfolding t_def by (rule stop_facts) (use e r in simp_all)
    then show ?thesis unfolding c unfolding t_def
      by (intro set_state_ok stop_unhome_ok [OF ok]) (simp_all add: batch_pending_def)
  qed
  then show "ms_ok h P (axis_timeout m s)"
    using ok by (auto simp: axis_timeout_def Let_def t_def intro!: books_ok)
  have f: "ax_state (axes s m) = STATE_RUNNING \<Longrightarrow> s_rst t = s_rst s"
    "ax_state (axes s m) = STATE_RUNNING \<Longrightarrow> ax_is_r_zero (axes t m') = ax_is_r_zero (axes s m')"
    "ax_state (axes s m) = STATE_RUNNING \<Longrightarrow> m' \<noteq> m \<Longrightarrow> ax_state (axes t m') = ax_state (axes s m')" for m'
    unfolding t_def using e stop_facts(2,5) [of s m] stop_facts(4) [of s m m'] by (auto simp: neq_other)
  show "s_rst (axis_timeout m s) = s_rst s"
    "ax_is_r_zero (axes (axis_timeout m s) m') \<Longrightarrow> ax_is_r_zero (axes s m')"
    "ax_state (axes (axis_timeout m s) m') = STATE_RESET_ZERO \<Longrightarrow> ax_state (axes s m') = STATE_RESET_ZERO"
    using f(1) f(2,3) [of m'] by (auto simp: axis_timeout_def Let_def t_def [symmetric] split: if_splits)
qed

lemma arm_eq: "same_books (s\<lparr>s_rst := zero_rst\<lparr>rz_type := m, rz_pi_irq := m, rz_pi_event := {PI m},
       rz_complete_event := {COMPLETED m}, rz_phase := rz_phase (s_rst (ms41908m_reset_sm_arm_locked m s))\<rparr>,
       axes := (axes s)(m := (axes s m)\<lparr>ax_is_r_zero := False\<rparr>)\<rparr>) (ms41908m_reset_sm_arm_locked m s)"
  "rz_phase (s_rst (ms41908m_reset_sm_arm_locked m s)) \<noteq> RZ_IDLE"
  "rz_type (s_rst (ms41908m_reset_sm_arm_locked m s)) = m"
  by (simp_all add: ms41908m_reset_sm_arm_locked_def Let_def same_books_def set_phase_def set_r_zero_def upd_axis_def
      ms41908m_port_clear_event_def ms41908m_port_pi_irq_enable_def zero_rst_def)

lemma arm_ok:
  assumes ok: "ms_ok h P s" and i: "rz_phase (s_rst s) = RZ_IDLE" "ax_state (axes s m) = STATE_RESET_ZERO"
  shows "ms_ok h P (ms41908m_reset_sm_arm_locked m s)"
proof (rule same_books_ok [OF arm_eq(1)])
  show "ms_ok h P (s\<lparr>s_rst := zero_rst\<lparr>rz_type := m, rz_pi_irq := m, rz_pi_event := {PI m},
       rz_complete_event := {COMPLETED m}, rz_phase := rz_phase (s_rst (ms41908m_reset_sm_arm_locked m s))\<rparr>,
       axes := (axes s)(m := (axes s m)\<lparr>ax_is_r_zero := False\<rparr>)\<rparr>)"
    using unhome_ok [OF ok, of m] arm_eq(2) [of m s] i ok
    by (auto simp: ms_ok_def reset_ok_def resetting_def neq_other)
qed

lemma try_arm_ok:
  assumes ok: "ms_ok h P s"
  shows "ms_ok h P (ms41908m_reset_sm_try_arm_locked m s)"
    "ax_is_r_zero (axes (ms41908m_reset_sm_try_arm_locked m s) m') \<Longrightarrow> ax_is_r_zero (axes s m')"
    "resetting (ms41908m_reset_sm_try_arm_locked m s) m' \<Longrightarrow> resetting s m' \<or> ax_state (axes s m') = STATE_RESET_ZERO"
    "ax_state (axes (ms41908m_reset_sm_try_arm_locked m s) m') = STATE_RESET_ZERO \<Longrightarrow> ax_state (axes s m') = STATE_RESET_ZERO"
proof -
  have "ms_ok h P (set_state m STATE_STOPPED s)" if "ax_state (axes s m) = STATE_RESET_ZERO"
    using ok that by (intro set_state_ok) (auto simp: ms_ok_def axis_ok_def homed_ok_def Let_def)
  then show "ms_ok h P (ms41908m_reset_sm_try_arm_locked m s)"
    using ok by (auto simp: ms41908m_reset_sm_try_arm_locked_def Let_def intro!: books_ok arm_ok)
  have a: "axes (ms41908m_reset_sm_arm_locked m s) = (axes s)(m := (axes s m)\<lparr>ax_is_r_zero := False\<rparr>)"
    "rz_type (s_rst (ms41908m_reset_sm_arm_locked m s)) = m"
    using arm_eq(1) [of s m] arm_eq(3) [of m s] by (simp_all add: same_books_def)
  show "ax_is_r_zero (axes (ms41908m_reset_sm_try_arm_locked m s) m') \<Longrightarrow> ax_is_r_zero (axes s m')"
    "resetting (ms41908m_reset_sm_try_arm_locked m s) m' \<Longrightarrow> resetting s m' \<or> ax_state (axes s m') = STATE_RESET_ZERO"
    "ax_state (axes (ms41908m_reset_sm_try_arm_locked m s) m') = STATE_RESET_ZERO \<Longrightarrow> ax_state (axes s m') = STATE_RESET_ZERO"
    by (auto simp: ms41908m_reset_sm_try_arm_locked_def Let_def a resetting_def split: if_splits)
qed

lemma s32_shift [simp]: "s32 (s32 x + y) = s32 (x + y)" "s32 (s32 x - y) = s32 (x - y)"
proof -
  have "s32 (s32 x + z) = s32 (x + z)" for z
  proof -
    have "(s32 x + z + 2147483648) mod 4294967296 = ((x + 2147483648) mod 4294967296 + z) mod 4294967296"
      by (simp add: s32_def)
    also have "\<dots> = (x + 2147483648 + z) mod 4294967296" by (rule mod_add_left_eq)
    finally show ?thesis by (simp add: s32_def algebra_simps)
  qed
  from this [of y] this [of "- y"] show "s32 (s32 x + y) = s32 (x + y)" "s32 (s32 x - y) = s32 (x - y)" by simp_all
qed

lemma axis_count_simps [simp]:
  "ax_state (axis_count a) = ax_state a" "ax_is_r_zero (axis_count a) = ax_is_r_zero a"
  "ax_run_config (axis_count a) = ax_run_config a" "batch_pending (axis_count a) = batch_pending a"
  "ax_batch_active (axis_count a) = ax_batch_active a" "ax_pls_rcvd (axis_count a) = ax_pls_rcvd a"
  "signed_load (axis_count a) = signed_load a" "run_ok (axis_count a) r = run_ok a r"
  "ax_position (axis_count a) = s32 (ax_position a + signed_load a)"
  by (simp_all add: axis_count_def Let_def batch_pending_def signed_load_def run_ok_def)

text \<open>A pulse of a moving motor makes the driver's position exact again.\<close>

definition acked :: "axis \<Rightarrow> axis" where
  "acked a = a\<lparr>ax_pls_rcvd := True\<rparr>"

lemma acked_simps [simp]:
  "ax_state (acked a) = ax_state a" "ax_is_r_zero (acked a) = ax_is_r_zero a" "ax_position (acked a) = ax_position a"
  "ax_run_config (acked a) = ax_run_config a" "\<not> batch_pending (acked a)" "signed_load (acked a) = signed_load a"
  "run_ok (acked a) r = run_ok a r"
  by (simp_all add: acked_def batch_pending_def signed_load_def run_ok_def)

lemma axis_upd_ok:
  assumes ok: "ms_ok h P s" and r: "ax_state (axes s m) = STATE_RUNNING"
    and f: "ax_state (f (axes s m)) = STATE_RUNNING" "ax_is_r_zero (f (axes s m)) = ax_is_r_zero (axes s m)"
    and a: "axis_ok (h m) (m \<in> P') (f (axes s m)) r' (chip_batch s m) (lens_at s m)"
    and p: "\<And>m'. m' \<noteq> m \<Longrightarrow> m' \<in> P' \<longleftrightarrow> m' \<in> P"
  shows "ms_ok h P' ((upd_axis m f s)\<lparr>regs := (regs s)(step_addr m := r')\<rparr>)"
  using ok r f a p
  by (auto simp: ms_ok_def reset_ok_def resetting_def neq_other)

lemma ack_ok:
  assumes ok: "ms_ok h P s" and r: "ax_state (axes s m) = STATE_RUNNING" and p: "m \<in> P"
  shows "is_valid (ax_run_config (axes s m)) \<Longrightarrow> ms_ok h (P - {m}) (upd_axis m axis_count (upd_axis m acked s))"
    "\<not> is_valid (ax_run_config (axes s m)) \<Longrightarrow> ms_ok h (P - {m}) (upd_axis m acked s)"
proof -
  have a: "axis_ok (h m) True (axes s m) (regs s (step_addr m)) (chip_batch s m) (lens_at s m)"
    using ok p by (auto simp: ms_ok_def dest: spec [of _ m])
  have id: "t\<lparr>regs := (regs s)(x := regs s x)\<rparr> = t" if "regs t = regs s" for t x
    using that by (cases t) simp
  let ?f = "\<lambda>a. axis_count (acked a)"
  have "axis_ok (h m) (m \<in> P - {m}) (?f (axes s m)) (regs s (step_addr m)) (chip_batch s m) (lens_at s m)"
    using a r by (auto simp: axis_ok_def homed_ok_def Let_def split: if_splits)
  then have "ms_ok h (P - {m}) ((upd_axis m ?f s)\<lparr>regs := (regs s)(step_addr m := regs s (step_addr m))\<rparr>)"
    by (intro axis_upd_ok [OF ok r]) (auto simp: r)
  then show "ms_ok h (P - {m}) (upd_axis m axis_count (upd_axis m acked s))"
    by (simp only: id upd_axis_simps) (simp add: upd_axis_def)
  assume "\<not> is_valid (ax_run_config (axes s m))"
  then have "axis_ok (h m) (m \<in> P - {m}) (acked (axes s m)) (regs s (step_addr m)) (chip_batch s m) (lens_at s m)"
    using a r by (auto simp: axis_ok_def homed_ok_def Let_def run_ok_def split: if_splits)
  then have "ms_ok h (P - {m}) ((upd_axis m acked s)\<lparr>regs := (regs s)(step_addr m := regs s (step_addr m))\<rparr>)"
    by (intro axis_upd_ok [OF ok r]) (auto simp: r)
  then show "ms_ok h (P - {m}) (upd_axis m acked s)" by (simp only: id upd_axis_simps)
qed

lemma next_batch_ok:
  assumes ok: "ms_ok h P s" and r: "ax_state (axes s m) = STATE_RUNNING" and b: "\<not> batch_pending (axes s m)"
    and u: "load_psum (ax_run_config (axes s m)) \<le> unload_psum (ax_run_config (axes s m))"
  shows "ms_ok h P (upd_run m (\<lambda>c. c\<lparr>unload_psum := unload_psum c - load_psum c\<rparr>) s)"
proof -
  let ?f = "\<lambda>a. a\<lparr>ax_run_config := (ax_run_config a)\<lparr>unload_psum := unload_psum (ax_run_config a) - load_psum (ax_run_config a)\<rparr>\<rparr>"
  have a: "axis_ok (h m) (m \<in> P) (axes s m) (regs s (step_addr m)) (chip_batch s m) (lens_at s m)"
    using ok by (simp add: ms_ok_def)
  have id: "t\<lparr>regs := (regs s)(x := regs s x)\<rparr> = t" if "regs t = regs s" for t x
    using that by (cases t) simp
  have "batch_pending (?f x) = batch_pending x" "signed_load (?f x) = signed_load x" for x
    by (simp_all add: batch_pending_def signed_load_def)
  moreover have "run_ok (?f (axes s m)) x = run_ok (axes s m) x" if "run_ok (axes s m) x" for x
    using that u by (simp add: run_ok_def Let_def signed_load_def)
  ultimately have "axis_ok (h m) (m \<in> P) (?f (axes s m)) (regs s (step_addr m)) (chip_batch s m) (lens_at s m)"
    using a r b by (auto simp: axis_ok_def homed_ok_def Let_def)
  then have "ms_ok h P ((upd_axis m ?f s)\<lparr>regs := (regs s)(step_addr m := regs s (step_addr m))\<rparr>)"
    by (intro axis_upd_ok [OF ok r]) (auto simp: r)
  then show ?thesis by (simp only: id upd_axis_simps)
qed

lemma load_last_eq:
  assumes "env_spi s = []"
  shows "axis_load_last m s = (let left = unload_psum (ax_run_config (axes s m)) in
    (SYS_OK, (upd_axis m (\<lambda>a. a\<lparr>ax_run_config := (ax_run_config a)\<lparr>load_psum := left, unload_psum := 0\<rparr>\<rparr>) s)
       \<lparr>regs := (regs s)(step_addr m := (regs s (step_addr m) AND 0xFF00) OR of_int left)\<rparr>))"
proof -
  have "run_c\<lparr>load_psum := x, unload_psum := y\<rparr> = run_c\<lparr>unload_psum := y, load_psum := x\<rparr>" for run_c :: run_config and x y
    by (cases run_c) simp
  then show ?thesis using assms by (simp add: axis_load_last_def Let_def spi_healthy)
qed

lemma load_last_ok:
  assumes ok: "ms_ok h P s" and r: "ax_state (axes s m) = STATE_RUNNING" and b: "\<not> batch_pending (axes s m)"
    and u: "0 < unload_psum (ax_run_config (axes s m))"
      "unload_psum (ax_run_config (axes s m)) < load_psum (ax_run_config (axes s m))"
  shows "ms_ok h P (snd (axis_load_last m s))"
proof -
  let ?n = "unload_psum (ax_run_config (axes s m))"
  let ?f = "\<lambda>a. a\<lparr>ax_run_config := (ax_run_config a)\<lparr>load_psum := ?n, unload_psum := 0\<rparr>\<rparr>"
  have e: "env_spi s = []" using ok by (simp add: ms_ok_def)
  have a: "axis_ok (h m) (m \<in> P) (axes s m) (regs s (step_addr m)) (chip_batch s m) (lens_at s m)"
    using ok by (simp add: ms_ok_def)
  have "batch_pending (?f x) = batch_pending x" for x by (simp add: batch_pending_def)
  moreover have "run_ok (?f (axes s m)) ((x AND 0xFF00) OR of_int ?n)" if "run_ok (axes s m) x" for x
    using that u reg_batch_reload [of x "signed_load (axes s m)" ?n]
    by (auto simp: run_ok_def Let_def signed_load_def)
  ultimately have "axis_ok (h m) (m \<in> P) (?f (axes s m)) ((regs s (step_addr m) AND 0xFF00) OR of_int ?n)
      (chip_batch s m) (lens_at s m)"
    using a r b by (auto simp: axis_ok_def homed_ok_def Let_def)
  then have "ms_ok h P ((upd_axis m ?f s)\<lparr>regs := (regs s)(step_addr m := (regs s (step_addr m) AND 0xFF00) OR of_int ?n)\<rparr>)"
    by (intro axis_upd_ok [OF ok r]) (auto simp: r)
  then show ?thesis by (simp add: load_last_eq [OF e] Let_def)
qed

lemma completed_ok:
  assumes ok: "ms_ok h P s" and r: "ax_state (axes s m) = STATE_RUNNING" and b: "\<not> batch_pending (axes s m)"
  shows "ms_ok h P (axis_completed m s)"
proof -
  have "ms_ok h P (snd (ms41908m_motor_stop_impl m s))"
  proof (rule stop_ok [OF ok])
    assume "ax_is_r_zero (axes s m)"
    moreover have "axis_ok (h m) (m \<in> P) (axes s m) (regs s (step_addr m)) (chip_batch s m) (lens_at s m)"
      using ok by (simp add: ms_ok_def)
    ultimately show "chip_batch s m = None \<and> m \<notin> P \<and> ax_position (axes s m) = s32 (lens_at s m - h m)"
      using r b by (simp add: axis_ok_def homed_ok_def Let_def)
  qed
  then show ?thesis by (simp add: axis_completed_def Let_def books_ok)
qed

lemma pls_ok:
  assumes ok: "ms_ok h P s" and r: "ax_state (axes s m) = STATE_RUNNING" and p: "m \<in> P"
  shows "ms_ok h (P - {m}) (snd (axis_pls m (SYS_OK, s)))" "fst (axis_pls m (SYS_OK, s)) = SYS_OK"
proof -
  define s1 where "s1 = upd_axis m axis_count (upd_axis m acked s)"
  have e: "env_spi s1 = []" using ok by (simp add: s1_def ms_ok_def)
  have f: "ax_state (axes s1 m) = STATE_RUNNING" "\<not> batch_pending (axes s1 m)"
    "ax_run_config (axes s1 m) = ax_run_config (axes s m)"
    using r by (simp_all add: s1_def)
  have l: "fst (axis_load_last m s1) = SYS_OK" by (simp add: load_last_eq [OF e] Let_def)
  have d: "axis_pls m (SYS_OK, s) =
    (let rc = ax_run_config (axes s m) in
     if \<not> is_valid rc then (SYS_OK, upd_axis m acked s)
     else if 0 < unload_psum rc then
       (SYS_OK, if load_psum rc \<le> unload_psum rc
          then upd_run m (\<lambda>c. c\<lparr>unload_psum := unload_psum c - load_psum c\<rparr>) s1
          else snd (axis_load_last m s1))
     else (SYS_OK, axis_completed m s1))"
    using l by (auto simp: axis_pls_def Let_def s1_def acked_def [abs_def] split: prod.split)
  show "fst (axis_pls m (SYS_OK, s)) = SYS_OK" by (simp add: d Let_def)
  show "ms_ok h (P - {m}) (snd (axis_pls m (SYS_OK, s)))"
  proof (cases "is_valid (ax_run_config (axes s m))")
    case True
    then have "ms_ok h (P - {m}) s1" unfolding s1_def by (rule ack_ok [OF ok r p])
    then show ?thesis using f True by (auto simp: d Let_def intro!: next_batch_ok load_last_ok completed_ok)
  next
    case False
    then show ?thesis using ack_ok(2) [OF ok r p] by (simp add: d Let_def)
  qed
qed

end
