(* ===== verification/Ms41908m_Task.thy ===== *)
theory Ms41908m_Task
  imports Ms41908m_Inv
begin

text \<open>
  The motor task keeps the invariant of \<open>Ms41908m_Inv\<close>: the timeout guard, arming
  a reset, a pulse of each motor, and every phase of the reset-zero state machine.
  A motor becomes homed only at the end of a reset, and from then on its position
  is counted from where it stood.
\<close>

subsection \<open>The pulse part of the task\<close>

lemma pulses_dropped:
  assumes "ms_ok h P s" "\<And>m. m \<in> P \<Longrightarrow> ax_state (axes s m) \<noteq> STATE_RUNNING"
  shows "ms_ok h {} s"
proof -
  have "axis_ok (h m) False (axes s m) (regs s (step_addr m)) (chip_batch s m) (lens_at s m)" for m
  proof (cases "m \<in> P")
    case True
    have "axis_ok (h m) True (axes s m) (regs s (step_addr m)) (chip_batch s m) (lens_at s m)"
      using assms(1) True by (auto simp: ms_ok_def dest: spec [of _ m])
    then show ?thesis using assms(2) [OF True] by (auto simp: axis_ok_def homed_ok_def Let_def split: ms_state.splits)
  qed (use assms(1) in \<open>auto simp: ms_ok_def dest: spec [of _ m]\<close>)
  then show ?thesis using assms(1) by (simp add: ms_ok_def)
qed

lemma stop_other:
  assumes "env_spi s = []" "m' \<noteq> m"
  shows "ax_state (axes (snd (ms41908m_motor_stop_impl m s)) m') = ax_state (axes s m')"
  using assms by (simp add: stop_impl_eq fire_if_def)

lemma pls_other:
  assumes "env_spi s = []" "m' \<noteq> m"
  shows "ax_state (axes (snd (axis_pls m (r, s))) m') = ax_state (axes s m')"
  using assms
  by (auto simp: axis_pls_def Let_def axis_load_last_def spi_healthy stop_impl_eq axis_completed_def fire_if_def
      split: prod.split if_splits)

lemma r_zero_kept:
  assumes "env_spi s = []"
  shows "ax_is_r_zero (axes (snd (ms41908m_motor_stop_impl m s)) m') = ax_is_r_zero (axes s m')"
    "ax_is_r_zero (axes (snd (ms41908m_motor_start_impl m pps n s)) m') = ax_is_r_zero (axes s m')"
    "s_rst (snd (ms41908m_motor_stop_impl m s)) = s_rst s"
    "s_rst (snd (ms41908m_motor_start_impl m pps n s)) = s_rst s"
  using assms by (auto simp: stop_impl_eq start_impl_eq Let_def fire_if_def)

lemma pls_kept:
  assumes "env_spi s = []"
  shows "ax_is_r_zero (axes (snd (axis_pls m (SYS_OK, s))) m') = ax_is_r_zero (axes s m')"
    "s_rst (snd (axis_pls m (SYS_OK, s))) = s_rst s" "env_spi (snd (axis_pls m (SYS_OK, s))) = []"
  using assms
  by (auto simp: axis_pls_def Let_def axis_load_last_def spi_healthy stop_impl_eq axis_completed_def fire_if_def
      ms41908m_port_set_event_notify_def ms41908m_queue_app_notify_def ms41908m_port_set_event_def set_event_def
      split: prod.split if_splits)
definition pls_if :: "event set \<Rightarrow> motor \<Rightarrow> ms \<Rightarrow> ms" where
  "pls_if bits m s = (if PLS m \<in> bits \<and> ax_state (axes s m) = STATE_RUNNING then snd (axis_pls m (SYS_OK, s)) else s)"

lemma pls_if_ok:
  assumes ok: "ms_ok h P s" and p: "m \<in> P \<longleftrightarrow> PLS m \<in> bits"
  defines "Q \<equiv> (if ax_state (axes s m) = STATE_RUNNING then P - {m} else P)"
  shows "ms_ok h Q (pls_if bits m s)" "m \<in> Q \<Longrightarrow> ax_state (axes (pls_if bits m s) m) \<noteq> STATE_RUNNING"
    "m' \<noteq> m \<Longrightarrow> ax_state (axes (pls_if bits m s) m') = ax_state (axes s m')"
    "ax_is_r_zero (axes (pls_if bits m s) n) = ax_is_r_zero (axes s n)"
    "s_rst (pls_if bits m s) = s_rst s"
proof -
  have e: "env_spi s = []" using ok by (simp add: ms_ok_def)
  have q: "P - {m} = P" if "m \<notin> P" using that by auto
  show "ms_ok h Q (pls_if bits m s)" using ok p pls_ok(1) [OF ok, of m] by (auto simp: Q_def pls_if_def q)
  show "m \<in> Q \<Longrightarrow> ax_state (axes (pls_if bits m s) m) \<noteq> STATE_RUNNING"
    by (auto simp: Q_def pls_if_def split: if_splits)
  show "m' \<noteq> m \<Longrightarrow> ax_state (axes (pls_if bits m s) m') = ax_state (axes s m')"
    "ax_is_r_zero (axes (pls_if bits m s) n) = ax_is_r_zero (axes s n)" "s_rst (pls_if bits m s) = s_rst s"
    using e by (simp_all add: pls_if_def pls_other pls_kept)
qed

lemma task_pulses_eq:
  assumes "ms_ok h {m. PLS m \<in> bits} s"
  shows "task_pulses bits s = (let t = pls_if bits ZOOM (pls_if bits FOCUS s) in
    if can_fire_vd_fz t \<and> any_running t then fire t else t)"
proof -
  define r1 where "r1 = (if PLS FOCUS \<in> bits \<and> ax_state (axes s FOCUS) = STATE_RUNNING
    then axis_pls FOCUS (SYS_OK, s) else (SYS_OK, s))"
  have "fst r1 = SYS_OK" using assms pls_ok(2) [OF assms, of FOCUS] by (auto simp: r1_def)
  moreover have "snd r1 = pls_if bits FOCUS s" by (simp add: r1_def pls_if_def)
  ultimately have r1: "r1 = (SYS_OK, pls_if bits FOCUS s)" by (metis prod.collapse)
  show ?thesis
    unfolding task_pulses_def
    by (auto simp: Let_def r1_def [symmetric] r1 pls_if_def [of bits ZOOM] fire_def ms41908m_port_output_vd_def)
qed

lemma task_pulses_ok:
  assumes ok: "ms_ok h {m. PLS m \<in> bits} s"
  shows "ms_ok h {} (task_pulses bits s)" "ax_is_r_zero (axes (task_pulses bits s) m) = ax_is_r_zero (axes s m)"
    "s_rst (task_pulses bits s) = s_rst s"
proof -
  define P where "P = {m. PLS m \<in> bits}"
  define s1 where "s1 = pls_if bits FOCUS s"
  define s2 where "s2 = pls_if bits ZOOM s1"
  define P1 where "P1 = (if ax_state (axes s FOCUS) = STATE_RUNNING then P - {FOCUS} else P)"
  define P2 where "P2 = (if ax_state (axes s1 ZOOM) = STATE_RUNNING then P1 - {ZOOM} else P1)"
  have ok: "ms_ok h P s" using ok by (simp add: P_def)
  have ok1: "ms_ok h P1 s1" and r1: "FOCUS \<in> P1 \<Longrightarrow> ax_state (axes s1 FOCUS) \<noteq> STATE_RUNNING"
    unfolding s1_def P1_def by (rule pls_if_ok [OF ok]; simp add: P_def)+
  have z: "ZOOM \<in> P1 \<longleftrightarrow> PLS ZOOM \<in> bits" by (simp add: P1_def P_def)
  have ok2: "ms_ok h P2 s2" and r2: "ZOOM \<in> P2 \<Longrightarrow> ax_state (axes s2 ZOOM) \<noteq> STATE_RUNNING"
    unfolding s2_def P2_def by (rule pls_if_ok [OF ok1 z]; simp)+
  have "ax_state (axes s2 FOCUS) = ax_state (axes s1 FOCUS)" unfolding s2_def by (rule pls_if_ok [OF ok1 z]) simp
  then have "m \<in> P2 \<Longrightarrow> ax_state (axes s2 m) \<noteq> STATE_RUNNING" for m
    using r1 r2 by (cases m) (auto simp: P2_def split: if_splits)
  then have "ms_ok h {} s2" by (rule pulses_dropped [OF ok2])
  moreover have e: "task_pulses bits s = (if can_fire_vd_fz s2 \<and> any_running s2 then fire s2 else s2)"
    using task_pulses_eq [of h bits s] ok by (simp add: Let_def s1_def s2_def P_def)
  ultimately show "ms_ok h {} (task_pulses bits s)" by (simp add: fire_ok)
  have "ax_is_r_zero (axes s2 m) = ax_is_r_zero (axes s m)" "s_rst s2 = s_rst s"
    using pls_if_ok(4,5) [OF ok1 z] pls_if_ok(4,5) [OF ok, of FOCUS bits] by (simp_all add: s1_def s2_def P_def)
  then show "ax_is_r_zero (axes (task_pulses bits s) m) = ax_is_r_zero (axes s m)" "s_rst (task_pulses bits s) = s_rst s"
    by (simp_all add: e)
qed

subsection \<open>The reset-zero part of the task\<close>

lemma finish_books:
  "same_books (s\<lparr>axes := (axes s)(rz_type (s_rst s) := (axes s (rz_type (s_rst s)))\<lparr>ax_state := STATE_STOPPED\<rparr>),
     s_rst := (s_rst s)\<lparr>rz_phase := RZ_IDLE, rz_abort_requested := False\<rparr>\<rparr>) (rz_finish err s)"
proof -
  define u where "u = s\<lparr>axes := (axes s)(rz_type (s_rst s) := (axes s (rz_type (s_rst s)))\<lparr>ax_state := STATE_STOPPED\<rparr>),
     s_rst := (s_rst s)\<lparr>rz_phase := RZ_IDLE, rz_abort_requested := False\<rparr>\<rparr>"
  have "rz_finish err s = (let m = rz_type (s_rst s); v = ms41908m_port_pi_irq_disable (ms41908m_port_clear_event (rz_events u) u)
    in ms41908m_port_set_event_notify (RESET_DONE m) err (v\<lparr>rst_last_result := (rst_last_result v)(m := err)\<rparr>))"
    by (simp add: rz_finish_def u_def Let_def set_state_def upd_axis_def)
  then show ?thesis unfolding u_def [symmetric] Let_def
    by (simp only: same_books_trans [OF same_books_trans [OF same_books_trans [OF books_kept(2) books_kept(10)]
        books_kept(9)] books_kept(5)])
qed

lemma reset_finish_ok:
  assumes ok: "ms_ok h {} s" and r: "resetting s m" and b: "\<not> batch_pending (axes s m)"
  shows "ms_ok h {} (rz_finish err s)" "rz_phase (s_rst (rz_finish err s)) = RZ_IDLE"
    "ax_is_r_zero (axes (rz_finish err s) m') = ax_is_r_zero (axes s m')" "rz_type (s_rst (rz_finish err s)) = m"
proof -
  have m: "rz_type (s_rst s) = m" using r by (simp add: resetting_def)
  let ?u = "s\<lparr>axes := (axes s)(m := (axes s m)\<lparr>ax_state := STATE_STOPPED\<rparr>),
     s_rst := (s_rst s)\<lparr>rz_phase := RZ_IDLE, rz_abort_requested := False\<rparr>\<rparr>"
  have "\<not> ax_is_r_zero (axes s m)" using ok r by (auto simp: ms_ok_def reset_ok_def)
  then have "ms_ok h {} (set_state m STATE_STOPPED s)" using ok b by (intro set_state_ok) simp_all
  then have "ms_ok h {} ?u" using ok by (auto simp: ms_ok_def reset_ok_def resetting_def neq_other)
  then show "ms_ok h {} (rz_finish err s)" using finish_books [of s err] m same_books_ok by blast
  show "rz_phase (s_rst (rz_finish err s)) = RZ_IDLE" "ax_is_r_zero (axes (rz_finish err s) m') = ax_is_r_zero (axes s m')"
    "rz_type (s_rst (rz_finish err s)) = m"
    using finish_books [of s err] m by (simp_all add: same_books_def)
qed

text \<open>Where each motor was homed, after a step.\<close>

definition rehome :: "(motor \<Rightarrow> int) \<Rightarrow> ms \<Rightarrow> ms \<Rightarrow> motor \<Rightarrow> int" where
  "rehome h s t m = (if ax_is_r_zero (axes t m) \<and> \<not> ax_is_r_zero (axes s m) then lens_at t m else h m)"

definition rz_good :: "(motor \<Rightarrow> int) \<Rightarrow> ms \<Rightarrow> ms \<Rightarrow> bool" where
  "rz_good h s t = (ms_ok (rehome h s t) {} t \<and> (\<forall>m. ax_is_r_zero (axes s m) \<longrightarrow> ax_is_r_zero (axes t m)) \<and>
     ((\<forall>m. ax_is_r_zero (axes t m) = ax_is_r_zero (axes s m)) \<or> rz_phase (s_rst t) = RZ_IDLE) \<and>
     (\<forall>m. ax_is_r_zero (axes t m) \<and> \<not> ax_is_r_zero (axes s m) \<longrightarrow> resetting s m) \<and>
     rz_type (s_rst t) = rz_type (s_rst s))"

lemma rehome_same: "(\<And>m. ax_is_r_zero (axes t m) \<Longrightarrow> ax_is_r_zero (axes s m)) \<Longrightarrow> rehome h s t = h"
  by (auto simp: rehome_def fun_eq_iff)

lemma rz_goodI: "ms_ok h {} t \<Longrightarrow> (\<And>m. ax_is_r_zero (axes t m) = ax_is_r_zero (axes s m)) \<Longrightarrow>
    rz_type (s_rst t) = rz_type (s_rst s) \<Longrightarrow> rz_good h s t"
  using rehome_same [of t s h] by (simp add: rz_good_def)

lemma resettingD:
  assumes "ms_ok h P s" "resetting s m"
  shows "\<not> ax_is_r_zero (axes s m)" "ax_state (axes s m) \<noteq> STATE_NO_CFG"
    "ax_state (axes s (other m)) \<noteq> STATE_RUNNING" "env_spi s = []" "rz_type (s_rst s) = m"
    "\<not> batch_pending (axes s (other m))" "ax_state (axes s m) \<noteq> STATE_RUNNING \<Longrightarrow> \<not> batch_pending (axes s m)"
    "start_safe m s"
proof -
  have r: "reset_ok s" and a: "\<And>m. batch_pending (axes s m) \<Longrightarrow> ax_state (axes s m) = STATE_RUNNING"
    using assms(1) by (auto simp: ms_ok_def axis_ok_def)
  show "\<not> ax_is_r_zero (axes s m)" "ax_state (axes s m) \<noteq> STATE_NO_CFG"
    "ax_state (axes s (other m)) \<noteq> STATE_RUNNING" "env_spi s = []" "rz_type (s_rst s) = m"
    using assms r by (auto simp: ms_ok_def reset_ok_def resetting_def)
  then show "\<not> batch_pending (axes s (other m))" "ax_state (axes s m) \<noteq> STATE_RUNNING \<Longrightarrow> \<not> batch_pending (axes s m)"
    using a by blast+
  show "start_safe m s" using assms(2) by (auto simp: start_safe_def resetting_def)
qed

lemma stop_if_running_ok:
  assumes ok: "ms_ok h {} s" and r: "resetting s m"
  shows "ms_ok h {} (rz_stop_if_running s)" "resetting (rz_stop_if_running s) m"
    "\<not> batch_pending (axes (rz_stop_if_running s) m)"
    "ax_is_r_zero (axes (rz_stop_if_running s) m') = ax_is_r_zero (axes s m')"
  using resettingD [OF ok r] r stop_ok [OF ok, of m] stop_facts(3,5) [of s m] r_zero_kept(1) [of s m m'] ok
  by (auto simp: rz_stop_if_running_def Let_def resetting_def)

lemma complete_err_ok:
  assumes ok: "ms_ok h {} s" and r: "resetting s m"
  shows "rz_good h s (ms41908m_reset_sm_complete_err_locked e s)"
proof -
  define t where "t = set_r_zero m False (rz_stop_if_running s)"
  have t: "ms_ok h {} t" "resetting t m" "\<not> batch_pending (axes t m)"
    using stop_if_running_ok [OF ok r] by (auto simp: t_def unhome_ok resetting_def batch_pending_def)
  have e: "ms41908m_reset_sm_complete_err_locked e s = rz_finish e t"
    using resettingD(5) [OF ok r] by (simp add: ms41908m_reset_sm_complete_err_locked_def Let_def t_def)
  have "ax_is_r_zero (axes t m') = ax_is_r_zero (axes s m')" for m'
    using stop_if_running_ok(4) [OF ok r, of m'] resettingD(1) [OF ok r] by (auto simp: t_def)
  then show ?thesis unfolding e by (intro rz_goodI) (simp_all add: reset_finish_ok [OF t] resettingD(5) [OF ok r])
qed

lemma complete_ok_ok:
  assumes ok: "ms_ok h {} s" and r: "resetting s m" and st: "ax_state (axes s m) \<noteq> STATE_RUNNING"
    and c: "chip_batch s m = None" "reg_batch (regs s (step_addr m)) = None" and g: "s_event_group s \<noteq> None"
  shows "rz_good h s (ms41908m_reset_sm_complete_ok_locked s)"
proof -
  note d = resettingD [OF ok r]
  define t where "t = upd_axis m (\<lambda>a. a\<lparr>ax_position := 0, ax_is_r_zero := True\<rparr>) s"
  define u where "u = t\<lparr>axes := (axes t)(m := (axes t m)\<lparr>ax_state := STATE_STOPPED\<rparr>),
     s_rst := (s_rst t)\<lparr>rz_phase := RZ_IDLE, rz_abort_requested := False\<rparr>\<rparr>"
  have e: "ms41908m_reset_sm_complete_ok_locked s = rz_finish SYS_OK t"
    using d(5) st by (simp add: ms41908m_reset_sm_complete_ok_locked_def Let_def t_def rz_stop_if_running_def)
  have b: "same_books u (rz_finish SYS_OK t)"
    unfolding u_def using finish_books [of t SYS_OK] d(5) by (simp add: t_def)
  have f: "rehome h s (rz_finish SYS_OK t) = h(m := lens_at s m)"
    using b d(1) by (auto simp: rehome_def fun_eq_iff same_books_def u_def t_def)
  have "axis_ok ((h(m := lens_at s m)) m') (m' \<in> {}) (axes u m') (regs u (step_addr m')) (chip_batch u m') (lens_at u m')" for m'
  proof (cases "m' = m")
    case True
    then show ?thesis using d(7) [OF st] c
      by (simp add: u_def t_def axis_ok_def homed_ok_def Let_def batch_pending_def) (simp add: s32_def)
  qed (use ok in \<open>simp add: u_def t_def ms_ok_def\<close>)
  moreover have "reset_ok u" using ok d(3) by (auto simp: u_def t_def ms_ok_def reset_ok_def resetting_def neq_other)
  ultimately have "ms_ok (h(m := lens_at s m)) {} u" using ok g by (auto simp: ms_ok_def u_def t_def)
  then show ?thesis unfolding e
    using same_books_ok [OF b] b r
    by (auto simp: rz_good_def f) (auto simp: same_books_def u_def t_def split: if_splits)
qed

lemma captured_ok:
  assumes ok: "ms_ok h {} s" and r: "resetting s m" and g: "s_event_group s \<noteq> None"
  shows "rz_good h s (rz_captured s)"
proof -
  note d = resettingD [OF ok r]
  define t where "t = snd (ms41908m_motor_stop_impl m s)"
  define u where "u = t\<lparr>s_rst := (s_rst t)\<lparr>rz_pi_triggered := True\<rparr>\<rparr>"
  define v where "v = ms41908m_port_clear_event (rz_events u) u"
  note f = stop_facts [OF d(4,2), folded t_def]
  have "ms_ok h {} t" unfolding t_def by (rule stop_ok [OF ok]) (simp add: d)
  then have "ms_ok h {} u" by (simp add: u_def ms_ok_def reset_ok_def resetting_def)
  then have v: "ms_ok h {} v" by (simp add: v_def books_ok)
  have b: "same_books u v" by (simp add: v_def)
  have "resetting v m" "ax_state (axes v m) \<noteq> STATE_RUNNING" "chip_batch v m = None"
    "reg_batch (regs v (step_addr m)) = None" "s_event_group v \<noteq> None"
    using b f r d(6) g by (simp_all add: same_books_def u_def resetting_def)
  then have "rz_good h v (ms41908m_reset_sm_complete_ok_locked v)" by (intro complete_ok_ok [OF v])
  moreover have "ax_is_r_zero (axes v m') = ax_is_r_zero (axes s m')" for m'
    using b f(4) by (simp add: same_books_def u_def)
  moreover have "rz_captured s = ms41908m_reset_sm_complete_ok_locked v"
    using d(5) by (simp add: rz_captured_def Let_def t_def u_def v_def)
  moreover have "resetting v = resetting s" "rz_type (s_rst v) = rz_type (s_rst s)"
    using b f(5) by (simp_all add: same_books_def u_def resetting_def [abs_def])
  ultimately show ?thesis by (simp add: rz_good_def rehome_def [abs_def])
qed

lemma set_phase_ok: "ms_ok h P s \<Longrightarrow> p \<noteq> RZ_IDLE \<Longrightarrow> rz_phase (s_rst s) \<noteq> RZ_IDLE \<Longrightarrow> ms_ok h P (set_phase p s)"
  by (simp add: ms_ok_def set_phase_def reset_ok_def resetting_def)

lemma set_phase_simps [simp]:
  "axes (set_phase p s) = axes s" "lens_at (set_phase p s) = lens_at s" "rz_phase (s_rst (set_phase p s)) = p"
  "rz_type (s_rst (set_phase p s)) = rz_type (s_rst s)"
  by (simp_all add: set_phase_def)

lemma rz_good_trans:
  assumes "\<And>m. ax_is_r_zero (axes s' m) = ax_is_r_zero (axes s m)" "rz_good h s' t"
    "rz_phase (s_rst s) \<noteq> RZ_IDLE" "rz_type (s_rst s') = rz_type (s_rst s)"
  shows "rz_good h s t"
  using assms by (simp add: rz_good_def rehome_def [abs_def] resetting_def [abs_def])

lemma start_phase_ok:
  assumes ok: "ms_ok h {} s" and r: "resetting s m" and p: "p \<noteq> RZ_IDLE"
  shows "rz_good h s (let (ret, s') = ms41908m_motor_start_impl m pps n s in
    if ret \<noteq> SYS_OK then ms41908m_reset_sm_complete_err_locked ret s' else set_phase p s')"
proof -
  note d = resettingD [OF ok r]
  obtain ret s' where e: "ms41908m_motor_start_impl m pps n s = (ret, s')" by (rule prod.exhaust)
  have s': "ms_ok h {} s'" using motor_start_ok [OF ok d(8), of pps n] by (simp add: e)
  have k: "ax_is_r_zero (axes s' m') = ax_is_r_zero (axes s m')" "s_rst s' = s_rst s" for m'
    using r_zero_kept(2,4) [OF d(4), of m pps n] by (simp_all add: e)
  have "resetting s' m" using r k by (simp add: resetting_def)
  then have "rz_good h s' (ms41908m_reset_sm_complete_err_locked ret s')" by (rule complete_err_ok [OF s'])
  moreover have "rz_good h s' (set_phase p s')"
    using s' p r k(2) by (intro rz_goodI set_phase_ok) (simp_all add: resetting_def)
  moreover have "rz_good h s' t \<Longrightarrow> rz_good h s t" for t
    using rz_good_trans [of s' s h t] k r by (simp add: resetting_def)
  ultimately show ?thesis by (simp add: e)
qed

lemma exit_low_start_ok:
  assumes ok: "ms_ok h {} s" and r: "resetting s m"
  shows "rz_good h s (rz_exit_low_start s)"
proof -
  have m: "rz_type (s_rst s) = m" and i: "rz_phase (s_rst s) \<noteq> RZ_IDLE" using r by (simp_all add: resetting_def)
  have a: "rz_good h s (ms41908m_reset_sm_complete_err_locked SYS_ERR_NOT_FINISHED s)"
    by (rule complete_err_ok [OF ok r])
  have b: "rz_good h s (set_phase RZ_CAPTURE_START s)" using ok i by (intro rz_goodI set_phase_ok) simp_all
  show ?thesis
    using a b start_phase_ok [OF ok r, of RZ_EXIT_LOW_WAIT RESET_FAST_PPS "ms41908m_rz_steps_to_clear_pi_locked s"]
    by (simp add: rz_exit_low_start_def m)
qed

lemma capture_start_ok:
  assumes ok: "ms_ok h {} s" and r: "resetting s m"
  shows "rz_good h s (rz_capture_start s)"
proof -
  define t where "t = ms41908m_port_clear_event (rz_events s) s"
  have t: "ms_ok h {} t" "resetting t m" "rz_type (s_rst t) = m"
    using ok r by (simp_all add: t_def books_ok resetting_def)
  have a: "rz_good h s (ms41908m_reset_sm_complete_err_locked SYS_ERR_NOT_FINISHED s)"
    by (rule complete_err_ok [OF ok r])
  have "rz_good h t (let (ret, s') = ms41908m_motor_start_impl m RESET_SLOW_PPS (ms41908m_rz_steps_to_home_edge_locked t) t in
      if ret \<noteq> SYS_OK then ms41908m_reset_sm_complete_err_locked ret s' else set_phase RZ_CAPTURE_WAIT s')"
    by (rule start_phase_ok [OF t(1,2)]) simp
  then have "rz_good h s (let (ret, s') = ms41908m_motor_start_impl m RESET_SLOW_PPS (ms41908m_rz_steps_to_home_edge_locked t) t in
      if ret \<noteq> SYS_OK then ms41908m_reset_sm_complete_err_locked ret s' else set_phase RZ_CAPTURE_WAIT s')"
    by (rule rz_good_trans [rotated]) (use r in \<open>simp_all add: t_def resetting_def\<close>)
  then show ?thesis using a t(3) unfolding rz_capture_start_def Let_def t_def [symmetric] by simp
qed

lemma wait_simps [simp]:
  "snd (ms41908m_port_wait_for_event msk False wa s) = s"
  "fst (ms41908m_port_wait_for_event msk False wa s) \<inter> e \<noteq> {} \<Longrightarrow> s_event_group s \<noteq> None"
  by (auto simp: ms41908m_port_wait_for_event_def Let_def split: option.splits)

lemma wait_poll: "\<exists>ev. ms41908m_port_wait_for_event msk False wa s = (ev, s) \<and> (ev \<noteq> {} \<longrightarrow> s_event_group s \<noteq> None)"
  by (auto simp: ms41908m_port_wait_for_event_def Let_def split: option.splits)

lemma exit_low_wait_ok:
  assumes ok: "ms_ok h {} s" and r: "resetting s m"
  shows "rz_good h s (rz_exit_low_wait s)"
proof -
  note d = resettingD [OF ok r]
  have i: "rz_phase (s_rst s) \<noteq> RZ_IDLE" using r by (simp add: resetting_def)
  define ce where "ce = rz_complete_event (s_rst s)"
  obtain ev where ev: "ms41908m_port_wait_for_event ce False False s = (ev, s)" using wait_poll by blast
  define u where "u = (if ev \<inter> ce \<noteq> {} then ms41908m_port_clear_event ce s else s)"
  have u: "ms_ok h {} u" "resetting u m" "axes u = axes s" "rz_phase (s_rst u) \<noteq> RZ_IDLE"
    using ok r i by (simp_all add: u_def books_ok resetting_def)
  define t where "t = snd (ms41908m_motor_stop_impl m s)"
  have t: "ms_ok h {} t" "s_rst t = s_rst s" "\<And>m'. ax_is_r_zero (axes t m') = ax_is_r_zero (axes s m')"
    unfolding t_def using stop_ok [OF ok, of m] d(1) r_zero_kept(1,3) [OF d(4)] by auto
  have "rz_good h s (set_phase RZ_CAPTURE_START (ms41908m_port_clear_event (rz_events t) t))"
    using t i by (intro rz_goodI set_phase_ok) (simp_all add: books_ok)
  moreover have "rz_good h s (ms41908m_reset_sm_complete_err_locked SYS_ERR_NOT_FINISHED s)"
    by (rule complete_err_ok [OF ok r])
  moreover have "rz_good h u (ms41908m_reset_sm_complete_err_locked SYS_ERR_TIMEOUT u)"
    by (rule complete_err_ok [OF u(1,2)])
  then have "rz_good h s (ms41908m_reset_sm_complete_err_locked SYS_ERR_TIMEOUT u)"
    by (rule rz_good_trans [rotated]) (use r u(2) in \<open>simp_all add: u(3) resetting_def\<close>)
  moreover have "rz_good h s u" "rz_good h s (set_phase RZ_CAPTURE_START u)"
    using u d(5) by (auto simp: resetting_def intro!: rz_goodI set_phase_ok)
  ultimately show ?thesis
    unfolding rz_exit_low_wait_def Let_def d(5) ce_def [symmetric] ev
    by (simp add: t_def [symmetric] u_def [symmetric])
qed

lemma capture_wait_ok:
  assumes ok: "ms_ok h {} s" and r: "resetting s m"
  shows "rz_good h s (rz_capture_wait s)"
proof -
  note d = resettingD [OF ok r]
  define pe where "pe = rz_pi_event (s_rst s)"
  define ce where "ce = rz_complete_event (s_rst s)"
  obtain ev where ev: "ms41908m_port_wait_for_event (pe \<union> ce) False False s = (ev, s)"
    and g: "ev \<noteq> {} \<longrightarrow> s_event_group s \<noteq> None" using wait_poll by blast
  define u where "u = ms41908m_port_clear_event ce s"
  have u: "ms_ok h {} u" "resetting u m" "axes u = axes s"
    using ok r by (simp_all add: u_def books_ok resetting_def)
  have "rz_good h s (ms41908m_reset_sm_complete_err_locked SYS_ERR_NOT_FINISHED s)"
    by (rule complete_err_ok [OF ok r])
  moreover have "rz_good h u (ms41908m_reset_sm_complete_err_locked SYS_ERR_TIMEOUT u)"
    by (rule complete_err_ok [OF u(1,2)])
  then have "rz_good h s (ms41908m_reset_sm_complete_err_locked SYS_ERR_TIMEOUT u)"
    by (rule rz_good_trans [rotated]) (use r u(2) in \<open>simp_all add: u(3) resetting_def\<close>)
  moreover have "ev \<inter> pe \<noteq> {} \<Longrightarrow> rz_good h s (rz_captured s)"
    by (rule captured_ok [OF ok r]) (use g in auto)
  moreover have "rz_good h s u" "rz_good h s s" using u ok d(5) by (auto simp: resetting_def intro!: rz_goodI)
  ultimately show ?thesis
    unfolding rz_capture_wait_def Let_def d(5) pe_def [symmetric] ce_def [symmetric] ev
    by (simp add: u_def [symmetric])
qed

lemma step_once_ok:
  assumes "ms_ok h {} s" "rz_phase (s_rst s) \<noteq> RZ_IDLE"
  shows "rz_good h s (ms41908m_reset_sm_step_once_locked s)"
proof -
  have r: "resetting s (rz_type (s_rst s))" using assms(2) by (simp add: resetting_def)
  show ?thesis
    using assms(2) exit_low_start_ok [OF assms(1) r] exit_low_wait_ok [OF assms(1) r] capture_start_ok [OF assms(1) r]
      capture_wait_ok [OF assms(1) r]
    by (simp add: ms41908m_reset_sm_step_once_locked_def split: rz_phase.split)
qed

lemma rz_steps_idle: "rz_phase (s_rst s) = RZ_IDLE \<Longrightarrow> rz_steps n s = s"
  by (cases n) simp_all

lemma rz_steps_ok: "ms_ok h {} s \<Longrightarrow> rz_good h s (rz_steps n s)"
proof (induction n arbitrary: s)
  case 0
  then show ?case by (simp add: rz_goodI)
next
  case (Suc n)
  show ?case
  proof (cases "rz_phase (s_rst s) = RZ_IDLE")
    case True
    then show ?thesis using Suc.prems by (simp add: rz_goodI)
  next
    case False
    define t where "t = ms41908m_reset_sm_step_once_locked s"
    have t: "rz_good h s t" unfolding t_def by (rule step_once_ok [OF Suc.prems False])
    show ?thesis
    proof (cases "rz_phase (s_rst t) = RZ_IDLE")
      case True
      then show ?thesis using t False by (simp add: t_def rz_steps_idle)
    next
      case f: False
      then have k: "ax_is_r_zero (axes t m) = ax_is_r_zero (axes s m)" for m using t by (auto simp: rz_good_def)
      then have "ms_ok h {} t" using t rehome_same [of t s h] by (simp add: rz_good_def)
      then have "rz_good h t (rz_steps n t)" by (rule Suc.IH)
      then have "rz_good h s (rz_steps n t)"
        by (rule rz_good_trans [rotated]) (use k t False in \<open>simp_all add: rz_good_def\<close>)
      then show ?thesis using False by (simp add: t_def)
    qed
  qed
qed

subsection \<open>A turn of the task\<close>

definition pulses :: "ms \<Rightarrow> motor set" where
  "pulses s = {m. \<exists>g. s_event_group s = Some g \<and> PLS m \<in> g}"

lemma before_pulses:
  assumes ok: "ms_ok h P s"
  defines "s1 \<equiv> (if rz_phase (s_rst s) = RZ_IDLE then axis_timeout ZOOM (axis_timeout FOCUS s) else s)"
  shows "ms_ok h P s1" "ax_is_r_zero (axes s1 m) \<Longrightarrow> ax_is_r_zero (axes s m)"
    "resetting s1 m \<Longrightarrow> \<not> ax_is_r_zero (axes s m)"
    "ax_state (axes s1 m) = STATE_RESET_ZERO \<Longrightarrow> \<not> ax_is_r_zero (axes s m)"
proof -
  have z: "ax_state (axes s m) = STATE_RESET_ZERO \<Longrightarrow> \<not> ax_is_r_zero (axes s m)" for m
    using ok by (auto simp: ms_ok_def axis_ok_def homed_ok_def Let_def dest!: spec [of _ m])
  note a = timeout_ok [OF ok, of FOCUS]
  note b = timeout_ok [OF a(1), of ZOOM]
  show "ms_ok h P s1" "ax_is_r_zero (axes s1 m) \<Longrightarrow> ax_is_r_zero (axes s m)"
    "resetting s1 m \<Longrightarrow> \<not> ax_is_r_zero (axes s m)"
    "ax_state (axes s1 m) = STATE_RESET_ZERO \<Longrightarrow> \<not> ax_is_r_zero (axes s m)"
    unfolding s1_def using a b z resettingD(1) [OF ok] ok by (auto simp: resetting_def split: if_splits)
qed

lemma arm_if_ok:
  fixes a :: motor and bits :: "event set"
  assumes ok: "ms_ok h P s"
    and h: "\<And>m. ax_is_r_zero (axes s m) \<Longrightarrow> Q m" "\<And>m. resetting s m \<Longrightarrow> R m"
      "\<And>m. ax_state (axes s m) = STATE_RESET_ZERO \<Longrightarrow> R m"
  defines "t \<equiv> (if REQ_RESET a \<in> bits then ms41908m_port_clear_event {REQ_RESET a} (ms41908m_reset_sm_try_arm_locked a s) else s)"
  shows "ms_ok h P t" "ax_is_r_zero (axes t m) \<Longrightarrow> Q m" "resetting t m \<Longrightarrow> R m"
    "ax_state (axes t m) = STATE_RESET_ZERO \<Longrightarrow> R m"
  unfolding t_def using try_arm_ok [OF ok, of a] ok h by (auto simp: books_ok resetting_def split: if_splits)

lemma task_body_ok:
  assumes ok: "ms_ok h {m. PLS m \<in> bits} s"
  shows "ms_ok (rehome h s (task_body {} bits s)) {} (task_body {} bits s)"
proof -
  define s1 where "s1 = (if rz_phase (s_rst s) = RZ_IDLE then axis_timeout ZOOM (axis_timeout FOCUS s) else s)"
  define s2 where "s2 = (if REQ_RESET ZOOM \<in> bits
    then ms41908m_port_clear_event {REQ_RESET ZOOM} (ms41908m_reset_sm_try_arm_locked ZOOM s1) else s1)"
  define s3 where "s3 = (if REQ_RESET FOCUS \<in> bits
    then ms41908m_port_clear_event {REQ_RESET FOCUS} (ms41908m_reset_sm_try_arm_locked FOCUS s2) else s2)"
  define s4 where "s4 = (if PLS FOCUS \<in> bits \<or> PLS ZOOM \<in> bits then task_pulses bits s3 else s3)"
  define s5 where "s5 = set_event {} s4"
  define s6 where "s6 = (if PLS FOCUS \<in> bits \<or> PLS ZOOM \<in> bits
    then ms41908m_port_clear_event {PLS FOCUS, PLS ZOOM} s5 else s5)"
  have e: "task_body {} bits s = rz_steps 32 s6"
    unfolding task_body_def Let_def s1_def [symmetric] ms41908m_reset_sm_try_arm_zoom_locked_def s2_def [symmetric]
      ms41908m_reset_sm_try_arm_focus_locked_def s3_def [symmetric] s4_def [symmetric] s5_def [symmetric]
      s6_def [symmetric] ms41908m_reset_sm_run_locked_def
    by (simp add: rz_steps_idle)
  have 1: "ms_ok h {m. PLS m \<in> bits} s1" "\<And>m. ax_is_r_zero (axes s1 m) \<Longrightarrow> ax_is_r_zero (axes s m)"
    "\<And>m. resetting s1 m \<Longrightarrow> \<not> ax_is_r_zero (axes s m)"
    "\<And>m. ax_state (axes s1 m) = STATE_RESET_ZERO \<Longrightarrow> \<not> ax_is_r_zero (axes s m)"
    unfolding s1_def by (rule before_pulses [OF ok]; assumption)+
  have 2: "ms_ok h {m. PLS m \<in> bits} s2" "\<And>m. ax_is_r_zero (axes s2 m) \<Longrightarrow> ax_is_r_zero (axes s m)"
    "\<And>m. resetting s2 m \<Longrightarrow> \<not> ax_is_r_zero (axes s m)"
    "\<And>m. ax_state (axes s2 m) = STATE_RESET_ZERO \<Longrightarrow> \<not> ax_is_r_zero (axes s m)"
    unfolding s2_def by (rule arm_if_ok [OF 1, where a = ZOOM]; assumption)+
  have 3: "ms_ok h {m. PLS m \<in> bits} s3" "\<And>m. ax_is_r_zero (axes s3 m) \<Longrightarrow> ax_is_r_zero (axes s m)"
    "\<And>m. resetting s3 m \<Longrightarrow> \<not> ax_is_r_zero (axes s m)"
    unfolding s3_def by (rule arm_if_ok [OF 2, where a = FOCUS]; assumption)+
  have "ms_ok h {} s4 \<and> (\<forall>m. ax_is_r_zero (axes s4 m) \<longrightarrow> ax_is_r_zero (axes s3 m)) \<and> s_rst s4 = s_rst s3"
  proof (cases "PLS FOCUS \<in> bits \<or> PLS ZOOM \<in> bits")
    case False
    then have "PLS m \<notin> bits" for m by (cases m) simp_all
    then have "{m. PLS m \<in> bits} = {}" by simp
    then show ?thesis using 3 False by (simp add: s4_def)
  qed (use task_pulses_ok [OF 3(1)] in \<open>simp add: s4_def\<close>)
  moreover have b: "same_books s4 s6"
    using same_books_trans [OF books_kept(1) [of s4 "{}"] books_kept(2)] by (simp add: s6_def s5_def)
  ultimately have 6: "ms_ok h {} s6" "\<And>m. ax_is_r_zero (axes s6 m) \<Longrightarrow> ax_is_r_zero (axes s m)"
    "\<And>m. resetting s6 m \<Longrightarrow> \<not> ax_is_r_zero (axes s m)"
    using 3 same_books_ok [OF b] by (auto simp: same_books_def resetting_def)
  have g: "rz_good h s6 (rz_steps 32 s6)" by (rule rz_steps_ok [OF 6(1)])
  have "rehome h s6 (rz_steps 32 s6) = rehome h s (rz_steps 32 s6)"
    using g 6(2,3) by (auto simp: rz_good_def rehome_def fun_eq_iff)
  then show ?thesis using g by (simp add: e rz_good_def)
qed

subsection \<open>Only the chip raises pulse events\<close>

lemma pulses_simps [simp]:
  "pulses (set_event e s) = (if s_event_group s = None then {} else pulses s \<union> {m. PLS m \<in> e})"
  "pulses (ms41908m_port_clear_event e s) = pulses s - {m. PLS m \<in> e}"
  "pulses (snd (ms41908m_port_set_event e s)) = (if s_event_group s = None then {} else pulses s \<union> {m. PLS m \<in> e})"
  "pulses (ms41908m_port_set_event_notify f r s) = (if s_event_group s = None then {} else pulses s \<union> {m. PLS m = f})"
  "pulses (s\<lparr>rst_last_result := l\<rparr>) = pulses s" "pulses (upd_axis m g s) = pulses s" "pulses (s\<lparr>s_rst := q\<rparr>) = pulses s"
  "pulses (set_state m x s) = pulses s" "pulses (set_r_zero m v s) = pulses s" "pulses (set_phase p s) = pulses s"
  "pulses (ms41908m_port_pi_irq_disable s) = pulses s" "pulses (ms41908m_port_pi_irq_enable s) = pulses s"
  "pulses (ms41908m_dispatch_pending_app_events s) = pulses s" "pulses (snd (ms41908m_port_lock s)) = pulses s"
  by (auto simp: pulses_def set_event_def ms41908m_port_clear_event_def ms41908m_port_set_event_def
      ms41908m_port_set_event_notify_def ms41908m_queue_app_notify_def set_state_def set_r_zero_def set_phase_def
      ms41908m_port_pi_irq_disable_def ms41908m_port_pi_irq_enable_def ms41908m_dispatch_pending_app_events_def
      ms41908m_port_lock_def split: option.splits)

lemma pulses_stop [simp]: "pulses (snd (ms41908m_motor_stop_impl m s)) = pulses s"
  by (auto simp: ms41908m_motor_stop_impl_def Let_def ms41908m_port_read_def ms41908m_port_write_def spi_next_def
      pulses_def set_state_def upd_axis_def ms41908m_port_output_vd_def fire_def [symmetric] split: prod.splits)

lemma pulses_start [simp]: "pulses (snd (ms41908m_motor_start_impl m pps n s)) = pulses s"
  by (auto simp: ms41908m_motor_start_impl_def Let_def ms41908m_port_read_def ms41908m_port_write_def spi_next_def
      pulses_def set_state_def upd_axis_def ms41908m_port_output_vd_def fire_def [symmetric] invalidate_run_def
      ms41908m_port_clear_event_def split: prod.splits)

lemma pulses_timeout: "pulses (axis_timeout m s) \<subseteq> pulses s"
  by (auto simp: axis_timeout_def Let_def)

lemma pulses_arm: "pulses (ms41908m_reset_sm_try_arm_locked m s) \<subseteq> pulses s"
  by (auto simp: ms41908m_reset_sm_try_arm_locked_def Let_def ms41908m_reset_sm_arm_locked_def)

lemma pulses_completed: "pulses (axis_completed m s) \<subseteq> pulses s"
  by (auto simp: axis_completed_def Let_def)

lemma pulses_regs [simp]: "pulses (s\<lparr>regs := r\<rparr>) = pulses s"
  by (simp add: pulses_def)

lemma pulses_load_last: "axis_load_last m s = (a, b) \<Longrightarrow> pulses b = pulses s"
  by (auto simp: axis_load_last_def Let_def ms41908m_port_read_def ms41908m_port_write_def spi_next_def pulses_def
      split: prod.splits if_splits)

lemma pulses_pls: "pulses (snd (axis_pls m (r, s))) \<subseteq> pulses s"
  by (auto simp: axis_pls_def Let_def split: prod.splits if_splits
      dest!: pulses_load_last subsetD [OF pulses_completed])

lemma pulses_fire [simp]: "pulses (fire s) = pulses s"
  by (simp add: pulses_def)

lemma pulses_finish: "pulses (rz_finish err s) \<subseteq> pulses s"
  by (auto simp: rz_finish_def Let_def)

lemma pulses_stop_if [simp]: "pulses (rz_stop_if_running s) = pulses s"
  by (simp add: rz_stop_if_running_def Let_def)

lemma pulses_err: "pulses (ms41908m_reset_sm_complete_err_locked e s) \<subseteq> pulses s"
  unfolding ms41908m_reset_sm_complete_err_locked_def Let_def by (rule order.trans [OF pulses_finish]) simp

lemma pulses_ok: "pulses (ms41908m_reset_sm_complete_ok_locked s) \<subseteq> pulses s"
  unfolding ms41908m_reset_sm_complete_ok_locked_def Let_def by (rule order.trans [OF pulses_finish]) simp

lemma pulses_captured: "pulses (rz_captured s) \<subseteq> pulses s"
  unfolding rz_captured_def Let_def by (rule order.trans [OF pulses_ok]) auto

lemma pulses_start_phase:
  "pulses (let (ret, s') = ms41908m_motor_start_impl m pps n s in
     if ret \<noteq> SYS_OK then ms41908m_reset_sm_complete_err_locked ret s' else set_phase p s') \<subseteq> pulses s"
proof -
  obtain ret s' where e: "ms41908m_motor_start_impl m pps n s = (ret, s')" by (rule prod.exhaust)
  have "pulses s' \<subseteq> pulses s" using pulses_start [of m pps n s] by (simp add: e)
  then show ?thesis using pulses_err [of ret s'] by (auto simp: e)
qed

lemma pulses_step_once: "pulses (ms41908m_reset_sm_step_once_locked s) \<subseteq> pulses s"
proof -
  let ?c = "ms41908m_port_clear_event (rz_events s) s"
  have a: "pulses (rz_exit_low_start s) \<subseteq> pulses s"
    using pulses_err [of SYS_ERR_NOT_FINISHED s] pulses_start_phase [of "rz_type (s_rst s)" RESET_FAST_PPS
        "ms41908m_rz_steps_to_clear_pi_locked s" s RZ_EXIT_LOW_WAIT]
    by (simp add: rz_exit_low_start_def)
  have b: "pulses (rz_capture_start s) \<subseteq> pulses s"
    using pulses_err [of SYS_ERR_NOT_FINISHED s] pulses_start_phase [of "rz_type (s_rst s)" RESET_SLOW_PPS
        "ms41908m_rz_steps_to_home_edge_locked ?c" ?c RZ_CAPTURE_WAIT]
    by (auto simp: rz_capture_start_def Let_def)
  let ?pe = "rz_pi_event (s_rst s)" and ?ce = "rz_complete_event (s_rst s)"
  obtain ev where w: "ms41908m_port_wait_for_event ?ce False False s = (ev, s)" using wait_poll by blast
  obtain ev' where w': "ms41908m_port_wait_for_event (?pe \<union> ?ce) False False s = (ev', s)" using wait_poll by blast
  have c: "pulses (rz_exit_low_wait s) \<subseteq> pulses s"
    using pulses_err [of SYS_ERR_NOT_FINISHED s] pulses_err [of SYS_ERR_TIMEOUT s]
      pulses_err [of SYS_ERR_TIMEOUT "ms41908m_port_clear_event (rz_complete_event (s_rst s)) s"]
    by (auto simp: rz_exit_low_wait_def Let_def w)
  have d: "pulses (rz_capture_wait s) \<subseteq> pulses s"
    using pulses_err [of SYS_ERR_NOT_FINISHED s] pulses_captured [of s]
      pulses_err [of SYS_ERR_TIMEOUT "ms41908m_port_clear_event (rz_complete_event (s_rst s)) s"]
    by (auto simp: rz_capture_wait_def Let_def w')
  show ?thesis using a b c d by (simp add: ms41908m_reset_sm_step_once_locked_def split: rz_phase.split)
qed

lemma pulses_rz_steps: "pulses (rz_steps n s) \<subseteq> pulses s"
  by (induction n arbitrary: s) (auto dest: subsetD [OF pulses_step_once])

lemma pulses_task_pulses: "pulses (task_pulses bits s) \<subseteq> pulses s"
proof -
  define r1 where "r1 = (if PLS FOCUS \<in> bits \<and> ax_state (axes s FOCUS) = STATE_RUNNING
    then axis_pls FOCUS (SYS_OK, s) else (SYS_OK, s))"
  define r2 where "r2 = (if PLS ZOOM \<in> bits \<and> ax_state (axes (snd r1) ZOOM) = STATE_RUNNING
    then axis_pls ZOOM r1 else r1)"
  have "pulses (snd r1) \<subseteq> pulses s" by (simp add: r1_def pulses_pls)
  moreover have "pulses (snd r2) \<subseteq> pulses (snd r1)"
    using pulses_pls [of ZOOM "fst r1" "snd r1"] by (simp add: r2_def)
  moreover have "task_pulses bits s = (if can_fire_vd_fz (snd r2) \<and> any_running (snd r2) then fire (snd r2) else snd r2)"
    unfolding task_pulses_def Let_def snd_conv r1_def [symmetric] r2_def [symmetric] fire_def ms41908m_port_output_vd_def ..
  ultimately show ?thesis by auto
qed

lemma task_body_pulses:
  assumes "pulses s = {m. PLS m \<in> bits}"
  shows "pulses (task_body {} bits s) = {}"
proof -
  define s1 where "s1 = (if rz_phase (s_rst s) = RZ_IDLE then axis_timeout ZOOM (axis_timeout FOCUS s) else s)"
  define s2 where "s2 = (if REQ_RESET ZOOM \<in> bits
    then ms41908m_port_clear_event {REQ_RESET ZOOM} (ms41908m_reset_sm_try_arm_locked ZOOM s1) else s1)"
  define s3 where "s3 = (if REQ_RESET FOCUS \<in> bits
    then ms41908m_port_clear_event {REQ_RESET FOCUS} (ms41908m_reset_sm_try_arm_locked FOCUS s2) else s2)"
  define p where "p = (PLS FOCUS \<in> bits \<or> PLS ZOOM \<in> bits)"
  define s4 where "s4 = (if p then task_pulses bits s3 else s3)"
  define s6 where "s6 = (if p then ms41908m_port_clear_event {PLS FOCUS, PLS ZOOM} (set_event {} s4) else set_event {} s4)"
  have e: "task_body {} bits s = (if rz_phase (s_rst s6) \<noteq> RZ_IDLE then rz_steps 32 s6 else s6)"
    unfolding task_body_def Let_def s1_def [symmetric] ms41908m_reset_sm_try_arm_zoom_locked_def s2_def [symmetric]
      ms41908m_reset_sm_try_arm_focus_locked_def s3_def [symmetric] p_def [symmetric] s4_def [symmetric]
      s6_def [symmetric] ms41908m_reset_sm_run_locked_def ..
  have "pulses s1 \<subseteq> pulses s" using pulses_timeout by (auto simp: s1_def dest!: subsetD [OF pulses_timeout])
  moreover have "pulses s2 \<subseteq> pulses s1" "pulses s3 \<subseteq> pulses s2"
    by (auto simp: s2_def s3_def dest!: subsetD [OF pulses_arm])
  moreover have "pulses s4 \<subseteq> pulses s3" by (simp add: s4_def pulses_task_pulses)
  moreover have "pulses s = {}" if "\<not> p"
  proof -
    have "PLS m \<notin> bits" for m using that by (cases m) (simp_all add: p_def)
    then show ?thesis using assms by simp
  qed
  moreover have "x = FOCUS \<or> x = ZOOM" for x by (cases x) simp_all
  ultimately have "pulses s6 = {}" by (cases p) (auto simp: s6_def split: if_splits)
  then show ?thesis using pulses_rz_steps [of 32 s6] by (simp add: e)
qed

end
