(* ===== verification/Ms41908m_Reach.thy ===== *)
theory Ms41908m_Reach
  imports Ms41908m_Task
begin

text \<open>
  The steps of the driver and its surroundings, the states they reach, and the
  invariant of \<open>Ms41908m_Inv\<close> in all of them.
\<close>

subsection \<open>Public operations\<close>

definition keeps :: "(motor \<Rightarrow> int) \<Rightarrow> ms \<Rightarrow> ms \<Rightarrow> bool" where
  "keeps h s t = (ms_ok h (pulses s) t \<and> pulses t = pulses s
     \<and> (\<forall>m. ax_is_r_zero (axes t m) \<longrightarrow> ax_is_r_zero (axes s m)))"

lemma keeps_refl: "ms_ok h (pulses s) s \<Longrightarrow> keeps h s s"
  by (simp add: keeps_def)

lemma keeps_trans: "keeps h s t \<Longrightarrow> keeps h t u \<Longrightarrow> keeps h s u"
  by (auto simp: keeps_def)

lemma keeps_books:
  "ms_ok h (pulses s) s \<Longrightarrow> same_books s t \<Longrightarrow> pulses t = pulses s \<Longrightarrow> keeps h s t"
  by (auto simp: keeps_def same_books_ok) (simp add: same_books_def)

lemma lock_facts:
  "axes (snd (ms41908m_port_lock s)) = axes s" "s_rst (snd (ms41908m_port_lock s)) = s_rst s"
  "is_initialized (snd (ms41908m_port_lock s)) = is_initialized s"
  by (simp_all add: ms41908m_port_lock_def)

lemma keeps_lock: "ms_ok h (pulses s) s \<Longrightarrow> keeps h s (snd (ms41908m_port_lock s))"
  by (rule keeps_books) simp_all

lemma handler_ok:
  assumes ok: "ms_ok h (pulses s) s"
  defines "t \<equiv> ms41908m_motor_task_handler {} s"
  shows "ms_ok (rehome h s t) (pulses t) t"
proof -
  obtain bits where b: "ms41908m_port_wait_for_event (task_wait_mask s) False False s = (bits, s)"
    using wait_poll by blast
  then have p: "pulses s = {m. PLS m \<in> bits}"
    by (cases "s_event_group s")
      (auto simp: ms41908m_port_wait_for_event_def task_wait_mask_def pulses_def Let_def split: if_splits,
        (case_tac x; simp)+)
  obtain ret s1 where l: "ms41908m_port_lock s = (ret, s1)" by (rule prod.exhaust)
  have k: "keeps h s s1" "axes s1 = axes s" using keeps_lock [OF ok] lock_facts(1) [of s] by (simp_all add: l)
  show ?thesis
  proof (cases "ret = SYS_OK")
    case False
    then have t: "t = set_event {} s1" by (simp add: t_def ms41908m_motor_task_handler_def b l)
    have "rehome h s t = h" by (rule rehome_same) (simp add: t k)
    moreover have "pulses s1 = pulses s" "ms_ok h (pulses s) s1" using k by (simp_all add: keeps_def)
    moreover have "s_event_group s1 = None \<Longrightarrow> pulses s1 = {}" by (simp add: pulses_def)
    ultimately show ?thesis by (auto simp: t books_ok)
  next
    case True
    define u where "u = task_body {} bits s1"
    have t: "t = ms41908m_dispatch_pending_app_events u"
      using True by (simp add: t_def ms41908m_motor_task_handler_def b l u_def)
    have s1: "ms_ok h {m. PLS m \<in> bits} s1" "pulses s1 = {m. PLS m \<in> bits}" using k p by (simp_all add: keeps_def)
    have "rehome h s t = rehome h s1 u" by (simp add: t rehome_def fun_eq_iff k)
    then show ?thesis
      using task_body_ok [OF s1(1)] task_body_pulses [OF s1(2)] by (simp add: t u_def books_ok)
  qed
qed

lemma keeps_start: "ms_ok h (pulses s) s \<Longrightarrow> start_safe m s \<Longrightarrow> keeps h s (snd (ms41908m_motor_start_impl m pps n s))"
proof -
  assume a: "ms_ok h (pulses s) s" "start_safe m s"
  have "env_spi s = []" using a(1) by (simp add: ms_ok_def)
  then show ?thesis using motor_start_ok [OF a] r_zero_kept(2) by (simp add: keeps_def)
qed

lemma run_keeps:
  assumes ok: "ms_ok h (pulses s) s" and g: "ax_state (axes s (other m)) \<noteq> STATE_RESET_ZERO"
  shows "keeps h s (snd (axis_run m pps n s))" "keeps h s (snd (axis_run_to_position m pps n s))"
proof -
  obtain ret s1 where l: "ms41908m_port_lock s = (ret, s1)" by (rule prod.exhaust)
  have k: "keeps h s s1" "axes s1 = axes s" "s_rst s1 = s_rst s"
    using keeps_lock [OF ok] lock_facts(1,2) [of s] by (simp_all add: l)
  have ok1: "ms_ok h (pulses s1) s1" using k by (simp add: keeps_def)
  have "keeps h s (snd (ms41908m_motor_start_impl m pps n s1))" if "\<not> axis_busy m s1" for n
  proof (rule keeps_trans [OF k(1)], rule keeps_start [OF ok1])
    show "start_safe m s1"
      using that g k by (simp add: start_safe_def axis_busy_def ms41908m_reset_sm_active_def resetting_def)
  qed
  then show "keeps h s (snd (axis_run m pps n s))" "keeps h s (snd (axis_run_to_position m pps n s))"
    using k(1) keeps_refl [OF ok] by (simp_all add: axis_run_def axis_run_to_position_def l Let_def)
qed

lemma stop_keeps:
  assumes ok: "ms_ok h (pulses s) s"
  shows "keeps h s (snd (axis_stop m s))"
proof -
  obtain ret s1 where l: "ms41908m_port_lock s = (ret, s1)" by (rule prod.exhaust)
  have k: "keeps h s s1" "axes s1 = axes s" using keeps_lock [OF ok] lock_facts(1) [of s] by (simp_all add: l)
  have ok1: "ms_ok h (pulses s1) s1" using k by (simp add: keeps_def)
  define s2 where "s2 = (if rz_phase (s_rst s1) \<noteq> RZ_IDLE \<and> rz_type (s_rst s1) = m
    then s1\<lparr>s_rst := (s_rst s1)\<lparr>rz_abort_requested := True\<rparr>\<rparr> else s1)"
  have ok2: "ms_ok h (pulses s1) s2" using ok1 by (simp add: s2_def ms_ok_def reset_ok_def resetting_def)
  have a2: "axes s2 = axes s1" "pulses s2 = pulses s1" by (simp_all add: s2_def)
  define t where "t = snd (ms41908m_motor_stop_impl m s2)"
  have e: "env_spi s2 = []" using ok2 by (simp add: ms_ok_def)
  have f: "fst (ms41908m_motor_stop_impl m s2) = SYS_OK" using e by (simp add: stop_impl_eq)
  have z: "ax_is_r_zero (axes t m') = ax_is_r_zero (axes s1 m')" for m'
    using r_zero_kept(1) [OF e] by (simp add: t_def a2)
  have "ms_ok h (pulses s1) (if ax_state (axes s1 m) = STATE_RUNNING then set_r_zero m False t else t)"
  proof (cases "ax_state (axes s1 m) = STATE_RUNNING")
    case True
    then show ?thesis using stop_unhome_ok [OF ok2] by (simp add: t_def)
  next
    case False
    have "ms_ok h (pulses s1) t" unfolding t_def
    proof (rule stop_ok [OF ok2])
      assume "ax_is_r_zero (axes s2 m)"
      moreover have "axis_ok (h m) (m \<in> pulses s1) (axes s2 m) (regs s2 (step_addr m)) (chip_batch s2 m) (lens_at s2 m)"
        using ok2 by (simp add: ms_ok_def)
      ultimately show "chip_batch s2 m = None \<and> m \<notin> pulses s1 \<and> ax_position (axes s2 m) = s32 (lens_at s2 m - h m)"
        using False by (auto simp: axis_ok_def homed_ok_def Let_def a2 split: ms_state.splits)
    qed
    then show ?thesis using False by simp
  qed
  then have "keeps h s1 (if ax_state (axes s1 m) = STATE_RUNNING then set_r_zero m False t else t)"
    using z by (auto simp: keeps_def t_def a2)
  moreover obtain r u where u: "ms41908m_motor_stop_impl m s2 = (r, u)" by (rule prod.exhaust)
  ultimately show ?thesis using keeps_trans [OF k(1)] keeps_refl [OF ok] k(1) f
    unfolding axis_stop_def l Let_def case_prod_conv s2_def [symmetric]
    by (auto simp: u t_def split: if_splits)
qed
lemma reset_zero_keeps:
  assumes ok: "ms_ok h (pulses s) s"
  shows "keeps h s (snd (axis_reset_zero m s))"
proof -
  obtain ret s1 where l: "ms41908m_port_lock s = (ret, s1)" by (rule prod.exhaust)
  have k: "keeps h s s1" "axes s1 = axes s" using keeps_lock [OF ok] lock_facts(1) [of s] by (simp_all add: l)
  have ok1: "ms_ok h (pulses s1) s1" using k by (simp add: keeps_def)
  define c where "c = ms41908m_port_clear_event {RESET_DONE m} s1"
  define t where "t = set_state m STATE_RESET_ZERO (set_r_zero m False c)"
  have c: "ms_ok h (pulses s1) c" "pulses c = pulses s1" "axes c = axes s1" "s_rst c = s_rst s1"
    using ok1 by (auto simp: c_def books_ok)
  have "keeps h s1 (snd (ms41908m_port_set_event {REQ_RESET m} t))"
    if b: "ax_state (axes s1 (other m)) \<noteq> STATE_RUNNING" "\<not> axis_busy m s1"
  proof -
    have "\<not> batch_pending (axes c m)" using c(1) b(2)
      by (auto simp: ms_ok_def axis_ok_def axis_busy_def c(3) dest!: spec [of _ m])
    then have "ms_ok h (pulses s1) t" unfolding t_def using b
      by (intro set_state_ok unhome_ok [OF c(1)]) (simp_all add: batch_pending_def c(3))
    moreover have "s_event_group t = None \<Longrightarrow> pulses t = {}" by (simp add: pulses_def)
    moreover have "pulses t = pulses s1" by (simp add: t_def c)
    ultimately show ?thesis by (auto simp: keeps_def books_ok) (auto simp: t_def c split: if_splits)
  qed
  then have "keeps h s (snd (ms41908m_port_set_event {REQ_RESET m} t))"
    if "ax_state (axes s1 (other m)) \<noteq> STATE_RUNNING" "\<not> axis_busy m s1"
    using that keeps_trans [OF k(1)] by blast
  then show ?thesis using k(1) keeps_refl [OF ok]
    by (simp add: axis_reset_zero_def l Let_def c_def t_def)
qed

lemma limit_keeps:
  assumes ok: "ms_ok h (pulses s) s"
  shows "keeps h s (snd (axis_set_position_limit m a b s))"
proof -
  let ?f = "\<lambda>x. x\<lparr>ax_pos_min := a, ax_pos_max := b\<rparr>"
  have "axis_ok h' p (?f x) r c y = axis_ok h' p x r c y" for h' p x r c y
    by (simp add: axis_ok_def homed_ok_def batch_pending_def run_ok_def signed_load_def Let_def cong: ms_state.case_cong)
  then have "ms_ok h (pulses s) (upd_axis m ?f s)"
    using ok by (auto simp: ms_ok_def reset_ok_def resetting_def)
  then have "keeps h s (upd_axis m ?f s)" by (simp add: keeps_def)
  then show ?thesis using keeps_refl [OF ok] by (simp add: axis_set_position_limit_def)
qed

lemma wait_keeps:
  assumes ok: "ms_ok h (pulses s) s" and "\<And>m. PLS m \<notin> e"
  shows "keeps h s (snd (ms41908m_port_wait_for_event e c w s))"
  using assms(2)
  by (intro keeps_books [OF ok])
    (auto simp: ms41908m_port_wait_for_event_def pulses_def same_books_def Let_def split: option.splits if_splits)

lemma writes_healthy:
  assumes "env_spi s = []"
  shows "port_writes ws s = (SYS_OK, s\<lparr>regs := fold (\<lambda>(a, v) r. r(a AND 0x3F := v)) ws (regs s)\<rparr>)"
  using assms
proof (induction ws arbitrary: s)
  case Nil
  then show ?case by simp
next
  case (Cons w ws)
  then show ?case by (cases w) (simp add: spi_healthy)
qed

lemma fold_regs_other:
  fixes ws :: "(byte \<times> u16) list"
  shows "(\<forall>(a, v) \<in> set ws. a AND 0x3F \<noteq> x) \<Longrightarrow> fold (\<lambda>(a, v) r. r(a AND 0x3F := v)) ws f x = f x"
  by (induction ws arbitrary: f) auto

lemma regs_ok:
  assumes ok: "ms_ok h P s" and "\<And>m. r (step_addr m) = regs s (step_addr m)"
  shows "ms_ok h P (s\<lparr>regs := r\<rparr>)"
  using assms by (simp add: ms_ok_def reset_ok_def resetting_def)

lemma iris_write_ok:
  assumes ok: "ms_ok h P s"
  shows "ms_ok h P (snd (ms41908m_write_iris_config c s))" "pulses (snd (ms41908m_write_iris_config c s)) = pulses s"
    "axes (snd (ms41908m_write_iris_config c s)) = axes s"
proof -
  have e: "env_spi s = []" using ok by (simp add: ms_ok_def)
  show "ms_ok h P (snd (ms41908m_write_iris_config c s))"
    unfolding ms41908m_write_iris_config_def writes_healthy [OF e] snd_conv
    by (rule regs_ok [OF ok], rule fold_regs_other, case_tac m)
      (simp_all add: REG_FOCUS_STEP_def REG_ZOOM_STEP_def)
  show "pulses (snd (ms41908m_write_iris_config c s)) = pulses s"
    "axes (snd (ms41908m_write_iris_config c s)) = axes s"
    by (simp_all add: ms41908m_write_iris_config_def writes_healthy [OF e])
qed

lemma low_push: "(push_bit 12 x :: u16) AND 0xFF = 0"
  by (simp add: low_byte take_bit_push_bit)

lemma config_step_reg:
  "reg_batch (STEP_ENDIS_BIT OR (if led then STEP_LED_BIT else 0) OR push_bit 12 x) = None"
  by (simp add: reg_batch_def step_bits and_orD low_push)

lemma motor_write_regs:
  assumes "env_spi s = []"
  obtains r where "ms41908m_write_motor_config c s = (SYS_OK, s\<lparr>regs := r\<rparr>)"
    "\<And>m. reg_batch (r (step_addr m)) = None"
proof -
  define f where "f = (\<lambda>(a :: byte, v :: u16) (r :: byte \<Rightarrow> u16). r(a AND 0x3F := v))"
  define fs where "fs = STEP_ENDIS_BIT OR (if leda c AND 1 \<noteq> 0 then STEP_LED_BIT else 0) OR push_bit 12 (ucast (microab c AND 3))"
  define zs where "zs = STEP_ENDIS_BIT OR (if ledb c AND 1 \<noteq> 0 then STEP_LED_BIT else 0) OR push_bit 12 (ucast (microcd c AND 3))"
  obtain r1 where 1: "port_writes
        [(0x20, (ucast (dt1 c) AND 0xFF) OR fld (pwm_mode c) 8 0x1F00 OR fld (pwm_res c) 13 0x6000), (0x21, 0x0087)] s
      = (SYS_OK, s\<lparr>regs := r1\<rparr>)"
    using writes_healthy [OF assms] by blast
  have w: "port_writes ws (s\<lparr>regs := r1\<rparr>) = (SYS_OK, s\<lparr>regs := fold f ws r1\<rparr>)" for ws
    using writes_healthy [of "s\<lparr>regs := r1\<rparr>" ws] assms by (simp add: f_def)
  define ws where "ws = [(0x0B, r1 0x0B OR 0x80),
           (0x22, fld (dt2a c) 0 0xFF OR fld (phmodab c) 8 0x3F00),
           (0x23, (ucast (ppwa c) AND 0xFF) OR fld (ppwb c) 8 0xFF00),
           (REG_FOCUS_STEP, fs),
           (REG_FOCUS_PPS, 0),
           (0x27, fld (dt2b c) 0 0xFF OR fld (phmodcd c) 8 0x3F00),
           (0x28, (ucast (ppwc c) AND 0xFF) OR fld (ppwd c) 8 0xFF00),
           (REG_ZOOM_STEP, zs),
           (REG_ZOOM_PPS, 0)]"
  have "ms41908m_write_motor_config c s = (SYS_OK, s\<lparr>regs := fold f ws r1\<rparr>)"
    using assms unfolding ms41908m_write_motor_config_def 1
    by (simp add: spi_healthy fs_def [symmetric] zs_def [symmetric] ws_def [symmetric] w del: port_writes.simps)
  moreover have "fold f ws r1 REG_FOCUS_STEP = fs" "fold f ws r1 REG_ZOOM_STEP = zs"
    by (simp_all add: ws_def f_def REG_FOCUS_STEP_def REG_ZOOM_STEP_def REG_FOCUS_PPS_def REG_ZOOM_PPS_def)
  then have "reg_batch (fold f ws r1 (step_addr m)) = None" for m
    by (cases m) (simp_all add: fs_def zs_def config_step_reg)
  ultimately show ?thesis using that by blast
qed

lemma configured_ok:
  assumes ok: "ms_ok h P s"
  shows "ms_ok h P (configured m s)" "ax_is_r_zero (axes (configured m s) m') = ax_is_r_zero (axes s m')"
    "pulses (configured m s) = pulses s"
proof -
  have "ms_ok h P (set_state m STATE_STOPPED s)" if "ax_state (axes s m) = STATE_NO_CFG \<or> ax_state (axes s m) = STATE_ERROR"
    using ok that by (intro set_state_ok) (auto simp: ms_ok_def axis_ok_def homed_ok_def Let_def dest!: spec [of _ m])
  then show "ms_ok h P (configured m s)" using ok by (simp add: configured_def)
  show "ax_is_r_zero (axes (configured m s) m') = ax_is_r_zero (axes s m')" "pulses (configured m s) = pulses s"
    by (simp_all add: configured_def)
qed

lemma config_keeps:
  assumes ok: "ms_ok h (pulses s) s" and run: "\<not> any_running s"
  shows "keeps h s (snd (ms41908m_motor_config c s))"
proof -
  obtain ret s1 where l: "ms41908m_port_lock s = (ret, s1)" by (rule prod.exhaust)
  have k: "keeps h s s1" "axes s1 = axes s" using keeps_lock [OF ok] lock_facts(1) [of s] by (simp_all add: l)
  have ok1: "ms_ok h (pulses s1) s1" and e: "env_spi s1 = []" using k by (auto simp: keeps_def ms_ok_def)
  have n: "ax_state (axes s1 m) \<noteq> STATE_RUNNING" for m using run by (cases m) (simp_all add: any_running_def k)
  have "keeps h s1 (configured FOCUS (configured ZOOM (snd (ms41908m_write_motor_config d s1))))"
    "fst (ms41908m_write_motor_config d s1) = SYS_OK" for d
  proof -
    obtain r where r: "ms41908m_write_motor_config d s1 = (SYS_OK, s1\<lparr>regs := r\<rparr>)"
      "\<And>m. reg_batch (r (step_addr m)) = None" using motor_write_regs [OF e] by blast
    have "ms_ok h (pulses s1) (s1\<lparr>regs := r\<rparr>)"
      using ok1 n r(2) by (auto simp: ms_ok_def reset_ok_def resetting_def axis_ok_def homed_ok_def Let_def split: ms_state.splits)
    note c1 = configured_ok [OF this, of ZOOM]
    note c2 = configured_ok [OF c1(1), of FOCUS]
    show "keeps h s1 (configured FOCUS (configured ZOOM (snd (ms41908m_write_motor_config d s1))))"
      "fst (ms41908m_write_motor_config d s1) = SYS_OK"
      using c1 c2 by (simp_all add: r keeps_def)
  qed
  then show ?thesis using keeps_trans [OF k(1)] k(1) keeps_refl [OF ok]
    by (auto simp: ms41908m_motor_config_def l Let_def case_prod_unfold split: option.split)
qed

subsection \<open>A synchronous move\<close>

definition synced_axis :: "run_config \<Rightarrow> u32 \<Rightarrow> axis \<Rightarrow> axis" where
  "synced_axis c t a = a\<lparr>ax_run_config := c, ax_start_tick := t, ax_state := STATE_RUNNING\<rparr>"

definition sync_state :: "motor \<Rightarrow> u16 \<Rightarrow> int \<Rightarrow> ms \<Rightarrow> ms" where
  "sync_state m pps n s = s\<lparr>
     regs := (regs s)(pps_addr m := sync_intct pps n,
       step_addr m := step_reg_of (regs s (step_addr m)) (sync_psum pps n) (0 \<le> n)),
     s_event_group := map_option (\<lambda>g. g - {COMPLETED m}) (s_event_group s),
     axes := (axes s)(m := synced_axis (run_of n (sync_intct pps n) (sync_psum pps n)) (ms_tick s) (axes s m))\<rparr>"

lemma sync_axis_eq:
  assumes "env_spi s = []"
  shows "sync_axis m pps n s = (SYS_OK, sync_state m pps n s)"
proof -
  define s1 where "s1 = upd_run m (\<lambda>_. run_of n (sync_intct pps n) (sync_psum pps n)) s"
  have "env_spi s1 = []" "regs s1 = regs s" using assms by (simp_all add: s1_def)
  then have "sync_axis m pps n s = (SYS_OK,
    (let s3 = ms41908m_port_clear_event {COMPLETED m} (s1\<lparr>regs := (regs s)(pps_addr m := sync_intct pps n,
       step_addr m := step_reg_of (regs s (step_addr m)) (sync_psum pps n) (0 \<le> n))\<rparr>)
     in set_state m STATE_RUNNING (upd_axis m (\<lambda>a. a\<lparr>ax_start_tick := ms_tick s3\<rparr>) s3)))"
    unfolding sync_axis_def Let_def s1_def [symmetric] by (simp add: spi_healthy)
  then show ?thesis
    by (simp add: s1_def sync_state_def synced_axis_def set_state_def upd_axis_def ms41908m_port_clear_event_def Let_def)
qed

lemma sync_state_ok:
  assumes ok: "ms_ok h P s" and n: "\<not> raw_psum_bad n" and st: "ax_state (axes s m) \<noteq> STATE_RUNNING"
    and idle: "rz_phase (s_rst s) = RZ_IDLE" "ax_state (axes s (other m)) \<noteq> STATE_RESET_ZERO"
  shows "ms_ok h P (sync_state m pps n s)" "\<not> batch_pending (axes (sync_state m pps n s) m)"
proof -
  let ?t = "sync_state m pps n s"
  let ?a = "synced_axis (run_of n (sync_intct pps n) (sync_psum pps n)) (ms_tick s) (axes s m)"
  have a: "axis_ok (h m) (m \<in> P) (axes s m) (regs s (step_addr m)) (chip_batch s m) (lens_at s m)"
    using ok by (simp add: ms_ok_def)
  then have b: "\<not> batch_pending (axes s m)" using st by (auto simp: axis_ok_def)
  then have np: "\<not> batch_pending ?a" by (simp add: batch_pending_def synced_axis_def)
  then show "\<not> batch_pending (axes ?t m)" by (simp add: sync_state_def)
  have "run_ok ?a (step_reg_of r (sync_psum pps n) (0 \<le> n))" for r
    using sync_psum_range [OF n] by (simp add: run_ok_def Let_def signed_load_def run_of_def reg_batch_step synced_axis_def)
  then have "axis_ok (h m) (m \<in> P) ?a (step_reg_of (regs s (step_addr m)) (sync_psum pps n) (0 \<le> n)) (chip_batch s m) (lens_at s m)"
    using a np st by (auto simp: axis_ok_def homed_ok_def Let_def split: ms_state.splits)
      (auto simp: synced_axis_def)
  then have "axis_ok (h m') (m' \<in> P) (axes ?t m') (regs ?t (step_addr m')) (chip_batch ?t m') (lens_at ?t m')" for m'
    using ok by (cases "m' = m") (simp_all add: sync_state_def ms_ok_def)
  moreover have "reset_ok ?t" using ok idle by (auto simp: ms_ok_def reset_ok_def resetting_def sync_state_def synced_axis_def neq_other)
  ultimately show "ms_ok h P ?t" using ok by (auto simp: ms_ok_def sync_state_def synced_axis_def split: if_splits)
qed

lemma sync_state_simps [simp]:
  "s_rst (sync_state m pps n s) = s_rst s" "env_spi (sync_state m pps n s) = env_spi s"
  "pulses (sync_state m pps n s) = pulses s"
  "ax_is_r_zero (axes (sync_state m pps n s) m') = ax_is_r_zero (axes s m')"
  "m' \<noteq> m \<Longrightarrow> axes (sync_state m pps n s) m' = axes s m'"
  by (auto simp: sync_state_def synced_axis_def pulses_def)

lemma sync_keeps:
  assumes ok: "ms_ok h (pulses s) s" and g: "fn \<noteq> 0 \<Longrightarrow> \<not> sync_bad fp fn"
  shows "keeps h s (snd (ms41908m_zf_sync_run zp zn fp fn s))"
proof -
  obtain ret s1 where l: "ms41908m_port_lock s = (ret, s1)" by (rule prod.exhaust)
  have k: "keeps h s s1" using keeps_lock [OF ok] by (simp add: l)
  have ok1: "ms_ok h (pulses s1) s1" and e: "env_spi s1 = []" using k by (auto simp: keeps_def ms_ok_def)
  define s2 where "s2 = (if zn \<noteq> 0 then sync_state ZOOM zp zn s1 else s1)"
  define s3 where "s3 = (if fn \<noteq> 0 then sync_state FOCUS fp fn s2 else s2)"
  have "keeps h s1 s3 \<and> can_fire_vd_fz s3"
    if b: "\<not> axis_busy ZOOM s1" "\<not> axis_busy FOCUS s1" "\<not> (zn \<noteq> 0 \<and> sync_bad zp zn)"
  proof -
    have i: "rz_phase (s_rst s1) = RZ_IDLE" "ax_state (axes s1 m) \<noteq> STATE_RUNNING" "ax_state (axes s1 m) \<noteq> STATE_RESET_ZERO" for m
      using b(1,2) by (cases m; simp add: axis_busy_def ms41908m_reset_sm_active_def)+
    have np: "\<not> batch_pending (axes s1 m)" for m using ok1 i by (auto simp: ms_ok_def axis_ok_def)
    have ok2: "ms_ok h (pulses s1) s2 \<and> (\<forall>m. \<not> batch_pending (axes s2 m))"
      using sync_state_ok [OF ok1, of zn ZOOM zp] i b(3) ok1 np by (auto simp: s2_def sync_bad_def motor_all)
    have s2: "s_rst s2 = s_rst s1" "axes s2 FOCUS = axes s1 FOCUS" "ax_state (axes s2 ZOOM) \<noteq> STATE_RESET_ZERO"
      using i by (auto simp: s2_def) (simp add: sync_state_def synced_axis_def)
    have "ms_ok h (pulses s1) s3 \<and> (\<forall>m. \<not> batch_pending (axes s3 m))"
      using sync_state_ok [OF conjunct1 [OF ok2], of fn FOCUS fp] i s2 g ok2 by (auto simp: s3_def sync_bad_def motor_all)
    then show ?thesis by (auto simp: keeps_def can_fire s3_def s2_def)
  qed
  then have "keeps h s s3 \<and> keeps h s (fire s3)"
    if b: "\<not> axis_busy ZOOM s1" "\<not> axis_busy FOCUS s1" "\<not> (zn \<noteq> 0 \<and> sync_bad zp zn)"
    using that keeps_trans [OF k] fire_ok by (fastforce simp: keeps_def)
  moreover have "(if zn \<noteq> 0 then sync_axis ZOOM zp zn s1 else (SYS_OK, s1)) = (SYS_OK, s2)"
    "(if fn \<noteq> 0 then sync_axis FOCUS fp fn s2 else (SYS_OK, s2)) = (SYS_OK, s3)"
    using e by (simp_all add: s2_def s3_def sync_axis_eq)
  moreover have "(fn \<noteq> 0 \<and> sync_bad fp fn) = False" using g by blast
  ultimately show ?thesis using k keeps_refl [OF ok]
    by (auto simp: ms41908m_zf_sync_run_def l fire_def mark_both ms41908m_port_output_vd_def)
qed

subsection \<open>The remaining operations\<close>

lemma no_new_ok: "keeps h s t \<Longrightarrow> ms_ok (rehome h s t) (pulses t) t"
  using rehome_same [of t s h] by (auto simp: keeps_def)

lemma zero_ok:
  assumes "env_spi t = []" "\<And>m. axes t m = zero_axis" "s_rst t = zero_rst"
  shows "ms_ok h P t"
  using assms by (simp add: ms_ok_def reset_ok_def resetting_def zero_rst_def zero_axis_def axis_ok_def batch_pending_def)

lemma port_init_simps [simp]:
  "axes (snd (ms41908m_port_init s)) = axes s" "s_rst (snd (ms41908m_port_init s)) = s_rst s"
  "env_spi (snd (ms41908m_port_init s)) = env_spi s"
  by (auto simp: ms41908m_port_init_def Let_def alloc_next_def ms41908m_port_delay_ms_def chip_reset_def)

lemma drv_init_ok:
  assumes ok: "ms_ok h (pulses s) s"
  defines "t \<equiv> snd (ms41908m_init s)"
  shows "ms_ok (rehome h s t) (pulses t) t"
proof (cases "is_initialized s")
  case True
  then show ?thesis using no_new_ok [OF keeps_refl [OF ok]] by (simp add: t_def ms41908m_init_def)
next
  case False
  define s1 where "s1 = s\<lparr>is_initialized := False, iris_state := STATE_NO_CFG, axes := (\<lambda>_. zero_axis), s_rst := zero_rst,
                  rst_last_result := (\<lambda>_. SYS_ERR_INVALID_STATE)\<rparr>"
  obtain ret s2 where p: "ms41908m_port_init s1 = (ret, s2)" by (rule prod.exhaust)
  have s2: "axes s2 = (\<lambda>_. zero_axis)" "s_rst s2 = zero_rst" "env_spi s2 = []"
    using port_init_simps [of s1] ok by (simp_all add: p) (simp_all add: s1_def ms_ok_def)
  have "axes t = (\<lambda>_. zero_axis) \<and> s_rst t = zero_rst \<and> env_spi t = []"
    using False s2 unfolding t_def ms41908m_init_def s1_def [symmetric]
    by (simp add: Let_def p ms41908m_port_create_task_def ms41908m_port_create_timer_def alloc_next_def
        ms41908m_port_deinit_def)
  then show ?thesis by (intro zero_ok) simp_all
qed

lemma timer_simps [simp]:
  "axes (snd (ms41908m_port_stop_timer s)) = axes s" "env_spi (snd (ms41908m_port_stop_timer s)) = env_spi s"
  "same_books s (snd (ms41908m_port_stop_timer s))" "pulses (snd (ms41908m_port_stop_timer s)) = pulses s"
  "same_books s (snd (ms41908m_port_start_timer s))" "pulses (snd (ms41908m_port_start_timer s)) = pulses s"
  "env_spi (snd (ms41908m_port_delete_timer s)) = env_spi s"
  by (auto simp: ms41908m_port_stop_timer_def ms41908m_port_start_timer_def ms41908m_port_delete_timer_def timer_next_def
      Let_def same_books_def pulses_def)

lemma iris_keeps:
  assumes ok: "ms_ok h (pulses s) s"
  shows "keeps h s (snd (ms41908m_iris_stop s))" "keeps h s (snd (ms41908m_iris_run s))"
    "keeps h s (snd (ms41908m_iris_config c s))" "keeps h s (snd (ms41908m_iris_update_target v s))"
    "keeps h s (snd (ms41908m_iris_read_adc s))" "keeps h s (ms41908m_iris_timer_handler s)"
proof -
  have b: "same_books u (u\<lparr>iris_state := x\<rparr>)" "pulses (u\<lparr>iris_state := x\<rparr>) = pulses u"
    "same_books u (ms41908m_port_output_vd_iris u)" "pulses (ms41908m_port_output_vd_iris u) = pulses u" for u x
    by (simp_all add: same_books_def pulses_def ms41908m_port_output_vd_iris_def)
  show "keeps h s (snd (ms41908m_iris_stop s))"
    by (rule keeps_books [OF ok])
      (auto simp: ms41908m_iris_stop_def b intro: same_books_trans [OF timer_simps(3) b(1)])
  obtain r t where r: "ms41908m_port_start_timer s = (r, t)" by (rule prod.exhaust)
  then have t: "same_books s t" "pulses t = pulses s" using timer_simps(5,6) [of s] by simp_all
  show "keeps h s (snd (ms41908m_iris_run s))"
    by (rule keeps_books [OF ok])
      (auto simp: ms41908m_iris_run_def r Let_def b t intro: same_books_trans [OF same_books_trans [OF t(1) b(1)] b(3)])
  show "keeps h s (ms41908m_iris_timer_handler s)"
    by (rule keeps_books [OF ok]) (auto simp: ms41908m_iris_timer_handler_def b)
  obtain ret s1 where l: "ms41908m_port_lock s = (ret, s1)" by (rule prod.exhaust)
  have k: "keeps h s s1" using keeps_lock [OF ok] by (simp add: l)
  have ok1: "ms_ok h (pulses s1) s1" and e: "env_spi s1 = []" using k by (auto simp: keeps_def ms_ok_def)
  have "ms_ok h (pulses s1) (s1\<lparr>regs := (regs s1)(0 := v AND 0x3FF)\<rparr>)"
    by (rule regs_ok [OF ok1], case_tac m) (simp_all add: REG_FOCUS_STEP_def REG_ZOOM_STEP_def)
  then have "keeps h s1 (s1\<lparr>regs := (regs s1)(0 := v AND 0x3FF)\<rparr>)" by (simp add: keeps_def)
  then show "keeps h s (snd (ms41908m_iris_update_target v s))"
    using keeps_trans [OF k] k keeps_refl [OF ok] e
    by (auto simp: ms41908m_iris_update_target_def l Let_def spi_healthy)
  show "keeps h s (snd (ms41908m_iris_read_adc s))"
    using k keeps_refl [OF ok] e by (auto simp: ms41908m_iris_read_adc_def l Let_def spi_healthy)
  show "keeps h s (snd (ms41908m_iris_config c s))"
  proof (cases c)
    case (Some d)
    obtain r t where r: "ms41908m_write_iris_config d s1 = (r, t)" by (rule prod.exhaust)
    have t: "keeps h s1 t" using iris_write_ok [OF ok1, of d] by (simp add: keeps_def r)
    then have okt: "ms_ok h (pulses t) t" by (simp add: keeps_def)
    have "keeps h t (ms41908m_port_output_vd_iris t)" "keeps h t (ms41908m_port_output_vd_iris (t\<lparr>iris_state := STATE_STOPPED\<rparr>))"
      by (rule keeps_books [OF okt]; auto simp: b intro: same_books_trans [OF b(1) b(3)])+
    then show ?thesis using Some keeps_trans [OF keeps_trans [OF k t]] k keeps_refl [OF ok]
      by (auto simp: ms41908m_iris_config_def l r Let_def)
  qed (use keeps_refl [OF ok] in \<open>simp add: ms41908m_iris_config_def\<close>)
qed

lemma deinit_ok:
  assumes ok: "ms_ok h (pulses s) s"
  defines "t \<equiv> ms41908m_deinit s"
  shows "ms_ok (rehome h s t) (pulses t) t"
proof (cases "is_initialized s")
  case False
  then show ?thesis using no_new_ok [OF keeps_refl [OF ok]] by (simp add: t_def ms41908m_deinit_def)
next
  case True
  define s1 where "s1 = snd (ms41908m_iris_stop s)"
  have 1: "ms_ok h (pulses s1) s1" using iris_keeps(1) [OF ok] by (simp add: s1_def keeps_def)
  define s2 where "s2 = snd (ms41908m_focus_stop s1)"
  have 2: "ms_ok h (pulses s2) s2" using stop_keeps [OF 1, of FOCUS] by (simp add: s2_def ms41908m_focus_stop_def keeps_def)
  define s3 where "s3 = snd (ms41908m_zoom_stop s2)"
  have "ms_ok h (pulses s3) s3" using stop_keeps [OF 2, of ZOOM] by (simp add: s3_def ms41908m_zoom_stop_def keeps_def)
  then have "env_spi s3 = []" by (simp add: ms_ok_def)
  then show ?thesis using True
    by (intro zero_ok) (simp_all add: t_def ms41908m_deinit_def Let_def ms41908m_port_deinit_def
        s1_def [symmetric] s2_def [symmetric] s3_def [symmetric])
qed

lemma irq_simps [simp]:
  "ms41908m_port_irq_handler (pls_pin m) s = set_event {PLS m} s"
  "ms41908m_port_irq_handler (pi_pin m) s = set_event {PI m} s"
  by (cases m; auto simp: ms41908m_port_irq_handler_def set_event_def)+

text \<open>The chip finishes a batch: the pulse is now unhandled.\<close>

lemma chip_done_ok:
  fixes m :: motor
  assumes ok: "ms_ok h (pulses s) s"
  defines "t \<equiv> chip_done m s"
  shows "ms_ok (rehome h s t) (pulses t) t"
proof (cases "chip_batch s m")
  case None
  then show ?thesis using no_new_ok [OF keeps_refl [OF ok]] by (simp add: t_def chip_done_def)
next
  case (Some d)
  define u where "u = s\<lparr>lens_at := (lens_at s)(m := lens_at s m + d), chip_batch := (chip_batch s)(m := None)\<rparr>"
  have t: "t = set_event {PLS m} u" using Some by (simp add: t_def chip_done_def u_def)
  have r: "rehome h s t = h" by (rule rehome_same) (simp add: t u_def)
  have p: "pulses t = (if s_event_group s = None then {} else insert m (pulses s))"
    unfolding t pulses_simps by (auto simp: u_def pulses_def)
  have e: "axes t = axes s" "regs t = regs s" "s_rst t = s_rst s" "env_spi t = env_spi s"
    "lens_at t = (lens_at s)(m := lens_at s m + d)" "chip_batch t = (chip_batch s)(m := None)"
    "s_event_group t = None \<longleftrightarrow> s_event_group s = None"
    by (simp_all add: t u_def set_event_def)
  have a: "axis_ok (h m') (m' \<in> pulses s) (axes s m') (regs s (step_addr m')) (chip_batch s m') (lens_at s m')"
    and g: "ax_is_r_zero (axes s m') \<Longrightarrow> s_event_group s \<noteq> None" for m'
    using ok unfolding ms_ok_def by blast+
  have "axis_ok (h m) (m \<in> pulses t) (axes s m) (regs s (step_addr m)) None (lens_at s m + d)"
    using a [of m] g [of m] Some
    by (auto simp: axis_ok_def homed_ok_def Let_def p algebra_simps split: ms_state.splits if_splits)
  moreover have "axis_ok (h m') (m' \<in> pulses t) (axes s m') (regs s (step_addr m')) (chip_batch s m') (lens_at s m')"
    if "m' \<noteq> m" for m'
    using a [of m'] g [of m'] that by (auto simp: axis_ok_def p split: if_splits)
  ultimately show ?thesis using ok unfolding r
    by (auto simp: ms_ok_def e reset_ok_def resetting_def)
qed

subsection \<open>Runs of the driver\<close>

text \<open>What can happen: a turn of the motor task, an event of the hardware, the passing of
  time, a choice of the environment, or a call from the application.\<close>

datatype drv_op =
    Task | Chip_Done motor | Pi motor bool | Tick u32 | Iris_Tick
  | Locks "bool list" | Allocs "bool list" | Timers "bool list" | Cuts "int list"
  | Init | Deinit | Callback "nat option"
  | Iris_Config "iris_config option" | Iris_Target u16 | Iris_Adc | Iris_Run | Iris_Stop
  | Motor_Config "motor_config option" | Run motor u16 int | Run_To motor u16 int | Reset_Zero motor | Stop motor
  | Limit motor int int | Sync u16 int u16 int | Wait_Reset motor | Wait_Done motor | Wait_Both

fun drv_exec :: "drv_op \<Rightarrow> ms \<Rightarrow> ms" where
  "drv_exec Task s = ms41908m_motor_task_handler {} s"
| "drv_exec (Chip_Done m) s = chip_done m s"
| "drv_exec (Pi m b) s = pi_change m b s"
| "drv_exec (Tick d) s = s\<lparr>ms_tick := ms_tick s + d\<rparr>"
| "drv_exec Iris_Tick s = ms41908m_iris_timer_handler s"
| "drv_exec (Locks bs) s = s\<lparr>env_lock := bs\<rparr>"
| "drv_exec (Allocs bs) s = s\<lparr>env_alloc := bs\<rparr>"
| "drv_exec (Timers bs) s = s\<lparr>env_timer := bs\<rparr>"
| "drv_exec (Cuts ks) s = s\<lparr>env_cut := ks\<rparr>"
| "drv_exec Init s = snd (ms41908m_init s)"
| "drv_exec Deinit s = ms41908m_deinit s"
| "drv_exec (Callback cb) s = ms41908m_set_event_callback cb s"
| "drv_exec (Iris_Config c) s = snd (ms41908m_iris_config c s)"
| "drv_exec (Iris_Target v) s = snd (ms41908m_iris_update_target v s)"
| "drv_exec Iris_Adc s = snd (ms41908m_iris_read_adc s)"
| "drv_exec Iris_Run s = snd (ms41908m_iris_run s)"
| "drv_exec Iris_Stop s = snd (ms41908m_iris_stop s)"
| "drv_exec (Motor_Config c) s = snd (ms41908m_motor_config c s)"
| "drv_exec (Run m pps n) s =
     snd (case m of ZOOM \<Rightarrow> ms41908m_zoom_run pps n s | FOCUS \<Rightarrow> ms41908m_focus_run pps n s)"
| "drv_exec (Run_To m pps n) s =
     snd (case m of ZOOM \<Rightarrow> ms41908m_zoom_run_to_position pps n s | FOCUS \<Rightarrow> ms41908m_focus_run_to_position pps n s)"
| "drv_exec (Reset_Zero m) s = snd (case m of ZOOM \<Rightarrow> ms41908m_zoom_reset_zero s | FOCUS \<Rightarrow> ms41908m_focus_reset_zero s)"
| "drv_exec (Stop m) s = snd (case m of ZOOM \<Rightarrow> ms41908m_zoom_stop s | FOCUS \<Rightarrow> ms41908m_focus_stop s)"
| "drv_exec (Limit m a b) s =
     snd (case m of ZOOM \<Rightarrow> ms41908m_zoom_set_position_limit a b s | FOCUS \<Rightarrow> ms41908m_focus_set_position_limit a b s)"
| "drv_exec (Sync zp zn fp fn) s = snd (ms41908m_zf_sync_run zp zn fp fn s)"
| "drv_exec (Wait_Reset m) s =
     snd (case m of ZOOM \<Rightarrow> ms41908m_zoom_wait_reset_done id s | FOCUS \<Rightarrow> ms41908m_focus_wait_reset_done id s)"
| "drv_exec (Wait_Done m) s =
     snd (case m of ZOOM \<Rightarrow> ms41908m_zoom_wait_for_completion id s | FOCUS \<Rightarrow> ms41908m_focus_wait_for_completion id s)"
| "drv_exec Wait_Both s = snd (ms41908m_zf_sync_wait_for_completion id s)"

text \<open>The use the driver is built for: the motors are configured while they stand still, a
  motor is not started while the other waits for its reset, and the focus half of a
  synchronous move is in range.\<close>

fun drv_allowed :: "drv_op \<Rightarrow> ms \<Rightarrow> bool" where
  "drv_allowed (Motor_Config c) s = (\<not> any_running s)"
| "drv_allowed (Run m pps n) s = (ax_state (axes s (other m)) \<noteq> STATE_RESET_ZERO)"
| "drv_allowed (Run_To m pps n) s = (ax_state (axes s (other m)) \<noteq> STATE_RESET_ZERO)"
| "drv_allowed (Sync zp zn fp fn) s = (fn = 0 \<or> \<not> sync_bad fp fn)"
| "drv_allowed _ s = True"

lemma env_keeps:
  assumes ok: "ms_ok h (pulses s) s"
  shows "keeps h s (s\<lparr>ms_tick := d\<rparr>)" "keeps h s (s\<lparr>env_lock := bs\<rparr>)" "keeps h s (s\<lparr>env_alloc := bs\<rparr>)"
    "keeps h s (s\<lparr>env_timer := bs\<rparr>)" "keeps h s (s\<lparr>env_cut := ks\<rparr>)" "keeps h s (ms41908m_set_event_callback cb s)"
    "keeps h s (pi_change m b s)"
proof -
  show "keeps h s (pi_change m b s)"
    by (intro keeps_books [OF ok])
      (auto simp: pi_change_def Let_def same_books_def set_event_def pulses_def split: option.splits)
  show "keeps h s (s\<lparr>ms_tick := d\<rparr>)" "keeps h s (s\<lparr>env_lock := bs\<rparr>)" "keeps h s (s\<lparr>env_alloc := bs\<rparr>)"
    "keeps h s (s\<lparr>env_timer := bs\<rparr>)" "keeps h s (s\<lparr>env_cut := ks\<rparr>)" "keeps h s (ms41908m_set_event_callback cb s)"
    by (rule keeps_books [OF ok]; simp add: same_books_def pulses_def ms41908m_set_event_callback_def)+
qed

lemma waits_keep:
  assumes ok: "ms_ok h (pulses s) s"
  shows "keeps h s (snd (axis_wait_reset_done m id s))" "keeps h s (snd (axis_wait_for_completion m id s))"
    "keeps h s (snd (ms41908m_zf_sync_wait_for_completion id s))"
  using wait_keeps [OF ok] keeps_refl [OF ok]
  by (simp_all add: axis_wait_reset_done_def axis_wait_for_completion_def ms41908m_zf_sync_wait_for_completion_def
      Let_def case_prod_unfold)

lemmas drv_defs =
  ms41908m_zoom_run_def ms41908m_focus_run_def ms41908m_zoom_run_to_position_def
  ms41908m_focus_run_to_position_def ms41908m_zoom_reset_zero_def ms41908m_focus_reset_zero_def
  ms41908m_zoom_stop_def ms41908m_focus_stop_def ms41908m_zoom_set_position_limit_def
  ms41908m_focus_set_position_limit_def ms41908m_zoom_wait_reset_done_def ms41908m_focus_wait_reset_done_def
  ms41908m_zoom_wait_for_completion_def ms41908m_focus_wait_for_completion_def

lemma drv_exec_ok:
  assumes ok: "ms_ok h (pulses s) s" and al: "drv_allowed op s"
  shows "ms_ok (rehome h s (drv_exec op s)) (pulses (drv_exec op s)) (drv_exec op s)"
proof -
  note k = no_new_ok [OF env_keeps(1) [OF ok]] no_new_ok [OF env_keeps(2) [OF ok]] no_new_ok [OF env_keeps(3) [OF ok]]
    no_new_ok [OF env_keeps(4) [OF ok]] no_new_ok [OF env_keeps(5) [OF ok]] no_new_ok [OF env_keeps(6) [OF ok]]
    no_new_ok [OF env_keeps(7) [OF ok]] no_new_ok [OF waits_keep(1) [OF ok]] no_new_ok [OF waits_keep(2) [OF ok]]
    no_new_ok [OF waits_keep(3) [OF ok]] no_new_ok [OF iris_keeps(1) [OF ok]] no_new_ok [OF iris_keeps(2) [OF ok]]
    no_new_ok [OF iris_keeps(3) [OF ok]] no_new_ok [OF iris_keeps(4) [OF ok]] no_new_ok [OF iris_keeps(5) [OF ok]]
    no_new_ok [OF iris_keeps(6) [OF ok]] no_new_ok [OF reset_zero_keeps [OF ok]] no_new_ok [OF stop_keeps [OF ok]]
    no_new_ok [OF limit_keeps [OF ok]]
  note r = no_new_ok [OF run_keeps(1) [OF ok]] no_new_ok [OF run_keeps(2) [OF ok]] no_new_ok [OF config_keeps [OF ok]]
    no_new_ok [OF sync_keeps [OF ok]]
  show ?thesis
    using al
    by (cases op) (auto simp: drv_defs intro: k r handler_ok [OF ok] drv_init_ok [OF ok] deinit_ok [OF ok] chip_done_ok [OF ok]
        split: motor.split)
qed

text \<open>The state at power-up, with a bus that works.\<close>

definition powered_on :: "ms \<Rightarrow> bool" where
  "powered_on s = (env_spi s = [] \<and> axes s = (\<lambda>_. zero_axis) \<and> s_rst s = zero_rst \<and> s_app_notify s = []
     \<and> \<not> is_initialized s \<and> \<not> s_mutex s \<and> s_event_group s = None)"

inductive drv_reach :: "(motor \<Rightarrow> int) \<Rightarrow> ms \<Rightarrow> bool" where
  boot: "powered_on s \<Longrightarrow> drv_reach h s"
| step: "drv_reach h s \<Longrightarrow> drv_allowed op s \<Longrightarrow> drv_reach (rehome h s (drv_exec op s)) (drv_exec op s)"

lemma drv_reach_ok: "drv_reach h s \<Longrightarrow> ms_ok h (pulses s) s"
proof (induction rule: drv_reach.induct)
  case (boot s h)
  then show ?case by (intro zero_ok) (simp_all add: powered_on_def)
next
  case (step h s op)
  then show ?case by (intro drv_exec_ok)
qed

end
