(* ===== verification/Ms41908m_Move.thy ===== *)
theory Ms41908m_Move
  imports Ms41908m_Reach
begin

text \<open>
  A move from its start to its end: the batches a motor executes, the pulse after each, the
  turn of the motor task that answers it, and the notification at the end.
\<close>

subsection \<open>A motor under way\<close>

text \<open>A driver that is up, with nothing else going on: no reset, the other motor at
  rest, no event the task would act on.\<close>

definition calm :: "motor \<Rightarrow> ms \<Rightarrow> bool" where
  "calm m s =
     (is_initialized s \<and> s_mutex s \<and> env_spi s = [] \<and> env_lock s = [] \<and> s_app_notify s = []
      \<and> rz_phase (s_rst s) = RZ_IDLE
      \<and> (case s_event_group s of None \<Rightarrow> False
         | Some g \<Rightarrow> g \<inter> {PLS FOCUS, PLS ZOOM, REQ_RESET FOCUS, REQ_RESET ZOOM} = {})
      \<and> ax_state (axes s (other m)) \<noteq> STATE_RUNNING \<and> \<not> batch_pending (axes s (other m))
      \<and> chip_batch s (other m) = None \<and> reg_batch (regs s (step_addr (other m))) = None)"

definition moving :: "motor \<Rightarrow> ms \<Rightarrow> bool" where
  "moving m s =
     (calm m s \<and> ax_state (axes s m) = STATE_RUNNING \<and> run_ok (axes s m) (regs s (step_addr m))
      \<and> batch_pending (axes s m) \<and> chip_batch s m = Some (signed_load (axes s m))
      \<and> ax_start_tick (axes s m) = ms_tick s)"

text \<open>What is left of the move, in micro steps and in batches.\<close>

definition to_go :: "axis \<Rightarrow> int" where
  "to_go a = (let c = ax_run_config a in
     if direction c then load_psum c + unload_psum c else - (load_psum c + unload_psum c))"

definition batches :: "int \<Rightarrow> int \<Rightarrow> nat" where
  "batches n p = nat ((n + p - 1) div p)"

definition batches_left :: "axis \<Rightarrow> nat" where
  "batches_left a = (let c = ax_run_config a in batches (load_psum c + unload_psum c) (load_psum c))"

lemma batches_step:
  assumes "1 \<le> p"
  shows "batches p p = 1" "0 < n \<Longrightarrow> n < p \<Longrightarrow> batches (p + n) p = 2" "p \<le> n \<Longrightarrow> batches (p + n) p = Suc (batches n p)"
proof -
  have "(p - 1 + p) div p = (p - 1) div p + 1" by (rule div_add_self2) (use assms in simp)
  moreover have "(p - 1) div p = 0" using assms by (simp add: div_pos_pos_trivial)
  ultimately have "(p + p - 1) div p = 1" by (simp add: algebra_simps)
  then show "batches p p = 1" unfolding batches_def by simp
  have e: "(p + n + p - 1) div p = (n + p - 1) div p + 1"
    using assms div_add_self2 [of p "n + p - 1"] by (simp add: algebra_simps)
  show "p \<le> n \<Longrightarrow> batches (p + n) p = Suc (batches n p)"
    unfolding batches_def e using assms pos_imp_zdiv_nonneg_iff [of p "n + p - 1"] by (simp add: nat_add_distrib)
  assume n: "0 < n" "n < p"
  have "(n - 1 + p) div p = (n - 1) div p + 1" by (rule div_add_self2) (use assms in simp)
  moreover have "(n - 1) div p = 0" using n by (simp add: div_pos_pos_trivial)
  ultimately show "batches (p + n) p = 2" unfolding batches_def e by (simp add: algebra_simps)
qed

text \<open>Time passes, the chip finishes its batch, and the task takes a turn.\<close>

definition drv_turn :: "motor \<Rightarrow> u32 \<Rightarrow> ms \<Rightarrow> ms" where
  "drv_turn m d s = drv_exec Task (drv_exec (Chip_Done m) (drv_exec (Tick d) s))"

subsection \<open>One turn of the task\<close>

lemma task_pulses_one:
  assumes "PLS m \<in> bits" "PLS (other m) \<notin> bits" "ax_state (axes s m) = STATE_RUNNING"
  shows "task_pulses bits s = (let t = snd (axis_pls m (SYS_OK, s)) in
    if can_fire_vd_fz t \<and> any_running t then fire t else t)"
  using assms by (cases m) (simp_all add: task_pulses_def Let_def fire_def ms41908m_port_output_vd_def)

lemma lock_free: "s_mutex s \<Longrightarrow> env_lock s = [] \<Longrightarrow> ms41908m_port_lock s = (SYS_OK, s)"
  by (cases s) (simp add: ms41908m_port_lock_def take_env_def)

lemma no_event [simp]: "set_event {} s = s"
  by (cases s) (simp add: set_event_def option.map_ident)

lemma clear_simps [simp]:
  "s_app_notify (ms41908m_port_clear_event e s) = s_app_notify s" "regs (ms41908m_port_clear_event e s) = regs s"
  "chip_batch (ms41908m_port_clear_event e s) = chip_batch s" "env_spi (ms41908m_port_clear_event e s) = env_spi s"
  "env_lock (ms41908m_port_clear_event e s) = env_lock s" "s_mutex (ms41908m_port_clear_event e s) = s_mutex s"
  "is_initialized (ms41908m_port_clear_event e s) = is_initialized s" "app_log (ms41908m_port_clear_event e s) = app_log s"
  "s_app_event_cb (ms41908m_port_clear_event e s) = s_app_event_cb s" "ms_tick (ms41908m_port_clear_event e s) = ms_tick s"
  "s_event_group (ms41908m_port_clear_event e s) = map_option (\<lambda>g. g - e) (s_event_group s)"
  by (simp_all add: ms41908m_port_clear_event_def)

definition pulsed :: "motor \<Rightarrow> u32 \<Rightarrow> ms \<Rightarrow> ms" where
  "pulsed m d s = chip_done m (s\<lparr>ms_tick := ms_tick s + d\<rparr>)"

lemma pulsed_simps:
  assumes "chip_batch s m = Some (signed_load (axes s m))"
  shows "axes (pulsed m d s) = axes s" "regs (pulsed m d s) = regs s" "s_rst (pulsed m d s) = s_rst s"
    "env_spi (pulsed m d s) = env_spi s" "env_lock (pulsed m d s) = env_lock s" "s_mutex (pulsed m d s) = s_mutex s"
    "s_app_notify (pulsed m d s) = s_app_notify s" "is_initialized (pulsed m d s) = is_initialized s"
    "ms_tick (pulsed m d s) = ms_tick s + d" "app_log (pulsed m d s) = app_log s"
    "s_app_event_cb (pulsed m d s) = s_app_event_cb s"
    "s_event_group (pulsed m d s) = map_option (insert (PLS m)) (s_event_group s)"
    "chip_batch (pulsed m d s) = (chip_batch s)(m := None)"
    "lens_at (pulsed m d s) = (lens_at s)(m := lens_at s m + signed_load (axes s m))"
  using assms by (simp_all add: pulsed_def chip_done_def set_event_def)

lemma moving_batch: "moving m s \<Longrightarrow> chip_batch s m = Some (signed_load (axes s m))"
  by (simp add: moving_def)

lemma turn_eq:
  assumes mv: "moving m s" and d: "d < 5000"
  defines "u \<equiv> snd (axis_pls m (SYS_OK, pulsed m d s))"
  assumes u: "rz_phase (s_rst u) = RZ_IDLE"
  shows "drv_turn m d s = ms41908m_dispatch_pending_app_events (ms41908m_port_clear_event {PLS FOCUS, PLS ZOOM}
    (set_event {} (if can_fire_vd_fz u \<and> any_running u then fire u else u)))"
proof -
  let ?p = "pulsed m d s"
  note p = pulsed_simps [OF moving_batch [OF mv], of d]
  obtain g where g: "s_event_group s = Some g" "g \<inter> {PLS FOCUS, PLS ZOOM, REQ_RESET FOCUS, REQ_RESET ZOOM} = {}"
    using mv by (auto simp: moving_def calm_def split: option.splits)
  have c: "s_mutex ?p" "env_lock ?p = []" "rz_phase (s_rst ?p) = RZ_IDLE" "ax_state (axes ?p m) = STATE_RUNNING"
    "ax_state (axes ?p (other m)) \<noteq> STATE_RUNNING" "ms_tick ?p - ax_start_tick (axes ?p m) = d"
    using mv by (simp_all add: p moving_def calm_def)
  have b: "ms41908m_port_wait_for_event (task_wait_mask ?p) False False ?p = (insert (PLS m) g, ?p)"
  proof -
    have "PLS m \<in> task_wait_mask ?p" by (cases m) (simp_all add: task_wait_mask_def)
    then have "insert (PLS m) g \<inter> task_wait_mask ?p \<noteq> {}" by blast
    then show ?thesis by (simp add: ms41908m_port_wait_for_event_def p g(1))
  qed
  have "axis_timeout m' ?p = ?p" for m'
    using c d by (cases "m' = m") (auto simp: axis_timeout_def MOTOR_TIMEOUT_MS_def not_le neq_other)
  moreover have "PLS (other m) \<notin> insert (PLS m) g" "REQ_RESET m' \<notin> insert (PLS m) g" for m'
    using g(2) by (cases m; cases m'; auto)+
  moreover have "PLS FOCUS \<in> insert (PLS m) g \<or> PLS ZOOM \<in> insert (PLS m) g" by (cases m) simp_all
  moreover have "task_pulses (insert (PLS m) g) ?p = (if can_fire_vd_fz u \<and> any_running u then fire u else u)"
    using c calculation by (subst task_pulses_one [of m]) (simp_all add: u_def Let_def)
  ultimately have "task_body {} (insert (PLS m) g) ?p = ms41908m_port_clear_event {PLS FOCUS, PLS ZOOM}
    (set_event {} (if can_fire_vd_fz u \<and> any_running u then fire u else u))"
    using c u unfolding task_body_def Let_def by simp
  moreover have "drv_turn m d s = ms41908m_motor_task_handler {} ?p" by (simp add: drv_turn_def pulsed_def)
  ultimately show ?thesis by (simp add: ms41908m_motor_task_handler_def b lock_free c)
qed

text \<open>A pulse with more to go, and the last pulse.\<close>

definition next_run :: "run_config \<Rightarrow> run_config" where
  "next_run c = (if load_psum c \<le> unload_psum c then c\<lparr>unload_psum := unload_psum c - load_psum c\<rparr>
     else c\<lparr>load_psum := unload_psum c, unload_psum := 0\<rparr>)"

definition next_axis :: "axis \<Rightarrow> axis" where
  "next_axis a = (axis_count (acked a))\<lparr>ax_run_config := next_run (ax_run_config a)\<rparr>"

definition next_reg :: "run_config \<Rightarrow> u16 \<Rightarrow> u16" where
  "next_reg c r = (if load_psum c \<le> unload_psum c then r else (r AND 0xFF00) OR of_int (unload_psum c))"

lemma pls_next:
  assumes "env_spi s = []" "is_valid (ax_run_config (axes s m))" "0 < unload_psum (ax_run_config (axes s m))"
  shows "axis_pls m (SYS_OK, s) = (SYS_OK, (upd_axis m next_axis s)
    \<lparr>regs := (regs s)(step_addr m := next_reg (ax_run_config (axes s m)) (regs s (step_addr m)))\<rparr>)"
proof -
  have id: "t\<lparr>regs := (regs s)(x := regs s x)\<rparr> = t" if "regs t = regs s" for t x
    using that by (cases t) simp
  show ?thesis
  proof (cases "load_psum (ax_run_config (axes s m)) \<le> unload_psum (ax_run_config (axes s m))")
    case True
    have "upd_axis m next_axis s = upd_run m (\<lambda>c. c\<lparr>unload_psum := unload_psum c - load_psum c\<rparr>)
        (upd_axis m axis_count (upd_axis m (\<lambda>a. a\<lparr>ax_pls_rcvd := True\<rparr>) s))"
      using True by (simp add: upd_axis_def next_axis_def next_run_def acked_def [symmetric])
    then show ?thesis using assms True
      by (simp add: axis_pls_def Let_def next_reg_def id)
  next
    case False
    have "upd_axis m next_axis s = upd_run m (\<lambda>c. c\<lparr>load_psum := unload_psum (ax_run_config (axes s m)), unload_psum := 0\<rparr>)
        (upd_axis m axis_count (upd_axis m (\<lambda>a. a\<lparr>ax_pls_rcvd := True\<rparr>) s))"
      using False by (simp add: upd_axis_def next_axis_def next_run_def acked_def [symmetric])
    then show ?thesis using assms False
      by (simp add: axis_pls_def Let_def next_reg_def load_last_eq)
  qed
qed

lemma pls_last:
  assumes "is_valid (ax_run_config (axes s m))" "unload_psum (ax_run_config (axes s m)) = 0"
  shows "axis_pls m (SYS_OK, s) = (SYS_OK, axis_completed m (upd_axis m (\<lambda>a. axis_count (acked a)) s))"
  using assms by (simp add: axis_pls_def Let_def upd_axis_def acked_def)

lemma next_axis_simps [simp]:
  "ax_state (next_axis a) = ax_state a" "ax_position (next_axis a) = s32 (ax_position a + signed_load a)"
  "ax_run_config (next_axis a) = next_run (ax_run_config a)" "\<not> batch_pending (next_axis a)"
  "ax_is_r_zero (next_axis a) = ax_is_r_zero a"
  by (simp_all add: next_axis_def batch_pending_def) (simp add: acked_def)

lemma next_run_ok:
  assumes "run_ok a r" "0 < unload_psum (ax_run_config a)"
  shows "run_ok (next_axis a) (next_reg (ax_run_config a) r)" "to_go (next_axis a) = to_go a - signed_load a"
    "batches_left a = Suc (batches_left (next_axis a))"
proof -
  let ?c = "ax_run_config a"
  have c: "is_valid ?c" "1 \<le> load_psum ?c" "load_psum ?c \<le> 255" "reg_batch r = Some (signed_load a)"
    using assms by (simp_all add: run_ok_def Let_def)
  show "run_ok (next_axis a) (next_reg ?c r)"
    using c assms(2) reg_batch_reload [of r "signed_load a" "unload_psum ?c"]
    by (auto simp: run_ok_def Let_def next_run_def next_reg_def signed_load_def)
  show "to_go (next_axis a) = to_go a - signed_load a"
    by (simp add: to_go_def signed_load_def next_run_def Let_def)
  show "batches_left a = Suc (batches_left (next_axis a))"
    using c assms(2) batches_step(2,3) [of "load_psum ?c" "unload_psum ?c"] batches_step(1) [of "unload_psum ?c"]
    by (auto simp: batches_left_def next_run_def Let_def)
qed

text \<open>The state after a turn, as far as a move depends on it.\<close>

definition same_place :: "motor \<Rightarrow> ms \<Rightarrow> ms \<Rightarrow> bool" where
  "same_place m s t = (axes t (other m) = axes s (other m) \<and> lens_at t (other m) = lens_at s (other m)
     \<and> s_app_event_cb t = s_app_event_cb s)"

lemma turn_next:
  assumes mv: "moving m s" and d: "d < 5000" and more: "0 < unload_psum (ax_run_config (axes s m))"
  defines "t \<equiv> drv_turn m d s"
  shows "moving m t" "same_place m s t" "app_log t = app_log s"
    "lens_at t m = lens_at s m + signed_load (axes s m)"
    "ax_position (axes t m) = s32 (ax_position (axes s m) + signed_load (axes s m))"
    "to_go (axes t m) = to_go (axes s m) - signed_load (axes s m)"
    "batches_left (axes s m) = Suc (batches_left (axes t m))"
proof -
  note p = pulsed_simps [OF moving_batch [OF mv], of d]
  define u where "u = (upd_axis m next_axis (pulsed m d s))
    \<lparr>regs := (regs s)(step_addr m := next_reg (ax_run_config (axes s m)) (regs s (step_addr m)))\<rparr>"
  have c: "calm m s" "ax_state (axes s m) = STATE_RUNNING" "run_ok (axes s m) (regs s (step_addr m))"
    using mv by (simp_all add: moving_def)
  have e: "env_spi s = []" "is_valid (ax_run_config (axes s m))" "\<not> batch_pending (axes s (other m))"
    "rz_phase (s_rst s) = RZ_IDLE" "s_app_notify s = []" "ax_state (axes s (other m)) \<noteq> STATE_RUNNING"
    using c by (simp_all add: calm_def run_ok_def Let_def)
  have pls: "axis_pls m (SYS_OK, pulsed m d s) = (SYS_OK, u)"
    using pls_next [of "pulsed m d s" m] e more by (simp add: p u_def)
  have u: "axes u = (axes s)(m := next_axis (axes s m))" "lens_at u = (lens_at s)(m := lens_at s m + signed_load (axes s m))"
    "chip_batch u = (chip_batch s)(m := None)" "ms_tick u = ms_tick s + d" "app_log u = app_log s" "s_rst u = s_rst s"
    "s_app_notify u = []" "s_app_event_cb u = s_app_event_cb s"
    "s_event_group u = map_option (insert (PLS m)) (s_event_group s)" "env_spi u = []" "env_lock u = env_lock s"
    "s_mutex u = s_mutex s" "is_initialized u = is_initialized s"
    "regs u = (regs s)(step_addr m := next_reg (ax_run_config (axes s m)) (regs s (step_addr m)))"
    by (simp_all add: u_def p e)
  have "can_fire_vd_fz u" unfolding can_fire u using e by (simp add: neq_other)
  moreover have "any_running u" using c by (cases m) (simp_all add: any_running_def u)
  ultimately have t: "t = ms41908m_dispatch_pending_app_events
      (ms41908m_port_clear_event {PLS FOCUS, PLS ZOOM} (set_event {} (fire u)))"
    unfolding t_def using turn_eq [OF mv d] e by (simp add: pls u)
  have t: "t = ms41908m_port_clear_event {PLS FOCUS, PLS ZOOM} (fire u)"
    unfolding t by (simp add: ms41908m_dispatch_pending_app_events_def u)
  note n = next_run_ok [OF c(3) more]
  have o: "marked x (axes s (other m)) = axes s (other m)" for x using e by (simp add: marked_def)
  have "reg_batch (next_reg (ax_run_config (axes s m)) (regs s (step_addr m))) = Some (signed_load (next_axis (axes s m)))"
    using n(1) by (simp add: run_ok_def Let_def)
  then show "moving m t"
    using c(1,2) n(1) e o
    by (auto simp: moving_def calm_def t u marked_pending split: option.splits) (simp add: marked_def)
  show "same_place m s t" "app_log t = app_log s"
    "lens_at t m = lens_at s m + signed_load (axes s m)"
    "ax_position (axes t m) = s32 (ax_position (axes s m) + signed_load (axes s m))"
    "to_go (axes t m) = to_go (axes s m) - signed_load (axes s m)"
    "batches_left (axes s m) = Suc (batches_left (axes t m))"
    using c(1) n o fire_lens [of u] by (simp_all add: t u same_place_def calm_def to_go_def batches_left_def)
qed

text \<open>What the application is told, when it listens.\<close>

definition told :: "nat option \<Rightarrow> event \<Rightarrow> sys_result \<Rightarrow> (nat \<times> event \<times> sys_result) list" where
  "told cb e r = (case cb of None \<Rightarrow> [] | Some f \<Rightarrow> [(f, e, r)])"

definition arrived :: "motor \<Rightarrow> ms \<Rightarrow> bool" where
  "arrived m s = (calm m s \<and> ax_state (axes s m) = STATE_STOPPED \<and> chip_batch s m = None
     \<and> reg_batch (regs s (step_addr m)) = None \<and> (\<exists>g. s_event_group s = Some g \<and> COMPLETED m \<in> g))"

lemma turn_last:
  assumes mv: "moving m s" and d: "d < 5000" and last: "unload_psum (ax_run_config (axes s m)) = 0"
  defines "t \<equiv> drv_turn m d s"
  shows "arrived m t" "same_place m s t" "app_log t = app_log s @ told (s_app_event_cb s) (COMPLETED m) SYS_OK"
    "lens_at t m = lens_at s m + signed_load (axes s m)"
    "ax_position (axes t m) = s32 (ax_position (axes s m) + signed_load (axes s m))"
proof -
  note p = pulsed_simps [OF moving_batch [OF mv], of d]
  have c: "calm m s" "ax_state (axes s m) = STATE_RUNNING" "run_ok (axes s m) (regs s (step_addr m))"
    using mv by (simp_all add: moving_def)
  have e: "env_spi s = []" "is_valid (ax_run_config (axes s m))" "\<not> batch_pending (axes s (other m))"
    "rz_phase (s_rst s) = RZ_IDLE" "s_app_notify s = []" "ax_state (axes s (other m)) \<noteq> STATE_RUNNING"
    "chip_batch s (other m) = None" "reg_batch (regs s (step_addr (other m))) = None"
    using c by (simp_all add: calm_def run_ok_def Let_def)
  obtain g where g: "s_event_group s = Some g" "g \<inter> {PLS FOCUS, PLS ZOOM, REQ_RESET FOCUS, REQ_RESET ZOOM} = {}"
    using c(1) by (auto simp: calm_def split: option.splits)
  have o: "marked x (axes s (other m)) = axes s (other m)" for x using e by (simp add: marked_def)
  define v where "v = upd_axis m (\<lambda>a. axis_count (acked a)) (pulsed m d s)"
  define w where "w = fire (stop_state m v)"
  define u where "u = ms41908m_port_set_event_notify (COMPLETED m) SYS_OK w"
  have v: "axes v = (axes s)(m := axis_count (acked (axes s m)))" "lens_at v = (lens_at s)(m := lens_at s m + signed_load (axes s m))"
    "chip_batch v = (chip_batch s)(m := None)" "app_log v = app_log s" "s_rst v = s_rst s" "s_app_notify v = []"
    "s_app_event_cb v = s_app_event_cb s" "s_event_group v = map_option (insert (PLS m)) (s_event_group s)"
    "env_spi v = []" "env_lock v = env_lock s" "s_mutex v = s_mutex s" "is_initialized v = is_initialized s" "regs v = regs s"
    by (simp_all add: v_def p e)
  have st: "\<not> resetting v m" using e by (simp add: resetting_def v)
  have "can_fire_vd_fz (stop_state m v)" unfolding can_fire using e st by (simp add: v neq_other)
  then have "ms41908m_motor_stop_impl m v = (SYS_OK, w)"
    using c by (simp add: stop_impl_eq v fire_if_def w_def)
  then have "axis_completed m v = u"
    using e by (simp add: axis_completed_def Let_def u_def w_def v)
  then have pls: "axis_pls m (SYS_OK, pulsed m d s) = (SYS_OK, u)"
    using pls_last [of "pulsed m d s" m] e last by (simp add: p v_def)
  have w: "axes w = (axes s)(m := stopped_axis False (axis_count (acked (axes s m))))"
    "lens_at w m = lens_at s m + signed_load (axes s m)" "lens_at w (other m) = lens_at s (other m)"
    "chip_batch w m = None" "chip_batch w (other m) = None"
    "regs w = (regs s)(step_addr m := regs s (step_addr m) AND 0xFF00)"
    using st e fire_lens [of "stop_state m v"] o
    by (auto simp: w_def v fun_eq_iff neq_other) (simp add: marked_def)
  have w': "s_event_group w = Some (insert (PLS m) g)" "app_log w = app_log s" "s_app_notify w = []"
    "s_app_event_cb w = s_app_event_cb s" "env_spi w = []" "env_lock w = env_lock s" "s_mutex w = s_mutex s"
    "is_initialized w = is_initialized s" "s_rst w = s_rst s"
    by (simp_all add: w_def v g) (simp_all add: stop_state_def v)
  have "\<not> any_running u" using e by (cases m) (simp_all add: any_running_def u_def w)
  then have "t = ms41908m_dispatch_pending_app_events (ms41908m_port_clear_event {PLS FOCUS, PLS ZOOM} u)"
    unfolding t_def using turn_eq [OF mv d] e by (simp add: pls u_def w')
  moreover have "u = w\<lparr>s_event_group := Some (insert (COMPLETED m) (insert (PLS m) g)), s_app_notify := [(COMPLETED m, SYS_OK)]\<rparr>"
    by (simp add: u_def ms41908m_port_set_event_notify_def ms41908m_port_set_event_def ms41908m_queue_app_notify_def
        APP_NOTIFY_CAP_def set_event_def w' Un_commute insert_commute)
  ultimately have t: "t = w\<lparr>s_event_group := Some (insert (COMPLETED m) (insert (PLS m) g) - {PLS FOCUS, PLS ZOOM}), s_app_notify := [],
      app_log := app_log s @ told (s_app_event_cb s) (COMPLETED m) SYS_OK\<rparr>"
    using w'(2,4)
    by (cases w) (auto simp: ms41908m_dispatch_pending_app_events_def ms41908m_port_clear_event_def told_def split: option.split)
  show "arrived m t" "same_place m s t" "app_log t = app_log s @ told (s_app_event_cb s) (COMPLETED m) SYS_OK"
    "lens_at t m = lens_at s m + signed_load (axes s m)"
    "ax_position (axes t m) = s32 (ax_position (axes s m) + signed_load (axes s m))"
    using c(1) e g by (auto simp: t w w' arrived_def calm_def same_place_def)
qed

lemma turns_arrive:
  assumes "moving m s" "length ds = batches_left (axes s m)" "list_all (\<lambda>d. d < 5000) ds"
  defines "t \<equiv> fold (drv_turn m) ds s"
  shows "arrived m t \<and> same_place m s t \<and> app_log t = app_log s @ told (s_app_event_cb s) (COMPLETED m) SYS_OK
    \<and> lens_at t m = lens_at s m + to_go (axes s m)
    \<and> ax_position (axes t m) = s32 (ax_position (axes s m) + to_go (axes s m))"
  unfolding t_def using assms(1-3)
proof (induction ds arbitrary: s)
  case Nil
  then have "run_ok (axes s m) (regs s (step_addr m))" by (simp add: moving_def)
  then have "0 < batches_left (axes s m)"
    using pos_imp_zdiv_pos_iff by (simp add: batches_left_def batches_def run_ok_def Let_def)
  then show ?case using Nil by simp
next
  case (Cons d ds)
  then have d: "d < 5000" and r: "run_ok (axes s m) (regs s (step_addr m))" by (simp_all add: moving_def)
  show ?case
  proof (cases "unload_psum (ax_run_config (axes s m)) = 0")
    case True
    then have "batches_left (axes s m) = 1" "to_go (axes s m) = signed_load (axes s m)"
      using r batches_step(1) by (simp_all add: batches_left_def run_ok_def Let_def to_go_def signed_load_def)
    then show ?thesis using Cons.prems turn_last [OF Cons.prems(1) d True] by simp
  next
    case False
    then have more: "0 < unload_psum (ax_run_config (axes s m))" using r by (simp add: run_ok_def Let_def)
    note n = turn_next [OF Cons.prems(1) d more]
    have "length ds = batches_left (axes (drv_turn m d s) m)" using Cons.prems n(7) by simp
    then show ?thesis using Cons.IH [OF n(1)] Cons.prems n by (simp add: same_place_def)
  qed
qed

subsection \<open>The whole move\<close>

definition at_rest :: "motor \<Rightarrow> ms \<Rightarrow> bool" where
  "at_rest m s = (calm m s \<and> ax_state (axes s m) = STATE_STOPPED \<and> chip_batch s m = None)"

definition in_limits :: "motor \<Rightarrow> int \<Rightarrow> ms \<Rightarrow> bool" where
  "in_limits m n s = (let a = axes s m; t = s32 (ax_position a + n) in
     ax_is_r_zero a \<and> ax_pos_min a < ax_pos_max a \<longrightarrow> ax_pos_min a \<le> t \<and> t \<le> ax_pos_max a)"

lemma pps_step [simp]: "pps_addr m \<noteq> step_addr m'" "step_addr m' \<noteq> pps_addr m" "step_addr (other m) \<noteq> step_addr m"
  "step_addr m \<noteq> step_addr (other m)"
  by (cases m; cases m'; simp add: REG_FOCUS_STEP_def REG_ZOOM_STEP_def REG_FOCUS_PPS_def REG_ZOOM_PPS_def)+

lemma run_moves:
  assumes r: "at_rest m s" and g: "\<not> raw_pps_bad pps" "\<not> raw_psum_bad n" "in_limits m n s"
  defines "t \<equiv> snd (axis_run m pps n s)"
  shows "fst (axis_run m pps n s) = SYS_OK" "moving m t" "same_place m s t" "app_log t = app_log s"
    "lens_at t m = lens_at s m" "ax_position (axes t m) = ax_position (axes s m)" "to_go (axes t m) = n"
    "batches_left (axes t m) = batches \<bar>n\<bar> (uint (start_psum pps n))"
proof -
  let ?u = "start_state m pps n s"
  have c: "calm m s" "ax_state (axes s m) = STATE_STOPPED" "chip_batch s m = None" using r by (simp_all add: at_rest_def)
  have e: "env_spi s = []" "is_initialized s" "s_mutex s" "env_lock s = []" "rz_phase (s_rst s) = RZ_IDLE"
    "ax_state (axes s (other m)) \<noteq> STATE_RUNNING" "\<not> batch_pending (axes s (other m))"
    using c by (simp_all add: calm_def)
  have n: "n \<noteq> 0" using g by (auto simp: raw_psum_bad_def RAW_PSUM_MIN_def)
  note p = start_psum_range [OF g(2), of pps]
  have "can_fire_vd_fz ?u" unfolding can_fire using e by (simp add: neq_other)
  moreover have "ms41908m_motor_start_impl m pps n s = (SYS_OK, fire_if ?u)"
    using c g by (auto simp: start_impl_eq [OF e(1)] Let_def in_limits_def)
  ultimately have run: "axis_run m pps n s = (SYS_OK, fire ?u)"
    using e c n by (simp add: axis_run_def lock_free axis_busy_def ms41908m_reset_sm_active_def fire_if_def)
  then show "fst (axis_run m pps n s) = SYS_OK" by simp
  have t: "t = fire ?u" by (simp add: t_def run)
  have o: "marked x (axes s (other m)) = axes s (other m)" for x using e by (simp add: marked_def)
  have u: "s_mutex ?u = s_mutex s" "is_initialized ?u = is_initialized s" "s_app_event_cb ?u = s_app_event_cb s"
    "app_log ?u = app_log s"
    by (simp_all add: start_state_def)
  have ok: "run_ok (axes ?u m) (regs ?u (step_addr m))" using started_run_ok [OF g(2) p] by simp
  then have "reg_batch (regs ?u (step_addr m)) = Some (signed_load (axes ?u m))" by (simp add: run_ok_def Let_def)
  then show "moving m t"
    using c(1) ok e o unfolding moving_def calm_def t
    by (auto simp: u marked_pending split: option.splits) (simp add: marked_def)
  show "same_place m s t" "app_log t = app_log s" "lens_at t m = lens_at s m"
    "ax_position (axes t m) = ax_position (axes s m)" "to_go (axes t m) = n"
    "batches_left (axes t m) = batches \<bar>n\<bar> (uint (start_psum pps n))"
    using c o fire_lens [of ?u]
    by (simp_all add: t u same_place_def calm_def to_go_def batches_left_def run_of_def Let_def)
qed

end
