(* ===== verification/Ms41908m_Home.thy ===== *)
theory Ms41908m_Home
  imports Ms41908m_Move
begin

text \<open>
  Reset zero from the request to the notification: the motor runs towards the edge of its
  position sensor, and the falling edge stops it there and makes that place zero.
\<close>

subsection \<open>A motor looking for the edge\<close>

definition capture_rst :: "motor \<Rightarrow> reset_sm" where
  "capture_rst m = zero_rst\<lparr>rz_phase := RZ_CAPTURE_WAIT, rz_type := m, rz_pi_irq := m, rz_pi_event := {PI m},
     rz_complete_event := {COMPLETED m}\<rparr>"

definition capturing :: "motor \<Rightarrow> ms \<Rightarrow> bool" where
  "capturing m s =
     (is_initialized s \<and> s_mutex s \<and> env_spi s = [] \<and> env_lock s = [] \<and> s_app_notify s = []
      \<and> s_rst s = capture_rst m \<and> pi_input s \<and> pi_level s m
      \<and> (case s_event_group s of None \<Rightarrow> False
         | Some g \<Rightarrow> g \<inter> {PLS FOCUS, PLS ZOOM, REQ_RESET FOCUS, REQ_RESET ZOOM, PI m, COMPLETED m} = {})
      \<and> ax_state (axes s (other m)) \<noteq> STATE_RUNNING \<and> \<not> batch_pending (axes s (other m))
      \<and> chip_batch s (other m) = None \<and> reg_batch (regs s (step_addr (other m))) = None
      \<and> ax_state (axes s m) = STATE_RUNNING \<and> run_ok (axes s m) (regs s (step_addr m))
      \<and> batch_pending (axes s m) \<and> chip_batch s m = Some (signed_load (axes s m)))"

lemma capture_rst_simps [simp]:
  "rz_phase (capture_rst m) = RZ_CAPTURE_WAIT" "rz_type (capture_rst m) = m" "rz_pi_event (capture_rst m) = {PI m}"
  "rz_complete_event (capture_rst m) = {COMPLETED m}" "rz_abort_requested (capture_rst m) = False"
  "rz_pi_irq (capture_rst m) = m" "rz_pi_triggered (capture_rst m) = False"
  by (simp_all add: capture_rst_def zero_rst_def)

lemma clear_pi [simp]:
  "pi_input (ms41908m_port_clear_event e s) = pi_input s" "pi_level (ms41908m_port_clear_event e s) = pi_level s"
  by (simp_all add: ms41908m_port_clear_event_def)

text \<open>Without the edge and before the end of the move the state machine waits.\<close>

lemma capture_waits:
  assumes "s_rst s = capture_rst m" "s_event_group s = Some g" "g \<inter> {PI m, COMPLETED m} = {}"
    "ax_state (axes s m) = STATE_RUNNING"
  shows "rz_steps n s = s"
proof (induction n)
  case (Suc n)
  have "rz_capture_wait s = s"
    using assms by (auto simp: rz_capture_wait_def ms41908m_port_wait_for_event_def Let_def)
  then show ?case using Suc assms(1) by (simp add: ms41908m_reset_sm_step_once_locked_def)
qed simp

lemma wait_sees:
  "s_event_group s = Some g \<Longrightarrow> g \<inter> msk \<noteq> {} \<Longrightarrow> ms41908m_port_wait_for_event msk False False s = (g, s)"
  by (simp add: ms41908m_port_wait_for_event_def)

lemma capture_turn:
  fixes d :: u32
  assumes cp: "capturing m s" and more: "0 < unload_psum (ax_run_config (axes s m))"
  defines "t \<equiv> drv_turn m d s"
  shows "capturing m t" "lens_at t m = lens_at s m + signed_load (axes s m)"
    "batches_left (axes s m) = Suc (batches_left (axes t m))" "s_app_event_cb t = s_app_event_cb s" "app_log t = app_log s"
proof -
  have cb: "chip_batch s m = Some (signed_load (axes s m))" using cp by (simp add: capturing_def)
  note p = pulsed_simps [OF cb, of d]
  let ?p = "pulsed m d s"
  have pi: "pi_input ?p = pi_input s" "pi_level ?p = pi_level s"
    by (simp_all add: pulsed_def chip_done_def set_event_def split: option.split)
  define u where "u = (upd_axis m next_axis ?p)
    \<lparr>regs := (regs s)(step_addr m := next_reg (ax_run_config (axes s m)) (regs s (step_addr m)))\<rparr>"
  obtain g where g: "s_event_group s = Some g"
      "g \<inter> {PLS FOCUS, PLS ZOOM, REQ_RESET FOCUS, REQ_RESET ZOOM, PI m, COMPLETED m} = {}"
    using cp by (auto simp: capturing_def split: option.splits)
  have c: "is_initialized s" "s_mutex s" "env_spi s = []" "env_lock s = []" "s_app_notify s = []" "s_rst s = capture_rst m"
    "pi_input s" "pi_level s m" "ax_state (axes s (other m)) \<noteq> STATE_RUNNING" "\<not> batch_pending (axes s (other m))"
    "chip_batch s (other m) = None" "reg_batch (regs s (step_addr (other m))) = None"
    "ax_state (axes s m) = STATE_RUNNING" "run_ok (axes s m) (regs s (step_addr m))" "is_valid (ax_run_config (axes s m))"
    using cp by (simp_all add: capturing_def run_ok_def Let_def)
  have pls: "axis_pls m (SYS_OK, ?p) = (SYS_OK, u)"
    using pls_next [of ?p m] c more by (simp add: p u_def)
  have u: "axes u = (axes s)(m := next_axis (axes s m))" "lens_at u = (lens_at s)(m := lens_at s m + signed_load (axes s m))"
    "chip_batch u = (chip_batch s)(m := None)" "app_log u = app_log s" "s_rst u = s_rst s"
    "s_app_notify u = []" "s_app_event_cb u = s_app_event_cb s" "s_event_group u = Some (insert (PLS m) g)"
    "env_spi u = []" "env_lock u = env_lock s" "s_mutex u = s_mutex s" "is_initialized u = is_initialized s"
    "regs u = (regs s)(step_addr m := next_reg (ax_run_config (axes s m)) (regs s (step_addr m)))"
    "pi_input u = pi_input s" "pi_level u = pi_level s"
    by (simp_all add: u_def p pi c g)
  have "can_fire_vd_fz u" unfolding can_fire u using c by (simp add: neq_other)
  moreover have "any_running u" using c by (cases m) (simp_all add: any_running_def u)
  moreover have b: "PLS (other m) \<notin> insert (PLS m) g" "REQ_RESET m' \<notin> insert (PLS m) g" for m'
    using g(2) by (cases m; cases m'; auto)+
  ultimately have tp: "task_pulses (insert (PLS m) g) ?p = fire u"
    using c by (subst task_pulses_one [of m]) (simp_all add: p pls Let_def)
  define v where "v = ms41908m_port_clear_event {PLS FOCUS, PLS ZOOM} (fire u)"
  have v: "rz_steps 32 v = v"
    by (rule capture_waits [where m = m and g = "insert (PLS m) g - {PLS FOCUS, PLS ZOOM}"])
      (use g c in \<open>auto simp: v_def u\<close>)
  have "PLS FOCUS \<in> insert (PLS m) g \<or> PLS ZOOM \<in> insert (PLS m) g" by (cases m) simp_all
  moreover have "rz_phase (s_rst ?p) \<noteq> RZ_IDLE" "rz_phase (s_rst v) \<noteq> RZ_IDLE" using c by (simp_all add: p v_def u)
  ultimately have body: "task_body {} (insert (PLS m) g) ?p = v"
    using b tp v unfolding task_body_def Let_def v_def by (simp add: ms41908m_reset_sm_run_locked_def)
  have "PLS m \<in> task_wait_mask ?p" by (cases m) (simp_all add: task_wait_mask_def)
  then have "ms41908m_port_wait_for_event (task_wait_mask ?p) False False ?p = (insert (PLS m) g, ?p)"
    by (intro wait_sees) (auto simp: p g(1))
  moreover have "t = ms41908m_motor_task_handler {} ?p" by (simp add: t_def drv_turn_def pulsed_def)
  ultimately have "t = ms41908m_dispatch_pending_app_events v"
    using c body by (simp add: ms41908m_motor_task_handler_def lock_free p)
  then have t: "t = v" by (simp add: ms41908m_dispatch_pending_app_events_def v_def u)
  note n = next_run_ok [OF c(14) more]
  have o: "marked x (axes s (other m)) = axes s (other m)" for x using c by (simp add: marked_def)
  have "reg_batch (next_reg (ax_run_config (axes s m)) (regs s (step_addr m))) = Some (signed_load (next_axis (axes s m)))"
    using n(1) by (simp add: run_ok_def Let_def)
  then show "capturing m t"
    using c n(1) o g(2) by (auto simp: capturing_def t v_def u marked_pending)
  show "lens_at t m = lens_at s m + signed_load (axes s m)"
    "batches_left (axes s m) = Suc (batches_left (axes t m))" "s_app_event_cb t = s_app_event_cb s" "app_log t = app_log s"
    using n fire_lens [of u] by (simp_all add: t v_def u batches_left_def)
qed

subsection \<open>The edge\<close>

definition homed :: "motor \<Rightarrow> ms \<Rightarrow> bool" where
  "homed m s =
     (ax_is_r_zero (axes s m) \<and> ax_position (axes s m) = 0 \<and> ax_state (axes s m) = STATE_STOPPED \<and> chip_batch s m = None
      \<and> rz_phase (s_rst s) = RZ_IDLE \<and> rst_last_result s m = SYS_OK
      \<and> (case s_event_group s of None \<Rightarrow> False | Some g \<Rightarrow> RESET_DONE m \<in> g))"

lemma notify_simps:
  assumes "s_event_group s = Some g" "s_app_notify s = []"
  shows "ms41908m_port_set_event_notify e r s = s\<lparr>s_event_group := Some (insert e g), s_app_notify := [(e, r)]\<rparr>"
  using assms by (simp add: ms41908m_port_set_event_notify_def ms41908m_port_set_event_def ms41908m_queue_app_notify_def
      APP_NOTIFY_CAP_def set_event_def)

lemma dispatch_one:
  assumes "s_app_notify s = [(e, r)]"
  shows "ms41908m_dispatch_pending_app_events s = s\<lparr>s_app_notify := [], app_log := app_log s @ told (s_app_event_cb s) e r\<rparr>"
  using assms by (cases s) (simp add: ms41908m_dispatch_pending_app_events_def told_def split: option.split)

lemma captured_homes:
  assumes c: "s_rst s = capture_rst m" "env_spi s = []" "s_app_notify s = []" "s_event_group s = Some g"
    "ax_state (axes s m) = STATE_RUNNING" "\<not> batch_pending (axes s (other m))"
  defines "t \<equiv> rz_captured s"
  shows "homed m t" "s_app_notify t = [(RESET_DONE m, SYS_OK)]" "app_log t = app_log s" "s_app_event_cb t = s_app_event_cb s"
    "axes t (other m) = axes (fire (stop_state m s)) (other m)"
proof -
  define w where "w = fire (stop_state m s)"
  have r: "resetting s m" using c by (simp add: resetting_def)
  have "can_fire_vd_fz (stop_state m s)" unfolding can_fire using c by (simp add: neq_other)
  then have stop: "ms41908m_motor_stop_impl m s = (SYS_OK, w)"
    using c by (simp add: stop_impl_eq fire_if_def w_def)
  have w: "axes w m = marked (ms_tick s) (stopped_axis True (axes s m))" "chip_batch w m = None" "s_rst w = capture_rst m"
    "s_event_group w = Some g" "s_app_notify w = []" "app_log w = app_log s" "s_app_event_cb w = s_app_event_cb s"
    using r c by (simp_all add: w_def) (simp_all add: stop_state_def)
  have "marked x (stopped_axis True a) = stopped_axis True a" for x a by (simp add: marked_def)
  then have ws: "axes w m = stopped_axis True (axes s m)" using w by simp
  define x where "x = ms41908m_port_clear_event {PI m, COMPLETED m} (w\<lparr>s_rst := (s_rst w)\<lparr>rz_pi_triggered := True\<rparr>\<rparr>)"
  have x: "t = ms41908m_reset_sm_complete_ok_locked x"
    using c(1) w by (simp add: t_def rz_captured_def Let_def stop x_def rz_events_def insert_commute)
  define y where "y = upd_axis m (\<lambda>a. a\<lparr>ax_position := 0, ax_is_r_zero := True\<rparr>) x"
  have y: "t = rz_finish SYS_OK y"
    using ws w by (simp add: x ms41908m_reset_sm_complete_ok_locked_def Let_def y_def rz_stop_if_running_def x_def)
  define z where "z = (set_state m STATE_STOPPED y)\<lparr>s_rst := (s_rst y)\<lparr>rz_phase := RZ_IDLE, rz_abort_requested := False\<rparr>\<rparr>"
  define z1 where "z1 = ms41908m_port_pi_irq_disable (ms41908m_port_clear_event {PI m, COMPLETED m} z)"
  define z2 where "z2 = z1\<lparr>rst_last_result := (rst_last_result z1)(m := SYS_OK)\<rparr>"
  have t: "t = ms41908m_port_set_event_notify (RESET_DONE m) SYS_OK z2"
    using w by (simp add: y rz_finish_def Let_def z_def z1_def z2_def y_def x_def rz_events_def insert_commute)
  have z2: "axes z2 m = (axes w m)\<lparr>ax_position := 0, ax_is_r_zero := True, ax_state := STATE_STOPPED\<rparr>"
    "axes z2 (other m) = axes w (other m)" "chip_batch z2 m = None" "rz_phase (s_rst z2) = RZ_IDLE"
    "s_event_group z2 = Some (g - {PI m, COMPLETED m} - {PI m, COMPLETED m} - {PI ZOOM, PI FOCUS})" "s_app_notify z2 = []"
    "app_log z2 = app_log s" "s_app_event_cb z2 = s_app_event_cb s" "rst_last_result z2 m = SYS_OK"
    using w by (simp_all add: z2_def z1_def z_def y_def x_def ms41908m_port_pi_irq_disable_def set_state_def upd_axis_def
        ms41908m_port_clear_event_def)
  show "homed m t" "s_app_notify t = [(RESET_DONE m, SYS_OK)]" "app_log t = app_log s" "s_app_event_cb t = s_app_event_cb s"
    "axes t (other m) = axes (fire (stop_state m s)) (other m)"
    using z2 by (simp_all add: t notify_simps homed_def w_def)
qed

lemma edge_homes:
  assumes cp: "capturing m s"
  defines "t \<equiv> drv_exec Task (drv_exec (Pi m False) s)"
  shows "homed m t" "app_log t = app_log s @ told (s_app_event_cb s) (RESET_DONE m) SYS_OK"
    "axes t (other m) = axes s (other m)"
proof -
  define q where "q = pi_change m False s"
  obtain g where g: "s_event_group s = Some g"
      "g \<inter> {PLS FOCUS, PLS ZOOM, REQ_RESET FOCUS, REQ_RESET ZOOM, PI m, COMPLETED m} = {}"
    using cp by (auto simp: capturing_def split: option.splits)
  have p: "q = s\<lparr>pi_level := (pi_level s)(m := False), s_event_group := Some (insert (PI m) g)\<rparr>"
    using cp g(1) by (simp add: q_def capturing_def pi_change_def Let_def set_event_def)
  have c: "s_rst q = capture_rst m" "env_spi q = []" "s_app_notify q = []" "s_event_group q = Some (insert (PI m) g)"
    "ax_state (axes q m) = STATE_RUNNING" "\<not> batch_pending (axes q (other m))" "s_mutex q" "env_lock q = []"
    "ax_state (axes q (other m)) \<noteq> STATE_RUNNING"
    using cp by (simp_all add: p capturing_def)
  note h = captured_homes [OF c(1-6)]
  have "rz_capture_wait q = rz_captured q"
    using c by (simp add: rz_capture_wait_def wait_sees Let_def)
  then have "rz_steps (Suc n) q = rz_captured q" for n
    using c h(1) by (simp add: ms41908m_reset_sm_step_once_locked_def rz_steps_idle homed_def)
  from this [of 31] have "rz_steps 32 q = rz_captured q" by simp
  moreover have b: "PLS m' \<notin> insert (PI m) g" "REQ_RESET m' \<notin> insert (PI m) g" for m'
    using g(2) by (cases m'; auto)+
  ultimately have body: "task_body {} (insert (PI m) g) q = rz_captured q"
    using c unfolding task_body_def Let_def by (simp add: ms41908m_reset_sm_run_locked_def)
  have "PI m \<in> task_wait_mask q" using c by (simp add: task_wait_mask_def rz_events_def)
  then have "ms41908m_port_wait_for_event (task_wait_mask q) False False q = (insert (PI m) g, q)"
    using c by (intro wait_sees) auto
  then have t: "t = ms41908m_dispatch_pending_app_events (rz_captured q)"
    using c body by (simp add: t_def q_def [symmetric] ms41908m_motor_task_handler_def lock_free)
  have t: "t = (rz_captured q)\<lparr>s_app_notify := [], app_log := app_log s @ told (s_app_event_cb s) (RESET_DONE m) SYS_OK\<rparr>"
    unfolding t using dispatch_one [OF h(2)] h(3,4) by (simp add: p)
  show "homed m t" "app_log t = app_log s @ told (s_app_event_cb s) (RESET_DONE m) SYS_OK"
    using h(1) by (simp_all add: t homed_def)
  show "axes t (other m) = axes s (other m)" using h(5) c(9) by (simp add: t) (simp add: p marked_def)
qed

subsection \<open>The request\<close>

definition home_limits :: "axis \<Rightarrow> bool" where
  "home_limits a = (- 65135 \<le> ax_pos_min a \<and> ax_pos_min a \<le> 0 \<and> 0 \<le> ax_pos_max a \<and> ax_pos_max a \<le> 65135
     \<and> ax_pos_min a < ax_pos_max a)"

lemma s32_id: "- 2147483648 \<le> x \<Longrightarrow> x < 2147483648 \<Longrightarrow> s32 x = x"
  by (simp add: s32_def)

text \<open>The way to the edge is a legal move.\<close>

lemma home_edge_steps:
  assumes "home_limits (axes s m)" "rz_type (s_rst s) = m"
  shows "\<not> raw_psum_bad (ms41908m_rz_steps_to_home_edge_locked s)"
  using assms
  by (auto simp: home_limits_def ms41908m_rz_steps_to_home_edge_locked_def ms41908m_rz_span_zero_to_max_locked_def
      ms41908m_rz_span_zero_to_min_locked_def Let_def TRAVEL_MARGIN_def raw_psum_bad_def RAW_PSUM_MIN_def RAW_PSUM_MAX_def
      s32_id)

lemma capture_start_starts:
  assumes "s_rst v = (capture_rst m)\<lparr>rz_phase := RZ_CAPTURE_START\<rparr>" "env_spi v = []"
    "ax_state (axes v m) = STATE_RESET_ZERO" "\<not> ax_is_r_zero (axes v m)" "home_limits (axes v m)"
    "\<not> batch_pending (axes v (other m))"
  shows "rz_capture_start v = set_phase RZ_CAPTURE_WAIT (fire (start_state m RESET_SLOW_PPS
    (ms41908m_rz_steps_to_home_edge_locked v) (ms41908m_port_clear_event {PI m, COMPLETED m} v)))"
proof -
  let ?v = "ms41908m_port_clear_event {PI m, COMPLETED m} v"
  let ?n = "ms41908m_rz_steps_to_home_edge_locked v"
  have n: "ms41908m_rz_steps_to_home_edge_locked (ms41908m_port_clear_event e v) = ?n" for e
    by (simp add: ms41908m_rz_steps_to_home_edge_locked_def ms41908m_rz_span_zero_to_max_locked_def
        ms41908m_rz_span_zero_to_min_locked_def)
  have "\<not> raw_psum_bad ?n" using home_edge_steps [of v m] assms by simp
  moreover have "\<not> raw_pps_bad RESET_SLOW_PPS"
    by (simp add: raw_pps_bad_def RESET_SLOW_PPS_def RAW_PPS_MIN_def RAW_PPS_MAX_def)
  moreover have "can_fire_vd_fz (start_state m RESET_SLOW_PPS ?n ?v)" unfolding can_fire using assms by (simp add: neq_other)
  ultimately have "ms41908m_motor_start_impl m RESET_SLOW_PPS ?n ?v = (SYS_OK, fire (start_state m RESET_SLOW_PPS ?n ?v))"
    using assms by (simp add: start_impl_eq Let_def fire_if_def)
  then show ?thesis using assms(1) by (simp add: rz_capture_start_def Let_def n rz_events_def insert_commute)
qed

lemma reset_zero_asks:
  assumes r: "at_rest m s" and g: "s_event_group s = Some g"
  shows "drv_exec (Reset_Zero m) s =
    s\<lparr>axes := (axes s)(m := (axes s m)\<lparr>ax_is_r_zero := False, ax_state := STATE_RESET_ZERO\<rparr>),
      s_event_group := Some (insert (REQ_RESET m) (g - {RESET_DONE m}))\<rparr>"
proof -
  have "is_initialized s" "s_mutex s" "env_lock s = []" "rz_phase (s_rst s) = RZ_IDLE" "ax_state (axes s m) = STATE_STOPPED"
    "ax_state (axes s (other m)) \<noteq> STATE_RUNNING"
    using r by (simp_all add: at_rest_def calm_def)
  then have "axis_reset_zero m s = (SYS_OK,
    s\<lparr>axes := (axes s)(m := (axes s m)\<lparr>ax_is_r_zero := False, ax_state := STATE_RESET_ZERO\<rparr>),
      s_event_group := Some (insert (REQ_RESET m) (g - {RESET_DONE m}))\<rparr>)"
    by (simp add: axis_reset_zero_def lock_free axis_busy_def ms41908m_reset_sm_active_def ms41908m_port_clear_event_def
        ms41908m_port_set_event_def set_event_def set_state_def set_r_zero_def upd_axis_def g)
  then show ?thesis
    by (cases m) (simp_all add: ms41908m_zoom_reset_zero_def ms41908m_focus_reset_zero_def)
qed

text \<open>The task's answer to a request, when the sensor is off its flag.\<close>

definition armed :: "motor \<Rightarrow> ms \<Rightarrow> ms" where
  "armed m s = ms41908m_port_clear_event {REQ_RESET m} (ms41908m_reset_sm_arm_locked m s)"

lemma armed_eq:
  assumes "pi_level s m" "s_event_group s = Some g" "\<not> ax_is_r_zero (axes s m)"
  shows "armed m s = s\<lparr>s_rst := (capture_rst m)\<lparr>rz_phase := RZ_CAPTURE_START\<rparr>, pi_input := True,
    s_event_group := Some (g - {PI m, COMPLETED m} - {PI ZOOM, PI FOCUS} - {REQ_RESET m})\<rparr>"
proof -
  have "set_r_zero m False t = t" if "axes t = axes s" for t
  proof -
    have "(axes s m)\<lparr>ax_is_r_zero := False\<rparr> = axes s m" using assms(3) by (cases "axes s m") simp
    then show ?thesis using that by (cases t) (simp add: set_r_zero_def upd_axis_def)
  qed
  then show ?thesis using assms(1,2)
    by (simp add: armed_def ms41908m_reset_sm_arm_locked_def Let_def ms41908m_port_clear_event_def
        ms41908m_port_pi_irq_enable_def ms41908m_rz_pi_is_high_locked_def ms41908m_port_read_irq_status_def set_phase_def
        capture_rst_def rz_events_def insert_commute zero_rst_def)
qed

definition still :: "motor \<Rightarrow> ms \<Rightarrow> bool" where
  "still m s = (ax_state (axes s m) \<noteq> STATE_RUNNING \<and> \<not> batch_pending (axes s m) \<and> chip_batch s m = None
     \<and> reg_batch (regs s (step_addr m)) = None)"

lemma capture_begins:
  assumes c: "is_initialized a" "s_mutex a" "env_spi a = []" "env_lock a = []" "s_app_notify a = []"
      "s_rst a = (capture_rst m)\<lparr>rz_phase := RZ_CAPTURE_START\<rparr>" "pi_input a" "pi_level a m" "still (other m) a"
      "ax_state (axes a m) = STATE_RESET_ZERO" "\<not> ax_is_r_zero (axes a m)" "home_limits (axes a m)" "chip_batch a m = None"
    and g: "s_event_group a = Some g" "g \<inter> {PLS FOCUS, PLS ZOOM, REQ_RESET FOCUS, REQ_RESET ZOOM} = {}"
  defines "f \<equiv> rz_steps 32 a"
  shows "capturing m f" "app_log f = app_log a" "s_app_event_cb f = s_app_event_cb a" "lens_at f m = lens_at a m"
    "s_app_notify f = []"
proof -
  let ?n = "ms41908m_rz_steps_to_home_edge_locked a"
  define b where "b = start_state m RESET_SLOW_PPS ?n (ms41908m_port_clear_event {PI m, COMPLETED m} a)"
  define w where "w = set_phase RZ_CAPTURE_WAIT (fire b)"
  have start: "rz_capture_start a = w"
    unfolding w_def b_def by (rule capture_start_starts) (use c in \<open>simp_all add: still_def\<close>)
  have n: "\<not> raw_psum_bad ?n" by (rule home_edge_steps [of _ m]) (use c in simp_all)
  have ok: "run_ok (axes b m) (regs b (step_addr m))"
    unfolding b_def using started_run_ok [OF n start_psum_range [OF n]] by simp
  then have rb: "reg_batch (regs b (step_addr m)) = Some (signed_load (axes b m))" by (simp add: run_ok_def Let_def)
  have b: "axes b (other m) = axes a (other m)" "ax_state (axes b m) = STATE_RUNNING" "lens_at b = lens_at a"
    "chip_batch b = chip_batch a" "s_rst b = s_rst a" "env_spi b = []" "env_lock b = []"
    "s_app_notify b = []" "is_initialized b" "s_mutex b" "pi_input b" "pi_level b m" "app_log b = app_log a"
    "s_app_event_cb b = s_app_event_cb a" "regs b (step_addr (other m)) = regs a (step_addr (other m))"
    "s_event_group b = Some (g - {PI m, COMPLETED m} - {COMPLETED m})"
    using c g(1) by (simp_all add: b_def) (simp_all add: start_state_def)
  have o: "marked x (axes a (other m)) = axes a (other m)" for x using c by (simp add: marked_def still_def)
  have "(capture_rst m)\<lparr>rz_phase := RZ_CAPTURE_WAIT\<rparr> = capture_rst m" by (simp add: capture_rst_def)
  then have w: "s_rst w = capture_rst m" "axes w = axes (fire b)" "s_event_group w = s_event_group b"
      "lens_at w = lens_at (fire b)" "chip_batch w = chip_batch (fire b)" "regs w = regs b" "env_spi w = []" "env_lock w = []"
      "s_app_notify w = []" "is_initialized w" "s_mutex w" "pi_input w" "pi_level w m" "app_log w = app_log a"
      "s_app_event_cb w = s_app_event_cb a"
    using b c by (simp_all add: w_def set_phase_def)
  have "rz_steps n w = w" for n
    by (rule capture_waits [where m = m and g = "g - {PI m, COMPLETED m} - {COMPLETED m}"]) (simp_all add: w b Int_Diff)
  then have "rz_steps (Suc n) a = w" for n using start c by (simp add: ms41908m_reset_sm_step_once_locked_def)
  from this [of 31] have f: "f = w" by (simp add: f_def)
  show "capturing m f"
    using b ok rb o g(2) c by (auto simp: capturing_def f w still_def marked_pending)
  show "app_log f = app_log a" "s_app_event_cb f = s_app_event_cb a" "lens_at f m = lens_at a m" "s_app_notify f = []"
    using c fire_lens [of b m] by (simp_all add: f w b)
qed

lemma request_captures:
  assumes r: "at_rest m s" and hl: "home_limits (axes s m)" and pi: "pi_level s m"
  defines "t \<equiv> drv_exec Task (drv_exec (Reset_Zero m) s)"
  shows "capturing m t" "app_log t = app_log s" "s_app_event_cb t = s_app_event_cb s" "lens_at t m = lens_at s m"
proof -
  obtain g where g: "s_event_group s = Some g" "g \<inter> {PLS FOCUS, PLS ZOOM, REQ_RESET FOCUS, REQ_RESET ZOOM} = {}"
    using r by (auto simp: at_rest_def calm_def split: option.splits)
  have c: "is_initialized s" "s_mutex s" "env_spi s = []" "env_lock s = []" "s_app_notify s = []" "rz_phase (s_rst s) = RZ_IDLE"
    "still (other m) s" "chip_batch s m = None"
    using r by (simp_all add: at_rest_def calm_def still_def)
  define bits where "bits = insert (REQ_RESET m) (g - {RESET_DONE m})"
  define q where "q = drv_exec (Reset_Zero m) s"
  have q: "q = s\<lparr>axes := (axes s)(m := (axes s m)\<lparr>ax_is_r_zero := False, ax_state := STATE_RESET_ZERO\<rparr>),
      s_event_group := Some bits\<rparr>"
    using reset_zero_asks [OF r g(1)] by (simp add: q_def bits_def)
  define a where "a = armed m q"
  have a: "a = q\<lparr>s_rst := (capture_rst m)\<lparr>rz_phase := RZ_CAPTURE_START\<rparr>, pi_input := True,
      s_event_group := Some (bits - {PI m, COMPLETED m} - {PI ZOOM, PI FOCUS} - {REQ_RESET m})\<rparr>"
    unfolding a_def using pi by (intro armed_eq) (simp_all add: q)
  have f: "capturing m (rz_steps 32 a)" "app_log (rz_steps 32 a) = app_log a" "lens_at (rz_steps 32 a) m = lens_at a m"
    "s_app_event_cb (rz_steps 32 a) = s_app_event_cb a" "s_app_notify (rz_steps 32 a) = []"
    by (rule capture_begins [where g = "bits - {PI m, COMPLETED m} - {PI ZOOM, PI FOCUS} - {REQ_RESET m}"]; use g c hl pi in \<open>auto simp: a q home_limits_def still_def bits_def\<close>)+
  have tr: "ms41908m_reset_sm_try_arm_locked m q = ms41908m_reset_sm_arm_locked m q"
    using c hl by (auto simp: ms41908m_reset_sm_try_arm_locked_def Let_def q home_limits_def)
  have "axis_timeout m' q = q" for m' using c by (cases "m' = m") (auto simp: axis_timeout_def q neq_other still_def)
  moreover have "PLS m' \<notin> bits" "REQ_RESET m' \<in> bits \<longleftrightarrow> m' = m" for m'
    using g(2) by (cases m'; cases m; auto simp: bits_def)+
  moreover have "rz_phase (s_rst q) = RZ_IDLE" "rz_phase (s_rst a) \<noteq> RZ_IDLE" using c by (simp_all add: q a)
  ultimately have body: "task_body {} bits q = rz_steps 32 a"
    using tr a_def unfolding task_body_def Let_def
    by (cases m) (simp_all add: ms41908m_reset_sm_run_locked_def ms41908m_reset_sm_try_arm_zoom_locked_def
        ms41908m_reset_sm_try_arm_focus_locked_def armed_def)
  have "REQ_RESET m \<in> task_wait_mask q" by (cases m) (simp_all add: task_wait_mask_def)
  then have "ms41908m_port_wait_for_event (task_wait_mask q) False False q = (bits, q)"
    by (intro wait_sees) (auto simp: q bits_def)
  moreover have "t = ms41908m_motor_task_handler {} q" by (simp add: t_def q_def)
  moreover have "s_mutex q" "env_lock q = []" using c by (simp_all add: q)
  ultimately have "t = ms41908m_dispatch_pending_app_events (rz_steps 32 a)"
    using body by (simp add: ms41908m_motor_task_handler_def lock_free)
  then have t: "t = rz_steps 32 a" by (simp add: ms41908m_dispatch_pending_app_events_def f)
  show "capturing m t" "app_log t = app_log s" "s_app_event_cb t = s_app_event_cb s" "lens_at t m = lens_at s m"
    unfolding t using f by (simp_all add: a q)
qed

text \<open>However many batches the motor runs before the edge, as long as the move lasts.\<close>

lemma capture_turns:
  assumes "capturing m s" "length ds < batches_left (axes s m)"
  defines "t \<equiv> fold (drv_turn m) ds s"
  shows "capturing m t \<and> app_log t = app_log s \<and> s_app_event_cb t = s_app_event_cb s"
  unfolding t_def using assms(1,2)
proof (induction ds arbitrary: s)
  case (Cons d ds)
  have r: "run_ok (axes s m) (regs s (step_addr m))" using Cons.prems by (simp add: capturing_def)
  have "unload_psum (ax_run_config (axes s m)) \<noteq> 0"
    using Cons.prems(2) r batches_step(1) by (auto simp: batches_left_def run_ok_def Let_def)
  then have more: "0 < unload_psum (ax_run_config (axes s m))" using r by (simp add: run_ok_def Let_def)
  note n = capture_turn [OF Cons.prems(1) more, of d]
  have "length ds < batches_left (axes (drv_turn m d s) m)" using Cons.prems n(3) by simp
  then show ?case using Cons.IH [OF n(1)] n by simp
qed simp

lemma homing:
  assumes "at_rest m s" "home_limits (axes s m)" "pi_level s m"
  defines "s1 \<equiv> drv_exec Task (drv_exec (Reset_Zero m) s)"
  assumes "length ds < batches_left (axes s1 m)"
  defines "t \<equiv> drv_exec Task (drv_exec (Pi m False) (fold (drv_turn m) ds s1))"
  shows "homed m t" "app_log t = app_log s @ told (s_app_event_cb s) (RESET_DONE m) SYS_OK"
proof -
  note r = request_captures [OF assms(1-3), folded s1_def]
  have c: "capturing m (fold (drv_turn m) ds s1)" "app_log (fold (drv_turn m) ds s1) = app_log s1"
    "s_app_event_cb (fold (drv_turn m) ds s1) = s_app_event_cb s1"
    using capture_turns [OF r(1) assms(5)] by simp_all
  show "homed m t" "app_log t = app_log s @ told (s_app_event_cb s) (RESET_DONE m) SYS_OK"
    using edge_homes [OF c(1)] c r unfolding t_def by simp_all
qed

end
