(* ===== verification/Ms41908m_Props.thy ===== *)
theory Ms41908m_Props
  imports Ms41908m_Home
begin

text \<open>
  What the lens motor driver promises: the position it reports is where the motor stands, a
  move goes exactly as far as asked and is reported once, and reset zero finds the edge of
  the sensor.
\<close>

subsection \<open>A concrete run\<close>

definition power_up :: ms where
  "power_up = \<lparr>is_initialized = False, iris_state = STATE_NO_CFG, axes = (\<lambda>_. zero_axis), s_motor_task = False,
     s_iris_timer = False, s_rst = zero_rst, rst_last_result = (\<lambda>_. SYS_OK), s_app_event_cb = None, s_app_notify = [],
     s_mutex = False, s_event_group = None, regs = (\<lambda>_. 0), chip_batch = (\<lambda>_. None), lens_at = (\<lambda>_. 1234),
     pi_level = (\<lambda>_. True), pi_input = False, vd_is = 0, iris_ticking = False, ms_tick = 0, app_log = [],
     env_spi = [], env_lock = [], env_alloc = [], env_timer = [], env_cut = []\<rparr>"

definition ready_ms :: ms where
  "ready_ms = fold drv_exec [Init, Motor_Config (Some g_default_motor_config), Callback (Some 7),
     Limit ZOOM (- 2000) 1500] power_up"

fun all_allowed :: "drv_op list \<Rightarrow> ms \<Rightarrow> bool" where
  "all_allowed [] s = True"
| "all_allowed (op # ops) s = (drv_allowed op s \<and> all_allowed ops (drv_exec op s))"

lemma reach_run: "drv_reach h s \<Longrightarrow> all_allowed ops s \<Longrightarrow> \<exists>h. drv_reach h (fold drv_exec ops s)"
proof (induction ops arbitrary: h s)
  case (Cons op ops)
  then show ?case using drv_reach.step [of h s op] by auto
qed auto

lemma ready_facts: "\<exists>h. drv_reach h ready_ms" "at_rest ZOOM ready_ms" "home_limits (axes ready_ms ZOOM)" "pi_level ready_ms ZOOM"
  "in_limits ZOOM 100 ready_ms"
proof -
  have "drv_reach (\<lambda>_. 0) power_up" by (rule drv_reach.boot) (simp add: powered_on_def power_up_def)
  moreover have "all_allowed [Init, Motor_Config (Some g_default_motor_config), Callback (Some 7), Limit ZOOM (- 2000) 1500] power_up"
    by code_simp
  ultimately show "\<exists>h. drv_reach h ready_ms" unfolding ready_ms_def by (rule reach_run)
  show "at_rest ZOOM ready_ms" by code_simp
  show "home_limits (axes ready_ms ZOOM)" by code_simp
  show "pi_level ready_ms ZOOM" by code_simp
  show "in_limits ZOOM 100 ready_ms" by code_simp
qed

definition zoom_homed_ms :: ms where
  "zoom_homed_ms = drv_exec Task (drv_exec (Pi ZOOM False) (drv_exec Task (drv_exec (Reset_Zero ZOOM) ready_ms)))"

lemma zoom_homed_facts: "\<exists>h. drv_reach h zoom_homed_ms" "homed ZOOM zoom_homed_ms"
proof -
  have "zoom_homed_ms = fold drv_exec [Reset_Zero ZOOM, Task, Pi ZOOM False, Task] ready_ms" by (simp add: zoom_homed_ms_def)
  then show "\<exists>h. drv_reach h zoom_homed_ms" using ready_facts(1) reach_run [of _ ready_ms "[Reset_Zero ZOOM, Task, Pi ZOOM False, Task]"] by auto
  show "homed ZOOM zoom_homed_ms"
    unfolding zoom_homed_ms_def by (intro edge_homes(1) request_captures(1) ready_facts)
qed

subsection \<open>Properties\<close>



text \<open>C34: A motor at rest, asked for a legal number of micro steps inside its limits,
  accepts the move.  After as many turns as the move has batches, each turn a batch of the chip
  and a run of the motor task less than the timeout apart, the motor has moved by exactly that
  many micro steps, has stopped, the position has changed by as much, the other motor has not
  moved, completion is signalled, and a registered callback has been told once.\<close>

theorem motor_move_exact:
  assumes "at_rest m s" "\<not> raw_pps_bad pps" "\<not> raw_psum_bad n" "in_limits m n s"
    and "length ds = batches \<bar>n\<bar> (uint (start_psum pps n))" "list_all (\<lambda>d. d < 5000) ds"
  defines "t \<equiv> fold (drv_turn m) ds (snd (axis_run m pps n s))"
  shows "fst (axis_run m pps n s) = SYS_OK \<and> lens_at t m = lens_at s m + n
    \<and> ax_position (axes t m) = s32 (ax_position (axes s m) + n) \<and> ax_state (axes t m) = STATE_STOPPED
    \<and> chip_batch t m = None \<and> (\<exists>g. s_event_group t = Some g \<and> COMPLETED m \<in> g)
    \<and> lens_at t (other m) = lens_at s (other m)
    \<and> app_log t = app_log s @ told (s_app_event_cb s) (COMPLETED m) SYS_OK"
proof -
  note r = run_moves [OF assms(1-4)]
  show ?thesis
    using turns_arrive [OF r(2), of ds] assms(5,6) r unfolding t_def by (simp add: arrived_def same_place_def)
qed

theorem motor_move_exact_witness:
  "let t = fold (drv_turn ZOOM) [3, 4999] (snd (axis_run ZOOM 1000 100 ready_ms))
   in lens_at t ZOOM = lens_at ready_ms ZOOM + 100 \<and> ax_state (axes t ZOOM) = STATE_STOPPED"
proof -
  have a: "\<not> raw_pps_bad 1000" "\<not> raw_psum_bad 100"
    by (simp_all add: raw_pps_bad_def raw_psum_bad_def RAW_PPS_MIN_def RAW_PPS_MAX_def RAW_PSUM_MIN_def RAW_PSUM_MAX_def)
  have l: "length [3, 4999 :: u32] = batches \<bar>100\<bar> (uint (start_psum 1000 100))"
    by (simp add: batches_def start_psum_def start_intct_def calc_intct_from_pps_def calc_psum_from_intct_def Let_def)
  have d: "list_all (\<lambda>d. d < 5000) [3, 4999 :: u32]" by simp
  show ?thesis
    using motor_move_exact [OF ready_facts(2) a ready_facts(5) l d] unfolding Let_def by blast
qed

text \<open>C35: A motor at rest with its sensor off the flag is asked to find zero.  The task
  starts the search, and whenever the edge of the sensor comes, after any number of batches of the
  search, the next turn of the task stops the motor, makes that place position zero, marks the
  motor homed, ends the search and reports success once.\<close>

theorem homing_finds_zero:
  assumes "at_rest m s" "home_limits (axes s m)" "pi_level s m"
  defines "s1 \<equiv> drv_exec Task (snd (axis_reset_zero m s))"
  assumes "length ds < batches_left (axes s1 m)"
  defines "t \<equiv> ms41908m_motor_task_handler {} (pi_change m False (fold (drv_turn m) ds s1))"
  shows "ax_is_r_zero (axes t m) \<and> ax_position (axes t m) = 0 \<and> ax_state (axes t m) = STATE_STOPPED
    \<and> chip_batch t m = None \<and> rz_phase (s_rst t) = RZ_IDLE \<and> rst_last_result t m = SYS_OK
    \<and> app_log t = app_log s @ told (s_app_event_cb s) (RESET_DONE m) SYS_OK"
proof -
  have e: "snd (axis_reset_zero m s) = drv_exec (Reset_Zero m) s"
    by (cases m) (simp_all add: ms41908m_zoom_reset_zero_def ms41908m_focus_reset_zero_def)
  have t: "t = drv_exec Task (drv_exec (Pi m False) (fold (drv_turn m) ds s1))" by (simp add: t_def)
  show ?thesis
    using homing [OF assms(1-3), of ds] assms(5) unfolding t s1_def e by (simp add: homed_def)
qed

theorem homing_finds_zero_witness:
  "let t = ms41908m_motor_task_handler {} (pi_change ZOOM False
      (fold (drv_turn ZOOM) [] (drv_exec Task (snd (axis_reset_zero ZOOM ready_ms)))))
   in ax_is_r_zero (axes t ZOOM) \<and> ax_position (axes t ZOOM) = 0 \<and> app_log t = app_log ready_ms @ told (s_app_event_cb ready_ms) (RESET_DONE ZOOM) SYS_OK"
proof -
  let ?s = "drv_exec Task (drv_exec (Reset_Zero ZOOM) ready_ms)"
  have "capturing ZOOM ?s" by (intro request_captures(1) ready_facts)
  then have "run_ok (axes ?s ZOOM) (regs ?s (step_addr ZOOM))" by (simp add: capturing_def)
  then have "0 < batches_left (axes ?s ZOOM)"
    using pos_imp_zdiv_pos_iff by (simp add: batches_left_def batches_def run_ok_def Let_def)
  then have "length [] < batches_left (axes (drv_exec Task (snd (axis_reset_zero ZOOM ready_ms))) ZOOM)"
    by (simp add: ms41908m_zoom_reset_zero_def)
  from homing_finds_zero [OF ready_facts(2-4) this] show ?thesis unfolding Let_def by blast
qed

subsection \<open>Behaviour worth knowing\<close>

text \<open>In a synchronous move the speed of a motor that moves a single micro step is cut to
  16 bits before it is compared with 65535: the motor runs fifteen times too fast instead of at
  the slowest speed.\<close>

theorem sync_speed_truncated:
  "calc_intct_from_psum (sync_psum 1000 1) = 70312 \<and> sync_intct 1000 1 = 4776"
  by (simp add: sync_intct_def sync_psum_def calc_intct_from_psum_def calc_psum_from_intct_def calc_intct_from_pps_def Let_def)

text \<open>The task keeps one error variable for both motors: after a register failure of the
  focus motor a zoom motor that has more than one full batch to go is stopped too.\<close>

theorem focus_failure_stops_zoom:
  assumes "is_valid (ax_run_config (axes s ZOOM))" "0 < unload_psum (ax_run_config (axes s ZOOM))"
    "load_psum (ax_run_config (axes s ZOOM)) \<le> unload_psum (ax_run_config (axes s ZOOM))" "ret \<noteq> SYS_OK"
  shows "ax_state (axes (snd (axis_pls ZOOM (ret, s))) ZOOM) = STATE_ERROR
    \<and> \<not> ax_is_r_zero (axes (snd (axis_pls ZOOM (ret, s))) ZOOM)"
  using assms by (simp add: axis_pls_def Let_def set_r_zero_def set_state_def)

end
