(* ===== verification/Lens_Inv.thy ===== *)
theory Lens_Inv
  imports Lens Ms41908m_Props
begin

text \<open>
  The lens controller's state stays well formed: the mutex is free between operations, the
  controller and the driver agree on whether they are initialised, and what the controller
  remembers of the IR-cut filter is what the pin shows.  The part of the driver the controller
  relies on is a contract, and every driver call the controller makes is an instance of it.
\<close>

subsection \<open>Driver calls and initialisation\<close>

text \<open>No call but initialisation and its counterpart touches the flag, and none takes time.\<close>

definition fr :: "ms \<Rightarrow> bool \<times> u32" where
  "fr d = (is_initialized d, ms_tick d)"

lemma fr_upd [simp]:
  "fr (s\<lparr>regs := a1\<rparr>) = fr s" "fr (s\<lparr>env_spi := a2\<rparr>) = fr s" "fr (s\<lparr>s_rst := a3\<rparr>) = fr s" "fr (s\<lparr>axes := a4\<rparr>) = fr s"
  "fr (s\<lparr>s_event_group := a5\<rparr>) = fr s" "fr (s\<lparr>iris_state := a6\<rparr>) = fr s" "fr (s\<lparr>rst_last_result := a7\<rparr>) = fr s"
  "fr (s\<lparr>lens_at := a8\<rparr>) = fr s" "fr (s\<lparr>chip_batch := a9\<rparr>) = fr s" "fr (s\<lparr>pi_level := b1\<rparr>) = fr s"
  "fr (s\<lparr>env_lock := b2\<rparr>) = fr s" "fr (s\<lparr>env_timer := b3\<rparr>) = fr s" "fr (s\<lparr>iris_ticking := b4\<rparr>) = fr s"
  "fr (s\<lparr>s_app_notify := b5\<rparr>) = fr s" "fr (s\<lparr>app_log := b6\<rparr>) = fr s" "fr (s\<lparr>pi_input := b7\<rparr>) = fr s"
  "fr (s\<lparr>s_app_event_cb := b8\<rparr>) = fr s" "fr (s\<lparr>vd_is := b9\<rparr>) = fr s" "fr (s\<lparr>env_cut := c1\<rparr>) = fr s"
  "fr (vd_motor m s) = fr s" "fr (fire s) = fr s" "fr (ms41908m_port_clear_event e s) = fr s"
  by (simp_all add: fr_def)

lemma init_simps [simp]:
  "fr (set_event e s) = fr s"
  "fr (snd (ms41908m_port_set_event e s)) = fr s"
  "fr (ms41908m_port_set_event_notify f r s) = fr s"
  "fr (set_state m x s) = fr s" "fr (set_r_zero m v s) = fr s"
  "fr (set_phase p s) = fr s" "fr (upd_axis m g s) = fr s"
  "fr (ms41908m_port_pi_irq_disable s) = fr s"
  "fr (ms41908m_port_pi_irq_enable s) = fr s"
  "fr (ms41908m_dispatch_pending_app_events s) = fr s"
  "fr (snd (ms41908m_port_lock s)) = fr s"
  "fr (snd (ms41908m_port_start_timer s)) = fr s"
  "fr (snd (ms41908m_port_stop_timer s)) = fr s"
  "fr (ms41908m_port_output_vd_iris s) = fr s"
  "fr (ms41908m_set_event_callback cb s) = fr s"
  "fr (snd (ms41908m_port_wait_for_event msk c a s)) = fr s"
  by (simp_all add: set_event_def ms41908m_port_set_event_def ms41908m_port_set_event_notify_def ms41908m_queue_app_notify_def
      set_state_def set_r_zero_def set_phase_def upd_axis_def ms41908m_port_pi_irq_disable_def
      ms41908m_port_pi_irq_enable_def ms41908m_dispatch_pending_app_events_def ms41908m_port_start_timer_def
      ms41908m_port_stop_timer_def timer_next_def ms41908m_port_output_vd_iris_def ms41908m_set_event_callback_def
      ms41908m_port_wait_for_event_def Let_def ms41908m_port_lock_def split: option.split)

lemma frD: "fr d = fr e \<Longrightarrow> is_initialized d = is_initialized e" "fr d = fr e \<Longrightarrow> ms_tick d = ms_tick e"
  by (simp_all add: fr_def)

lemma callback_simps [simp]: "is_initialized (ms41908m_set_event_callback cb s) = is_initialized s"
  by (rule frD) simp

lemma init_stop [simp]: "fr (snd (ms41908m_motor_stop_impl m s)) = fr s"
  by (auto simp: ms41908m_motor_stop_impl_def Let_def ms41908m_port_read_def ms41908m_port_write_def spi_next_def
      set_state_def upd_axis_def ms41908m_port_output_vd_def fire_def [symmetric] split: prod.splits)

lemma init_start [simp]: "fr (snd (ms41908m_motor_start_impl m pps n s)) = fr s"
  by (auto simp: ms41908m_motor_start_impl_def Let_def ms41908m_port_read_def ms41908m_port_write_def spi_next_def
      set_state_def upd_axis_def ms41908m_port_output_vd_def fire_def [symmetric] invalidate_run_def
      ms41908m_port_clear_event_def split: prod.splits)

lemma init_start': "ms41908m_motor_start_impl m pps n s = (r, t) \<Longrightarrow> fr t = fr s"
  using init_start [of m pps n s] by simp

lemma init_stop': "ms41908m_motor_stop_impl m s = (r, t) \<Longrightarrow> fr t = fr s"
  using init_stop [of m s] by simp

lemma init_lock': "ms41908m_port_lock s = (r, t) \<Longrightarrow> fr t = fr s"
  using init_simps(11) [of s] by simp

lemma init_wait': "ms41908m_port_wait_for_event msk c a s = (r, t) \<Longrightarrow> fr t = fr s"
  using init_simps(16) [of msk c a s] by simp

lemma init_writes: "port_writes ws s = (r, t) \<Longrightarrow> fr t = fr s"
  by (induction ws s rule: port_writes.induct)
    (auto simp: ms41908m_port_write_def spi_next_def Let_def split: if_splits prod.splits)

lemma init_iris_config: "ms41908m_write_iris_config c s = (r, t) \<Longrightarrow> fr t = fr s"
  unfolding ms41908m_write_iris_config_def by (rule init_writes)

lemma init_writes_snd: "fr (snd (port_writes ws s)) = fr s"
  by (rule init_writes) (rule prod.collapse [symmetric])

lemma init_read [simp]: "fr (snd (snd (ms41908m_port_read a v s))) = fr s"
  by (simp add: ms41908m_port_read_def spi_next_def Let_def)

lemma init_motor_config: "ms41908m_write_motor_config c s = (r, t) \<Longrightarrow> fr t = fr s"
proof -
  have "fr (snd (ms41908m_write_motor_config c s)) = fr s"
    unfolding ms41908m_write_motor_config_def Let_def case_prod_unfold
    by (simp add: init_writes_snd if_distrib [of snd] if_distrib [of fr] del: port_writes.simps)
  then show "ms41908m_write_motor_config c s = (r, t) \<Longrightarrow> fr t = fr s" by simp
qed

lemma init_sync_axis: "sync_axis m pps n s = (r, t) \<Longrightarrow> fr t = fr s"
  by (auto simp: sync_axis_def Let_def ms41908m_port_read_def ms41908m_port_write_def spi_next_def invalidate_run_def
      split: if_splits prod.splits)

lemma init_sync [simp]: "fr (snd (sync_axis m pps n s)) = fr s"
  "fr (sync_stop_axis m s) = fr s"
  using init_sync_axis [of m pps n s "fst (sync_axis m pps n s)" "snd (sync_axis m pps n s)"]
  by (simp_all add: sync_stop_axis_def invalidate_run_def Let_def)

subsection \<open>The contract of a driver call\<close>

locale driver_call =
  fixes f :: "ms \<Rightarrow> sys_result \<times> ms"
  assumes keeps_frame: "fr (snd (f d)) = fr d"
begin

lemma keeps_init: "is_initialized (snd (f d)) = is_initialized d" and keeps_tick: "ms_tick (snd (f d)) = ms_tick d"
  using keeps_frame [of d] by (simp_all add: fr_def)

lemma call_drv: "call f s = (fst (f (drv s)), s\<lparr>drv := snd (f (drv s))\<rparr>)"
  by (simp add: call_def case_prod_unfold Let_def)

lemma call_init: "is_initialized (drv (snd (call f s))) = is_initialized (drv s)"
  by (simp add: call_drv keeps_init)

end

interpretation d_zoom_run: driver_call "ms41908m_zoom_run pps n" for pps n
  by unfold_locales (auto simp: ms41908m_zoom_run_def axis_run_def Let_def dest: init_lock' split: prod.splits)

interpretation d_focus_run: driver_call "ms41908m_focus_run pps n" for pps n
  by unfold_locales (auto simp: ms41908m_focus_run_def axis_run_def Let_def dest: init_lock' split: prod.splits)

interpretation d_zoom_to: driver_call "ms41908m_zoom_run_to_position pps n" for pps n
  by unfold_locales (auto simp: ms41908m_zoom_run_to_position_def axis_run_to_position_def Let_def dest: init_lock' split: prod.splits)

interpretation d_focus_to: driver_call "ms41908m_focus_run_to_position pps n" for pps n
  by unfold_locales (auto simp: ms41908m_focus_run_to_position_def axis_run_to_position_def Let_def dest: init_lock' split: prod.splits)

interpretation d_zoom_home: driver_call ms41908m_zoom_reset_zero
  by unfold_locales (auto simp: ms41908m_zoom_reset_zero_def axis_reset_zero_def Let_def dest: init_lock' split: prod.splits)

interpretation d_focus_home: driver_call ms41908m_focus_reset_zero
  by unfold_locales (auto simp: ms41908m_focus_reset_zero_def axis_reset_zero_def Let_def dest: init_lock' split: prod.splits)

interpretation d_zoom_limit: driver_call "ms41908m_zoom_set_position_limit a b" for a b
  by unfold_locales (simp add: ms41908m_zoom_set_position_limit_def axis_set_position_limit_def)

interpretation d_focus_limit: driver_call "ms41908m_focus_set_position_limit a b" for a b
  by unfold_locales (simp add: ms41908m_focus_set_position_limit_def axis_set_position_limit_def)

interpretation d_zoom_stop: driver_call ms41908m_zoom_stop
  by unfold_locales (auto simp: ms41908m_zoom_stop_def axis_stop_def Let_def dest!: init_lock' init_stop' split: prod.splits)

interpretation d_focus_stop: driver_call ms41908m_focus_stop
  by unfold_locales (auto simp: ms41908m_focus_stop_def axis_stop_def Let_def dest!: init_lock' init_stop' split: prod.splits)

interpretation d_sync: driver_call "ms41908m_zf_sync_run zp zn fp fn" for zp zn fp fn
  by unfold_locales (simp add: ms41908m_zf_sync_run_def Let_def case_prod_unfold init_sync sync_err_def invalidate_run_def
      ms41908m_port_output_vd_def mark_both vd_pulse_fz_def if_distrib [of snd] if_distrib [of fr] cong: if_cong)

interpretation d_iris_run: driver_call ms41908m_iris_run
  by unfold_locales (auto simp: ms41908m_iris_run_def Let_def ms41908m_port_start_timer_def timer_next_def split: prod.splits if_splits)

interpretation d_iris_stop: driver_call ms41908m_iris_stop
  by unfold_locales (simp add: ms41908m_iris_stop_def)

interpretation d_iris_target: driver_call "ms41908m_iris_update_target v" for v
  by unfold_locales (auto simp: ms41908m_iris_update_target_def Let_def ms41908m_port_write_def spi_next_def
      dest: init_lock' split: prod.splits)

interpretation d_iris_config: driver_call "ms41908m_iris_config c" for c
  by unfold_locales (auto simp: ms41908m_iris_config_def Let_def dest!: init_lock' init_iris_config split: prod.splits option.split)

interpretation d_motor_config: driver_call "ms41908m_motor_config c" for c
  by unfold_locales (auto simp: ms41908m_motor_config_def Let_def configured_def dest!: init_lock' init_motor_config
      split: prod.splits option.split)

lemma init_axis_ops [simp]:
  "fr (axis_timeout m s) = fr s"
  "fr (ms41908m_reset_sm_try_arm_locked m s) = fr s"
  "fr (axis_completed m s) = fr s" "fr (rz_finish err s) = fr s"
  "fr (rz_stop_if_running s) = fr s"
  by (simp_all add: axis_timeout_def ms41908m_reset_sm_try_arm_locked_def ms41908m_reset_sm_arm_locked_def Let_def
      axis_completed_def rz_finish_def rz_stop_if_running_def)

lemma init_load_last: "axis_load_last m s = (a, b) \<Longrightarrow> fr b = fr s"
  by (auto simp: axis_load_last_def Let_def ms41908m_port_read_def ms41908m_port_write_def spi_next_def
      split: prod.splits if_splits)

lemma init_pls [simp]: "fr (snd (axis_pls m (r, s))) = fr s"
  by (auto simp: axis_pls_def Let_def split: prod.splits if_splits dest!: init_load_last)

lemma init_reset_ends [simp]:
  "fr (ms41908m_reset_sm_complete_err_locked e s) = fr s"
  "fr (ms41908m_reset_sm_complete_ok_locked s) = fr s"
  "fr (rz_captured s) = fr s"
  by (simp_all add: ms41908m_reset_sm_complete_err_locked_def ms41908m_reset_sm_complete_ok_locked_def rz_captured_def Let_def)

lemma init_step_once [simp]: "fr (ms41908m_reset_sm_step_once_locked s) = fr s"
proof -
  have w: "\<exists>ev. ms41908m_port_wait_for_event msk False False s = (ev, s)" for msk using wait_poll by blast
  obtain ev where w1: "ms41908m_port_wait_for_event (rz_complete_event (s_rst s)) False False s = (ev, s)" using w by blast
  obtain ev' where w2: "ms41908m_port_wait_for_event (rz_pi_event (s_rst s) \<union> rz_complete_event (s_rst s)) False False s = (ev', s)"
    using w by blast
  show ?thesis
    by (auto simp: ms41908m_reset_sm_step_once_locked_def rz_exit_low_start_def rz_capture_start_def rz_exit_low_wait_def
        rz_capture_wait_def Let_def w1 w2 dest!: init_start' split: rz_phase.split prod.splits)
qed

lemma init_rz_steps [simp]: "fr (rz_steps n s) = fr s"
  by (induction n arbitrary: s) simp_all

lemma init_task_pulses [simp]: "fr (task_pulses bits s) = fr s"
proof -
  have p: "fr (snd (axis_pls m rs)) = fr (snd rs)" for m rs
    using init_pls [of m "fst rs" "snd rs"] by simp
  show ?thesis by (simp add: task_pulses_def Let_def ms41908m_port_output_vd_def mark_both vd_pulse_fz_def p)
qed

lemma init_handler [simp]: "fr (ms41908m_motor_task_handler isr s) = fr s"
  by (auto simp: ms41908m_motor_task_handler_def task_body_def Let_def ms41908m_reset_sm_run_locked_def
      ms41908m_reset_sm_try_arm_zoom_locked_def ms41908m_reset_sm_try_arm_focus_locked_def
      dest!: init_wait' init_lock' split: prod.splits)

lemma init_chip [simp]: "fr (chip_done m s) = fr s" "fr (pi_change m b s) = fr s"
  "fr (ms41908m_iris_timer_handler s) = fr s"
  by (simp_all add: chip_done_def pi_change_def Let_def ms41908m_iris_timer_handler_def split: option.split)

lemma init_init: "is_initialized (snd (ms41908m_init s)) \<longleftrightarrow> fst (ms41908m_init s) = SYS_OK \<or> is_initialized s"
  "\<not> is_initialized (ms41908m_deinit s)"
  by (auto simp: ms41908m_init_def Let_def ms41908m_port_init_def alloc_next_def ms41908m_port_create_task_def
      ms41908m_port_create_timer_def ms41908m_port_deinit_def ms41908m_port_delay_ms_def chip_reset_def ms41908m_deinit_def
      split: prod.splits)

subsection \<open>Well-formed controllers\<close>

definition ircut_ok :: "lens \<Rightarrow> bool" where
  "ircut_ok s =
     (if s_ircut_level_valid s
      then s_ircut_action_seen s \<and> s_ircut_level s = bsp_ctrl_get_ir_cut s
        \<and> s_ircut_mode s = (if s_ircut_level s = ircut_day_level (s_active_profile s) then LENS_IRCUT_DAY else LENS_IRCUT_NIGHT)
      else s_ircut_mode s = LENS_IRCUT_UNKNOWN)"

definition lens_base :: "lens \<Rightarrow> bool" where
  "lens_base s =
     (s_controller_initialized s = is_initialized (drv s)
      \<and> (s_controller_configured s \<longrightarrow> s_controller_initialized s)
      \<and> (s_active_profile s = g_lens_profile_af0832 \<or> s_active_profile s = g_lens_profile_fg2009)
      \<and> s_last_config_mode s \<noteq> LENS_CONFIG_BAD)"

definition lens_core :: "lens \<Rightarrow> bool" where
  "lens_core s = (lens_base s \<and> ircut_ok s)"

definition lens_wf :: "lens \<Rightarrow> bool" where
  "lens_wf s = (lens_core s \<and> \<not> mutex_held s)"

text \<open>Inside an operation, with the mutex taken.\<close>

definition inside :: "lens \<Rightarrow> bool" where
  "inside s = (lens_core s \<and> s_controller_mutex s)"

lemma ircut_simps [simp]:
  "ircut_ok (s\<lparr>drv := d\<rparr>) = ircut_ok s" "ircut_ok (s\<lparr>s_controller_initialized := x\<rparr>) = ircut_ok s"
  "ircut_ok (s\<lparr>s_controller_configured := x\<rparr>) = ircut_ok s" "ircut_ok (s\<lparr>s_last_config_mode := m\<rparr>) = ircut_ok s"
  "ircut_ok (s\<lparr>s_event_callback := cb\<rparr>) = ircut_ok s"
  by (simp_all add: ircut_ok_def bsp_ctrl_get_ir_cut_def)

lemma core_scripts [simp]:
  "lens_core (s\<lparr>ctrl_alloc := a\<rparr>) = lens_core s" "lens_core (s\<lparr>ctrl_lock := a\<rparr>) = lens_core s"
  "lens_core (s\<lparr>mutex_held := h\<rparr>) = lens_core s" "lens_core (s\<lparr>s_controller_mutex := x\<rparr>) = lens_core s"
  by (simp_all add: lens_core_def lens_base_def ircut_ok_def bsp_ctrl_get_ir_cut_def)

lemma lock_cases:
  obtains e r where "lens_controller_lock s = (e, r)" "e \<noteq> SYS_OK" "lens_wf s \<Longrightarrow> lens_wf r"
  | r where "lens_controller_lock s = (SYS_OK, r)" "lens_core s \<Longrightarrow> inside r" "drv r = drv s"
      "s_active_profile r = s_active_profile s"
proof -
  obtain e r where l: "lens_controller_lock s = (e, r)" by (rule prod.exhaust)
  then show thesis
    using that
    by (auto simp: lens_controller_lock_def lens_controller_bootstrap_def Let_def lens_wf_def inside_def
        split: if_splits list.splits bool.splits)
qed

lemma unlock_wf: "inside s \<Longrightarrow> lens_wf (lens_controller_unlock s)"
  by (simp add: inside_def lens_wf_def lens_controller_unlock_def)

lemma locked_wf:
  assumes "lens_wf s" "\<And>u. inside u \<Longrightarrow> inside (snd (f u))"
  shows "lens_wf (snd (locked f s))"
  using assms
  by (cases s rule: lock_cases) (auto simp: locked_def Let_def case_prod_unfold lens_wf_def [of s] intro: unlock_wf)

lemma supported_inside:
  "(inside s \<Longrightarrow> inside (snd (f s))) \<Longrightarrow> inside s \<Longrightarrow> inside (snd (if_supported cap f s))"
  by (simp add: if_supported_def)

lemma drv_inside: "inside s \<Longrightarrow> is_initialized d = is_initialized (drv s) \<Longrightarrow> inside (s\<lparr>drv := d\<rparr>)"
  by (auto simp: inside_def lens_core_def lens_base_def)

definition drv_only :: "lens \<Rightarrow> lens \<Rightarrow> bool" where
  "drv_only s t = (\<exists>d. t = s\<lparr>drv := d\<rparr> \<and> fr d = fr (drv s))"

lemma drv_only_refl: "drv_only s s"
  unfolding drv_only_def by (rule exI [of _ "drv s"]) simp

lemma drv_only_trans: "drv_only s t \<Longrightarrow> drv_only t u \<Longrightarrow> drv_only s u"
  unfolding drv_only_def by auto

context driver_call
begin

lemma call_only: "drv_only s (snd (call f s))"
  unfolding drv_only_def by (rule exI [of _ "snd (f (drv s))"]) (simp add: call_drv keeps_frame)

lemma call_inside: "inside s \<Longrightarrow> inside (snd (call f s))"
  by (simp add: call_drv keeps_init drv_inside)

lemma locked_call_wf: "lens_wf s \<Longrightarrow> lens_wf (snd (locked (call f) s))"
  by (erule locked_wf) (rule call_inside)

lemma supported_call_wf: "lens_wf s \<Longrightarrow> lens_wf (snd (locked (if_supported cap (call f)) s))"
  by (erule locked_wf) (intro supported_inside call_inside)

end

lemma motors_only: "drv_only s (snd (configure_motors s))"
  by (simp add: configure_motors_def drv_only_refl d_motor_config.call_only split: option.split)

lemma configure_only: "drv_only s (snd (lens_controller_configure_locked mode s))"
proof -
  define c where "c = call (ms41908m_iris_config (lp_iris_config (lens_profile_get_active s))) s"
  have c: "drv_only s (snd c)" unfolding c_def by (rule d_iris_config.call_only)
  show ?thesis
    unfolding lens_controller_configure_locked_def Let_def c_def [symmetric] case_prod_unfold
    using motors_only [of s] drv_only_trans [OF c motors_only] c by (simp add: drv_only_refl)
qed

lemma configure_drv:
  obtains d where "snd (lens_controller_configure_locked mode s) = s\<lparr>drv := d\<rparr>" "is_initialized d = is_initialized (drv s)"
    "fr d = fr (drv s)"
  using configure_only [of s mode] by (auto simp: drv_only_def dest: frD)

text \<open>While the profile is being switched the memory of the filter is out of step with it.\<close>

definition based :: "lens \<Rightarrow> bool" where
  "based s = (lens_base s \<and> s_controller_mutex s)"

lemma drv_based: "based s \<Longrightarrow> is_initialized d = is_initialized (drv s) \<Longrightarrow> based (s\<lparr>drv := d\<rparr>)"
  by (auto simp: based_def lens_base_def)

lemma bring_up_based:
  assumes "based s" "\<not> is_initialized (drv s)" "mode \<noteq> LENS_CONFIG_BAD"
  shows "based (snd (bring_up wc mode s))"
    "fst (bring_up wc mode s) \<noteq> SYS_OK \<Longrightarrow> \<not> s_controller_configured (snd (bring_up wc mode s))"
    "s_last_config_mode s = mode \<Longrightarrow> s_last_config_mode (snd (bring_up wc mode s)) = mode"
proof -
  obtain ret d where i: "ms41908m_init (drv s) = (ret, d)" by (rule prod.exhaust)
  have id: "is_initialized d \<longleftrightarrow> ret = SYS_OK" using init_init(1) [of "drv s"] assms(2) by (simp add: i)
  have nc: "\<not> s_controller_configured s" "\<not> s_controller_initialized s"
    using assms by (auto simp: based_def lens_base_def)
  define u where "u = s\<lparr>s_controller_initialized := True, drv := ms41908m_set_event_callback (s_event_callback s) d\<rparr>"
  define v where "v = lens_controller_configure_locked mode u"
  have e: "bring_up wc mode s = (if ret \<noteq> SYS_OK then (ret, s\<lparr>drv := d\<rparr>) else if \<not> wc then (ret, u)
      else (fst v, if fst v = SYS_OK then (snd v)\<lparr>s_controller_configured := True, s_last_config_mode := mode\<rparr> else snd v))"
    by (simp add: bring_up_def call_def i Let_def case_prod_unfold u_def v_def)
  have iu: "based u" if "ret = SYS_OK"
    using assms nc that id by (simp add: u_def based_def lens_base_def)
  obtain d' where c: "snd v = u\<lparr>drv := d'\<rparr>" "is_initialized d' = is_initialized (drv u)"
    unfolding v_def by (rule configure_drv)
  have iv: "based (snd v)" "based ((snd v)\<lparr>s_controller_configured := True, s_last_config_mode := mode\<rparr>)" if "ret = SYS_OK"
    using iu [OF that] drv_based [OF iu [OF that] c(2)] assms(3) unfolding c(1)
    by (simp_all add: based_def lens_base_def) (simp_all add: u_def)
  show "based (snd (bring_up wc mode s))" unfolding e using iu iv drv_based [OF assms(1), of d] assms(2) id by auto
  show "fst (bring_up wc mode s) \<noteq> SYS_OK \<Longrightarrow> \<not> s_controller_configured (snd (bring_up wc mode s))"
    "s_last_config_mode s = mode \<Longrightarrow> s_last_config_mode (snd (bring_up wc mode s)) = mode"
    unfolding e using nc by (auto simp: c u_def split: if_splits)
qed

lemma reset_inside: "based s \<Longrightarrow> inside (lens_reset_runtime_state s)"
  by (auto simp: inside_def based_def lens_core_def lens_base_def ircut_ok_def lens_reset_runtime_state_def)

lemma inside_based: "inside s \<Longrightarrow> based s"
  by (simp add: inside_def based_def lens_core_def)

lemma down_based:
  "based s \<Longrightarrow> based (s\<lparr>drv := ms41908m_deinit (drv s), s_controller_initialized := False, s_controller_configured := False\<rparr>)"
  "based s \<Longrightarrow> \<not> s_controller_configured s \<Longrightarrow> based (s\<lparr>drv := ms41908m_deinit (drv s), s_controller_initialized := False\<rparr>)"
  by (simp_all add: based_def lens_base_def init_init)

lemma profile_based: "based s \<Longrightarrow> based (snd (lens_profile_select model s))"
  by (cases model) (auto simp: based_def lens_base_def lens_profile_select_def)

lemma profile_simps [simp]:
  "drv (snd (lens_profile_select model s)) = drv s"
  "s_last_config_mode (snd (lens_profile_select model s)) = s_last_config_mode s"
  "s_controller_initialized (snd (lens_profile_select model s)) = s_controller_initialized s"
  "s_controller_configured (snd (lens_profile_select model s)) = s_controller_configured s"
  by (cases model; simp add: lens_profile_select_def)+

lemma select_inside:
  assumes s: "inside s"
  shows "inside (snd (select_profile_locked model s))"
proof -
  define mode where "mode = s_last_config_mode s"
  define wc where "wc = s_controller_configured s"
  define s1 where "s1 = s\<lparr>drv := ms41908m_deinit (drv s), s_controller_initialized := False, s_controller_configured := False\<rparr>"
  define p where "p = lens_profile_select model s1"
  define b where "b = (if fst p = SYS_OK then bring_up wc mode (snd p) else p)"
  define s2 where "s2 = (if s_controller_initialized (snd b)
    then (snd b)\<lparr>drv := ms41908m_deinit (drv (snd b)), s_controller_initialized := False\<rparr> else snd b)"
  define s3 where "s3 = snd (lens_profile_select (lens_profile_get_active_model s) s2)"
  have m: "mode \<noteq> LENS_CONFIG_BAD" using s by (simp add: mode_def inside_def lens_core_def lens_base_def)
  have p: "based (snd p)" "\<not> is_initialized (drv (snd p))"
    using inside_based [OF s] by (simp_all add: p_def s1_def profile_based down_based init_init)
  have b: "based (snd b)" "fst b \<noteq> SYS_OK \<Longrightarrow> \<not> s_controller_configured (snd b)"
    using bring_up_based [OF p m] p by (auto simp: b_def) (simp add: p_def s1_def)
  have s2: "based s2" "\<not> is_initialized (drv s2)" if "fst b \<noteq> SYS_OK"
    using b that by (auto simp: s2_def down_based init_init) (simp add: based_def lens_base_def)
  have s3: "based (snd (bring_up wc mode s3))" if "fst b \<noteq> SYS_OK"
    using s2 [OF that] m by (intro bring_up_based) (simp_all add: s3_def profile_based)
  have "select_profile_locked model s =
    (if lens_profile_get_active_model s = model then (SYS_OK, s)
     else if \<not> s_controller_initialized s
     then (let q = lens_profile_select model s in (fst q, lens_reset_runtime_state (snd q)))
     else if lens_busy s then (SYS_ERR_BUSY, s)
     else if fst b = SYS_OK then (fst b, lens_reset_runtime_state (snd b))
     else (fst b, lens_reset_runtime_state (snd (bring_up wc mode s3))))"
    unfolding select_profile_locked_def Let_def case_prod_unfold mode_def [symmetric] wc_def [symmetric] s1_def [symmetric]
      p_def [symmetric] prod.collapse b_def [symmetric] s2_def [symmetric] s3_def [symmetric] ..
  then show ?thesis
    using s b s3 profile_based [OF inside_based [OF s], of model] by (auto simp: Let_def reset_inside)
qed

end
