(* ===== verification/Lens_Props.thy ===== *)
theory Lens_Props
  imports Lens_Inv
begin

text \<open>
  What the lens controller promises: its state stays well formed, a move in physical steps moves
  the motor by the right number of micro steps, a failed change of the lens model is undone, and
  the IR-cut filter is not switched too often.
\<close>

subsection \<open>Every operation keeps the controller well formed\<close>

datatype lens_op =
    Lens_Init | Lens_Deinit | Lens_Configure lens_config_mode | Lens_Callback "nat option" | Lens_Select lens_model
  | Zoom_Relative u16 int | Focus_Relative u16 int | Dual_Relative u16 int u16 int
  | Zoom_Raw u16 int | Focus_Raw u16 int | Dual_Raw u16 int u16 int
  | Zoom_Absolute u16 int | Focus_Absolute u16 int | Zoom_Home | Focus_Home
  | Zoom_Limit int int | Focus_Limit int int | Zoom_Stop | Focus_Stop
  | L_Iris_Run | L_Iris_Stop | L_Iris_Target u16 | L_Iris_Adc bool
  | Ircut_Level byte | Ircut_Day | Ircut_Night
  | Driver drv_op

text \<open>What happens to the driver behind the controller's back.\<close>

fun of_driver :: "drv_op \<Rightarrow> bool" where
  "of_driver Task = True"
| "of_driver (Chip_Done m) = True"
| "of_driver (Pi m b) = True"
| "of_driver (Tick d) = True"
| "of_driver Iris_Tick = True"
| "of_driver (Locks bs) = True"
| "of_driver (Allocs bs) = True"
| "of_driver (Timers bs) = True"
| "of_driver (Cuts ks) = True"
| "of_driver _ = False"

fun lens_exec :: "lens_op \<Rightarrow> lens \<Rightarrow> lens" where
  "lens_exec Lens_Init s = snd (lens_controller_init s)"
| "lens_exec Lens_Deinit s = lens_controller_deinit s"
| "lens_exec (Lens_Configure m) s = snd (lens_controller_configure m s)"
| "lens_exec (Lens_Callback cb) s = lens_controller_set_event_callback cb s"
| "lens_exec (Lens_Select m) s = snd (lens_controller_select_profile m s)"
| "lens_exec (Zoom_Relative p n) s = snd (lens_zoom_move_relative p n s)"
| "lens_exec (Focus_Relative p n) s = snd (lens_focus_move_relative p n s)"
| "lens_exec (Dual_Relative zp zn fp fn) s = snd (lens_dual_move_relative zp zn fp fn s)"
| "lens_exec (Zoom_Raw p n) s = snd (lens_zoom_run_raw p n s)"
| "lens_exec (Focus_Raw p n) s = snd (lens_focus_run_raw p n s)"
| "lens_exec (Dual_Raw zp zn fp fn) s = snd (lens_dual_run_raw zp zn fp fn s)"
| "lens_exec (Zoom_Absolute p n) s = snd (lens_zoom_move_absolute p n s)"
| "lens_exec (Focus_Absolute p n) s = snd (lens_focus_move_absolute p n s)"
| "lens_exec Zoom_Home s = snd (lens_zoom_home s)"
| "lens_exec Focus_Home s = snd (lens_focus_home s)"
| "lens_exec (Zoom_Limit a b) s = snd (lens_zoom_set_position_limit a b s)"
| "lens_exec (Focus_Limit a b) s = snd (lens_focus_set_position_limit a b s)"
| "lens_exec Zoom_Stop s = snd (lens_zoom_stop s)"
| "lens_exec Focus_Stop s = snd (lens_focus_stop s)"
| "lens_exec L_Iris_Run s = snd (lens_iris_run s)"
| "lens_exec L_Iris_Stop s = snd (lens_iris_stop s)"
| "lens_exec (L_Iris_Target v) s = snd (lens_iris_update_target v s)"
| "lens_exec (L_Iris_Adc p) s = snd (lens_iris_read_adc p s)"
| "lens_exec (Ircut_Level l) s = snd (lens_ircut_set_raw_level l s)"
| "lens_exec Ircut_Day s = snd (lens_ircut_set_day s)"
| "lens_exec Ircut_Night s = snd (lens_ircut_set_night s)"
| "lens_exec (Driver op) s = (if of_driver op then s\<lparr>drv := drv_exec op (drv s)\<rparr> else s)"

lemma init_wf: "lens_wf s \<Longrightarrow> lens_wf (snd (lens_controller_init s))"
proof -
  have "inside (snd (if s_controller_initialized u then (SYS_ERR_INVALID_STATE, u)
      else let s = lens_reset_runtime_state u; (ret, s) = call ms41908m_init s in
        if ret = SYS_OK then (ret, s\<lparr>s_controller_initialized := True, s_controller_configured := False,
          drv := ms41908m_set_event_callback (s_event_callback s) (drv s)\<rparr>) else (ret, s)))"
    if u: "inside u" for u
  proof -
    have n: "inside (lens_reset_runtime_state u)" using u by (intro reset_inside inside_based)
    have i: "is_initialized (drv u) = s_controller_initialized u"
      "s_controller_configured u \<Longrightarrow> s_controller_initialized u"
      using u by (auto simp: inside_def lens_core_def lens_base_def)
    have "drv (lens_reset_runtime_state u) = drv u" by (simp add: lens_reset_runtime_state_def)
    then show ?thesis using n i init_init(1) [of "drv u"] u
      by (auto simp: Let_def call_def case_prod_unfold inside_def lens_core_def lens_base_def)
  qed
  then show "lens_wf s \<Longrightarrow> lens_wf (snd (lens_controller_init s))"
    unfolding lens_controller_init_def by (rule locked_wf [rotated])
qed

lemma deinit_wf: "lens_wf s \<Longrightarrow> lens_wf (lens_controller_deinit s)"
proof (cases s rule: lock_cases)
  case (2 r)
  let ?r = "(if s_controller_initialized r then r\<lparr>drv := ms41908m_deinit (drv r)\<rparr> else r)
    \<lparr>s_controller_initialized := False, s_controller_configured := False\<rparr>"
  assume "lens_wf s"
  then have "based ?r" using 2 by (auto simp: lens_wf_def inside_def lens_core_def based_def lens_base_def init_init)
  from unlock_wf [OF reset_inside [OF this]] show ?thesis
    using 2 by (simp add: lens_controller_deinit_def Let_def)
qed (simp add: lens_controller_deinit_def)

lemma configure_wf: "lens_wf s \<Longrightarrow> lens_wf (snd (lens_controller_configure mode s))"
proof -
  have "inside (snd (if \<not> s_controller_initialized u then (SYS_ERR_INVALID_STATE, u)
      else let (ret, s) = lens_controller_configure_locked mode u in
        (ret, if ret = SYS_OK then s\<lparr>s_controller_configured := True, s_last_config_mode := mode\<rparr> else s)))"
    if u: "inside u" for u
  proof -
    obtain d where d: "snd (lens_controller_configure_locked mode u) = u\<lparr>drv := d\<rparr>" "is_initialized d = is_initialized (drv u)"
      by (rule configure_drv)
    have "fst (lens_controller_configure_locked mode u) = SYS_OK \<Longrightarrow> mode \<noteq> LENS_CONFIG_BAD"
      by (auto simp: lens_controller_configure_locked_def)
    then have "s_controller_initialized u \<Longrightarrow> fst (lens_controller_configure_locked mode u) = SYS_OK \<Longrightarrow>
        inside (u\<lparr>drv := d, s_controller_configured := True, s_last_config_mode := mode\<rparr>)"
      using drv_inside [OF u d(2)] by (simp add: inside_def lens_core_def lens_base_def)
    then show ?thesis using drv_inside [OF u d(2)] u by (simp add: case_prod_unfold d Let_def)
  qed
  then show "lens_wf s \<Longrightarrow> lens_wf (snd (lens_controller_configure mode s))"
    unfolding lens_controller_configure_def by (rule locked_wf [rotated])
qed

lemma callback_wf: "lens_wf s \<Longrightarrow> lens_wf (lens_controller_set_event_callback cb s)"
proof (cases s rule: lock_cases)
  case (2 r)
  assume "lens_wf s"
  then have "inside (r\<lparr>s_event_callback := cb, drv := d\<rparr>)" "inside (r\<lparr>s_event_callback := cb\<rparr>)"
    if "is_initialized d = is_initialized (drv r)" for d
    using 2 that by (auto simp: lens_wf_def inside_def lens_core_def lens_base_def)
  from this [of "ms41908m_set_event_callback cb (drv r)"] show ?thesis
    using 2 by (auto simp: lens_controller_set_event_callback_def Let_def intro: unlock_wf)
qed (simp add: lens_controller_set_event_callback_def)

lemma ircut_inside: "inside s \<Longrightarrow> inside (snd (lens_ircut_set_raw_level_locked l s))"
proof -
  assume s: "inside s"
  then have p: "s_active_profile s = g_lens_profile_af0832 \<or> s_active_profile s = g_lens_profile_fg2009"
    by (simp add: inside_def lens_core_def lens_base_def)
  have "inside (s\<lparr>ir_cut_pin := (lv \<noteq> 0), s_ircut_level := lv, s_ircut_level_valid := True,
      s_ircut_action_seen := True, s_ircut_last_tick := n,
      s_ircut_mode := (if lv = ircut_day_level (s_active_profile s) then LENS_IRCUT_DAY
        else if lv = ircut_night_level (s_active_profile s) then LENS_IRCUT_NIGHT else LENS_IRCUT_UNKNOWN)\<rparr>)"
    if "lv = 0 \<or> lv = 1" for lv n
    using s p that
    by (auto simp: inside_def lens_core_def lens_base_def ircut_ok_def bsp_ctrl_get_ir_cut_def
        g_lens_profile_af0832_def g_lens_profile_fg2009_def)
  from this [of "if l \<noteq> 0 then 1 else 0"] show ?thesis
    using s by (simp add: lens_ircut_set_raw_level_locked_def Let_def bsp_ctrl_set_ir_cut_def lens_profile_get_active_def)
qed

lemma relative_wf:
  assumes "lens_wf s" "\<And>p n u. inside u \<Longrightarrow> inside (snd (call (run p n) u))"
  shows "lens_wf (snd (move_relative axis run pps n s))"
  unfolding move_relative_def
  by (rule locked_wf [OF assms(1)]) (auto simp: assms(2) split: sum.split)

lemma dual_wf: "lens_wf s \<Longrightarrow> lens_wf (snd (lens_dual_move_relative zp zn fp fn s))"
  unfolding lens_dual_move_relative_def
  by (erule locked_wf) (auto simp: if_supported_def d_sync.call_inside split: sum.split)

lemma adc_frame: "fr (snd (ms41908m_iris_read_adc d)) = fr d"
  by (auto simp: ms41908m_iris_read_adc_def Let_def ms41908m_port_read_def spi_next_def dest!: init_lock' split: prod.splits)

lemma adc_wf: "lens_wf s \<Longrightarrow> lens_wf (snd (lens_iris_read_adc p s))"
proof (cases s rule: lock_cases)
  case (2 r)
  assume "lens_wf s"
  then have r: "inside r" using 2 by (simp add: lens_wf_def)
  have "inside (r\<lparr>drv := snd (ms41908m_iris_read_adc (drv r))\<rparr>)" by (intro drv_inside [OF r] frD(1) adc_frame)
  then show ?thesis using 2 r \<open>lens_wf s\<close>
    by (auto simp: lens_iris_read_adc_def Let_def case_prod_unfold intro: unlock_wf)
qed (simp add: lens_iris_read_adc_def)

lemma driver_wf:
  assumes "lens_wf s" "of_driver op"
  shows "lens_wf (s\<lparr>drv := drv_exec op (drv s)\<rparr>)"
proof -
  have "is_initialized (drv_exec op (drv s)) = is_initialized (drv s)" using assms(2)
    by (cases op) (simp_all add: frD(1) [OF init_handler] frD(1) [OF init_chip(1)] frD(1) [OF init_chip(2)] frD(1) [OF init_chip(3)])
  then show ?thesis using assms(1) by (auto simp: lens_wf_def lens_core_def lens_base_def)
qed

lemmas lens_call_defs =
  lens_zoom_run_raw_def lens_focus_run_raw_def lens_dual_run_raw_def lens_zoom_move_absolute_def lens_focus_move_absolute_def
  lens_zoom_home_def lens_focus_home_def lens_zoom_set_position_limit_def lens_focus_set_position_limit_def
  lens_zoom_stop_def lens_focus_stop_def lens_iris_run_def lens_iris_stop_def lens_iris_update_target_def

lemmas lens_call_wf =
  d_zoom_run.supported_call_wf d_focus_run.supported_call_wf d_sync.supported_call_wf d_zoom_to.supported_call_wf
  d_focus_to.supported_call_wf d_zoom_home.supported_call_wf d_focus_home.supported_call_wf d_zoom_limit.supported_call_wf
  d_focus_limit.supported_call_wf d_zoom_stop.locked_call_wf d_focus_stop.locked_call_wf d_iris_run.supported_call_wf
  d_iris_stop.supported_call_wf d_iris_target.supported_call_wf

lemma lens_exec_wf: "lens_wf s \<Longrightarrow> lens_wf (lens_exec op s)"
proof (cases op)
  case (Lens_Select m)
  moreover assume "lens_wf s"
  ultimately show ?thesis by (simp add: lens_controller_select_profile_def locked_wf select_inside)
qed (simp_all add: init_wf deinit_wf configure_wf callback_wf relative_wf dual_wf adc_wf driver_wf lens_call_defs lens_call_wf
    lens_zoom_move_relative_def lens_focus_move_relative_def d_zoom_run.call_inside d_focus_run.call_inside
    lens_ircut_set_raw_level_def lens_ircut_set_day_def lens_ircut_set_night_def locked_wf ircut_inside)

text \<open>The controller's variables as the C start-up leaves them.\<close>

definition lens_at_boot :: "ms \<Rightarrow> bool \<Rightarrow> u32 \<Rightarrow> lens" where
  "lens_at_boot d pin freq = \<lparr>s_active_profile = g_lens_profile_af0832, s_ircut_mode = LENS_IRCUT_UNKNOWN, s_ircut_level = 0,
     s_ircut_level_valid = False, s_ircut_action_seen = False, s_ircut_last_tick = 0, s_controller_mutex = False,
     s_controller_initialized = False, s_controller_configured = False, s_last_config_mode = LENS_CONFIG_ALL,
     s_event_callback = None, drv = d, ir_cut_pin = pin, mutex_held = False, tick_freq = freq, ctrl_alloc = [], ctrl_lock = []\<rparr>"

lemma boot_wf: "\<not> is_initialized d \<Longrightarrow> lens_wf (lens_at_boot d pin freq)"
  by (simp add: lens_at_boot_def lens_wf_def lens_core_def lens_base_def ircut_ok_def)

lemma lens_run_wf: "lens_wf s \<Longrightarrow> lens_wf (fold lens_exec ops s)"
  by (induction ops arbitrary: s) (simp_all add: lens_exec_wf)

text \<open>C36: whatever is called in whatever order, and whatever the driver does meanwhile, the
  controller's state is well typed: the mutex is free again after every operation, the controller
  thinks it is initialised exactly when the driver is, it is configured only when initialised, its
  profile is one of the two it knows, and the level and mode it remembers of the IR-cut filter are
  those of the pin.\<close>

theorem lens_state_well_typed:
  fixes ops :: "lens_op list" and pin :: bool and freq :: u32
  assumes "\<not> is_initialized d"
  defines "s \<equiv> fold lens_exec ops (lens_at_boot d pin freq)"
  shows "\<not> mutex_held s \<and> s_controller_initialized s = is_initialized (drv s)
    \<and> (s_controller_configured s \<longrightarrow> s_controller_initialized s)
    \<and> (\<exists>m. lens_profile_get m = Some (s_active_profile s) \<and> lens_profile_get_active_model s = m)
    \<and> (s_ircut_level_valid s \<longrightarrow> s_ircut_level s = lens_ircut_get_raw_level s
       \<and> lens_ircut_get_mode s = (if s_ircut_level s = ircut_day_level (s_active_profile s) then LENS_IRCUT_DAY else LENS_IRCUT_NIGHT))"
proof -
  have w: "lens_wf s" unfolding s_def using assms(1) by (intro lens_run_wf boot_wf)
  then have "s_active_profile s = g_lens_profile_af0832 \<or> s_active_profile s = g_lens_profile_fg2009"
    by (simp add: lens_wf_def lens_core_def lens_base_def)
  then have "\<exists>m. lens_profile_get m = Some (s_active_profile s) \<and> lens_profile_get_active_model s = m"
    by (auto simp: lens_profile_get_active_model_def g_lens_profile_af0832_def g_lens_profile_fg2009_def)
  then show ?thesis using w
    by (auto simp: lens_wf_def lens_core_def lens_base_def ircut_ok_def lens_ircut_get_raw_level_def lens_ircut_get_mode_def)
qed

theorem lens_state_well_typed_witness:
  "\<not> mutex_held (fold lens_exec [Lens_Select LENS_MODEL_FG2009, Ircut_Day] (lens_at_boot power_up True 1000))"
proof -
  have "\<not> is_initialized power_up" by (simp add: power_up_def)
  from lens_state_well_typed [OF this] show ?thesis by blast
qed

subsection \<open>Moves in physical steps\<close>

lemma lock_free_lens:
  assumes "ctrl_alloc s = []" "ctrl_lock s = []"
  shows "lens_controller_lock s = (SYS_OK, s\<lparr>s_controller_mutex := True, mutex_held := True\<rparr>)"
proof -
  have "s\<lparr>ctrl_alloc := [], ctrl_lock := []\<rparr> = s" using assms by (cases s) simp
  then show ?thesis using assms
    by (cases s) (auto simp: lens_controller_lock_def lens_controller_bootstrap_def)
qed

fun motor_axis :: "motor \<Rightarrow> lens_axis" where
  "motor_axis ZOOM = LENS_AXIS_ZOOM"
| "motor_axis FOCUS = LENS_AXIS_FOCUS"

fun axis_of :: "motor \<Rightarrow> lens_profile \<Rightarrow> lens_axis_profile" where
  "axis_of ZOOM p = lp_zoom p"
| "axis_of FOCUS p = lp_focus p"

text \<open>Both profiles keep inside the driver's speed limits, so a conversion fails only for a
  speed outside the profile or a distance outside the driver's range.\<close>

lemma profile_axis:
  assumes "lens_profile_get mdl = Some p"
  obtains "psum_units_per_step (axis_of m p) = 4" "min_pps (axis_of m p) = 24" "max_pps (axis_of m p) = 1000"
      "direction_sign (axis_of m p) = 1"
  | "psum_units_per_step (axis_of m p) = 8" "min_pps (axis_of m p) = 500" "max_pps (axis_of m p) = 900"
      "direction_sign (axis_of m p) = 1 \<or> direction_sign (axis_of m p) = - 1"
  using assms by (cases mdl; cases m) (auto simp: g_lens_profile_af0832_def g_lens_profile_fg2009_def)

lemma convert_exact:
  fixes m :: motor
  assumes p: "lens_profile_get mdl = Some (s_active_profile s)" and n: "n \<noteq> 0"
  defines "a \<equiv> axis_of m (s_active_profile s)"
  shows "lens_convert_relative (motor_axis m) pps n True s =
    (if pps < min_pps a \<or> max_pps a < pps \<or> 65535 < \<bar>n * uint (psum_units_per_step a)\<bar> then Inl SYS_ERR_OUT_OF_RANGE
     else Inr (pps * ucast (psum_units_per_step a), n * uint (psum_units_per_step a) * direction_sign a))"
    "\<not> (pps < min_pps a \<or> max_pps a < pps) \<Longrightarrow> \<not> raw_pps_bad (pps * ucast (psum_units_per_step a))"
proof -
  let ?k = "unat (psum_units_per_step a)"
  have ax: "lens_axis_profile_of (motor_axis m) s = Some a" by (cases m) (simp_all add: a_def lens_profile_get_active_def)
  have sup: "supports_relative (capabilities (lens_profile_get_active s))"
  proof -
    have "s_active_profile s = g_lens_profile_af0832 \<or> s_active_profile s = g_lens_profile_fg2009" using p by (cases mdl) auto
    then show ?thesis
      by (elim disjE) (simp_all add: lens_profile_get_active_def g_lens_profile_af0832_def g_lens_profile_fg2009_def)
  qed
  have r: "24 \<le> unat pps * ?k \<and> unat pps * ?k \<le> 8000" if "\<not> (pps < min_pps a \<or> max_pps a < pps)"
    using that unfolding a_def by (rule_tac profile_axis [OF p, of m]) (auto simp: word_less_nat_alt)
  have d: "direction_sign a = 1 \<or> direction_sign a = - 1"
    unfolding a_def by (rule profile_axis [OF p, of m]) auto
  have e: "pps * ucast (psum_units_per_step a) = of_nat (unat pps * ?k)" by simp
  show "lens_convert_relative (motor_axis m) pps n True s =
    (if pps < min_pps a \<or> max_pps a < pps \<or> 65535 < \<bar>n * uint (psum_units_per_step a)\<bar> then Inl SYS_ERR_OUT_OF_RANGE
     else Inr (pps * ucast (psum_units_per_step a), n * uint (psum_units_per_step a) * direction_sign a))"
    unfolding lens_convert_relative_def ax option.case e RAW_PPS_MIN_def RAW_PPS_MAX_def RAW_PSUM_MAX_def Let_def
    using sup n r d by auto
  show "\<not> (pps < min_pps a \<or> max_pps a < pps) \<Longrightarrow> \<not> raw_pps_bad (pps * ucast (psum_units_per_step a))"
  proof -
    assume h: "\<not> (pps < min_pps a \<or> max_pps a < pps)"
    have "unat (pps * ucast (psum_units_per_step a)) = unat pps * ?k"
      using r [OF h] unfolding e by (simp add: unat_of_nat take_bit_nat_eq_self del: of_nat_mult)
    then show ?thesis using r [OF h] by (simp add: raw_pps_bad_def RAW_PPS_MIN_def RAW_PPS_MAX_def)
  qed
qed

fun lens_move_relative :: "motor \<Rightarrow> u16 \<Rightarrow> int \<Rightarrow> lens \<Rightarrow> sys_result \<times> lens" where
  "lens_move_relative ZOOM = lens_zoom_move_relative"
| "lens_move_relative FOCUS = lens_focus_move_relative"

lemma move_relative_drv:
  assumes "ctrl_alloc s = []" "ctrl_lock s = []" "n \<noteq> 0"
    "lens_convert_relative (motor_axis m) pps n True s = Inr (rp, rn)"
  shows "fst (lens_move_relative m pps n s) = fst (axis_run m rp rn (drv s))"
    "drv (snd (lens_move_relative m pps n s)) = snd (axis_run m rp rn (drv s))"
proof -
  have "lens_convert_relative (motor_axis m) pps n True (s\<lparr>s_controller_mutex := True, mutex_held := True\<rparr>) = Inr (rp, rn)"
    using assms(4) by (cases m) (simp_all add: lens_convert_relative_def lens_profile_get_active_def)
  then have "lens_move_relative m pps n s = (fst (axis_run m rp rn (drv s)),
      lens_controller_unlock (s\<lparr>s_controller_mutex := True, mutex_held := True, drv := snd (axis_run m rp rn (drv s))\<rparr>))"
    using assms(3) lock_free_lens [OF assms(1,2)]
    by (cases m) (simp_all add: lens_zoom_move_relative_def lens_focus_move_relative_def move_relative_def locked_def
        call_def case_prod_unfold Let_def ms41908m_zoom_run_def ms41908m_focus_run_def)
  then show "fst (lens_move_relative m pps n s) = fst (axis_run m rp rn (drv s))"
    "drv (snd (lens_move_relative m pps n s)) = snd (axis_run m rp rn (drv s))"
    by (simp_all add: lens_controller_unlock_def)
qed

text \<open>C37: asked to move a lens by a number of physical steps, at a speed the lens allows and
  over a distance the driver can count, the controller starts the motor, and once the driver has
  run the move the motor has gone by exactly the steps times the micro steps of the lens, in the
  direction of the lens; the position has changed by as much and the motor stands still.\<close>

theorem lens_move_exact:
  assumes "lens_profile_get mdl = Some (s_active_profile s)" "ctrl_alloc s = []" "ctrl_lock s = []"
    and "at_rest m (drv s)" "n \<noteq> 0"
  defines "a \<equiv> axis_of m (s_active_profile s)"
  defines "raw \<equiv> n * uint (psum_units_per_step a) * direction_sign a"
  assumes "min_pps a \<le> pps" "pps \<le> max_pps a" "\<bar>n * uint (psum_units_per_step a)\<bar> \<le> 65535"
    and "in_limits m raw (drv s)"
    and "length ds = batches \<bar>raw\<bar> (uint (start_psum (pps * ucast (psum_units_per_step a)) raw))" "list_all (\<lambda>d. d < 5000) ds"
  defines "d \<equiv> fold (drv_turn m) ds (drv (snd (lens_move_relative m pps n s)))"
  shows "fst (lens_move_relative m pps n s) = SYS_OK
    \<and> lens_at d m = lens_at (drv s) m + n * uint (psum_units_per_step a) * direction_sign a
    \<and> ax_position (axes d m) = s32 (ax_position (axes (drv s) m) + raw) \<and> ax_state (axes d m) = STATE_STOPPED"
proof -
  have x: "s_active_profile s = g_lens_profile_af0832 \<or> s_active_profile s = g_lens_profile_fg2009"
    using assms(1) by (cases mdl) auto
  have u: "\<bar>raw\<bar> = \<bar>n * uint (psum_units_per_step a)\<bar>" "0 < uint (psum_units_per_step a)"
    using x unfolding raw_def a_def
    by (cases m; auto simp: g_lens_profile_af0832_def g_lens_profile_fg2009_def abs_mult)+
  have "n * uint (psum_units_per_step a) \<noteq> 0" using assms(5) u(2) by simp
  then have "1 \<le> \<bar>raw\<bar>" using u(1) by linarith
  then have raw: "\<not> raw_psum_bad raw" using u assms(5,10) by (simp add: raw_psum_bad_def RAW_PSUM_MIN_def RAW_PSUM_MAX_def)
  note c = convert_exact [OF assms(1,5), where m = m and pps = pps, folded a_def]
  have in_range: "\<not> (pps < min_pps a \<or> max_pps a < pps)" using assms(8,9) by auto
  have "lens_convert_relative (motor_axis m) pps n True s = Inr (pps * ucast (psum_units_per_step a), raw)"
    using c(1) assms(10) in_range by (simp add: raw_def)
  note mv = move_relative_drv [OF assms(2,3,5) this]
  have "\<not> raw_pps_bad (pps * ucast (psum_units_per_step a))" using c(2) in_range by simp
  note r = run_moves [OF assms(4) this raw assms(11)]
  show ?thesis
    using turns_arrive [OF r(2), of ds] assms(12,13) r unfolding d_def mv
    by (simp add: arrived_def raw_def)
qed

definition moved_lens :: lens where
  "moved_lens = (lens_at_boot ready_ms False 1000)\<lparr>s_controller_initialized := True, s_controller_configured := True\<rparr>"

theorem lens_move_exact_witness:
  "let d = fold (drv_turn ZOOM) [7] (drv (snd (lens_move_relative ZOOM 800 25 moved_lens)))
   in lens_at d ZOOM = lens_at ready_ms ZOOM + 100 \<and> ax_state (axes d ZOOM) = STATE_STOPPED"
proof -
  have p: "lens_profile_get LENS_MODEL_AF0832 = Some (s_active_profile moved_lens)" "drv moved_lens = ready_ms"
    "ctrl_alloc moved_lens = []" "ctrl_lock moved_lens = []"
    by (simp_all add: moved_lens_def lens_at_boot_def)
  have a: "axis_of ZOOM (s_active_profile moved_lens) = lp_zoom g_lens_profile_af0832"
    by (simp add: moved_lens_def lens_at_boot_def)
  have z: "psum_units_per_step (lp_zoom g_lens_profile_af0832) = 4" "min_pps (lp_zoom g_lens_profile_af0832) = 24"
    "max_pps (lp_zoom g_lens_profile_af0832) = 1000" "direction_sign (lp_zoom g_lens_profile_af0832) = 1"
    by (simp_all add: g_lens_profile_af0832_def)
  have l: "length [7 :: u32] = batches \<bar>100\<bar> (uint (start_psum (800 * 4) 100))"
    by (simp add: batches_def start_psum_def start_intct_def calc_intct_from_pps_def calc_psum_from_intct_def Let_def)
  have "lens_at (fold (drv_turn ZOOM) [7] (drv (snd (lens_move_relative ZOOM 800 25 moved_lens)))) ZOOM = lens_at (drv moved_lens) ZOOM + 25 * uint (4 :: byte) * 1
      \<and> ax_state (axes (fold (drv_turn ZOOM) [7] (drv (snd (lens_move_relative ZOOM 800 25 moved_lens)))) ZOOM) = STATE_STOPPED"
    using lens_move_exact [OF p(1,3,4), of ZOOM 25 800 "[7]", unfolded a z p(2)] ready_facts(2,5) l [symmetric]
    by (simp only: p) (simp del: fold_simps fold.simps)
  then show ?thesis unfolding Let_def p by simp
qed

subsection \<open>Changing the lens\<close>

text \<open>A driver whose bus, mutex, memory and timers work.\<close>

definition healthy :: "ms \<Rightarrow> bool" where
  "healthy d = (env_spi d = [] \<and> env_lock d = [] \<and> env_alloc d = [] \<and> env_timer d = [])"

lemma fire_env [simp]: "env_alloc (fire s) = env_alloc s" "env_timer (fire s) = env_timer s"
  by (simp_all add: fire_def vd_pulse_fz_def mark_both vd_motor_def Let_def split: option.split list.split)

lemma stop_healthy: "healthy d \<Longrightarrow> healthy (snd (axis_stop m d))"
  by (auto simp: healthy_def axis_stop_def ms41908m_port_lock_def Let_def stop_impl_eq fire_if_def set_r_zero_def upd_axis_def
      stop_state_def take_env_def)

lemma timer_healthy: "healthy d \<Longrightarrow> healthy (snd (ms41908m_port_stop_timer d))" "healthy d \<Longrightarrow> healthy (snd (ms41908m_port_delete_timer d))"
  by (simp_all add: healthy_def ms41908m_port_stop_timer_def ms41908m_port_delete_timer_def timer_next_def)

lemma deinit_healthy:
  assumes "healthy d" "is_initialized d"
  shows "healthy (ms41908m_deinit d)" "\<not> s_mutex (ms41908m_deinit d)" "s_event_group (ms41908m_deinit d) = None"
proof -
  define d1 where "d1 = snd (ms41908m_iris_stop d)"
  define d3 where "d3 = snd (axis_stop ZOOM (snd (axis_stop FOCUS d1)))"
  have "healthy d1" using assms timer_healthy(1) [of d] by (simp add: d1_def ms41908m_iris_stop_def) (simp add: healthy_def)
  then have 3: "healthy d3" unfolding d3_def by (intro stop_healthy)
  have "healthy (snd (ms41908m_port_delete_timer (snd (ms41908m_port_stop_timer d3))))" using 3 by (intro timer_healthy)
  then show "healthy (ms41908m_deinit d)" "\<not> s_mutex (ms41908m_deinit d)" "s_event_group (ms41908m_deinit d) = None"
    using 3 assms(2)
    by (simp_all add: ms41908m_deinit_def Let_def ms41908m_focus_stop_def ms41908m_zoom_stop_def d1_def [symmetric]
        d3_def [symmetric] ms41908m_port_deinit_def healthy_def)
qed

text \<open>A driver that is up and idle, as after a successful initialisation.\<close>

definition driver_up :: "ms \<Rightarrow> bool" where
  "driver_up d = (healthy d \<and> is_initialized d \<and> s_mutex d \<and> rz_phase (s_rst d) = RZ_IDLE)"

lemma init_healthy:
  assumes "healthy d" "\<not> is_initialized d" "\<not> s_mutex d" "s_event_group d = None"
  shows "fst (ms41908m_init d) = SYS_OK" "driver_up (snd (ms41908m_init d))"
  using assms
  by (simp_all add: ms41908m_init_def Let_def ms41908m_port_init_def alloc_next_def take_env_def ms41908m_port_create_task_def
      ms41908m_port_create_timer_def ms41908m_port_delay_ms_def chip_reset_def healthy_def driver_up_def zero_rst_def)

lemma config_healthy:
  assumes "driver_up d"
  shows "fst (ms41908m_iris_config (Some c) d) = SYS_OK" "driver_up (snd (ms41908m_iris_config (Some c) d))"
    "fst (ms41908m_motor_config (Some mc) d) = SYS_OK" "driver_up (snd (ms41908m_motor_config (Some mc) d))"
    "s_app_event_cb (snd (ms41908m_iris_config (Some c) d)) = s_app_event_cb d"
    "s_app_event_cb (snd (ms41908m_motor_config (Some mc) d)) = s_app_event_cb d"
proof -
  have e: "env_spi d = []" "ms41908m_port_lock d = (SYS_OK, d)"
    using assms lock_free [of d] by (simp_all add: driver_up_def healthy_def)
  obtain r where r: "ms41908m_write_motor_config mc d = (SYS_OK, d\<lparr>regs := r\<rparr>)" using motor_write_regs [OF e(1)] by blast
  show "fst (ms41908m_iris_config (Some c) d) = SYS_OK" "driver_up (snd (ms41908m_iris_config (Some c) d))"
    "s_app_event_cb (snd (ms41908m_iris_config (Some c) d)) = s_app_event_cb d"
    using assms
    by (simp_all add: ms41908m_iris_config_def e ms41908m_write_iris_config_def writes_healthy Let_def driver_up_def healthy_def
        ms41908m_port_output_vd_iris_def del: port_writes.simps)
  show "fst (ms41908m_motor_config (Some mc) d) = SYS_OK" "driver_up (snd (ms41908m_motor_config (Some mc) d))"
    "s_app_event_cb (snd (ms41908m_motor_config (Some mc) d)) = s_app_event_cb d"
    using assms
    by (simp_all add: ms41908m_motor_config_def e r ms41908m_reset_sm_active_def driver_up_def healthy_def configured_def
        set_state_def upd_axis_def)
qed

lemma profile_iris:
  assumes "lens_profile_get mdl = Some p"
  obtains c where "supports_iris (capabilities p) \<and> lp_iris_config p = Some g_default_iris_config
      \<or> \<not> supports_iris (capabilities p) \<and> lp_iris_config p = None" "lp_motor_config p = Some c"
  using assms by (cases mdl) (auto simp: g_lens_profile_af0832_def g_lens_profile_fg2009_def)

lemma configure_healthy:
  assumes "driver_up (drv s)" "lens_profile_get mdl = Some (s_active_profile s)" "mode \<noteq> LENS_CONFIG_BAD"
  shows "fst (lens_controller_configure_locked mode s) =
      (if mode = LENS_CONFIG_IRIS \<and> \<not> supports_iris (capabilities (s_active_profile s)) then SYS_ERR_NOT_SUPPORTED else SYS_OK)"
    "driver_up (drv (snd (lens_controller_configure_locked mode s)))"
    "s_app_event_cb (drv (snd (lens_controller_configure_locked mode s))) = s_app_event_cb (drv s)"
proof -
  let ?p = "s_active_profile s"
  obtain c where p: "supports_iris (capabilities ?p) \<and> lp_iris_config ?p = Some g_default_iris_config
      \<or> \<not> supports_iris (capabilities ?p) \<and> lp_iris_config ?p = None" "lp_motor_config ?p = Some c"
    by (rule profile_iris [OF assms(2)])
  define ci where "ci = ms41908m_iris_config (Some g_default_iris_config) (drv s)"
  define cm where "cm d = ms41908m_motor_config (Some c) d" for d
  let ?sup = "supports_iris (capabilities ?p)"
  define d' where "d' = (if mode = LENS_CONFIG_MOTOR \<or> \<not> ?sup then snd (cm (drv s))
      else if mode = LENS_CONFIG_IRIS then snd ci else snd (cm (snd ci)))"
  have cm: "fst (cm d) = SYS_OK" "driver_up (snd (cm d))" "s_app_event_cb (snd (cm d)) = s_app_event_cb d" if "driver_up d" for d
    using that by (simp_all add: cm_def config_healthy)
  have ci: "fst ci = SYS_OK" "driver_up (snd ci)" "s_app_event_cb (snd ci) = s_app_event_cb (drv s)"
    using assms(1) by (simp_all add: ci_def config_healthy)
  have mot: "configure_motors u = (SYS_OK, u\<lparr>drv := snd (cm (drv u))\<rparr>)" if "driver_up (drv u)" "s_active_profile u = ?p" for u
    using that p(2) cm(1) [OF that(1)]
    by (simp add: configure_motors_def lens_profile_get_active_def call_def case_prod_unfold cm_def)
  have iris: "call (ms41908m_iris_config (Some g_default_iris_config)) s = (SYS_OK, s\<lparr>drv := snd ci\<rparr>)"
    using ci(1) by (simp add: call_def case_prod_unfold ci_def)
  have e: "lens_controller_configure_locked mode s =
      (if mode = LENS_CONFIG_IRIS \<and> \<not> ?sup then (SYS_ERR_NOT_SUPPORTED, s) else (SYS_OK, s\<lparr>drv := d'\<rparr>))"
    using p(1) assms(1,3) ci(2) mot
    by (cases mode; cases ?sup; simp add: lens_controller_configure_locked_def lens_profile_get_active_def iris d'_def)
  have "driver_up d'" "s_app_event_cb d' = s_app_event_cb (drv s)"
    using cm [OF assms(1)] cm [OF ci(2)] ci by (simp_all add: d'_def)
  then show "fst (lens_controller_configure_locked mode s) =
      (if mode = LENS_CONFIG_IRIS \<and> \<not> ?sup then SYS_ERR_NOT_SUPPORTED else SYS_OK)"
    "driver_up (drv (snd (lens_controller_configure_locked mode s)))"
    "s_app_event_cb (drv (snd (lens_controller_configure_locked mode s))) = s_app_event_cb (drv s)"
    using assms(1) by (simp_all add: e)
qed

lemma bring_up_healthy:
  fixes wc :: bool
  assumes d: "healthy (drv s)" "\<not> is_initialized (drv s)" "\<not> s_mutex (drv s)" "s_event_group (drv s) = None"
    and p: "lens_profile_get mdl = Some (s_active_profile s)" and m: "mode \<noteq> LENS_CONFIG_BAD"
    and c: "\<not> s_controller_configured s" "s_last_config_mode s = mode"
  defines "t \<equiv> snd (bring_up wc mode s)"
  defines "bad \<equiv> wc \<and> mode = LENS_CONFIG_IRIS \<and> \<not> supports_iris (capabilities (s_active_profile s))"
  shows "fst (bring_up wc mode s) = (if bad then SYS_ERR_NOT_SUPPORTED else SYS_OK)" "s_active_profile t = s_active_profile s"
    "s_controller_initialized t" "s_controller_configured t = (wc \<and> \<not> bad)" "s_last_config_mode t = mode"
    "driver_up (drv t)" "s_app_event_cb (drv t) = s_event_callback s" "s_event_callback t = s_event_callback s"
proof -
  define d1 where "d1 = snd (ms41908m_init (drv s))"
  have i: "ms41908m_init (drv s) = (SYS_OK, d1)" "driver_up d1"
    using init_healthy [OF d] by (simp_all add: d1_def prod_eq_iff)
  define u where "u = s\<lparr>s_controller_initialized := True, drv := ms41908m_set_event_callback (s_event_callback s) d1\<rparr>"
  define v where "v = lens_controller_configure_locked mode u"
  have e: "bring_up wc mode s = (if \<not> wc then (SYS_OK, u)
      else (fst v, if fst v = SYS_OK then (snd v)\<lparr>s_controller_configured := True, s_last_config_mode := mode\<rparr> else snd v))"
    by (simp add: bring_up_def call_def i Let_def case_prod_unfold u_def v_def)
  have u: "driver_up (drv u)" "lens_profile_get mdl = Some (s_active_profile u)" "s_app_event_cb (drv u) = s_event_callback s"
    using i p by (simp_all add: u_def driver_up_def healthy_def ms41908m_set_event_callback_def)
  note h = configure_healthy [OF u(1,2) m, folded v_def]
  obtain d' where v: "snd v = u\<lparr>drv := d'\<rparr>" unfolding v_def by (rule configure_drv)
  show "fst (bring_up wc mode s) = (if bad then SYS_ERR_NOT_SUPPORTED else SYS_OK)" "s_active_profile t = s_active_profile s"
    "s_controller_initialized t" "s_controller_configured t = (wc \<and> \<not> bad)" "s_last_config_mode t = mode"
    "driver_up (drv t)" "s_app_event_cb (drv t) = s_event_callback s" "s_event_callback t = s_event_callback s"
    unfolding t_def e bad_def using h u c v by (auto simp: u_def)
qed

text \<open>The change of the lens written out, with the roll-back.\<close>

lemma select_locked_eq:
  fixes s :: lens
  assumes "s_controller_initialized s" "\<not> lens_busy s" "lens_profile_get model = Some p" "p \<noteq> s_active_profile s"
    and "s_active_profile s = g_lens_profile_af0832 \<or> s_active_profile s = g_lens_profile_fg2009"
  defines "mode \<equiv> s_last_config_mode s" and "wc \<equiv> s_controller_configured s"
  defines "b \<equiv> bring_up wc mode (s\<lparr>drv := ms41908m_deinit (drv s), s_controller_initialized := False,
    s_controller_configured := False, s_active_profile := p\<rparr>)"
  assumes i: "s_controller_initialized (snd b)"
  shows "select_profile_locked model s = (fst b, lens_reset_runtime_state (if fst b = SYS_OK then snd b
    else snd (bring_up wc mode ((snd b)\<lparr>drv := ms41908m_deinit (drv (snd b)), s_controller_initialized := False,
      s_active_profile := s_active_profile s\<rparr>))))"
proof -
  have old_model: "lens_profile_get (lens_profile_get_active_model s) = Some (s_active_profile s)" "lens_profile_get_active_model s \<noteq> model"
    using assms(3,4,5) by (auto simp: lens_profile_get_active_model_def g_lens_profile_af0832_def g_lens_profile_fg2009_def)
  have sel: "lens_profile_select model u = (SYS_OK, u\<lparr>s_active_profile := p\<rparr>)"
    "lens_profile_select (lens_profile_get_active_model s) u = (SYS_OK, u\<lparr>s_active_profile := s_active_profile s\<rparr>)" for u
    using assms(3) old_model(1) by (simp_all add: lens_profile_select_def)
  show ?thesis
    using old_model(2) assms(1,2) i
    unfolding select_profile_locked_def Let_def case_prod_unfold sel fst_conv snd_conv mode_def [symmetric] wc_def [symmetric]
    by (simp add: b_def)
qed

text \<open>A restart after a driver was shut down, for either lens.\<close>

lemma restart_healthy:
  fixes wc :: bool
  assumes "drv s = ms41908m_deinit d" "healthy d" "is_initialized d" "\<not> s_controller_configured s" "s_last_config_mode s = mode"
    and "mode \<noteq> LENS_CONFIG_BAD" "lens_profile_get mdl = Some (s_active_profile s)"
  defines "t \<equiv> snd (bring_up wc mode s)"
  defines "bad \<equiv> wc \<and> mode = LENS_CONFIG_IRIS \<and> \<not> supports_iris (capabilities (s_active_profile s))"
  shows "fst (bring_up wc mode s) = (if bad then SYS_ERR_NOT_SUPPORTED else SYS_OK)" "s_active_profile t = s_active_profile s"
    "s_controller_initialized t" "s_controller_configured t = (wc \<and> \<not> bad)" "s_last_config_mode t = mode"
    "driver_up (drv t)" "s_app_event_cb (drv t) = s_event_callback s" "s_event_callback t = s_event_callback s"
proof -
  have d: "healthy (drv s)" "\<not> is_initialized (drv s)" "\<not> s_mutex (drv s)" "s_event_group (drv s) = None"
    unfolding assms(1) using deinit_healthy [OF assms(2,3)] init_init(2) by simp_all
  note b = bring_up_healthy [OF d assms(7,6,4,5), of wc]
  show "fst (bring_up wc mode s) = (if bad then SYS_ERR_NOT_SUPPORTED else SYS_OK)" "s_active_profile t = s_active_profile s"
    "s_controller_initialized t" "s_controller_configured t = (wc \<and> \<not> bad)" "s_last_config_mode t = mode"
    "driver_up (drv t)" "s_app_event_cb (drv t) = s_event_callback s" "s_event_callback t = s_event_callback s"
    unfolding t_def bad_def by (rule b)+
qed


text \<open>A controller configured for the iris only, with the lens that has one.\<close>

definition iris_lens :: lens where
  "iris_lens = moved_lens\<lparr>s_last_config_mode := LENS_CONFIG_IRIS\<rparr>"


subsection \<open>How often the IR-cut filter is switched\<close>

text \<open>What the minimum interval depends on.\<close>

definition filter_view :: "lens \<Rightarrow> bool \<times> u32 \<times> lens_profile \<times> u32 \<times> bool \<times> u32" where
  "filter_view s = (s_ircut_action_seen s, s_ircut_last_tick s, s_active_profile s, tick_freq s, ir_cut_pin s, ms_tick (drv s))"

lemma view_simps [simp]:
  "filter_view (s\<lparr>s_controller_configured := a\<rparr>) = filter_view s" "filter_view (s\<lparr>s_last_config_mode := b\<rparr>) = filter_view s"
  "filter_view (s\<lparr>s_event_callback := c\<rparr>) = filter_view s" "filter_view (lens_controller_unlock s) = filter_view s"
  by (simp_all add: filter_view_def lens_controller_unlock_def)

lemma drv_view: "fr d = fr (drv s) \<Longrightarrow> filter_view (s\<lparr>drv := d\<rparr>) = filter_view s"
  using frD(2) [of d "drv s"] by (simp add: filter_view_def)

lemma lock_view: "filter_view (snd (lens_controller_lock s)) = filter_view s"
  by (simp add: filter_view_def lens_controller_lock_def lens_controller_bootstrap_def Let_def case_prod_unfold
      split: list.split bool.split)

text \<open>An operation under the mutex either fails to take it or works on a state that looks the same.\<close>

lemma locked_view:
  obtains "filter_view (snd (locked f s)) = filter_view s"
  | u where "filter_view u = filter_view s" "filter_view (snd (locked f s)) = filter_view (snd (f u))"
  using lock_view [of s] that by (cases "fst (lens_controller_lock s) = SYS_OK") (simp_all add: locked_def case_prod_unfold Let_def)

lemma locked_keeps: "(\<And>u. filter_view (snd (f u)) = filter_view u) \<Longrightarrow> filter_view (snd (locked f s)) = filter_view s"
  by (rule locked_view [of f s]) simp_all

context driver_call
begin

lemma call_view: "filter_view (snd (call f s)) = filter_view s"
  by (simp add: call_drv drv_view keeps_frame)

lemma supported_call_view: "filter_view (snd (locked (if_supported cap (call f)) s)) = filter_view s"
  by (rule locked_keeps) (simp add: if_supported_def call_view)

end

text \<open>The operations that forget the filter are the life cycle of the controller and the change
  of the lens.\<close>

fun keeps_filter :: "lens_op \<Rightarrow> bool" where
  "keeps_filter Lens_Init = False"
| "keeps_filter Lens_Deinit = False"
| "keeps_filter (Lens_Select m) = False"
| "keeps_filter _ = True"

fun op_ticks :: "lens_op \<Rightarrow> nat" where
  "op_ticks (Driver (Tick d)) = unat d"
| "op_ticks _ = 0"

fun switches_filter :: "lens_op \<Rightarrow> bool" where
  "switches_filter (Ircut_Level l) = True"
| "switches_filter Ircut_Day = True"
| "switches_filter Ircut_Night = True"
| "switches_filter _ = False"

definition later :: "nat \<Rightarrow> lens \<Rightarrow> lens" where
  "later n s = s\<lparr>drv := (drv s)\<lparr>ms_tick := ms_tick (drv s) + of_nat n\<rparr>\<rparr>"

lemma later_0 [simp]: "later 0 s = s"
  by (simp add: later_def)

lemma configure_view: "filter_view (snd (lens_controller_configure mode s)) = filter_view s"
  unfolding lens_controller_configure_def
proof (rule locked_keeps)
  fix u :: lens
  define c where "c = lens_controller_configure_locked mode u"
  obtain d where "snd c = u\<lparr>drv := d\<rparr>" "fr d = fr (drv u)"
    unfolding c_def by (rule configure_drv)
  then have c: "filter_view (snd c) = filter_view u" by (simp only: drv_view)
  show "filter_view (snd (if \<not> s_controller_initialized u then (SYS_ERR_INVALID_STATE, u)
      else let (ret, s) = lens_controller_configure_locked mode u in
        (ret, if ret = SYS_OK then s\<lparr>s_controller_configured := True, s_last_config_mode := mode\<rparr> else s))) = filter_view u"
    unfolding c_def [symmetric] by (simp add: case_prod_unfold Let_def c)
qed

lemma callback_view: "filter_view (lens_controller_set_event_callback cb s) = filter_view s"
  using lock_view [of s]
  by (simp add: lens_controller_set_event_callback_def Let_def case_prod_unfold drv_view)

lemma adc_view: "filter_view (snd (lens_iris_read_adc p s)) = filter_view s"
  using lock_view [of s] adc_frame
  by (simp add: lens_iris_read_adc_def Let_def case_prod_unfold drv_view)

lemma move_view:
  assumes "\<And>p n u. filter_view (snd (call (run p n) u)) = filter_view u"
  shows "filter_view (snd (move_relative axis run pps n s)) = filter_view s"
  unfolding move_relative_def by (rule locked_keeps) (simp add: assms split: sum.split prod.split)

lemma dual_view: "filter_view (snd (lens_dual_move_relative zp zn fp fn s)) = filter_view s"
  unfolding lens_dual_move_relative_def
  by (rule locked_keeps) (simp add: if_supported_def d_sync.call_view split: sum.split prod.split)

lemma driver_view: "filter_view (lens_exec (Driver op) s) = filter_view (later (op_ticks (Driver op)) s)"
  by (cases op) (simp_all add: drv_view, simp_all add: filter_view_def later_def)

lemmas call_views =
  d_zoom_run.supported_call_view d_focus_run.supported_call_view d_sync.supported_call_view d_zoom_to.supported_call_view
  d_focus_to.supported_call_view d_zoom_home.supported_call_view d_focus_home.supported_call_view
  d_zoom_limit.supported_call_view d_focus_limit.supported_call_view d_iris_run.supported_call_view
  d_iris_stop.supported_call_view d_iris_target.supported_call_view
  locked_keeps [OF d_zoom_stop.call_view] locked_keeps [OF d_focus_stop.call_view]

lemma exec_view:
  assumes "keeps_filter op" "\<not> switches_filter op"
  shows "filter_view (lens_exec op s) = filter_view (later (op_ticks op) s)"
proof (cases op)
  case (Driver d)
  then show ?thesis by (simp only: driver_view)
qed (use assms in \<open>simp_all add: configure_view callback_view adc_view move_view dual_view lens_call_defs call_views
    lens_zoom_move_relative_def lens_focus_move_relative_def d_zoom_run.call_view d_focus_run.call_view\<close>)

lemma switch_ops:
  assumes "switches_filter op"
  obtains l where "\<And>s. lens_exec op s = snd (locked (\<lambda>u. lens_ircut_set_raw_level_locked (l u) u) s)"
  using assms
  by (cases op) (auto simp: lens_ircut_set_raw_level_def lens_ircut_set_day_def lens_ircut_set_night_def)

text \<open>Inside the interval the filter stays, and a switch starts a new interval.\<close>

definition in_interval :: "nat \<Rightarrow> lens \<Rightarrow> bool" where
  "in_interval k s = (s_ircut_action_seen s \<and> unat (ms_tick (drv s) - s_ircut_last_tick s) + k < 2 ^ 32
     \<and> (unat (ms_tick (drv s) - s_ircut_last_tick s) + k) * 1000 < unat (ircut_min_interval_ms (s_active_profile s)) * unat (tick_freq s))"

lemma interval_view: "filter_view s = filter_view t \<Longrightarrow> in_interval k s = in_interval k t"
  by (simp add: filter_view_def in_interval_def)

lemma interval_later:
  assumes "in_interval (n + k) s"
  shows "in_interval k (later n s)"
proof -
  let ?e = "ms_tick (drv s) - s_ircut_last_tick s"
  have n: "unat ?e + n < 2 ^ 32" using assms by (simp add: in_interval_def)
  have "?e + of_nat n = of_nat (unat ?e + n)" by simp
  then have "unat (?e + of_nat n) = unat ?e + n" using n by (simp only: unat_of_nat) (simp add: take_bit_nat_eq_self)
  then have "unat (ms_tick (drv s) + of_nat n - s_ircut_last_tick s) = unat ?e + n" by (simp add: algebra_simps)
  then show ?thesis using assms by (simp add: in_interval_def later_def add.assoc)
qed

lemma elapsed_less:
  fixes i :: u16 and now last :: u32
  assumes "unat (now - last) * 1000 < unat i * unat (tick_freq s)"
  shows "lens_elapsed_ms last now s < ucast i" "0 < i"
proof -
  let ?q = "unat (now - last) * 1000 div unat (tick_freq s)"
  have f: "0 < unat (tick_freq s)" using assms by (cases "unat (tick_freq s)") simp_all
  have q: "?q < unat i" using assms f by (simp add: div_less_iff_less_mult)
  have i: "unat i < 2 ^ 16" using unsigned_less [of i, where 'a = nat] by simp
  have e: "lens_elapsed_ms last now s = of_nat ?q" using f by (auto simp: lens_elapsed_ms_def)
  have "?q < 2 ^ 32" using less_trans [OF q i] by simp
  then have "unat (of_nat ?q :: u32) = ?q" by (simp only: unat_of_nat) (simp add: take_bit_nat_eq_self)
  moreover have "unat (ucast i :: u32) = unat i" using i by (simp add: unsigned_ucast_eq take_bit_nat_eq_self)
  ultimately show "lens_elapsed_ms last now s < ucast i" using q unfolding e word_less_nat_alt by simp
  show "0 < i" using q by (simp add: word_less_nat_alt)
qed

lemma interval_holds: "in_interval k s \<Longrightarrow> filter_view (snd (lens_ircut_set_raw_level_locked l s)) = filter_view s"
proof -
  assume k: "in_interval k s"
  then have "unat (ms_tick (drv s) - s_ircut_last_tick s) * 1000 < unat (ircut_min_interval_ms (s_active_profile s)) * unat (tick_freq s)"
    "s_ircut_action_seen s" by (simp_all add: in_interval_def)
  from elapsed_less [OF this(1)] this(2) show ?thesis
    by (simp add: lens_ircut_set_raw_level_locked_def Let_def lens_profile_get_active_def)
qed

lemma interval_step:
  assumes "in_interval (op_ticks op + k) s" "keeps_filter op"
  shows "filter_view (lens_exec op s) = filter_view (later (op_ticks op) s)"
proof (cases "switches_filter op")
  case True
  then obtain l where l: "lens_exec op s = snd (locked (\<lambda>u. lens_ircut_set_raw_level_locked (l u) u) s)" by (rule switch_ops) blast
  have "op_ticks op = 0" using True by (cases op) simp_all
  moreover have "filter_view (snd (lens_ircut_set_raw_level_locked (l u) u)) = filter_view s" if "filter_view u = filter_view s" for u
    using interval_holds [of _ u] interval_view [OF that] assms(1) that by simp
  then have "filter_view (lens_exec op s) = filter_view s"
    unfolding l by (rule_tac locked_view [of "\<lambda>u. lens_ircut_set_raw_level_locked (l u) u" s]) simp_all
  ultimately show ?thesis by simp
qed (use assms exec_view in blast)

lemma interval_run:
  "in_interval (sum_list (map op_ticks ops)) s \<Longrightarrow> list_all keeps_filter ops \<Longrightarrow> ir_cut_pin (fold lens_exec ops s) = ir_cut_pin s"
proof (induction ops arbitrary: s)
  case (Cons op ops)
  have v: "filter_view (lens_exec op s) = filter_view (later (op_ticks op) s)"
    using Cons.prems by (intro interval_step) simp_all
  then have "in_interval (sum_list (map op_ticks ops)) (lens_exec op s)"
    using interval_later Cons.prems(1) by (simp add: interval_view [OF v])
  then show ?case using Cons v by (simp add: filter_view_def later_def)
qed simp

lemma switch_marks:
  assumes "ir_cut_pin (lens_exec op s) \<noteq> ir_cut_pin s" "keeps_filter op"
  shows "s_ircut_action_seen (lens_exec op s) \<and> s_ircut_last_tick (lens_exec op s) = ms_tick (drv (lens_exec op s))"
proof -
  have "switches_filter op" using exec_view [OF assms(2)] assms(1) by (auto simp: filter_view_def later_def)
  then obtain l where l: "lens_exec op s = snd (locked (\<lambda>u. lens_ircut_set_raw_level_locked (l u) u) s)" by (rule switch_ops) blast
  have "ir_cut_pin (snd (lens_ircut_set_raw_level_locked (l u) u)) \<noteq> ir_cut_pin u \<Longrightarrow>
      s_ircut_action_seen (snd (lens_ircut_set_raw_level_locked (l u) u))
      \<and> s_ircut_last_tick (snd (lens_ircut_set_raw_level_locked (l u) u)) = ms_tick (drv (snd (lens_ircut_set_raw_level_locked (l u) u)))" for u
    by (auto simp: lens_ircut_set_raw_level_locked_def Let_def bsp_ctrl_set_ir_cut_def split: if_splits)
  with assms(1) show ?thesis unfolding l
    by (rule_tac locked_view [of "\<lambda>u. lens_ircut_set_raw_level_locked (l u) u" s]) (auto simp: filter_view_def)
qed


definition day_lens :: lens where
  "day_lens = (lens_at_boot power_up True 1000)\<lparr>s_active_profile := g_lens_profile_fg2009\<rparr>"


end
