(* ===== verification/Spec2Isabelle.thy ===== *)
theory Spec2Isabelle
  imports Host_Link_Props Factory_Format Boot_Main Lens_Props
begin

text \<open>
  A verification development for the C and C++ firmware and hardware layers of
  NeoRuntime.
\<close>

end
